(* ===== verification/Prelude.thy ===== *)
theory Prelude
  imports Complex_Main "HOL-Library.Word" "HOL-Library.AList" "HOL-Library.Sublist"
    "HOL-Library.Monad_Syntax"
begin

text \<open>
  Shared vocabulary of the development: the machine integer types, hash maps as association
  lists, the eviction loop that the gateway's bounded caches share, and two interfaces. The
  locale \<open>bounded_cache\<close> is what a capacity-bounded map with an insertion order promises to its
  users; \<open>invariant_system\<close> lifts a one-step invariant to every reachable state.
\<close>

section \<open>Types and collections of facts\<close>

named_theorems hmap_simps \<open>lookup laws of the hash-map operations\<close>
named_theorems wf_intros \<open>introduction rules for well-formedness of a component's state\<close>

type_synonym u8 = "8 word"
type_synonym u32 = "32 word"
type_synonym u64 = "64 word"

section \<open>Saturating machine arithmetic\<close>

definition saturating_add :: "'a::len word \<Rightarrow> 'a word \<Rightarrow> 'a word" where
  "saturating_add x y = (if unat x + unat y < 2 ^ LENGTH('a) then x + y else - 1)"

definition saturating_sub :: "'a::len word \<Rightarrow> 'a word \<Rightarrow> 'a word" where
  "saturating_sub x y = (if y \<le> x then x - y else 0)"

lemma unat_saturating_add:
  fixes x y :: "'a::len word"
  shows "unat (saturating_add x y) = min (unat x + unat y) (2 ^ LENGTH('a) - 1)"
proof (cases "unat x + unat y < 2 ^ LENGTH('a)")
  case True
  then show ?thesis by (simp add: saturating_add_def unat_word_ariths)
next
  case False
  then show ?thesis by (simp add: saturating_add_def unsigned_minus_1_eq_mask mask_eq_exp_minus_1)
qed

lemma unat_le_max: "unat x \<le> 2 ^ LENGTH('a) - 1" for x :: "'a::len word"
  using unsigned_less [of x] by (metis Suc_pred' less_Suc_eq_le zero_less_numeral zero_less_power)

lemma saturating_add_ge: "x \<le> saturating_add x y"
  for x y :: "'a::len word"
  using unat_le_max [of x] by (simp add: word_le_nat_alt unat_saturating_add)

lemma unat_min: "unat (min x y) = min (unat x) (unat y)" for x y :: "'a::len word"
  by (simp add: min_def word_le_nat_alt)

lemma word_div_le: "x div y \<le> x" for x y :: "'a::len word"
  by (simp add: word_le_nat_alt unat_div)

text \<open>
  \<open>Ord::clamp\<close> panics when its bounds are in the wrong order; a shift by at least the width is
  \<open>None\<close> in \<open>checked_shl\<close>.
\<close>

definition clamp :: "'a::linorder \<Rightarrow> 'a \<Rightarrow> 'a \<Rightarrow> 'a option" where
  "clamp lo hi x = (if lo \<le> hi then Some (if x < lo then lo else if x > hi then hi else x) else None)"

lemma clamp_eq [simp]: "lo \<le> hi \<Longrightarrow> clamp lo hi x = Some (max lo (min hi x))"
  by (auto simp: clamp_def max_def min_def)

lemma clamp_id: "lo \<le> x \<Longrightarrow> x \<le> hi \<Longrightarrow> clamp lo hi x = Some x"
  by (auto simp: clamp_def)

definition checked_shl :: "'a::len word \<Rightarrow> nat \<Rightarrow> 'a word option" where
  "checked_shl x n = (if n < LENGTH('a) then Some (push_bit n x) else None)"

section \<open>Time and floating-point readings\<close>

text \<open>
  A \<open>Duration\<close> is a number of nanoseconds up to \<open>DURATION_MAX\<close> and an \<open>Instant\<close> a number of
  nanoseconds since the platform's origin. \<open>Instant + Duration\<close> panics (\<open>None\<close>) above the last
  instant that the platform can represent.
\<close>

type_synonym duration = nat
type_synonym instant = nat

definition DURATION_MAX :: duration where
  "DURATION_MAX = (2 ^ 64 - 1) * 1000000000 + 999999999"

definition duration_checked_mul :: "duration \<Rightarrow> u32 \<Rightarrow> duration option" where
  "duration_checked_mul d k = (if d * unat k \<le> DURATION_MAX then Some (d * unat k) else None)"

definition instant_add :: "instant \<Rightarrow> instant \<Rightarrow> duration \<Rightarrow> instant option" where
  "instant_add imax t d = (if t + d \<le> imax then Some (t + d) else None)"

text \<open>A comparison with a threshold is false for a NaN.\<close>

datatype f64 = Finite rat | PosInf | NegInf | NaN

fun f64_ge :: "f64 \<Rightarrow> rat \<Rightarrow> bool" where
  "f64_ge (Finite x) c = (x \<ge> c)"
| "f64_ge PosInf c = True"
| "f64_ge NegInf c = False"
| "f64_ge NaN c = False"

fun f64_le :: "f64 \<Rightarrow> rat \<Rightarrow> bool" where
  "f64_le (Finite x) c = (x \<le> c)"
| "f64_le PosInf c = False"
| "f64_le NegInf c = True"
| "f64_le NaN c = False"

definition is_some_and :: "'a option \<Rightarrow> ('a \<Rightarrow> bool) \<Rightarrow> bool" where
  "is_some_and x P = (case x of None \<Rightarrow> False | Some v \<Rightarrow> P v)"

lemma is_some_and_simps [simp]: "is_some_and None P = False" "is_some_and (Some v) P = P v"
  by (simp_all add: is_some_and_def)

section \<open>Hash maps\<close>

text \<open>
  A Rust \<open>HashMap\<close> is an association list with distinct keys: \<open>map_of\<close> is \<open>get\<close>,
  \<open>AList.update\<close> is \<open>insert\<close>, \<open>AList.delete\<close> is \<open>remove\<close>, \<open>filter\<close> is \<open>retain\<close> and
  \<open>length\<close> is \<open>len\<close>. The iteration order of the list stands for the unspecified order of the
  hash map.
\<close>

type_synonym ('k, 'v) hmap = "('k \<times> 'v) list"

abbreviation hm_wf :: "('k, 'v) hmap \<Rightarrow> bool" where
  "hm_wf m \<equiv> distinct (map fst m)"

abbreviation hm_keys :: "('k, 'v) hmap \<Rightarrow> 'k set" where
  "hm_keys m \<equiv> fst ` set m"

lemma map_of_update [hmap_simps]:
  "map_of (AList.update k v m) k' = (if k' = k then Some v else map_of m k')"
  by (simp add: update_conv')

lemma map_of_remove [hmap_simps]:
  "map_of (AList.delete k m) k' = (if k' = k then None else map_of m k')"
  by (simp add: AList.delete_conv')

lemma map_of_retain [hmap_simps]:
  "hm_wf m \<Longrightarrow> map_of (filter P m) k =
    (case map_of m k of None \<Rightarrow> None | Some v \<Rightarrow> if P (k, v) then Some v else None)"
proof (induction m)
  case Nil
  then show ?case by simp
next
  case (Cons a m)
  obtain k' v where a: "a = (k', v)" by (cases a)
  have none: "map_of m k' = None"
    using Cons.prems a by (auto simp: map_of_eq_None_iff)
  show ?case
    using Cons none a by (auto split: option.splits)
qed

lemma keys_update [simp]: "hm_keys (AList.update k v m) = insert k (hm_keys m)"
  using dom_update [of k v m] by (simp add: dom_map_of_conv_image_fst)

lemma keys_delete [simp]: "hm_keys (AList.delete k m) = hm_keys m - {k}"
  by (metis AList.delete_keys list.set_map set_removeAll)

lemma wf_update [simp, wf_intros]: "hm_wf m \<Longrightarrow> hm_wf (AList.update k v m)"
  by (rule distinct_update)

lemma wf_delete [simp, wf_intros]: "hm_wf m \<Longrightarrow> hm_wf (AList.delete k m)"
  by (rule distinct_delete)

lemma wf_retain [simp, wf_intros]: "hm_wf m \<Longrightarrow> hm_wf (filter P m)"
  by (rule distinct_map_filter)

lemma length_hm: "hm_wf m \<Longrightarrow> length m = card (hm_keys m)"
  by (metis distinct_card length_map set_map)

lemma length_update_le: "length (AList.update k v m) \<le> Suc (length m)"
  by (induction m) auto

lemma length_update_fresh: "k \<notin> hm_keys m \<Longrightarrow> length (AList.update k v m) = Suc (length m)"
  by (induction m) auto

lemma length_update_old: "k \<in> hm_keys m \<Longrightarrow> length (AList.update k v m) = length m"
  by (induction m) auto

lemma map_of_Some_key: "map_of m k = Some v \<Longrightarrow> k \<in> hm_keys m"
  by (metis domI dom_map_of_conv_image_fst)

lemma key_map_of: "k \<in> hm_keys m \<Longrightarrow> \<exists>v. map_of m k = Some v"
  by (metis dom_map_of_conv_image_fst domD)

section \<open>Lists\<close>

lemma concat_map_filter:
  "(\<And>x. \<not> P x \<Longrightarrow> f x = []) \<Longrightarrow> concat (map f (filter P xs)) = concat (map f xs)"
  by (induction xs) auto

lemma suffix_filter: "suffix xs ys \<Longrightarrow> suffix (filter P xs) (filter P ys)"
  by (auto simp: suffix_def)

lemma suffix_concat_drop: "suffix (concat (map f (drop n xs))) (concat (map f xs))"
  by (metis append_take_drop_id concat_append map_append suffixI)

lemma length_concat_le:
  "(\<And>x. x \<in> set xs \<Longrightarrow> length (f x) \<le> 1) \<Longrightarrow> length (concat (map f xs)) \<le> length xs"
proof (induction xs)
  case (Cons x xs)
  then have "length (f x) \<le> 1" and "length (concat (map f xs)) \<le> length xs" by simp_all
  then show ?case by simp
qed simp

section \<open>The eviction loop of the bounded caches\<close>

text \<open>
  \<open>while order.len() > capacity { if let Some(oldest) = order.pop_front() { map.remove(&oldest) } }\<close>
  as it stands in \<open>Session::cache_page\<close>, \<open>Session::bind_page\<close> and \<open>QueryCache::insert\<close>.
\<close>

fun evict_oldest :: "nat \<Rightarrow> 'k list \<Rightarrow> ('k, 'v) hmap \<Rightarrow> 'k list \<times> ('k, 'v) hmap" where
  "evict_oldest cap [] m = ([], m)"
| "evict_oldest cap (k # q) m =
     (if length (k # q) > cap then evict_oldest cap q (AList.delete k m) else (k # q, m))"

lemma evict_order: "fst (evict_oldest cap q m) = drop (length q - cap) q"
proof (induction cap q m rule: evict_oldest.induct)
  case (2 cap k q m)
  then show ?case by (cases "length (k # q) > cap") (auto simp: Suc_diff_le)
qed simp

lemma evict_wf: "hm_wf m \<Longrightarrow> hm_wf (snd (evict_oldest cap q m))"
  by (induction cap q m rule: evict_oldest.induct) auto

lemma evict_keys:
  "hm_keys (snd (evict_oldest cap q m)) = hm_keys m - set (take (length q - cap) q)"
proof (induction cap q m rule: evict_oldest.induct)
  case (2 cap k q m)
  then show ?case by (cases "length (k # q) > cap") (auto simp: Suc_diff_le)
qed simp

lemma evict_lookup:
  "map_of (snd (evict_oldest cap q m)) k =
     (if k \<in> set (take (length q - cap) q) then None else map_of m k)"
proof (induction cap q m rule: evict_oldest.induct)
  case (2 cap k' q m)
  then show ?case by (cases "length (k' # q) > cap") (auto simp: Suc_diff_le hmap_simps)
qed simp

lemmas evict_simps = evict_order evict_keys evict_lookup

text \<open>
  With an order that lists every key exactly once, the loop keeps exactly the youngest keys.
\<close>

lemma evict_sync:
  assumes "distinct q" and "set q = hm_keys m"
  shows "set (fst (evict_oldest cap q m)) = hm_keys (snd (evict_oldest cap q m))"
    and "distinct (fst (evict_oldest cap q m))"
    and "length (fst (evict_oldest cap q m)) \<le> cap"
proof -
  let ?n = "length q - cap"
  have "set (take ?n q) \<inter> set (drop ?n q) = {}"
    using assms(1) by (rule set_take_disj_set_drop_if_distinct) simp
  moreover have "set (take ?n q) \<union> set (drop ?n q) = set q"
    by (metis append_take_drop_id set_append)
  ultimately show "set (fst (evict_oldest cap q m)) = hm_keys (snd (evict_oldest cap q m))"
    using assms(2) by (auto simp: evict_simps)
qed (use assms in \<open>auto simp: evict_simps\<close>)

section \<open>Interface of a bounded cache\<close>

text \<open>
  \<open>order\<close> lists the keys, oldest first; \<open>put\<close> moves its key to the young end and drops the oldest
  entries beyond \<open>cap\<close>. \<open>fresh\<close> is what a caller has to guarantee of the key it adds (a token
  that was never issued before, for the continuation bindings).
\<close>

locale bounded_cache =
  fixes cap :: nat
    and wf :: "'c \<Rightarrow> bool"
    and order :: "'c \<Rightarrow> 'k list"
    and lookup :: "'c \<Rightarrow> 'k \<Rightarrow> 'v option"
    and put :: "'k \<Rightarrow> 'v \<Rightarrow> 'c \<Rightarrow> 'c"
    and fresh :: "'c \<Rightarrow> 'k \<Rightarrow> bool"
  assumes cap_pos: "0 < cap"
    and wf_distinct: "wf c \<Longrightarrow> distinct (order c)"
    and wf_dom: "wf c \<Longrightarrow> dom (lookup c) = set (order c)"
    and wf_bound: "wf c \<Longrightarrow> length (order c) \<le> cap"
    and wf_put: "wf c \<Longrightarrow> fresh c k \<Longrightarrow> wf (put k v c)"
    and order_put: "wf c \<Longrightarrow> fresh c k \<Longrightarrow>
      order (put k v c) = drop (Suc (length (removeAll k (order c))) - cap) (removeAll k (order c) @ [k])"
    and lookup_put: "wf c \<Longrightarrow> fresh c k \<Longrightarrow> k' \<in> set (order (put k v c)) \<Longrightarrow>
      lookup (put k v c) k' = (if k' = k then Some v else lookup c k')"
begin

lemma put_mem: "wf c \<Longrightarrow> fresh c k \<Longrightarrow> k \<in> set (order (put k v c))"
  using cap_pos by (simp add: order_put)

lemma lookup_put_same: "wf c \<Longrightarrow> fresh c k \<Longrightarrow> lookup (put k v c) k = Some v"
  by (simp add: lookup_put put_mem)

text \<open>Entries with at most \<open>cap - 2\<close> younger ones survive the next insertion.\<close>

lemma put_keeps_young:
  assumes "wf c" and "fresh c k'" and split: "order c = pre @ k # post"
    and "k' \<noteq> k" and room: "length post + 2 \<le> cap"
  shows "\<exists>pre'. order (put k' v c) = pre' @ k # (removeAll k' post @ [k'])"
    and "lookup (put k' v c) k = lookup c k"
proof -
  let ?pre = "removeAll k' pre" and ?post = "removeAll k' post @ [k']"
  let ?m = "Suc (length (removeAll k' (order c))) - cap"
  have ord: "order (put k' v c) = drop ?m (?pre @ k # ?post)"
    using assms by (simp add: order_put)
  have "?m \<le> length ?pre"
    using room split \<open>k' \<noteq> k\<close> length_removeAll_less_eq [of k' post]
    by (simp del: length_removeAll_less_eq)
  then have young: "order (put k' v c) = drop ?m ?pre @ k # ?post"
    using ord by simp
  then show "\<exists>pre'. order (put k' v c) = pre' @ k # ?post" by blast
  from young have "k \<in> set (order (put k' v c))" by simp
  then show "lookup (put k' v c) k = lookup c k"
    using assms by (simp add: lookup_put)
qed

text \<open>
  An entry is still there after any sequence of fewer than \<open>cap\<close> insertions of other keys.
\<close>

lemma survives:
  assumes "wf c" and "order c = pre @ k # post" and "length post + length kvs < cap"
    and "k \<notin> fst ` set kvs" and "\<And>c k. wf c \<Longrightarrow> fresh c k"
  shows "lookup (fold (\<lambda>(k, v). put k v) kvs c) k = lookup c k"
  using assms(1-4)
proof (induction kvs arbitrary: c pre post)
  case Nil
  then show ?case by simp
next
  case (Cons kv kvs)
  obtain k' v where kv: "kv = (k', v)" by (cases kv)
  have ne: "k' \<noteq> k" and room: "length post + 2 \<le> cap" and fr: "fresh c k'"
    using Cons.prems kv assms(5) by auto
  obtain pre' where ord: "order (put k' v c) = pre' @ k # (removeAll k' post @ [k'])"
    using put_keeps_young(1) [OF Cons.prems(1) fr Cons.prems(2) ne room] by blast
  have same: "lookup (put k' v c) k = lookup c k"
    by (rule put_keeps_young(2) [OF Cons.prems(1) fr Cons.prems(2) ne room])
  have "length (removeAll k' post @ [k']) + length kvs < cap"
    using Cons.prems(3) length_removeAll_less_eq [of k' post]
    by (simp del: length_removeAll_less_eq)
  moreover have "wf (put k' v c)" using Cons.prems(1) fr by (rule wf_put)
  ultimately have "lookup (fold (\<lambda>(k, v). put k v) kvs (put k' v c)) k = lookup (put k' v c) k"
    using Cons.IH [OF _ ord] Cons.prems(4) by auto
  then show ?case using same kv by simp
qed

end

section \<open>Reachable states\<close>

locale invariant_system =
  fixes init :: "'s \<Rightarrow> bool"
    and step :: "'s \<Rightarrow> 's \<Rightarrow> bool"
    and inv :: "'s \<Rightarrow> bool"
  assumes init_inv: "init s \<Longrightarrow> inv s"
    and step_inv: "step s t \<Longrightarrow> inv s \<Longrightarrow> inv t"
begin

lemma reachable_inv:
  assumes "init s" and "step\<^sup>*\<^sup>* s t"
  shows "inv t"
  using assms(2) by (induction rule: rtranclp_induct) (auto intro: init_inv step_inv assms(1))

lemma run_inv:
  assumes "inv s" and "step\<^sup>*\<^sup>* s t"
  shows "inv t"
  using assms(2,1) by (induction rule: rtranclp_induct) (auto intro: step_inv)

end

end
