(* ===== verification/Text.thy ===== *)
theory Text
  imports Prelude "HOL-Library.List_Lexorder"
begin

text \<open>
  Text as the gateway handles it: query normalisation, the range bounds of a prefix query, the
  escaping of SQL \<open>LIKE\<close> patterns and of full-text terms (\<open>index/query.rs\<close>).

  A Rust string is the list of its Unicode scalar values. Its lexicographic order is the byte
  order of its UTF-8 encoding, which both \<open>str::cmp\<close> and SQLite's binary collation use. The
  Unicode lower-casing tables of the standard library are a parameter \<open>lower\<close>.
\<close>

section \<open>Scalar values\<close>

type_synonym ustring = "nat list"

definition ascii :: "string \<Rightarrow> ustring" where
  "ascii s = map of_char s"

definition char_from_u32 :: "nat \<Rightarrow> nat option" where
  "char_from_u32 n = (if n \<le> 0x10FFFF \<and> \<not> (0xD800 \<le> n \<and> n \<le> 0xDFFF) then Some n else None)"

definition is_scalar :: "nat \<Rightarrow> bool" where
  "is_scalar n \<longleftrightarrow> char_from_u32 n = Some n"

definition is_text :: "ustring \<Rightarrow> bool" where
  "is_text s \<longleftrightarrow> list_all is_scalar s"

definition is_whitespace :: "nat \<Rightarrow> bool" where
  "is_whitespace c \<longleftrightarrow> (9 \<le> c \<and> c \<le> 13) \<or> c = 0x20 \<or> c = 0x85 \<or> c = 0xA0 \<or> c = 0x1680 \<or>
     (0x2000 \<le> c \<and> c \<le> 0x200A) \<or> c = 0x2028 \<or> c = 0x2029 \<or> c = 0x202F \<or> c = 0x205F \<or> c = 0x3000"

abbreviation starts_with :: "ustring \<Rightarrow> ustring \<Rightarrow> bool" where
  "starts_with value query \<equiv> prefix query value"

abbreviation contains :: "ustring \<Rightarrow> ustring \<Rightarrow> bool" where
  "contains value query \<equiv> sublist query value"

section \<open>Query normalisation\<close>

function split_whitespace :: "ustring \<Rightarrow> ustring list" where
  "split_whitespace s =
     (let s' = dropWhile is_whitespace s
      in if s' = [] then []
         else takeWhile (\<lambda>c. \<not> is_whitespace c) s' # split_whitespace (dropWhile (\<lambda>c. \<not> is_whitespace c) s'))"
  by pat_completeness auto

lemma split_whitespace_decreases:
  assumes "dropWhile is_whitespace s \<noteq> []"
  shows "length (dropWhile (\<lambda>c. \<not> is_whitespace c) (dropWhile is_whitespace s)) < length s"
proof -
  let ?s = "dropWhile is_whitespace s"
  have "\<not> is_whitespace (hd ?s)" using assms hd_dropWhile by blast
  then have "dropWhile (\<lambda>c. \<not> is_whitespace c) ?s = dropWhile (\<lambda>c. \<not> is_whitespace c) (tl ?s)"
    using assms by (cases ?s) auto
  also have "length \<dots> \<le> length (tl ?s)" by (rule length_dropWhile_le)
  also have "\<dots> < length ?s" using assms by simp
  also have "\<dots> \<le> length s" by (rule length_dropWhile_le)
  finally show ?thesis .
qed

termination split_whitespace
  by (relation "measure length") (auto simp: split_whitespace_decreases)

declare split_whitespace.simps [simp del]

fun join :: "ustring \<Rightarrow> ustring list \<Rightarrow> ustring" where
  "join sep [] = []"
| "join sep [x] = x"
| "join sep (x # y # xs) = x @ sep @ join sep (y # xs)"

definition normalize_query :: "(ustring \<Rightarrow> ustring) \<Rightarrow> ustring \<Rightarrow> ustring" where
  "normalize_query lower value = lower (join (ascii '' '') (split_whitespace value))"

lemma split_whitespace_words:
  "w \<in> set (split_whitespace s) \<Longrightarrow> w \<noteq> [] \<and> list_all (\<lambda>c. \<not> is_whitespace c) w"
proof (induction s rule: split_whitespace.induct)
  case (1 s)
  show ?case
  proof (cases "dropWhile is_whitespace s = []")
    case True
    then show ?thesis using 1(2) by (simp add: split_whitespace.simps [of s])
  next
    case False
    have first: "\<not> is_whitespace (hd (dropWhile is_whitespace s))"
      using False hd_dropWhile by blast
    let ?word = "takeWhile (\<lambda>c. \<not> is_whitespace c) (dropWhile is_whitespace s)"
    let ?rest = "dropWhile (\<lambda>c. \<not> is_whitespace c) (dropWhile is_whitespace s)"
    have "split_whitespace s = ?word # split_whitespace ?rest"
      using False by (simp add: split_whitespace.simps [of s] Let_def)
    then consider "w = ?word" | "w \<in> set (split_whitespace ?rest)" using 1(2) by auto
    then show ?thesis
    proof cases
      case 1
      then show ?thesis
        using False first by (auto simp: list_all_iff takeWhile_eq_Nil_iff dest: set_takeWhileD)
    next
      case 2
      then show ?thesis using "1.IH" False by blast
    qed
  qed
qed

text \<open>Words separated by single spaces are recovered: normalisation before lower-casing is idempotent.\<close>

lemma split_word:
  assumes "w \<noteq> []" and "list_all (\<lambda>c. \<not> is_whitespace c) w" and "rest = [] \<or> is_whitespace (hd rest)"
  shows "split_whitespace (w @ rest) = w # split_whitespace rest"
proof -
  have dw: "dropWhile is_whitespace (w @ rest) = w @ rest"
    using assms(1,2) by (cases w) auto
  have "takeWhile (\<lambda>c. \<not> is_whitespace c) (w @ rest) = w" "dropWhile (\<lambda>c. \<not> is_whitespace c) (w @ rest) = rest"
    using assms(2,3) by (cases rest; auto simp: list_all_iff takeWhile_append dropWhile_append)+
  then show ?thesis
    using assms(1) dw by (simp add: split_whitespace.simps [of "w @ rest"] Let_def)
qed

lemma split_space: "is_whitespace c \<Longrightarrow> split_whitespace (c # s) = split_whitespace s"
  by (simp add: split_whitespace.simps [of "c # s"] split_whitespace.simps [of s])

lemma split_join:
  "list_all (\<lambda>w. w \<noteq> [] \<and> list_all (\<lambda>c. \<not> is_whitespace c) w) ws \<Longrightarrow>
     split_whitespace (join (ascii '' '') ws) = ws"
proof (induction "ascii '' ''" ws rule: join.induct)
  case 1
  then show ?case by (simp add: split_whitespace.simps)
next
  case (2 x)
  then show ?case using split_word [of x "[]"] by (simp add: split_whitespace.simps [of "[]"])
next
  case (3 x y xs)
  then show ?case
    using split_word [of x "ascii '' '' @ join (ascii '' '') (y # xs)"]
    by (simp add: ascii_def is_whitespace_def split_space)
qed

lemma split_join_split: "split_whitespace (join (ascii '' '') (split_whitespace s)) = split_whitespace s"
  using split_whitespace_words by (intro split_join) (simp add: list_all_iff)

section \<open>Range of a prefix\<close>

definition next_char :: "nat \<Rightarrow> nat option" where
  "next_char value =
     (if value = 0x10FFFF then None
      else if value = 0xD7FF then char_from_u32 0xE000
      else char_from_u32 (value + 1))"

text \<open>The loop runs over the indices from the last to the first, here over the reversed characters.\<close>

fun bump_last :: "ustring \<Rightarrow> ustring option" where
  "bump_last [] = None"
| "bump_last (c # before) =
     (case next_char c of Some n \<Rightarrow> Some (rev (n # before)) | None \<Rightarrow> bump_last before)"

definition prefix_upper_bound :: "ustring \<Rightarrow> ustring option" where
  "prefix_upper_bound p = bump_last (rev p)"

lemma next_char_gap:
  assumes "is_scalar c" and "next_char c = Some n"
  shows "c < n" and "is_scalar d \<Longrightarrow> c \<le> d \<Longrightarrow> d < n \<Longrightarrow> d = c"
  using assms by (auto simp: next_char_def is_scalar_def char_from_u32_def split: if_splits)

lemma next_char_None: "is_scalar c \<Longrightarrow> next_char c = None \<longleftrightarrow> c = 0x10FFFF"
  by (auto simp: next_char_def is_scalar_def char_from_u32_def split: if_splits)

lemma next_char_max [simp]: "next_char 0x10FFFF = None"
  by (simp add: next_char_def)

lemma scalar_max: "is_scalar c \<Longrightarrow> c \<le> 0x10FFFF"
  by (auto simp: is_scalar_def char_from_u32_def split: if_splits)

lemma le_prefix: "prefix p s \<Longrightarrow> p \<le> s" for p s :: ustring
proof (induction p arbitrary: s)
  case (Cons a p)
  then show ?case by (cases s) auto
qed simp

lemma all_max_le: "list_all (\<lambda>c. c = 0x10FFFF) p \<Longrightarrow> is_text s \<Longrightarrow> p \<le> s \<Longrightarrow> prefix p s"
proof (induction p arbitrary: s)
  case (Cons a p)
  then show ?case by (cases s) (auto simp: is_text_def dest: scalar_max)
qed simp

lemma bump_last_append: "bump_last (xs @ ys) =
    (case bump_last xs of Some _ \<Rightarrow> map_option (\<lambda>u. rev ys @ u) (bump_last xs) | None \<Rightarrow> bump_last ys)"
  by (induction xs) (auto split: option.splits)

lemma bump_last_None: "is_text xs \<Longrightarrow> bump_last xs = None \<longleftrightarrow> list_all (\<lambda>c. c = 0x10FFFF) xs"
  by (induction xs) (auto simp: is_text_def next_char_None split: option.splits)

lemma upper_bound_Cons:
  "prefix_upper_bound (c # p) =
     (case prefix_upper_bound p of Some u \<Rightarrow> Some (c # u) | None \<Rightarrow> map_option (\<lambda>n. [n]) (next_char c))"
  by (auto simp: prefix_upper_bound_def bump_last_append split: option.splits)

lemma upper_bound_None:
  "is_text p \<Longrightarrow> prefix_upper_bound p = None \<longleftrightarrow> list_all (\<lambda>c. c = 0x10FFFF) p"
  by (simp add: prefix_upper_bound_def bump_last_None is_text_def)

lemma prefix_range:
  "is_text p \<Longrightarrow> is_text s \<Longrightarrow> prefix_upper_bound p = Some u \<Longrightarrow> p \<le> s \<and> s < u \<longleftrightarrow> prefix p s"
proof (induction p arbitrary: s u)
  case Nil
  then show ?case by (simp add: prefix_upper_bound_def)
next
  case (Cons c p)
  have sc: "is_scalar c" "is_text p" using Cons.prems(1) by (simp_all add: is_text_def)
  show ?case
  proof (cases s)
    case Nil
    then show ?thesis by simp
  next
    case (Cons d t)
    note s = this
    have t: "is_text t" "is_scalar d" using Cons.prems(2) s by (simp_all add: is_text_def)
    show ?thesis
    proof (cases "prefix_upper_bound p")
      case None
      then obtain n where n: "next_char c = Some n" "u = [n]"
        using Cons.prems(3) by (auto simp: upper_bound_Cons)
      have "p \<le> t \<longleftrightarrow> prefix p t"
        using all_max_le [of p t] le_prefix [of p t] None sc(2) t(1) upper_bound_None by blast
      moreover have "c < n" and "\<not> (c < d \<and> d < n)"
        using next_char_gap [OF sc(1) n(1)] t(2) by force+
      ultimately show ?thesis using n s by auto
    next
      case (Some v)
      then have "u = c # v" using Cons.prems(3) by (simp add: upper_bound_Cons)
      then show ?thesis using Cons.IH [OF sc(2) t(1) Some] s by auto
    qed
  qed
qed

section \<open>\<open>LIKE\<close> patterns\<close>

text \<open>
  \<open>value LIKE pattern ESCAPE '\\'\<close> as SQLite documents it: \<open>%\<close> stands for any text, \<open>_\<close> for one
  character, the escape character makes the next one literal, and ASCII letters are compared
  without their case.
\<close>

definition fold_case :: "nat \<Rightarrow> nat" where
  "fold_case c = (if 65 \<le> c \<and> c \<le> 90 then c + 32 else c)"

definition PERCENT :: nat where "PERCENT = 37"
definition UNDERSCORE :: nat where "UNDERSCORE = 95"
definition BACKSLASH :: nat where "BACKSLASH = 92"
definition QUOTE :: nat where "QUOTE = 34"

fun sql_like :: "ustring \<Rightarrow> ustring \<Rightarrow> bool" where
  "sql_like [] s = (s = [])"
| "sql_like (p # ps) s =
     (if p = PERCENT then sql_like ps s \<or> (case s of [] \<Rightarrow> False | _ # t \<Rightarrow> sql_like (p # ps) t)
      else if p = UNDERSCORE then (case s of [] \<Rightarrow> False | _ # t \<Rightarrow> sql_like ps t)
      else if p = BACKSLASH
      then (case (ps, s) of (c # ps', d # t) \<Rightarrow> fold_case c = fold_case d \<and> sql_like ps' t | _ \<Rightarrow> False)
      else (case s of [] \<Rightarrow> False | d # t \<Rightarrow> fold_case p = fold_case d \<and> sql_like ps t))"

definition replace_char :: "nat \<Rightarrow> ustring \<Rightarrow> ustring \<Rightarrow> ustring" where
  "replace_char c r s = concat (map (\<lambda>x. if x = c then r else [x]) s)"

definition escape_like :: "ustring \<Rightarrow> ustring" where
  "escape_like value =
     replace_char UNDERSCORE [BACKSLASH, UNDERSCORE]
       (replace_char PERCENT [BACKSLASH, PERCENT]
         (replace_char BACKSLASH [BACKSLASH, BACKSLASH] value))"

definition build_fts_query :: "ustring \<Rightarrow> ustring" where
  "build_fts_query query =
     join (ascii '' AND '')
       (map (\<lambda>term. [QUOTE] @ replace_char QUOTE [QUOTE, QUOTE] term @ [QUOTE]) (split_whitespace query))"

lemmas like_chars = PERCENT_def UNDERSCORE_def BACKSLASH_def

lemma escape_like_simps [simp]:
  "escape_like [] = []"
  "escape_like (c # s) =
     (if c \<in> {PERCENT, UNDERSCORE, BACKSLASH} then [BACKSLASH, c] else [c]) @ escape_like s"
  by (auto simp: escape_like_def replace_char_def like_chars)

lemma split_map_Cons:
  "(\<exists>t u. d # s = t @ u \<and> map f t = x # q \<and> P u) \<longleftrightarrow>
     f d = x \<and> (\<exists>t u. s = t @ u \<and> map f t = q \<and> P u)"
proof
  assume "\<exists>t u. d # s = t @ u \<and> map f t = x # q \<and> P u"
  then obtain t u where t: "d # s = t @ u" "map f t = x # q" "P u"
    by (elim exE conjE) (rule that)
  have "t \<noteq> []" using t(2) by force
  then obtain t' where t': "t = d # t'" "s = t' @ u" using t(1) by (cases t) simp_all
  then have "f d = x" "map f t' = q" using t(2) by simp_all
  with t'(2) t(3) show "f d = x \<and> (\<exists>t u. s = t @ u \<and> map f t = q \<and> P u)" by auto
next
  assume "f d = x \<and> (\<exists>t u. s = t @ u \<and> map f t = q \<and> P u)"
  then obtain t u where "f d = x" "s = t @ u" "map f t = q" "P u" by auto
  then show "\<exists>t u. d # s = t @ u \<and> map f t = x # q \<and> P u"
    by (intro exI [of _ "d # t"] exI [of _ u]) simp
qed

lemma sql_like_escape:
  "sql_like (escape_like q @ ps) s \<longleftrightarrow>
     (\<exists>t u. s = t @ u \<and> map fold_case t = map fold_case q \<and> sql_like ps u)"
proof (induction q arbitrary: s)
  case (Cons c q)
  show ?case
  proof (cases s)
    case (Cons d s')
    have "sql_like (escape_like (c # q) @ ps) s \<longleftrightarrow>
        fold_case d = fold_case c \<and> sql_like (escape_like q @ ps) s'"
      using Cons by (auto simp: like_chars)
    then show ?thesis
      using Cons.IH Cons split_map_Cons [of d s' fold_case "fold_case c" "map fold_case q" "sql_like ps"]
      by simp
  qed (auto simp: like_chars)
qed simp

lemma sql_like_any: "sql_like [PERCENT] s"
  by (induction s) auto

lemma sql_like_percent: "sql_like (PERCENT # ps) s \<longleftrightarrow> (\<exists>t u. s = t @ u \<and> sql_like ps u)"
proof (induction s)
  case (Cons c s)
  have "sql_like (PERCENT # ps) (c # s) \<longleftrightarrow> sql_like ps (c # s) \<or> sql_like (PERCENT # ps) s" by simp
  then show ?case using Cons by (auto simp: Cons_eq_append_conv)
qed simp

lemma like_prefix: "sql_like (escape_like q @ [PERCENT]) s \<longleftrightarrow> prefix (map fold_case q) (map fold_case s)"
proof -
  have "prefix (map fold_case q) (map fold_case s) \<longleftrightarrow> (\<exists>t u. s = t @ u \<and> map fold_case t = map fold_case q)"
    by (auto simp: prefix_def map_eq_append_conv)
  then show ?thesis by (simp add: sql_like_escape sql_like_any del: sql_like.simps)
qed

lemma like_contains:
  "sql_like (PERCENT # escape_like q @ [PERCENT]) s \<longleftrightarrow> sublist (map fold_case q) (map fold_case s)"
proof -
  have "sql_like (PERCENT # escape_like q @ [PERCENT]) s \<longleftrightarrow> (\<exists>t u. s = t @ u \<and> prefix (map fold_case q) (map fold_case u))"
    by (simp only: sql_like_percent like_prefix)
  also have "\<dots> \<longleftrightarrow> sublist (map fold_case q) (map fold_case s)"
  proof
    assume "\<exists>t u. s = t @ u \<and> prefix (map fold_case q) (map fold_case u)"
    then obtain t u where "s = t @ u" "prefix (map fold_case q) (map fold_case u)" by blast
    then show "sublist (map fold_case q) (map fold_case s)"
      by (auto simp: prefix_def sublist_def)
  next
    assume "sublist (map fold_case q) (map fold_case s)"
    then obtain a b where ab: "map fold_case s = a @ map fold_case q @ b" by (auto simp: sublist_def)
    then obtain t u where "s = t @ u" "map fold_case u = map fold_case q @ b"
      using map_eq_append_conv [of fold_case s a "map fold_case q @ b"] by metis
    then show "\<exists>t u. s = t @ u \<and> prefix (map fold_case q) (map fold_case u)" by (metis prefixI)
  qed
  finally show ?thesis .
qed

end
