(* ===== verification/Opc.thy ===== *)
theory Opc
  imports Text
begin

text \<open>
  The data that crosses the boundary between the gateway and the native OPC DA client
  (\<open>opc.rs\<close>), and the status values that RPC handlers return. The native client itself is
  external code: the operations that call it take it as a parameter.
\<close>

section \<open>Namespace data\<close>

text \<open>
  Display names and ItemIDs are searched, so they are texts; session, node and page tokens are
  opaque.
\<close>

datatype namespace_organization = OrgUnspecified | OrgFlat | OrgHierarchical

datatype browse_source = SrcUnspecified | SrcDa3 | SrcDa2 | SrcFlat | SrcDerived

datatype browse_node_kind = Branch | Item | BranchAndItem

datatype inventory_node_kind = InvItem | InvBranchAndItem

record browse_node =
  bn_node_key :: string
  bn_display_name :: ustring
  bn_kind :: browse_node_kind
  bn_item_id :: "ustring option"

record browse_page =
  bp_nodes :: "browse_node list"
  bp_next_page_token :: "string option"
  bp_complete :: bool
  bp_organization :: namespace_organization
  bp_source :: browse_source
  bp_warning :: "string option"

record inventory_entry =
  ie_display_name :: ustring
  ie_item_id :: ustring
  ie_kind :: inventory_node_kind
  ie_breadcrumbs :: "ustring list"

record inventory_progress =
  ip_branches_visited :: u64
  ip_entries_seen :: u64
  ip_unique_items :: u64
  ip_active_time_ms :: u64
  ip_paused_time_ms :: u64
  ip_items_per_second :: f64
  ip_estimated_remaining_ms :: "u64 option"

section \<open>Capabilities, reading and writing\<close>

record browse_capabilities =
  bc_organization :: namespace_organization
  bc_source :: browse_source
  bc_supports_browse_sessions :: bool
  bc_supports_search :: bool
  bc_max_page_size :: u32

record tag_value =
  tv_tag_id :: ustring
  tv_value :: ustring
  tv_quality :: string
  tv_timestamp :: string

record write_result =
  wr_tag_id :: ustring
  wr_success :: bool
  wr_error :: "string option"

datatype opc_value = OpcString ustring | OpcInt "32 word" | OpcFloat f64 | OpcBool bool

section \<open>RPC status values\<close>

text \<open>
  \<open>Panic\<close> is not a status the gateway sends: it is the outcome of an operation whose task
  unwinds.
\<close>

datatype grpc_code =
  InvalidArgument | NotFound | FailedPrecondition | ResourceExhausted | Internal | Unavailable
  | Cancelled | Unimplemented | DeadlineExceeded

datatype rpc_error = Status grpc_code string | Panic

type_synonym 'a rpc = "rpc_error + 'a"

end
