(* ===== verification/Browse.thy ===== *)
theory Browse
  imports Opc
begin

text \<open>
  Gateway-owned browse sessions (\<open>browse.rs\<close>): opaque session, node and page tokens, the two
  bounded caches of a session, and the manager that maps them to the native client's identifiers.
  Each lock-protected block of \<open>browse.rs\<close> is one definition on the manager's state;
  \<open>open_session\<close>, \<open>browse\<close> and \<open>close_session\<close> compose them the way the code does, and
  \<open>manager_step\<close> interleaves the blocks of concurrent requests in any order.
\<close>

section \<open>State\<close>

definition DEFAULT_PAGE_SIZE :: u32 where "DEFAULT_PAGE_SIZE = 200"
definition MAX_PAGE_SIZE :: u32 where "MAX_PAGE_SIZE = 1000"
definition MAX_ACTIVE_SESSIONS :: nat where "MAX_ACTIVE_SESSIONS = 128"
definition SESSION_TTL :: int where "SESSION_TTL = 60000"
definition MAX_CACHED_PAGES_PER_SESSION :: nat where "MAX_CACHED_PAGES_PER_SESSION = 256"
definition MAX_NODE_BINDINGS_PER_SESSION :: nat where "MAX_NODE_BINDINGS_PER_SESSION = 100000"
definition MAX_PAGE_BINDINGS_PER_SESSION :: nat where "MAX_PAGE_BINDINGS_PER_SESSION = 256"

record page_key =
  pk_parent_node_key :: "string option"
  pk_page_token :: "string option"
  pk_page_size :: u32

record page_binding =
  pb_native_page_token :: string
  pb_parent_node_key :: "string option"
  pb_page_size :: u32

text \<open>
  \<open>last_used\<close> is an \<open>Instant\<close> in milliseconds. The per-session \<open>operation_lock\<close> only orders
  requests and holds no data.
\<close>

record session =
  ses_server :: string
  ses_native_session_id :: string
  ses_last_used :: int
  ses_node_bindings :: "(string, string) hmap"
  ses_page_bindings :: "(string, page_binding) hmap"
  ses_page_binding_order :: "string list"
  ses_pages :: "(page_key, browse_page) hmap"
  ses_page_order :: "page_key list"

text \<open>
  The manager's mutex is poisoned when a task panics while it holds the lock. \<open>mgr_issued\<close>
  counts the tokens that \<open>new_token\<close> handed out.
\<close>

record manager =
  mgr_sessions :: "(string, session) hmap"
  mgr_poisoned :: bool
  mgr_issued :: nat

text \<open>
  What the manager uses of its surroundings: the least instant the platform can represent, the
  UUID generator as the sequence of the tokens it returns, and the native OPC client acting on a
  world of its own.
\<close>

record 'w browse_env =
  env_instant_min :: int
  env_token :: "nat \<Rightarrow> string"
  env_open_browse_session :: "'w \<Rightarrow> string \<Rightarrow> (string + string) \<times> 'w"
  env_browse_page ::
    "'w \<Rightarrow> string \<Rightarrow> string option \<Rightarrow> string option \<Rightarrow> u32 \<Rightarrow> bool \<Rightarrow> (string + browse_page) \<times> 'w"
  env_close_browse_session :: "'w \<Rightarrow> string \<Rightarrow> (string + unit) \<times> 'w"

section \<open>Session operations\<close>

definition session_new :: "int \<Rightarrow> string \<Rightarrow> string \<Rightarrow> session" where
  "session_new now server native =
     \<lparr>ses_server = server, ses_native_session_id = native, ses_last_used = now,
      ses_node_bindings = [], ses_page_bindings = [], ses_page_binding_order = [],
      ses_pages = [], ses_page_order = []\<rparr>"

definition touch :: "int \<Rightarrow> session \<Rightarrow> session" where
  "touch now s = s\<lparr>ses_last_used := now\<rparr>"

definition cache_page :: "page_key \<Rightarrow> browse_page \<Rightarrow> session \<Rightarrow> session" where
  "cache_page key page s =
     (let order = (if map_of (ses_pages s) key \<noteq> None
                   then filter (\<lambda>existing. existing \<noteq> key) (ses_page_order s)
                   else ses_page_order s);
          (order', pages') = evict_oldest MAX_CACHED_PAGES_PER_SESSION (order @ [key])
                               (AList.update key page (ses_pages s))
      in s\<lparr>ses_pages := pages', ses_page_order := order'\<rparr>)"

definition invalidate_parent :: "string option \<Rightarrow> session \<Rightarrow> session" where
  "invalidate_parent parent s =
     (let bindings = filter (\<lambda>(_, b). pb_parent_node_key b \<noteq> parent) (ses_page_bindings s)
      in s\<lparr>ses_pages := filter (\<lambda>(key, _). pk_parent_node_key key \<noteq> parent) (ses_pages s),
           ses_page_order := filter (\<lambda>key. pk_parent_node_key key \<noteq> parent) (ses_page_order s),
           ses_page_bindings := bindings,
           ses_page_binding_order :=
             filter (\<lambda>token. map_of bindings token \<noteq> None) (ses_page_binding_order s)\<rparr>)"

definition bind_page :: "string \<Rightarrow> page_binding \<Rightarrow> session \<Rightarrow> session" where
  "bind_page token binding s =
     (let (order', bindings') = evict_oldest MAX_PAGE_BINDINGS_PER_SESSION
            (ses_page_binding_order s @ [token])
            (AList.update token binding (ses_page_bindings s))
      in s\<lparr>ses_page_bindings := bindings', ses_page_binding_order := order'\<rparr>)"

definition normalize_page_size :: "u32 \<Rightarrow> u32 rpc" where
  "normalize_page_size page_size =
     (let page_size = (if page_size = 0 then DEFAULT_PAGE_SIZE else page_size)
      in if page_size > MAX_PAGE_SIZE
         then Inl (Status InvalidArgument ''page_size must be between 1 and 1000'')
         else Inr page_size)"

section \<open>Critical sections of the manager\<close>

definition lock_poisoned :: rpc_error where
  "lock_poisoned = Status Internal ''browse session lock poisoned''"

definition operation_error :: "string \<Rightarrow> rpc_error" where
  "operation_error error = Status Unavailable error"

definition not_found_or_expired :: rpc_error where
  "not_found_or_expired = Status NotFound ''browse session not found or expired''"

definition closed_during_browse :: rpc_error where
  "closed_during_browse = Status NotFound ''browse session closed during browse''"

definition sessions_exhausted :: rpc_error where
  "sessions_exhausted = Status ResourceExhausted ''maximum active browse sessions reached''"

text \<open>
  \<open>remove_expired\<close> computes \<open>Instant::now() - SESSION_TTL\<close> while it holds the lock. Where the
  difference is not representable the subtraction panics and poisons the lock. A lock that is
  already poisoned is logged and no session expires.
\<close>

definition remove_expired :: "int \<Rightarrow> int \<Rightarrow> manager \<Rightarrow> session list rpc \<times> manager" where
  "remove_expired instant_min now m =
     (if mgr_poisoned m then (Inr [], m)
      else if now - SESSION_TTL < instant_min then (Inl Panic, m\<lparr>mgr_poisoned := True\<rparr>)
      else let cutoff = now - SESSION_TTL;
               expired = filter (\<lambda>(_, s). ses_last_used s < cutoff) (mgr_sessions m)
           in (Inr (map snd expired),
               m\<lparr>mgr_sessions := filter (\<lambda>(_, s). \<not> ses_last_used s < cutoff) (mgr_sessions m)\<rparr>))"

definition check_capacity :: "manager \<Rightarrow> unit rpc" where
  "check_capacity m =
     (if mgr_poisoned m then Inl lock_poisoned
      else if length (mgr_sessions m) \<ge> MAX_ACTIVE_SESSIONS then Inl sessions_exhausted
      else Inr ())"

text \<open>The second critical section of \<open>open_session\<close>: \<open>None\<close> is the capacity race.\<close>

definition admit_session ::
  "(nat \<Rightarrow> string) \<Rightarrow> int \<Rightarrow> string \<Rightarrow> string \<Rightarrow> manager \<Rightarrow> string option rpc \<times> manager" where
  "admit_session tok now server native m =
     (let session_id = tok (mgr_issued m); m = m\<lparr>mgr_issued := Suc (mgr_issued m)\<rparr>
      in if mgr_poisoned m then (Inl lock_poisoned, m)
         else if length (mgr_sessions m) \<ge> MAX_ACTIVE_SESSIONS then (Inr None, m)
         else (Inr (Some session_id),
               m\<lparr>mgr_sessions :=
                   AList.update session_id (session_new now server native) (mgr_sessions m)\<rparr>))"

definition put_session :: "string \<Rightarrow> session \<Rightarrow> manager \<Rightarrow> manager" where
  "put_session sid s m = m\<lparr>mgr_sessions := AList.update sid s (mgr_sessions m)\<rparr>"

definition resolve_parent :: "session \<Rightarrow> string option \<Rightarrow> string option rpc" where
  "resolve_parent s parent =
     (case parent of
        None \<Rightarrow> Inr None
      | Some key \<Rightarrow>
          (case map_of (ses_node_bindings s) key of
             None \<Rightarrow> Inl (Status NotFound ''browse parent node not found'')
           | Some native \<Rightarrow> Inr (Some native)))"

definition resolve_token :: "session \<Rightarrow> page_key \<Rightarrow> string option rpc" where
  "resolve_token s key =
     (case pk_page_token key of
        None \<Rightarrow> Inr None
      | Some token \<Rightarrow>
          (case map_of (ses_page_bindings s) token of
             None \<Rightarrow> Inl (Status FailedPrecondition ''invalid browse page token'')
           | Some binding \<Rightarrow>
               if pb_page_size binding \<noteq> pk_page_size key
               then Inl (Status FailedPrecondition
                      ''browse page token was created for a different page size'')
               else if pb_parent_node_key binding \<noteq> pk_parent_node_key key
               then Inl (Status FailedPrecondition
                      ''browse page token is bound to a different parent'')
               else Inr (Some (pb_native_page_token binding))))"

text \<open>
  The first critical section of \<open>browse_existing\<close>: it resolves the caller's tokens, drops the
  parent's pages on a refresh and otherwise looks the page up in the cache. The session is
  touched once the server matches, also when a token then turns out to be invalid.
\<close>

definition prepare ::
  "int \<Rightarrow> string \<Rightarrow> string \<Rightarrow> page_key \<Rightarrow> bool \<Rightarrow> manager \<Rightarrow>
     (string \<times> string option \<times> string option \<times> browse_page option) rpc \<times> manager" where
  "prepare now server sid key refresh m =
     (if mgr_poisoned m then (Inl lock_poisoned, m)
      else case map_of (mgr_sessions m) sid of
        None \<Rightarrow> (Inl not_found_or_expired, m)
      | Some s0 \<Rightarrow>
          if ses_server s0 \<noteq> server
          then (Inl (Status FailedPrecondition
                  ''browse session belongs to a different OPC server''), m)
          else
            let s = touch now s0; m' = put_session sid s m in
            (case resolve_parent s (pk_parent_node_key key) of
               Inl e \<Rightarrow> (Inl e, m')
             | Inr native_parent \<Rightarrow>
                 (case resolve_token s key of
                    Inl e \<Rightarrow> (Inl e, m')
                  | Inr native_token \<Rightarrow>
                      if refresh
                      then (Inr (ses_native_session_id s, native_parent, native_token, None),
                            put_session sid (invalidate_parent (pk_parent_node_key key) s) m)
                      else (Inr (ses_native_session_id s, native_parent, native_token,
                                 map_of (ses_pages s) key), m'))))"

text \<open>The second critical section, under the operation lock: another request may have cached the page.\<close>

definition recheck ::
  "int \<Rightarrow> string \<Rightarrow> page_key \<Rightarrow> bool \<Rightarrow> manager \<Rightarrow> browse_page option rpc \<times> manager" where
  "recheck now sid key refresh m =
     (if mgr_poisoned m then (Inl lock_poisoned, m)
      else case map_of (mgr_sessions m) sid of
        None \<Rightarrow> (Inl closed_during_browse, m)
      | Some s0 \<Rightarrow>
          let s = touch now s0
          in (Inr (if refresh then None else map_of (ses_pages s) key), put_session sid s m))"

definition check_native_page :: "browse_page \<Rightarrow> unit rpc" where
  "check_native_page page =
     (if bp_complete page \<and> bp_next_page_token page \<noteq> None
      then Inl (Status Internal
             ''OPC client returned a complete browse page with a continuation token'')
      else if \<not> bp_complete page \<and> bp_next_page_token page = None
      then Inl (Status Internal
             ''OPC client returned an incomplete browse page without a continuation token'')
      else Inr ())"

fun bind_nodes ::
  "(nat \<Rightarrow> string) \<Rightarrow> nat \<Rightarrow> browse_node list \<Rightarrow> (string, string) hmap \<Rightarrow>
     nat \<times> browse_node list \<times> (string, string) hmap" where
  "bind_nodes tok n [] bindings = (n, [], bindings)"
| "bind_nodes tok n (node # nodes) bindings =
     (let (n', nodes', bindings') =
            bind_nodes tok (Suc n) nodes (AList.update (tok n) (bn_node_key node) bindings)
      in (n', node\<lparr>bn_node_key := tok n\<rparr> # nodes', bindings'))"

definition bind_continuation ::
  "(nat \<Rightarrow> string) \<Rightarrow> nat \<Rightarrow> page_key \<Rightarrow> string option \<Rightarrow> session \<Rightarrow> nat \<times> string option \<times> session" where
  "bind_continuation tok n key native s =
     (case native of
        None \<Rightarrow> (n, None, s)
      | Some native_token \<Rightarrow>
          (Suc n, Some (tok n),
           bind_page (tok n)
             \<lparr>pb_native_page_token = native_token,
              pb_parent_node_key = pk_parent_node_key key,
              pb_page_size = pk_page_size key\<rparr> s))"

text \<open>The third critical section: the native page becomes gateway tokens and enters the cache.\<close>

definition commit_page ::
  "(nat \<Rightarrow> string) \<Rightarrow> page_key \<Rightarrow> browse_page \<Rightarrow> nat \<Rightarrow> session \<Rightarrow> nat \<times> browse_page \<times> session" where
  "commit_page tok key native n s =
     (let (n1, nodes, bindings) = bind_nodes tok n (bp_nodes native) (ses_node_bindings s);
          (n2, next, s2) = bind_continuation tok n1 key (bp_next_page_token native)
                             (s\<lparr>ses_node_bindings := bindings\<rparr>);
          page = native\<lparr>bp_nodes := nodes, bp_next_page_token := next\<rparr>
      in (n2, page, cache_page key page s2))"

definition commit ::
  "(nat \<Rightarrow> string) \<Rightarrow> int \<Rightarrow> string \<Rightarrow> page_key \<Rightarrow> browse_page \<Rightarrow> manager \<Rightarrow> browse_page rpc \<times> manager" where
  "commit tok now sid key native m =
     (if mgr_poisoned m then (Inl lock_poisoned, m)
      else case map_of (mgr_sessions m) sid of
        None \<Rightarrow> (Inl closed_during_browse, m)
      | Some s0 \<Rightarrow>
          let s = touch now s0 in
          if length (ses_node_bindings s) + length (bp_nodes native) > MAX_NODE_BINDINGS_PER_SESSION
          then (Inl (Status ResourceExhausted ''maximum browse nodes per session reached''),
                put_session sid s m)
          else let (n, page, s') = commit_page tok key native (mgr_issued m) s
               in (Inr page, (put_session sid s' m)\<lparr>mgr_issued := n\<rparr>))"

definition lookup_native :: "string \<Rightarrow> manager \<Rightarrow> string rpc" where
  "lookup_native sid m =
     (if mgr_poisoned m then Inl lock_poisoned
      else case map_of (mgr_sessions m) sid of
        None \<Rightarrow> Inl not_found_or_expired
      | Some s \<Rightarrow> Inr (ses_native_session_id s))"

definition remove_session :: "string \<Rightarrow> manager \<Rightarrow> unit rpc \<times> manager" where
  "remove_session sid m =
     (if mgr_poisoned m then (Inl lock_poisoned, m)
      else if map_of (mgr_sessions m) sid = None then (Inl not_found_or_expired, m)
      else (Inr (), m\<lparr>mgr_sessions := AList.delete sid (mgr_sessions m)\<rparr>))"

section \<open>Operations\<close>

fun close_expired :: "'w browse_env \<Rightarrow> session list \<Rightarrow> 'w \<Rightarrow> 'w" where
  "close_expired env [] w = w"
| "close_expired env (s # ss) w =
     close_expired env ss (snd (env_close_browse_session env w (ses_native_session_id s)))"

definition expire :: "'w browse_env \<Rightarrow> int \<Rightarrow> manager \<Rightarrow> 'w \<Rightarrow> unit rpc \<times> manager \<times> 'w" where
  "expire env now m w =
     (case remove_expired (env_instant_min env) now m of
        (Inl e, m') \<Rightarrow> (Inl e, m', w)
      | (Inr expired, m') \<Rightarrow> (Inr (), m', close_expired env expired w))"

definition open_session ::
  "'w browse_env \<Rightarrow> int \<Rightarrow> string \<Rightarrow> manager \<Rightarrow> 'w \<Rightarrow> string rpc \<times> manager \<times> 'w" where
  "open_session env now server m0 w0 =
     (case expire env now m0 w0 of
        (Inl e, m, w) \<Rightarrow> (Inl e, m, w)
      | (Inr _, m, w) \<Rightarrow>
          (case check_capacity m of
             Inl e \<Rightarrow> (Inl e, m, w)
           | Inr _ \<Rightarrow>
               (case env_open_browse_session env w server of
                  (Inl error, w1) \<Rightarrow> (Inl (operation_error error), m, w1)
                | (Inr native, w1) \<Rightarrow>
                    (case admit_session (env_token env) now server native m of
                       (Inl e, m1) \<Rightarrow> (Inl e, m1, w1)
                     | (Inr None, m1) \<Rightarrow>
                         (Inl sessions_exhausted, m1, snd (env_close_browse_session env w1 native))
                     | (Inr (Some sid), m1) \<Rightarrow> (Inr sid, m1, w1)))))"

definition close_session ::
  "'w browse_env \<Rightarrow> string \<Rightarrow> manager \<Rightarrow> 'w \<Rightarrow> unit rpc \<times> manager \<times> 'w" where
  "close_session env sid m w =
     (case lookup_native sid m of
        Inl e \<Rightarrow> (Inl e, m, w)
      | Inr native \<Rightarrow>
          (case remove_session sid m of
             (Inl e, m1) \<Rightarrow> (Inl e, m1, w)
           | (Inr _, m1) \<Rightarrow>
               (case env_close_browse_session env w native of
                  (Inl error, w1) \<Rightarrow> (Inl (operation_error error), m1, w1)
                | (Inr _, w1) \<Rightarrow> (Inr (), m1, w1))))"

text \<open>The part of \<open>browse_existing\<close> that asks the native client, after both cache lookups missed.\<close>

definition fetch_page ::
  "'w browse_env \<Rightarrow> int \<Rightarrow> string \<Rightarrow> page_key \<Rightarrow> bool \<Rightarrow> string \<times> string option \<times> string option \<Rightarrow>
     manager \<Rightarrow> 'w \<Rightarrow> browse_page rpc \<times> manager \<times> 'w" where
  "fetch_page env now sid key refresh native m w =
     (case native of (native_sid, native_parent, native_token) \<Rightarrow>
       (case env_browse_page env w native_sid native_parent native_token (pk_page_size key) refresh of
          (Inl error, w1) \<Rightarrow> (Inl (operation_error error), m, w1)
        | (Inr page, w1) \<Rightarrow>
            (case check_native_page page of
               Inl e \<Rightarrow> (Inl e, m, w1)
             | Inr _ \<Rightarrow>
                 (case commit (env_token env) now sid key page m of
                    (r, m1) \<Rightarrow> (r, m1, w1)))))"

definition browse_existing ::
  "'w browse_env \<Rightarrow> int \<Rightarrow> string \<Rightarrow> string \<Rightarrow> string option \<Rightarrow> string option \<Rightarrow> u32 \<Rightarrow> bool \<Rightarrow>
     manager \<Rightarrow> 'w \<Rightarrow> browse_page rpc \<times> manager \<times> 'w" where
  "browse_existing env now server sid parent token psize refresh m0 w =
     (let key = \<lparr>pk_parent_node_key = parent, pk_page_token = token, pk_page_size = psize\<rparr> in
      case prepare now server sid key refresh m0 of
        (Inl e, m) \<Rightarrow> (Inl e, m, w)
      | (Inr (native_sid, native_parent, native_token, cached), m) \<Rightarrow>
          (case cached of
             Some page \<Rightarrow> (Inr page, m, w)
           | None \<Rightarrow>
               (case recheck now sid key refresh m of
                  (Inl e, m1) \<Rightarrow> (Inl e, m1, w)
                | (Inr (Some page), m1) \<Rightarrow> (Inr page, m1, w)
                | (Inr None, m1) \<Rightarrow>
                    fetch_page env now sid key refresh (native_sid, native_parent, native_token) m1 w)))"

text \<open>
  The session id of the call, a session opened for it when the caller has none, and whether it
  is temporary.
\<close>

definition browse ::
  "'w browse_env \<Rightarrow> int \<Rightarrow> string \<Rightarrow> string option \<Rightarrow> string option \<Rightarrow> string option \<Rightarrow> u32 \<Rightarrow> bool \<Rightarrow>
     manager \<Rightarrow> 'w \<Rightarrow> (string \<times> browse_page) rpc \<times> manager \<times> 'w" where
  "browse env now server session_id parent token page_size refresh m0 w0 =
     (case expire env now m0 w0 of
        (Inl e, m, w) \<Rightarrow> (Inl e, m, w)
      | (Inr _, m, w) \<Rightarrow>
          (case normalize_page_size page_size of
             Inl e \<Rightarrow> (Inl e, m, w)
           | Inr psize \<Rightarrow>
               if refresh \<and> token \<noteq> None
               then (Inl (Status InvalidArgument
                       ''refresh cannot be combined with a browse page token''), m, w)
               else
                 (case (case session_id of
                          Some sid \<Rightarrow> (Inr sid, m, w)
                        | None \<Rightarrow> open_session env now server m w) of
                    (Inl e, m1, w1) \<Rightarrow> (Inl e, m1, w1)
                  | (Inr sid, m1, w1) \<Rightarrow>
                      (case browse_existing env now server sid parent token psize refresh m1 w1 of
                         (Inr page, m2, w2) \<Rightarrow> (Inr (sid, page), m2, w2)
                       | (Inl e, m2, w2) \<Rightarrow>
                           if session_id = None
                           then (case close_session env sid m2 w2 of (_, m3, w3) \<Rightarrow> (Inl e, m3, w3))
                           else (Inl e, m2, w2)))))"

section \<open>Well-formedness\<close>

text \<open>
  A cache and its order list hold the same keys, each once, within the capacity.
\<close>

definition pages_wf :: "session \<Rightarrow> bool" where
  "pages_wf s \<longleftrightarrow> hm_wf (ses_pages s) \<and> distinct (ses_page_order s) \<and>
     set (ses_page_order s) = hm_keys (ses_pages s) \<and>
     length (ses_page_order s) \<le> MAX_CACHED_PAGES_PER_SESSION"

definition bindings_wf :: "session \<Rightarrow> bool" where
  "bindings_wf s \<longleftrightarrow> hm_wf (ses_page_bindings s) \<and> distinct (ses_page_binding_order s) \<and>
     set (ses_page_binding_order s) = hm_keys (ses_page_bindings s) \<and>
     length (ses_page_binding_order s) \<le> MAX_PAGE_BINDINGS_PER_SESSION"

definition nodes_wf :: "session \<Rightarrow> bool" where
  "nodes_wf s \<longleftrightarrow> hm_wf (ses_node_bindings s) \<and>
     length (ses_node_bindings s) \<le> MAX_NODE_BINDINGS_PER_SESSION"

text \<open>Every token of a session was issued before.\<close>

definition tokens_issued :: "(nat \<Rightarrow> string) \<Rightarrow> nat \<Rightarrow> session \<Rightarrow> bool" where
  "tokens_issued tok n s \<longleftrightarrow>
     hm_keys (ses_node_bindings s) \<union> hm_keys (ses_page_bindings s) \<subseteq> tok ` {..<n}"

definition session_wf :: "(nat \<Rightarrow> string) \<Rightarrow> nat \<Rightarrow> session \<Rightarrow> bool" where
  "session_wf tok n s \<longleftrightarrow> pages_wf s \<and> bindings_wf s \<and> nodes_wf s \<and> tokens_issued tok n s"

definition manager_wf :: "(nat \<Rightarrow> string) \<Rightarrow> manager \<Rightarrow> bool" where
  "manager_wf tok m \<longleftrightarrow> hm_wf (mgr_sessions m) \<and> length (mgr_sessions m) \<le> MAX_ACTIVE_SESSIONS \<and>
     (\<forall>(_, s) \<in> set (mgr_sessions m). session_wf tok (mgr_issued m) s)"

definition manager_init :: "manager \<Rightarrow> bool" where
  "manager_init m \<longleftrightarrow> m = \<lparr>mgr_sessions = [], mgr_poisoned = False, mgr_issued = 0\<rparr>"

lemmas session_wf_defs = session_wf_def pages_wf_def bindings_wf_def nodes_wf_def tokens_issued_def

subsection \<open>The two caches of a session\<close>

lemma cache_page_eq:
  assumes "pages_wf s"
  shows "cache_page k p s =
    (let E = evict_oldest MAX_CACHED_PAGES_PER_SESSION (removeAll k (ses_page_order s) @ [k])
               (AList.update k p (ses_pages s))
     in s\<lparr>ses_pages := snd E, ses_page_order := fst E\<rparr>)"
proof -
  have "(if map_of (ses_pages s) k \<noteq> None then filter (\<lambda>e. e \<noteq> k) (ses_page_order s)
         else ses_page_order s) = removeAll k (ses_page_order s)"
    using assms
    by (cases "k \<in> hm_keys (ses_pages s)")
       (auto simp: pages_wf_def removeAll_filter_not_eq map_of_eq_None_iff dest!: key_map_of
          intro!: filter_cong filter_True [symmetric])
  then show ?thesis
    by (simp add: cache_page_def Let_def case_prod_beta)
qed

lemma cache_page_wf [wf_intros]:
  assumes "pages_wf s"
  shows "pages_wf (cache_page k p s)"
proof -
  let ?q = "removeAll k (ses_page_order s) @ [k]" and ?m = "AList.update k p (ses_pages s)"
  have "distinct ?q" and "set ?q = hm_keys ?m"
    using assms by (auto simp: pages_wf_def distinct_removeAll)
  note sync = evict_sync [OF this]
  show ?thesis
    using assms sync by (simp add: cache_page_eq Let_def) (simp add: pages_wf_def evict_wf)
qed

lemma cache_page_frame [simp]:
  "ses_server (cache_page k p s) = ses_server s"
  "ses_native_session_id (cache_page k p s) = ses_native_session_id s"
  "ses_last_used (cache_page k p s) = ses_last_used s"
  "ses_node_bindings (cache_page k p s) = ses_node_bindings s"
  "ses_page_bindings (cache_page k p s) = ses_page_bindings s"
  "ses_page_binding_order (cache_page k p s) = ses_page_binding_order s"
  by (simp_all add: cache_page_def Let_def case_prod_beta)

lemma bind_page_eq:
  "bind_page k b s =
    (let E = evict_oldest MAX_PAGE_BINDINGS_PER_SESSION (ses_page_binding_order s @ [k])
               (AList.update k b (ses_page_bindings s))
     in s\<lparr>ses_page_bindings := snd E, ses_page_binding_order := fst E\<rparr>)"
  by (simp add: bind_page_def Let_def case_prod_beta)

lemma bind_page_wf [wf_intros]:
  assumes "bindings_wf s" and "k \<notin> set (ses_page_binding_order s)"
  shows "bindings_wf (bind_page k b s)"
proof -
  let ?q = "ses_page_binding_order s @ [k]" and ?m = "AList.update k b (ses_page_bindings s)"
  have "distinct ?q" and "set ?q = hm_keys ?m"
    using assms by (auto simp: bindings_wf_def)
  note sync = evict_sync [OF this]
  show ?thesis
    using assms sync by (simp add: bind_page_eq Let_def) (simp add: bindings_wf_def evict_wf)
qed

lemma bind_page_frame [simp]:
  "ses_server (bind_page k b s) = ses_server s"
  "ses_native_session_id (bind_page k b s) = ses_native_session_id s"
  "ses_last_used (bind_page k b s) = ses_last_used s"
  "ses_node_bindings (bind_page k b s) = ses_node_bindings s"
  "ses_pages (bind_page k b s) = ses_pages s"
  "ses_page_order (bind_page k b s) = ses_page_order s"
  by (simp_all add: bind_page_eq Let_def)

text \<open>Both are bounded caches; a continuation token is bound under a fresh name.\<close>

interpretation page_cache: bounded_cache MAX_CACHED_PAGES_PER_SESSION pages_wf ses_page_order
  "\<lambda>s. map_of (ses_pages s)" cache_page "\<lambda>_ _. True"
proof unfold_locales
  fix c :: session and k k' v
  assume wf: "pages_wf c" and k': "k' \<in> set (ses_page_order (cache_page k v c))"
  let ?q = "removeAll k (ses_page_order c) @ [k]"
  let ?n = "length ?q - MAX_CACHED_PAGES_PER_SESSION"
  have "distinct ?q" using wf by (simp add: pages_wf_def distinct_removeAll)
  then have "set (take ?n ?q) \<inter> set (drop ?n ?q) = {}"
    by (rule set_take_disj_set_drop_if_distinct) simp
  with wf k' have "k' \<notin> set (take ?n ?q)"
    by (auto simp: cache_page_eq Let_def evict_order)
  with wf show "map_of (ses_pages (cache_page k v c)) k' =
      (if k' = k then Some v else map_of (ses_pages c) k')"
    by (simp add: cache_page_eq Let_def evict_lookup hmap_simps)
next
  fix c :: session and k v
  assume wf: "pages_wf c"
  then show "pages_wf (cache_page k v c)" by (rule cache_page_wf)
  from wf show "ses_page_order (cache_page k v c) =
      drop (Suc (length (removeAll k (ses_page_order c))) - MAX_CACHED_PAGES_PER_SESSION)
        (removeAll k (ses_page_order c) @ [k])"
    by (simp add: cache_page_eq Let_def evict_order)
qed (simp_all add: MAX_CACHED_PAGES_PER_SESSION_def pages_wf_def dom_map_of_conv_image_fst)

interpretation continuation_cache: bounded_cache MAX_PAGE_BINDINGS_PER_SESSION bindings_wf
  ses_page_binding_order "\<lambda>s. map_of (ses_page_bindings s)" bind_page
  "\<lambda>s k. k \<notin> set (ses_page_binding_order s)"
proof unfold_locales
  fix c :: session and k k' v
  assume wf: "bindings_wf c" and k: "k \<notin> set (ses_page_binding_order c)"
    and k': "k' \<in> set (ses_page_binding_order (bind_page k v c))"
  let ?q = "ses_page_binding_order c @ [k]"
  let ?n = "length ?q - MAX_PAGE_BINDINGS_PER_SESSION"
  have "distinct ?q" using wf k by (simp add: bindings_wf_def)
  then have "set (take ?n ?q) \<inter> set (drop ?n ?q) = {}"
    by (rule set_take_disj_set_drop_if_distinct) simp
  with k' have "k' \<notin> set (take ?n ?q)"
    by (auto simp: bind_page_eq Let_def evict_order)
  then show "map_of (ses_page_bindings (bind_page k v c)) k' =
      (if k' = k then Some v else map_of (ses_page_bindings c) k')"
    by (simp add: bind_page_eq Let_def evict_lookup hmap_simps)
next
  fix c :: session and k v
  assume wf: "bindings_wf c" and k: "k \<notin> set (ses_page_binding_order c)"
  then show "bindings_wf (bind_page k v c)" by (rule bind_page_wf)
  from k show "ses_page_binding_order (bind_page k v c) =
      drop (Suc (length (removeAll k (ses_page_binding_order c))) - MAX_PAGE_BINDINGS_PER_SESSION)
        (removeAll k (ses_page_binding_order c) @ [k])"
    by (simp add: bind_page_eq Let_def evict_order)
qed (simp_all add: MAX_PAGE_BINDINGS_PER_SESSION_def bindings_wf_def dom_map_of_conv_image_fst)

subsection \<open>Session operations preserve well-formedness\<close>

lemma touch_wf [simp]: "session_wf tok n (touch now s) = session_wf tok n s"
  by (simp add: touch_def session_wf_defs)

lemma touch_fields [simp]:
  "ses_server (touch now s) = ses_server s"
  "ses_native_session_id (touch now s) = ses_native_session_id s"
  "ses_last_used (touch now s) = now"
  "ses_node_bindings (touch now s) = ses_node_bindings s"
  "ses_page_bindings (touch now s) = ses_page_bindings s"
  "ses_page_binding_order (touch now s) = ses_page_binding_order s"
  "ses_pages (touch now s) = ses_pages s"
  "ses_page_order (touch now s) = ses_page_order s"
  by (simp_all add: touch_def)

lemma resolve_touch [simp]:
  "resolve_parent (touch now s) parent = resolve_parent s parent"
  "resolve_token (touch now s) key = resolve_token s key"
  by (cases parent; simp add: resolve_parent_def)
     (cases "pk_page_token key"; simp add: resolve_token_def)

lemma session_new_wf [wf_intros]: "session_wf tok n (session_new now server native)"
  by (simp add: session_new_def session_wf_defs)

lemma invalidate_parent_wf [wf_intros]:
  assumes "session_wf tok n s"
  shows "session_wf tok n (invalidate_parent parent s)"
proof -
  let ?b = "filter (\<lambda>(_, b). pb_parent_node_key b \<noteq> parent) (ses_page_bindings s)"
  have "{t \<in> set (ses_page_binding_order s). map_of ?b t \<noteq> None} = hm_keys ?b"
    using assms by (auto simp: session_wf_defs map_of_eq_None_iff dest!: key_map_of)
  moreover have "length (filter P (ses_page_binding_order s)) \<le> MAX_PAGE_BINDINGS_PER_SESSION"
    and "length (filter Q (ses_page_order s)) \<le> MAX_CACHED_PAGES_PER_SESSION" for P Q
    using assms le_trans [OF length_filter_le] by (auto simp: session_wf_defs)
  ultimately show ?thesis
    using assms by (auto simp: session_wf_defs invalidate_parent_def Let_def)
qed

lemma tokens_issued_mono:
  assumes "session_wf tok n s" and "n \<le> n'"
  shows "session_wf tok n' s"
proof -
  have "tok ` {..<n} \<subseteq> tok ` {..<n'}" using assms(2) by (intro image_mono) auto
  then show ?thesis using assms(1) by (simp add: session_wf_def tokens_issued_def) (meson subset_trans)
qed

lemma bind_nodes_counter: "fst (bind_nodes tok n nodes b) = n + length nodes"
  by (induction tok n nodes b rule: bind_nodes.induct) (simp_all add: Let_def case_prod_beta)

lemma bind_nodes_bindings_wf: "hm_wf b \<Longrightarrow> hm_wf (snd (snd (bind_nodes tok n nodes b)))"
  by (induction tok n nodes b rule: bind_nodes.induct) (simp_all add: Let_def case_prod_beta)

lemma bind_nodes_keys:
  "hm_keys (snd (snd (bind_nodes tok n nodes b))) = hm_keys b \<union> tok ` {n..<n + length nodes}"
proof (induction tok n nodes b rule: bind_nodes.induct)
  case (2 tok n node nodes b)
  have "{n..<n + length (node # nodes)} = insert n {Suc n..<Suc n + length nodes}" by auto
  with 2 show ?case by (simp add: Let_def case_prod_beta)
qed simp

lemma bind_nodes_length:
  "length (snd (snd (bind_nodes tok n nodes b))) \<le> length b + length nodes"
proof (induction tok n nodes b rule: bind_nodes.induct)
  case (2 tok n node nodes b)
  then show ?case
    using length_update_le [of "tok n" "bn_node_key node" b]
    by (simp add: Let_def case_prod_beta)
qed simp

lemma bind_nodes_old:
  "k \<notin> tok ` {n..<n + length nodes} \<Longrightarrow>
     map_of (snd (snd (bind_nodes tok n nodes b))) k = map_of b k"
  by (induction tok n nodes b rule: bind_nodes.induct)
     (auto simp: Let_def case_prod_beta hmap_simps image_iff)

text \<open>
  Each returned node carries a new key, and that key is bound to the native key of the node.
\<close>

lemma bind_nodes_nth:
  assumes "inj tok" and "i < length nodes"
  shows "fst (snd (bind_nodes tok n nodes b)) ! i = (nodes ! i)\<lparr>bn_node_key := tok (n + i)\<rparr>"
    and "map_of (snd (snd (bind_nodes tok n nodes b))) (tok (n + i)) = Some (bn_node_key (nodes ! i))"
  using assms
proof (induction tok n nodes b arbitrary: i rule: bind_nodes.induct)
  case (2 tok n node nodes b)
  {
    case 1
    with 2 show ?case by (cases i) (simp_all add: Let_def case_prod_beta)
  next
    case 2
    show ?case
    proof (cases i)
      case 0
      have "tok n \<notin> tok ` {Suc n..<Suc n + length nodes}"
        using \<open>inj tok\<close> by (auto dest: injD)
      with 0 show ?thesis
        by (simp add: Let_def case_prod_beta bind_nodes_old hmap_simps)
    next
      case (Suc j)
      with 2 "2.IH" show ?thesis by (simp add: Let_def case_prod_beta)
    qed
  }
qed simp_all

lemma bind_nodes_list_length: "length (fst (snd (bind_nodes tok n nodes b))) = length nodes"
  by (induction tok n nodes b rule: bind_nodes.induct) (simp_all add: Let_def case_prod_beta)

lemmas bind_nodes_facts =
  bind_nodes_counter bind_nodes_bindings_wf bind_nodes_keys bind_nodes_old bind_nodes_list_length

lemma bind_continuation_wf:
  assumes "inj tok" and "session_wf tok n s"
  shows "session_wf tok (fst (bind_continuation tok n key native s))
           (snd (snd (bind_continuation tok n key native s)))"
    and "n \<le> fst (bind_continuation tok n key native s)"
proof -
  have fresh: "tok n \<notin> set (ses_page_binding_order s)"
  proof
    assume "tok n \<in> set (ses_page_binding_order s)"
    then have "tok n \<in> tok ` {..<n}" using assms(2) by (auto simp: session_wf_defs)
    then show False using assms(1) by (auto dest: injD)
  qed
  have "session_wf tok (Suc n) (bind_page (tok n) b s)" for b
  proof -
    have "bindings_wf (bind_page (tok n) b s)"
      using assms(2) fresh by (intro bind_page_wf) (simp_all add: session_wf_def)
    moreover have old: "session_wf tok (Suc n) s" using assms(2) by (rule tokens_issued_mono) simp
    moreover have "hm_keys (ses_page_bindings (bind_page (tok n) b s)) \<subseteq> tok ` {..<Suc n}"
    proof -
      have "hm_keys (ses_page_bindings (bind_page (tok n) b s)) \<subseteq>
          insert (tok n) (hm_keys (ses_page_bindings s))"
        by (auto simp: bind_page_eq Let_def evict_keys)
      also have "\<dots> \<subseteq> tok ` {..<Suc n}"
        using old by (simp add: session_wf_def tokens_issued_def)
      finally show ?thesis .
    qed
    ultimately show ?thesis
      by (simp add: session_wf_def pages_wf_def nodes_wf_def tokens_issued_def)
  qed
  then show "session_wf tok (fst (bind_continuation tok n key native s))
           (snd (snd (bind_continuation tok n key native s)))"
    using assms(2) by (cases native) (simp_all add: bind_continuation_def)
  show "n \<le> fst (bind_continuation tok n key native s)"
    by (cases native) (simp_all add: bind_continuation_def)
qed

lemma commit_page_wf:
  assumes "inj tok" and wf: "session_wf tok n s"
    and room: "length (ses_node_bindings s) + length (bp_nodes native) \<le> MAX_NODE_BINDINGS_PER_SESSION"
    and commit: "commit_page tok key native n s = (n', page, s')"
  shows "session_wf tok n' s'" and "n \<le> n'"
proof -
  let ?B = "bind_nodes tok n (bp_nodes native) (ses_node_bindings s)"
  let ?s1 = "s\<lparr>ses_node_bindings := snd (snd ?B)\<rparr>" and ?n1 = "fst ?B"
  let ?C = "bind_continuation tok ?n1 key (bp_next_page_token native) ?s1"
  have "tok ` {..<n} \<union> tok ` {n..<n + length (bp_nodes native)} = tok ` {..<?n1}"
    by (simp add: bind_nodes_counter ivl_disj_un_one(2) flip: image_Un)
  moreover have "session_wf tok ?n1 s"
    using wf by (rule tokens_issued_mono) (simp add: bind_nodes_counter)
  moreover have "length (snd (snd ?B)) \<le> MAX_NODE_BINDINGS_PER_SESSION"
    using room bind_nodes_length [of tok n "bp_nodes native" "ses_node_bindings s"] by linarith
  ultimately have s1: "session_wf tok ?n1 ?s1"
    using wf by (auto simp: session_wf_defs bind_nodes_keys bind_nodes_bindings_wf)
  have s': "s' = cache_page key page (snd (snd ?C))" and n': "n' = fst ?C"
    using commit by (auto simp: commit_page_def Let_def case_prod_beta)
  have "session_wf tok n' (snd (snd ?C))"
    using bind_continuation_wf(1) [OF assms(1) s1] n' by simp
  then show "session_wf tok n' s'"
    using cache_page_wf by (simp add: s' session_wf_def bindings_wf_def nodes_wf_def tokens_issued_def)
  show "n \<le> n'"
    using bind_continuation_wf(2) [OF assms(1) s1, of key "bp_next_page_token native"] n'
    by (simp add: bind_nodes_counter)
qed

subsection \<open>The critical sections preserve well-formedness\<close>

lemma manager_wf_session:
  "manager_wf tok m \<Longrightarrow> map_of (mgr_sessions m) sid = Some s \<Longrightarrow> session_wf tok (mgr_issued m) s"
  by (auto simp: manager_wf_def dest!: map_of_SomeD)

lemma set_updateD: "(k', v') \<in> set (AList.update k v m) \<Longrightarrow> k' = k \<and> v' = v \<or> (k', v') \<in> set m"
  by (induction m) (auto split: if_splits)

lemma put_session_wf [wf_intros]:
  assumes "manager_wf tok m" and "map_of (mgr_sessions m) sid = Some s0" and "session_wf tok (mgr_issued m) s"
  shows "manager_wf tok (put_session sid s m)"
proof -
  have "length (AList.update sid s (mgr_sessions m)) = length (mgr_sessions m)"
    using assms(2) by (intro length_update_old) (rule map_of_Some_key)
  then show ?thesis
    using assms by (auto simp: manager_wf_def put_session_def dest!: set_updateD)
qed

lemma put_session_fields [simp]:
  "mgr_poisoned (put_session sid s m) = mgr_poisoned m"
  "mgr_issued (put_session sid s m) = mgr_issued m"
  "map_of (mgr_sessions (put_session sid s m)) sid' =
     (if sid' = sid then Some s else map_of (mgr_sessions m) sid')"
  by (simp_all add: put_session_def hmap_simps)

lemma issued_wf [wf_intros]:
  "manager_wf tok m \<Longrightarrow> mgr_issued m \<le> n \<Longrightarrow> manager_wf tok (m\<lparr>mgr_issued := n\<rparr>)"
  by (auto simp: manager_wf_def intro: tokens_issued_mono)

lemma remove_expired_wf [wf_intros]:
  "manager_wf tok m \<Longrightarrow> manager_wf tok (snd (remove_expired imin now m))"
  using le_trans [OF length_filter_le]
  by (auto simp: remove_expired_def manager_wf_def Let_def)

lemma admit_session_wf [wf_intros]:
  assumes "manager_wf tok m"
  shows "manager_wf tok (snd (admit_session tok now server native m))"
proof -
  let ?m = "m\<lparr>mgr_issued := Suc (mgr_issued m)\<rparr>"
  have wf: "manager_wf tok ?m" using assms by (rule issued_wf) simp
  show ?thesis
    using wf length_update_le [of "tok (mgr_issued m)" "session_new now server native" "mgr_sessions m"]
    by (auto simp: admit_session_def Let_def manager_wf_def intro: session_new_wf dest!: set_updateD)
qed

lemma prepare_wf [wf_intros]:
  assumes "manager_wf tok m"
  shows "manager_wf tok (snd (prepare now server sid key refresh m))"
  using assms manager_wf_session [OF assms, of sid]
  by (auto simp: prepare_def Let_def split: option.splits sum.splits
      intro!: put_session_wf invalidate_parent_wf)

lemma recheck_wf [wf_intros]:
  assumes "manager_wf tok m"
  shows "manager_wf tok (snd (recheck now sid key refresh m))"
  using assms manager_wf_session [OF assms, of sid]
  by (auto simp: recheck_def Let_def split: option.splits intro!: put_session_wf)

lemma commit_wf [wf_intros]:
  assumes "inj tok" and wf: "manager_wf tok m"
  shows "manager_wf tok (snd (commit tok now sid key native m))"
proof (cases "mgr_poisoned m \<or> map_of (mgr_sessions m) sid = None")
  case True
  then show ?thesis using wf by (auto simp: commit_def)
next
  case False
  then obtain s where s: "map_of (mgr_sessions m) sid = Some s" and np: "\<not> mgr_poisoned m" by auto
  have ses: "session_wf tok (mgr_issued m) (touch now s)"
    using manager_wf_session [OF wf s] by simp
  obtain n page s' where c: "commit_page tok key native (mgr_issued m) (touch now s) = (n, page, s')"
    by (metis prod_cases3)
  show ?thesis
  proof (cases "length (ses_node_bindings s) + length (bp_nodes native) \<le> MAX_NODE_BINDINGS_PER_SESSION")
    case True
    note cwf = commit_page_wf [OF assms(1) ses _ c]
    have "manager_wf tok (m\<lparr>mgr_issued := n\<rparr>)" and "session_wf tok n s'"
      using True cwf wf by (simp_all add: issued_wf)
    then have "manager_wf tok (put_session sid s' (m\<lparr>mgr_issued := n\<rparr>))"
      using s by (simp add: put_session_wf)
    moreover have "put_session sid s' (m\<lparr>mgr_issued := n\<rparr>) = (put_session sid s' m)\<lparr>mgr_issued := n\<rparr>"
      by (cases m) (simp add: put_session_def)
    ultimately show ?thesis
      using True np s c by (simp add: commit_def)
  next
    case False
    then show ?thesis
      using np s wf ses by (simp add: commit_def put_session_wf)
  qed
qed

lemma remove_session_wf [wf_intros]:
  assumes "manager_wf tok m"
  shows "manager_wf tok (snd (remove_session sid m))"
proof -
  have "set (AList.delete sid (mgr_sessions m)) \<subseteq> set (mgr_sessions m)"
    by (auto simp: AList.delete_eq)
  then show ?thesis
    using assms length_delete_le [of sid "mgr_sessions m"]
    by (auto simp: remove_session_def manager_wf_def)
qed

section \<open>Concurrent requests\<close>

text \<open>
  Requests run concurrently, and each holds the manager's lock for one critical section at a
  time. A step is one critical section of some request, with any arguments and at any time, so a
  run of steps is any interleaving of the blocks of any number of requests.
\<close>

inductive manager_step :: "int \<Rightarrow> (nat \<Rightarrow> string) \<Rightarrow> manager \<Rightarrow> manager \<Rightarrow> bool"
  for instant_min tok where
  step_expire: "manager_step instant_min tok m (snd (remove_expired instant_min now m))"
| step_admit: "manager_step instant_min tok m (snd (admit_session tok now server native m))"
| step_prepare: "manager_step instant_min tok m (snd (prepare now server sid key refresh m))"
| step_recheck: "manager_step instant_min tok m (snd (recheck now sid key refresh m))"
| step_commit: "manager_step instant_min tok m (snd (commit tok now sid key page m))"
| step_remove: "manager_step instant_min tok m (snd (remove_session sid m))"

inductive_cases manager_stepE: "manager_step instant_min tok m m'"

lemma manager_step_wf: "manager_step imin tok m m' \<Longrightarrow> inj tok \<and> manager_wf tok m \<Longrightarrow> inj tok \<and> manager_wf tok m'"
  by (erule manager_stepE) (auto intro: wf_intros)

interpretation browse_system: invariant_system "\<lambda>m. inj tok \<and> manager_init m" "manager_step imin tok"
  "\<lambda>m. inj tok \<and> manager_wf tok m" for imin tok
proof unfold_locales
  fix m assume "inj tok \<and> manager_init m"
  then show "inj tok \<and> manager_wf tok m" by (simp add: manager_init_def manager_wf_def)
qed (rule manager_step_wf)

text \<open>The composed operations are runs of such steps.\<close>

lemma manager_stepI:
  "remove_expired imin now m = (x1, m') \<Longrightarrow> manager_step imin tok m m'"
  "admit_session tok now server native m = (x2, m') \<Longrightarrow> manager_step imin tok m m'"
  "prepare now server sid key refresh m = (x3, m') \<Longrightarrow> manager_step imin tok m m'"
  "recheck now sid key refresh m = (x4, m') \<Longrightarrow> manager_step imin tok m m'"
  "commit tok now sid key page m = (x5, m') \<Longrightarrow> manager_step imin tok m m'"
  "remove_session sid m = (x6, m') \<Longrightarrow> manager_step imin tok m m'"
  by (metis step_expire snd_conv, metis step_admit snd_conv, metis step_prepare snd_conv,
      metis step_recheck snd_conv, metis step_commit snd_conv, metis step_remove snd_conv)

lemma steps1: "r a b \<Longrightarrow> r\<^sup>*\<^sup>* b c \<Longrightarrow> r\<^sup>*\<^sup>* a c" for r :: "'a \<Rightarrow> 'a \<Rightarrow> bool"
  by (rule converse_rtranclp_into_rtranclp)

lemma expire_steps:
  assumes "expire env now m w = (r, m', w')"
  shows "(manager_step (env_instant_min env) tok)\<^sup>*\<^sup>* m m'"
proof -
  have "\<exists>x. remove_expired (env_instant_min env) now m = (x, m')"
    using assms by (auto simp: expire_def split: prod.splits sum.splits)
  then show ?thesis by (auto intro: manager_stepI(1))
qed

lemma open_session_steps:
  assumes "open_session env now server m w = (r, m', w')"
  shows "(manager_step (env_instant_min env) (env_token env))\<^sup>*\<^sup>* m m'"
proof -
  obtain r1 m1 w1 where e: "expire env now m w = (r1, m1, w1)" by (metis prod_cases3)
  have "m' = m1 \<or> (\<exists>native x. admit_session (env_token env) now server native m1 = (x, m'))"
    using assms e by (auto simp: open_session_def split: prod.splits sum.splits option.splits)
  then have "(manager_step (env_instant_min env) (env_token env))\<^sup>*\<^sup>* m1 m'"
    by (auto intro: manager_stepI(2))
  with expire_steps [OF e] show ?thesis by (rule rtranclp_trans)
qed

lemma close_session_steps:
  assumes "close_session env sid m w = (r, m', w')"
  shows "(manager_step imin tok)\<^sup>*\<^sup>* m m'"
proof -
  have "m' = m \<or> (\<exists>x. remove_session sid m = (x, m'))"
    using assms by (auto simp: close_session_def split: prod.splits sum.splits)
  then show ?thesis by (auto intro: manager_stepI(6))
qed

lemma fetch_page_steps:
  assumes "fetch_page env now sid key refresh native m w = (r, m', w')"
  shows "(manager_step imin (env_token env))\<^sup>*\<^sup>* m m'"
proof -
  have "m' = m \<or> (\<exists>page x. commit (env_token env) now sid key page m = (x, m'))"
    using assms by (auto simp: fetch_page_def split: prod.splits sum.splits)
  then show ?thesis by (auto intro: manager_stepI(5))
qed

lemma browse_existing_steps:
  assumes "browse_existing env now server sid parent token psize refresh m w = (r, m', w')"
  shows "(manager_step imin (env_token env))\<^sup>*\<^sup>* m m'"
proof -
  let ?key = "\<lparr>pk_parent_node_key = parent, pk_page_token = token, pk_page_size = psize\<rparr>"
  let ?R = "(manager_step imin (env_token env))\<^sup>*\<^sup>*"
  obtain x1 m1 where p: "prepare now server sid ?key refresh m = (x1, m1)" by (metis surj_pair)
  obtain x2 m2 where r: "recheck now sid ?key refresh m1 = (x2, m2)" by (metis surj_pair)
  have "m' = m1 \<or> m' = m2 \<or>
      (\<exists>native. fetch_page env now sid ?key refresh native m2 w = (r, m', w'))"
    using assms p r by (auto simp: browse_existing_def Let_def split: prod.splits sum.splits option.splits)
  moreover have "?R m1 m2" using r by (auto intro: manager_stepI(4))
  ultimately have "?R m1 m'"
    by (auto intro: rtranclp_trans dest!: fetch_page_steps [where imin = imin])
  with manager_stepI(3) [OF p] show ?thesis by (rule steps1)
qed

lemma browse_steps:
  assumes "browse env now server session_id parent token psize refresh m w = (r, m', w')"
  shows "(manager_step (env_instant_min env) (env_token env))\<^sup>*\<^sup>* m m'"
proof -
  let ?R = "(manager_step (env_instant_min env) (env_token env))\<^sup>*\<^sup>*"
  obtain r1 m1 w1 where e: "expire env now m w = (r1, m1, w1)" by (metis prod_cases3)
  let ?o = "case session_id of Some sid \<Rightarrow> (Inr sid, m1, w1) | None \<Rightarrow> open_session env now server m1 w1"
  obtain r2 m2 w2 where o: "?o = (r2, m2, w2)" by (metis prod_cases3)
  have m2: "?R m1 m2"
    using o open_session_steps by (cases session_id) auto
  have "m' = m1 \<or> m' = m2 \<or>
      (\<exists>sid ps r3 m3 w3. browse_existing env now server sid parent token ps refresh m2 w2 = (r3, m3, w3) \<and>
         (m' = m3 \<or> (\<exists>r4 w4. close_session env sid m3 w3 = (r4, m', w4))))"
    using assms e o
    by (auto simp: browse_def split: prod.splits sum.splits if_splits option.splits; blast)
  then have "?R m1 m'"
    using m2 by (auto intro: rtranclp_trans dest!: browse_existing_steps close_session_steps)
  with expire_steps [OF e] show ?thesis by (rule rtranclp_trans)
qed

section \<open>What a successful call leaves behind\<close>

lemma prepare_Inr:
  assumes "prepare now server sid key refresh m = (Inr (native_sid, np, nt, cached), m')"
  obtains s where "\<not> mgr_poisoned m" and "map_of (mgr_sessions m) sid = Some s"
    and "ses_server s = server" and "native_sid = ses_native_session_id s"
    and "resolve_parent s (pk_parent_node_key key) = Inr np" and "resolve_token s key = Inr nt"
    and "cached = (if refresh then None else map_of (ses_pages s) key)"
    and "m' = put_session sid (if refresh then invalidate_parent (pk_parent_node_key key) (touch now s)
                                else touch now s) m"
  using assms
  by (auto simp: prepare_def resolve_parent_def resolve_token_def Let_def
      split: if_splits option.splits sum.splits)

lemma commit_Inr:
  assumes "commit tok now sid key native m = (Inr page, m')"
  obtains s n s' where "\<not> mgr_poisoned m" and "map_of (mgr_sessions m) sid = Some s"
    and "length (ses_node_bindings s) + length (bp_nodes native) \<le> MAX_NODE_BINDINGS_PER_SESSION"
    and "commit_page tok key native (mgr_issued m) (touch now s) = (n, page, s')"
    and "m' = (put_session sid s' m)\<lparr>mgr_issued := n\<rparr>"
  using assms by (auto simp: commit_def Let_def split: if_splits option.splits prod.splits)

text \<open>What the commit of one native page does to its session.\<close>

lemma commit_page_pages:
  assumes "inj tok" and wf: "session_wf tok n s"
    and c: "commit_page tok key native n s = (n', page, s')"
  shows "map_of (ses_pages s') key = Some page"
proof -
  obtain s2 where s': "s' = cache_page key page s2" and "ses_pages s2 = ses_pages s"
      and "ses_page_order s2 = ses_page_order s"
    using c by (auto simp: commit_page_def bind_continuation_def Let_def case_prod_beta split: option.splits)
  then have "pages_wf s2" using wf by (simp add: session_wf_def pages_wf_def)
  then show ?thesis using page_cache.lookup_put_same s' by blast
qed

lemma commit_page_nodes:
  assumes "inj tok" and c: "commit_page tok key native n s = (n', page, s')"
    and "i < length (bp_nodes native)"
  shows "bp_nodes page ! i = (bp_nodes native ! i)\<lparr>bn_node_key := tok (n + i)\<rparr>"
    and "map_of (ses_node_bindings s') (tok (n + i)) = Some (bn_node_key (bp_nodes native ! i))"
proof -
  let ?B = "bind_nodes tok n (bp_nodes native) (ses_node_bindings s)"
  have "bp_nodes page = fst (snd ?B)" and "ses_node_bindings s' = snd (snd ?B)"
    using c by (auto simp: commit_page_def bind_continuation_def Let_def case_prod_beta split: option.splits)
  then show "bp_nodes page ! i = (bp_nodes native ! i)\<lparr>bn_node_key := tok (n + i)\<rparr>"
    and "map_of (ses_node_bindings s') (tok (n + i)) = Some (bn_node_key (bp_nodes native ! i))"
    using assms bind_nodes_nth by simp_all
qed

lemma commit_page_old_nodes:
  assumes "inj tok" and wf: "session_wf tok n s" and c: "commit_page tok key native n s = (n', page, s')"
    and "map_of (ses_node_bindings s) k = Some v"
  shows "map_of (ses_node_bindings s') k = Some v"
proof -
  let ?B = "bind_nodes tok n (bp_nodes native) (ses_node_bindings s)"
  have "ses_node_bindings s' = snd (snd ?B)"
    using c by (auto simp: commit_page_def bind_continuation_def Let_def case_prod_beta split: option.splits)
  moreover have "k \<in> tok ` {..<n}"
    using wf map_of_Some_key [OF assms(4)] by (auto simp: session_wf_def tokens_issued_def)
  then have "k \<notin> tok ` {n..<n + length (bp_nodes native)}"
    using assms(1) by (auto dest: injD)
  ultimately show ?thesis using assms(4) by (simp add: bind_nodes_old)
qed

lemma commit_page_continuation:
  assumes "inj tok" and wf: "session_wf tok n s"
    and c: "commit_page tok key native n s = (n', page, s')"
  shows "case bp_next_page_token native of
      None \<Rightarrow> bp_next_page_token page = None \<and> ses_page_bindings s' = ses_page_bindings s \<and>
        ses_page_binding_order s' = ses_page_binding_order s
    | Some native_token \<Rightarrow>
        (\<exists>t. bp_next_page_token page = Some t \<and> t \<notin> set (ses_page_binding_order s) \<and>
          map_of (ses_page_bindings s') t =
            Some \<lparr>pb_native_page_token = native_token, pb_parent_node_key = pk_parent_node_key key,
                  pb_page_size = pk_page_size key\<rparr> \<and>
          ses_page_binding_order s' =
            drop (Suc (length (ses_page_binding_order s)) - MAX_PAGE_BINDINGS_PER_SESSION)
              (ses_page_binding_order s @ [t]) \<and>
          (\<forall>t' \<in> set (ses_page_binding_order s'). t' \<noteq> t \<longrightarrow>
             map_of (ses_page_bindings s') t' = map_of (ses_page_bindings s) t'))"
proof (cases "bp_next_page_token native")
  case None
  then show ?thesis
    using c by (auto simp: commit_page_def bind_continuation_def Let_def case_prod_beta)
next
  case (Some native_token)
  let ?n1 = "n + length (bp_nodes native)"
  let ?b = "\<lparr>pb_native_page_token = native_token, pb_parent_node_key = pk_parent_node_key key,
              pb_page_size = pk_page_size key\<rparr>"
  define s1 where "s1 = s\<lparr>ses_node_bindings :=
    snd (snd (bind_nodes tok n (bp_nodes native) (ses_node_bindings s)))\<rparr>"
  then have s1: "ses_page_bindings s1 = ses_page_bindings s"
      "ses_page_binding_order s1 = ses_page_binding_order s"
    by simp_all
  have s': "s' = cache_page key page (bind_page (tok ?n1) ?b s1)"
    and t: "bp_next_page_token page = Some (tok ?n1)"
    using c Some unfolding s1_def
    by (auto simp: commit_page_def bind_continuation_def Let_def case_prod_beta bind_nodes_counter)
  have fresh: "tok ?n1 \<notin> set (ses_page_binding_order s1)"
  proof
    assume "tok ?n1 \<in> set (ses_page_binding_order s1)"
    then have "tok ?n1 \<in> tok ` {..<n}" using wf s1 by (auto simp: session_wf_defs)
    then show False using assms(1) by (auto dest: injD)
  qed
  have bwf: "bindings_wf s1" using wf s1 by (simp add: session_wf_def bindings_wf_def)
  show ?thesis
    using Some t fresh s1 s' continuation_cache.lookup_put_same [OF bwf fresh]
      continuation_cache.order_put [OF bwf fresh] continuation_cache.lookup_put [OF bwf fresh]
    by simp
qed

lemma commit_page_old_token:
  assumes "inj tok" and wf: "session_wf tok n s" and c: "commit_page tok key native n s = (n', page, s')"
    and t: "map_of (ses_page_bindings s) t = Some b"
    and room: "length (ses_page_bindings s) < MAX_PAGE_BINDINGS_PER_SESSION"
  shows "map_of (ses_page_bindings s') t = Some b"
proof -
  have "length (ses_page_binding_order s) = length (ses_page_bindings s)"
    using wf length_hm [of "ses_page_bindings s"] distinct_card [of "ses_page_binding_order s"]
    by (simp add: session_wf_defs)
  moreover have "t \<in> set (ses_page_binding_order s)"
    using wf map_of_Some_key [OF t] by (simp add: session_wf_defs)
  ultimately show ?thesis
    using commit_page_continuation [OF assms(1) wf c] t room
    by (cases "bp_next_page_token native") fastforce+
qed

text \<open>Both successful outcomes of \<open>browse_existing\<close>: a cache hit, or a page fetched and committed.\<close>

lemma browse_existing_Inr:
  assumes "browse_existing env now server sid parent token psize refresh m w = (Inr page, m', w')"
    and key: "key = \<lparr>pk_parent_node_key = parent, pk_page_token = token, pk_page_size = psize\<rparr>"
  obtains (hit) s np nt where "\<not> mgr_poisoned m" and "map_of (mgr_sessions m) sid = Some s"
      and "ses_server s = server" and "resolve_parent s parent = Inr np"
      and "resolve_token s key = Inr nt" and "\<not> refresh" and "map_of (ses_pages s) key = Some page"
      and "m' = put_session sid (touch now s) m" and "w' = w"
    | (fetched) s s1 np nt native n s' where "\<not> mgr_poisoned m"
      and "map_of (mgr_sessions m) sid = Some s" and "ses_server s = server"
      and "resolve_parent s parent = Inr np" and "resolve_token s key = Inr nt"
      and "\<not> refresh \<longrightarrow> map_of (ses_pages s) key = None"
      and "s1 = (if refresh then invalidate_parent parent (touch now s) else touch now s)"
      and "env_browse_page env w (ses_native_session_id s) np nt psize refresh = (Inr native, w')"
      and "check_native_page native = Inr ()"
      and "length (ses_node_bindings s1) + length (bp_nodes native) \<le> MAX_NODE_BINDINGS_PER_SESSION"
      and "commit_page (env_token env) key native (mgr_issued m) s1 = (n, page, s')"
      and "\<not> mgr_poisoned m'" and "map_of (mgr_sessions m') sid = Some s'" and "mgr_issued m' = n"
proof -
  obtain x m1 where p: "prepare now server sid key refresh m = (x, m1)" by (metis surj_pair)
  obtain native_sid np nt cached where x: "x = Inr (native_sid, np, nt, cached)"
    using assms(1) p unfolding key by (cases x) (auto simp: browse_existing_def)
  from p x obtain s where np: "\<not> mgr_poisoned m" and s: "map_of (mgr_sessions m) sid = Some s"
    and srv: "ses_server s = server" and nsid: "native_sid = ses_native_session_id s"
    and rp: "resolve_parent s parent = Inr np" and rt: "resolve_token s key = Inr nt"
    and cached: "cached = (if refresh then None else map_of (ses_pages s) key)"
    and m1: "m1 = put_session sid (if refresh then invalidate_parent parent (touch now s)
                                   else touch now s) m"
    using key by (auto elim: prepare_Inr)
  show thesis
  proof (cases cached)
    case (Some q)
    then have "page = q" "m' = m1" "w' = w"
      using assms(1) p x key by (auto simp: browse_existing_def)
    then show thesis
      using hit [of s np nt] np s srv rp rt Some cached m1 by (auto split: if_splits)
  next
    case None
    let ?s1 = "if refresh then invalidate_parent parent (touch now s) else touch now s"
    have tt: "touch now ?s1 = ?s1"
      by (simp add: touch_def invalidate_parent_def Let_def)
    have pg: "\<not> refresh \<longrightarrow> map_of (ses_pages s) key = None" using None cached by (simp split: if_splits)
    have r: "recheck now sid key refresh m1 = (Inr None, put_session sid ?s1 m1)"
      using m1 np pg tt by (auto simp: recheck_def Let_def)
    then have f: "fetch_page env now sid key refresh (native_sid, np, nt) (put_session sid ?s1 m1) w =
        (Inr page, m', w')"
      using assms(1) p x None key by (simp add: browse_existing_def)
    then obtain native where b: "env_browse_page env w native_sid np nt psize refresh = (Inr native, w')"
      and ck: "check_native_page native = Inr ()"
      and cm: "commit (env_token env) now sid key native (put_session sid ?s1 m1) = (Inr page, m')"
      using key by (auto simp: fetch_page_def split: prod.splits sum.splits)
    from cm show thesis
    proof (rule commit_Inr)
      fix s2 n s'
      assume "map_of (mgr_sessions (put_session sid ?s1 m1)) sid = Some s2"
        and room: "length (ses_node_bindings s2) + length (bp_nodes native) \<le> MAX_NODE_BINDINGS_PER_SESSION"
        and c: "commit_page (env_token env) key native (mgr_issued (put_session sid ?s1 m1))
                  (touch now s2) = (n, page, s')"
        and m': "m' = (put_session sid s' (put_session sid ?s1 m1))\<lparr>mgr_issued := n\<rparr>"
      then have "s2 = ?s1" by simp
      with c room m' m1 np s srv rp rt pg b ck nsid tt show thesis
        by (intro fetched [of s np nt ?s1 native n s']) simp_all
    qed
  qed
qed

section \<open>Continuation tokens of cached pages\<close>

text \<open>
  A page served from the cache is useful only while its continuation token is bound. The two
  caches are separate FIFO queues of the same capacity. When requests do not overlap, a page is
  never cached under a key that is already there, the tokens of the cached pages are a suffix of
  the binding queue, and so a page leaves its cache before its token leaves the other.
\<close>

definition cached_tokens :: "session \<Rightarrow> string list" where
  "cached_tokens s = concat (map (\<lambda>key. case map_of (ses_pages s) key of
       None \<Rightarrow> []
     | Some page \<Rightarrow> (case bp_next_page_token page of None \<Rightarrow> [] | Some t \<Rightarrow> [t])) (ses_page_order s))"

definition continuation_bound :: "session \<Rightarrow> page_key \<Rightarrow> string \<Rightarrow> bool" where
  "continuation_bound s key t \<longleftrightarrow>
     (case map_of (ses_page_bindings s) t of
        None \<Rightarrow> False
      | Some b \<Rightarrow> pb_parent_node_key b = pk_parent_node_key key \<and> pb_page_size b = pk_page_size key)"

definition continuations_ok :: "session \<Rightarrow> bool" where
  "continuations_ok s \<longleftrightarrow> suffix (cached_tokens s) (ses_page_binding_order s) \<and>
     (\<forall>(key, page) \<in> set (ses_pages s).
        \<forall>t \<in> set_option (bp_next_page_token page). continuation_bound s key t)"

lemma continuation_boundD: "continuation_bound s k t \<Longrightarrow> t \<in> hm_keys (ses_page_bindings s)"
  by (auto simp: continuation_bound_def intro: map_of_Some_key split: option.splits)

lemma continuation_bound_touch [simp]: "continuation_bound (touch now s) = continuation_bound s"
  by (simp add: continuation_bound_def fun_eq_iff)

lemma continuations_ok_touch [simp]: "continuations_ok (touch now s) = continuations_ok s"
  unfolding continuations_ok_def cached_tokens_def continuation_bound_touch by simp

lemma continuations_ok_new: "continuations_ok (session_new now server native)"
  by (simp add: continuations_ok_def cached_tokens_def session_new_def)

lemma continuations_okD:
  "continuations_ok s \<Longrightarrow> map_of (ses_pages s) key = Some page \<Longrightarrow> bp_next_page_token page = Some t \<Longrightarrow>
     continuation_bound s key t"
  by (fastforce simp: continuations_ok_def dest: map_of_SomeD)

lemma continuations_ok_invalidate:
  assumes ok: "continuations_ok s" and wf: "session_wf tok n s"
  shows "continuations_ok (invalidate_parent parent s)"
proof -
  let ?s = "invalidate_parent parent s"
  let ?P = "\<lambda>t. map_of (ses_page_bindings ?s) t \<noteq> None"
  let ?f = "\<lambda>s key. case map_of (ses_pages s) key of
       None \<Rightarrow> []
     | Some page \<Rightarrow> (case bp_next_page_token page of None \<Rightarrow> [] | Some t \<Rightarrow> [t])"
  have hw: "hm_wf (ses_pages s)" "hm_wf (ses_page_bindings s)"
    using wf by (simp_all add: session_wf_defs)
  have lk: "map_of (ses_page_bindings ?s) t = (case map_of (ses_page_bindings s) t of
      None \<Rightarrow> None | Some b \<Rightarrow> if pb_parent_node_key b \<noteq> parent then Some b else None)" for t
    using hw by (simp add: invalidate_parent_def Let_def hmap_simps split: option.splits)
  have pg: "map_of (ses_pages ?s) k = (if pk_parent_node_key k \<noteq> parent then map_of (ses_pages s) k else None)" for k
    using hw by (simp add: invalidate_parent_def Let_def hmap_simps split: option.splits)
  have bound: "?P t \<longleftrightarrow> pk_parent_node_key k \<noteq> parent" if "continuation_bound s k t" for k t
    using that by (auto simp: continuation_bound_def lk split: option.splits)
  have key: "?f ?s k = filter ?P (?f s k)" for k
  proof (cases "map_of (ses_pages s) k")
    case (Some page)
    show ?thesis
    proof (cases "bp_next_page_token page")
      case (Some t)
      with bound [OF continuations_okD [OF ok \<open>map_of (ses_pages s) k = Some page\<close> Some]]
      show ?thesis by (simp add: pg \<open>map_of (ses_pages s) k = Some page\<close> del: not_None_eq)
    qed (simp add: pg Some)
  qed (simp add: pg)
  have "cached_tokens ?s = concat (map (?f ?s) (filter (\<lambda>k. pk_parent_node_key k \<noteq> parent) (ses_page_order s)))"
    by (simp add: cached_tokens_def invalidate_parent_def Let_def)
  also have "\<dots> = concat (map (?f ?s) (ses_page_order s))"
    by (rule concat_map_filter) (simp add: pg)
  also have "\<dots> = filter ?P (cached_tokens s)"
    by (simp add: cached_tokens_def filter_concat key comp_def)
  finally have "suffix (cached_tokens ?s) (ses_page_binding_order ?s)"
    using ok suffix_filter [of "cached_tokens s" "ses_page_binding_order s" ?P]
    by (simp add: continuations_ok_def invalidate_parent_def Let_def)
  moreover have "continuation_bound ?s k t"
    if "(k, page) \<in> set (ses_pages ?s)" "bp_next_page_token page = Some t" for k page t
  proof -
    have "(k, page) \<in> set (ses_pages s)" and "pk_parent_node_key k \<noteq> parent"
      using that(1) by (auto simp: invalidate_parent_def Let_def)
    then have "continuation_bound s k t" using ok that(2) by (fastforce simp: continuations_ok_def)
    with \<open>pk_parent_node_key k \<noteq> parent\<close> show ?thesis
      by (auto simp: continuation_bound_def lk split: option.splits)
  qed
  ultimately show ?thesis
    by (auto simp: continuations_ok_def)
qed

text \<open>Caching a page under a new key appends its token to the tokens of the cached pages.\<close>

lemma cached_tokens_cache_page:
  assumes wf: "pages_wf s" and new: "map_of (ses_pages s) key = None"
  shows "suffix (cached_tokens (cache_page key page s))
           (cached_tokens s @ (case bp_next_page_token page of None \<Rightarrow> [] | Some t \<Rightarrow> [t]))"
    and "length (cached_tokens (cache_page key page s)) \<le> MAX_CACHED_PAGES_PER_SESSION"
proof -
  let ?s = "cache_page key page s"
  let ?g = "\<lambda>p. case bp_next_page_token p of None \<Rightarrow> [] | Some t \<Rightarrow> [t]"
  let ?f = "\<lambda>s k. case map_of (ses_pages s) k of None \<Rightarrow> [] | Some p \<Rightarrow> ?g p"
  let ?h = "\<lambda>k. if k = key then ?g page else ?f s k"
  let ?q = "ses_page_order s @ [key]"
  have key: "key \<notin> set (ses_page_order s)"
    using wf new by (simp add: pages_wf_def map_of_eq_None_iff)
  have ord: "ses_page_order ?s = drop (Suc (length (ses_page_order s)) - MAX_CACHED_PAGES_PER_SESSION) ?q"
    using page_cache.order_put [OF wf] key by simp
  have "?f ?s k = ?h k" if "k \<in> set (ses_page_order ?s)" for k
    using page_cache.lookup_put [OF wf TrueI that] by simp
  then have tok: "cached_tokens ?s = concat (map ?h (ses_page_order ?s))"
    by (simp add: cached_tokens_def cong: map_cong)
  then have "suffix (cached_tokens ?s) (concat (map ?h ?q))"
    by (simp only: ord suffix_concat_drop)
  moreover have "map ?h (ses_page_order s) = map (?f s) (ses_page_order s)"
    using key by (intro map_cong) auto
  ultimately show "suffix (cached_tokens ?s) (cached_tokens s @ ?g page)"
    by (simp add: cached_tokens_def)
  have "length (cached_tokens ?s) \<le> length (ses_page_order ?s)"
    unfolding cached_tokens_def by (rule length_concat_le) (simp split: option.splits)
  also have "\<dots> \<le> MAX_CACHED_PAGES_PER_SESSION"
    using cache_page_wf [OF wf] by (rule page_cache.wf_bound)
  finally show "length (cached_tokens ?s) \<le> MAX_CACHED_PAGES_PER_SESSION" .
qed

lemma commit_page_cached:
  assumes "commit_page tok key native n s = (n', page, s')"
  obtains s2 where "s' = cache_page key page s2" and "ses_pages s2 = ses_pages s"
    and "ses_page_order s2 = ses_page_order s"
  using assms
  by (auto simp: commit_page_def bind_continuation_def Let_def case_prod_beta split: option.splits)

lemma commit_tokens_suffix:
  assumes "inj tok" and wf: "session_wf tok n s" and ok: "continuations_ok s"
    and new: "map_of (ses_pages s) key = None"
    and c: "commit_page tok key native n s = (n', page, s')"
  shows "suffix (cached_tokens s') (ses_page_binding_order s')"
proof -
  from c obtain s2 where s': "s' = cache_page key page s2" and p: "ses_pages s2 = ses_pages s"
    and o: "ses_page_order s2 = ses_page_order s" by (rule commit_page_cached)
  have ct: "cached_tokens s2 = cached_tokens s" by (simp add: cached_tokens_def p o)
  have pw: "pages_wf s2" using wf p o by (simp add: session_wf_def pages_wf_def)
  have old: "suffix (cached_tokens s) (ses_page_binding_order s)"
    using ok by (simp add: continuations_ok_def)
  note cache = cached_tokens_cache_page [OF pw, of key page, unfolded p, OF new, folded s', unfolded ct]
  note bind = commit_page_continuation [OF assms(1) wf c]
  show ?thesis
  proof (cases "bp_next_page_token native")
    case None
    then show ?thesis using cache(1) bind old by (auto intro: suffix_order.trans)
  next
    case (Some nt)
    then obtain t where t: "bp_next_page_token page = Some t"
      and ord: "ses_page_binding_order s' =
        drop (Suc (length (ses_page_binding_order s)) - MAX_PAGE_BINDINGS_PER_SESSION)
          (ses_page_binding_order s @ [t])"
      using bind by auto
    have "suffix (cached_tokens s') (ses_page_binding_order s @ [t])"
      using cache(1) t old suffix_order.trans by fastforce
    moreover have "length (cached_tokens s') \<le> length (ses_page_binding_order s')"
      using cache(2) suffix_length_le [OF calculation]
      by (simp add: ord MAX_PAGE_BINDINGS_PER_SESSION_def MAX_CACHED_PAGES_PER_SESSION_def)
    moreover have "suffix (ses_page_binding_order s') (ses_page_binding_order s @ [t])"
      unfolding ord by (rule suffix_drop)
    ultimately show ?thesis by (blast intro: suffix_length_suffix)
  qed
qed

lemma continuations_ok_commit:
  assumes "inj tok" and wf: "session_wf tok n s" and ok: "continuations_ok s"
    and new: "map_of (ses_pages s) key = None"
    and c: "commit_page tok key native n s = (n', page, s')"
  shows "continuations_ok s'"
proof -
  note sfx = commit_tokens_suffix [OF assms]
  note bind = commit_page_continuation [OF assms(1) wf c]
  from c obtain s2 where s': "s' = cache_page key page s2" and p: "ses_pages s2 = ses_pages s"
    and o: "ses_page_order s2 = ses_page_order s" by (rule commit_page_cached)
  have pw: "pages_wf s2" using wf p o by (simp add: session_wf_def pages_wf_def)
  have pw': "pages_wf s'" using cache_page_wf [OF pw] by (simp add: s')
  have "continuation_bound s' k t"
    if mem: "(k, q) \<in> set (ses_pages s')" and t: "bp_next_page_token q = Some t" for k q t
  proof -
    have lk: "map_of (ses_pages s') k = Some q" using pw' mem by (simp add: pages_wf_def)
    have k: "k \<in> set (ses_page_order s')"
      using pw' map_of_Some_key [OF lk] by (simp add: pages_wf_def)
    have q: "Some q = (if k = key then Some page else map_of (ses_pages s) k)"
      using page_cache.lookup_put [OF pw TrueI k [unfolded s']] lk by (auto simp: s' p split: if_splits)
    have "t \<in> set (cached_tokens s')"
      using k lk t by (force simp: cached_tokens_def)
    then have t': "t \<in> set (ses_page_binding_order s')"
      using sfx by (auto dest: set_mono_suffix)
    show ?thesis
    proof (cases "k = key")
      case True
      then have "q = page" using q by simp
      then show ?thesis
        using True bind t by (auto simp: continuation_bound_def split: option.splits)
    next
      case False
      then have b: "continuation_bound s k t"
        using continuations_okD [OF ok _ t] q by simp
      then have "t \<in> set (ses_page_binding_order s)"
        using wf continuation_boundD by (simp add: session_wf_defs)
      then have "map_of (ses_page_bindings s') t = map_of (ses_page_bindings s) t"
        using bind t' by (auto split: option.splits)
      then show ?thesis using b by (simp add: continuation_bound_def)
    qed
  qed
  then show ?thesis using sfx by (auto simp: continuations_ok_def)
qed

subsection \<open>Whole operations, one at a time\<close>

inductive serial_step :: "'w browse_env \<Rightarrow> manager \<Rightarrow> manager \<Rightarrow> bool" for env where
  serial_open: "open_session env now server m w = (r, m', w') \<Longrightarrow> serial_step env m m'"
| serial_browse: "browse env now server session_id parent token psize refresh m w = (r, m', w') \<Longrightarrow>
     serial_step env m m'"
| serial_close: "close_session env sid m w = (r, m', w') \<Longrightarrow> serial_step env m m'"

definition serial_ok :: "(nat \<Rightarrow> string) \<Rightarrow> manager \<Rightarrow> bool" where
  "serial_ok tok m \<longleftrightarrow> inj tok \<and> manager_wf tok m \<and> (\<forall>(_, s) \<in> set (mgr_sessions m). continuations_ok s)"

lemma serial_ok_put:
  assumes "serial_ok tok m" and "map_of (mgr_sessions m) sid = Some s0"
    and "session_wf tok (mgr_issued m) s" and "continuations_ok s"
  shows "serial_ok tok (put_session sid s m)"
  using assms put_session_wf [of tok m sid s0 s]
  by (auto simp: serial_ok_def put_session_def dest!: set_updateD)

lemma serial_ok_session:
  assumes "serial_ok tok m" and "map_of (mgr_sessions m) sid = Some s"
  shows "inj tok" and "session_wf tok (mgr_issued m) s" and "continuations_ok s"
  using assms manager_wf_session by (auto simp: serial_ok_def dest: map_of_SomeD)

lemma serial_ok_prepare:
  assumes "serial_ok tok m"
  shows "serial_ok tok (snd (prepare now server sid key refresh m))"
  using assms serial_ok_session [OF assms]
  by (auto simp: prepare_def Let_def split: option.splits sum.splits
      intro!: serial_ok_put invalidate_parent_wf continuations_ok_invalidate)

lemma serial_ok_recheck:
  assumes "serial_ok tok m"
  shows "serial_ok tok (snd (recheck now sid key refresh m))"
  using assms serial_ok_session [OF assms]
  by (auto simp: recheck_def Let_def split: option.splits intro!: serial_ok_put)

lemma serial_ok_expire:
  "serial_ok tok m \<Longrightarrow> serial_ok tok (snd (remove_expired imin now m))"
  using remove_expired_wf by (auto simp: serial_ok_def remove_expired_def Let_def)

lemma serial_ok_admit:
  "serial_ok tok m \<Longrightarrow> serial_ok tok (snd (admit_session tok now server native m))"
  using admit_session_wf continuations_ok_new
  by (auto simp: serial_ok_def admit_session_def Let_def dest!: set_updateD)

lemma serial_ok_remove: "serial_ok tok m \<Longrightarrow> serial_ok tok (snd (remove_session sid m))"
  using remove_session_wf by (auto simp: serial_ok_def remove_session_def AList.delete_eq)

lemma serial_ok_commit:
  assumes ok: "serial_ok tok m"
    and new: "\<And>s. map_of (mgr_sessions m) sid = Some s \<Longrightarrow> map_of (ses_pages s) key = None"
  shows "serial_ok tok (snd (commit tok now sid key native m))"
proof -
  have wf: "manager_wf tok (snd (commit tok now sid key native m))" and inj: "inj tok"
    using ok commit_wf by (auto simp: serial_ok_def)
  have ses: "continuations_ok s'"
    if "map_of (mgr_sessions m) sid = Some s"
      and "commit_page tok key native (mgr_issued m) (touch now s) = (n, page, s')" for s n page s'
    using continuations_ok_commit [OF inj _ _ _ that(2)] serial_ok_session [OF ok that(1)] new that(1)
    by simp
  have "continuations_ok s" if "(k, s) \<in> set (mgr_sessions (snd (commit tok now sid key native m)))" for k s
    using that ok ses serial_ok_session(3) [OF ok, of sid]
    by (fastforce simp: commit_def put_session_def serial_ok_def Let_def
        split: if_splits option.splits prod.splits dest!: set_updateD)
  then show ?thesis using wf inj by (auto simp: serial_ok_def)
qed

lemma uncached_after_lookups:
  assumes "serial_ok tok m"
    and p: "prepare now server sid key refresh m = (Inr (a, b, c, None), m1)"
    and r: "recheck now sid key refresh m1 = (Inr None, m2)"
    and s: "map_of (mgr_sessions m2) sid = Some s"
  shows "map_of (ses_pages s) key = None"
proof -
  from p obtain s0 where s0: "map_of (mgr_sessions m) sid = Some s0"
    and m1: "m1 = put_session sid (if refresh then invalidate_parent (pk_parent_node_key key) (touch now s0)
                                   else touch now s0) m"
    by (auto elim: prepare_Inr)
  have "hm_wf (ses_pages s0)"
    using serial_ok_session(2) [OF assms(1) s0] by (simp add: session_wf_defs)
  then show ?thesis
    using r s unfolding m1
    by (auto simp: recheck_def Let_def invalidate_parent_def hmap_simps split: if_splits option.splits)
qed

lemma serial_ok_browse_existing:
  assumes ok: "serial_ok (env_token env) m"
    and b: "browse_existing env now server sid parent token psize refresh m w = (r, m', w')"
  shows "serial_ok (env_token env) m'"
proof -
  let ?key = "\<lparr>pk_parent_node_key = parent, pk_page_token = token, pk_page_size = psize\<rparr>"
  obtain x1 m1 where p: "prepare now server sid ?key refresh m = (x1, m1)" by (metis surj_pair)
  obtain x2 m2 where c: "recheck now sid ?key refresh m1 = (x2, m2)" by (metis surj_pair)
  have m1: "serial_ok (env_token env) m1" using serial_ok_prepare [OF ok] p by (metis snd_conv)
  have m2: "serial_ok (env_token env) m2" using serial_ok_recheck [OF m1] c by (metis snd_conv)
  have "m' = m1 \<or> m' = m2 \<or> (\<exists>a b c page y. x1 = Inr (a, b, c, None) \<and> x2 = Inr None \<and>
      commit (env_token env) now sid ?key page m2 = (y, m'))"
    using b p c
    by (auto simp: browse_existing_def fetch_page_def Let_def split: prod.splits sum.splits option.splits)
  then show ?thesis
    using m1 m2 serial_ok_commit [OF m2] uncached_after_lookups [OF ok] p c by (metis snd_conv)
qed

lemma serial_ok_open:
  assumes "serial_ok (env_token env) m" and "open_session env now server m w = (r, m', w')"
  shows "serial_ok (env_token env) m'"
proof -
  have "serial_ok (env_token env) (fst (snd (expire env now m w)))"
    using serial_ok_expire [OF assms(1)]
    by (auto simp: expire_def split: prod.splits sum.splits) (metis snd_conv)+
  then show ?thesis
    using assms(2) serial_ok_admit [of "env_token env"]
    by (auto simp: open_session_def split: prod.splits sum.splits option.splits) (metis snd_conv)+
qed

lemma serial_ok_close:
  assumes "serial_ok tok m" and "close_session env sid m w = (r, m', w')"
  shows "serial_ok tok m'"
  using assms serial_ok_remove [OF assms(1), of sid]
  by (auto simp: close_session_def split: prod.splits sum.splits)

lemma serial_ok_browse:
  assumes ok: "serial_ok (env_token env) m"
    and b: "browse env now server session_id parent token psize refresh m w = (r, m', w')"
  shows "serial_ok (env_token env) m'"
proof -
  let ?I = "serial_ok (env_token env)"
  obtain r1 m1 w1 where e: "expire env now m w = (r1, m1, w1)" by (metis prod_cases3)
  have m1: "?I m1"
    using e serial_ok_expire [OF ok, of "env_instant_min env" now]
    by (auto simp: expire_def split: prod.splits sum.splits)
  let ?o = "case session_id of Some sid \<Rightarrow> (Inr sid, m1, w1) | None \<Rightarrow> open_session env now server m1 w1"
  obtain r2 m2 w2 where o: "?o = (r2, m2, w2)" by (metis prod_cases3)
  have m2: "?I m2"
    using o m1 serial_ok_open by (cases session_id) auto
  have "m' = m1 \<or> m' = m2 \<or>
      (\<exists>sid ps r3 m3 w3. browse_existing env now server sid parent token ps refresh m2 w2 = (r3, m3, w3) \<and>
         (m' = m3 \<or> (\<exists>r4 w4. close_session env sid m3 w3 = (r4, m', w4))))"
    using b e o
    by (auto simp: browse_def split: prod.splits sum.splits if_splits option.splits; blast)
  then show ?thesis
    using m1 m2 by (auto dest: serial_ok_browse_existing serial_ok_close)
qed

lemma serial_step_ok: "serial_step env m m' \<Longrightarrow> serial_ok (env_token env) m \<Longrightarrow> serial_ok (env_token env) m'"
  by (induction rule: serial_step.induct)
     (auto dest: serial_ok_open serial_ok_browse serial_ok_close)

interpretation serial_system: invariant_system "\<lambda>m. inj (env_token env) \<and> manager_init m"
  "serial_step env" "serial_ok (env_token env)" for env :: "'w browse_env"
proof unfold_locales
  fix m assume "inj (env_token env) \<and> manager_init m"
  then show "serial_ok (env_token env) m"
    by (simp add: serial_ok_def manager_init_def manager_wf_def)
qed (rule serial_step_ok)

section \<open>Properties\<close>

text \<open>
  C17. Whatever requests run concurrently and however their critical sections interleave, the
  gateway never holds more than 128 browse sessions, and no session ever holds more than 256
  cached pages, 256 continuation bindings or 100,000 node bindings, provided the token
  generator never repeats a token.
\<close>

theorem browse_resources_bounded:
  assumes "inj tok" and "manager_init m0" and "(manager_step instant_min tok)\<^sup>*\<^sup>* m0 m"
  shows "length (mgr_sessions m) \<le> 128 \<and>
    (\<forall>(sid, s) \<in> set (mgr_sessions m).
       length (ses_pages s) \<le> 256 \<and> length (ses_page_bindings s) \<le> 256 \<and>
       length (ses_node_bindings s) \<le> 100000)"
proof -
  have wf: "manager_wf tok m"
    using browse_system.reachable_inv [of tok m0 instant_min m] assms by blast
  have "length (ses_pages s) \<le> 256 \<and> length (ses_page_bindings s) \<le> 256 \<and>
      length (ses_node_bindings s) \<le> 100000" if "session_wf tok n s" for n s
    using that length_hm [of "ses_pages s"] length_hm [of "ses_page_bindings s"]
      distinct_card [of "ses_page_order s"] distinct_card [of "ses_page_binding_order s"]
    by (simp add: session_wf_defs MAX_CACHED_PAGES_PER_SESSION_def MAX_PAGE_BINDINGS_PER_SESSION_def
        MAX_NODE_BINDINGS_PER_SESSION_def)
  then show ?thesis
    using wf by (auto simp: manager_wf_def MAX_ACTIVE_SESSIONS_def)
qed


text \<open>
  As long as requests are served one at a time, no cached page has a dangling continuation:
  its token still resolves, for the parent and the page size of the page.
\<close>

theorem cached_continuation_resolves:
  assumes "inj (env_token env)" and "manager_init m0" and "(serial_step env)\<^sup>*\<^sup>* m0 m"
    and "map_of (mgr_sessions m) sid = Some s" and "map_of (ses_pages s) key = Some page"
    and "bp_next_page_token page = Some t"
  shows "\<exists>native. resolve_token s \<lparr>pk_parent_node_key = pk_parent_node_key key,
                     pk_page_token = Some t, pk_page_size = pk_page_size key\<rparr> = Inr (Some native)"
proof -
  have "serial_ok (env_token env) m"
    using serial_system.reachable_inv [of env m0 m] assms by blast
  then have "continuation_bound s key t"
    using serial_ok_session(3) assms(4-6) continuations_okD by blast
  then show ?thesis
    by (auto simp: continuation_bound_def resolve_token_def split: option.splits)
qed

text \<open>
  A page that \<open>browse_existing\<close> returned is replayed from the cache: while the session is
  open, the same request without \<open>refresh\<close> returns the same page and does not call the native
  client, unless its own page token was the oldest of 256 bound tokens and has been evicted.
\<close>

theorem browse_replays_from_cache:
  assumes "inj (env_token env)" and wf: "manager_wf (env_token env) m"
    and call: "browse_existing env now server sid parent token psize refresh m w = (Inr page, m', w')"
    and still: "case token of None \<Rightarrow> True
      | Some t \<Rightarrow> \<forall>s. map_of (mgr_sessions m) sid = Some s \<longrightarrow>
                   \<not> refresh \<and> length (ses_page_bindings s) < MAX_PAGE_BINDINGS_PER_SESSION"
  shows "\<exists>m''. browse_existing env now' server sid parent token psize False m' v = (Inr page, m'', v)"
proof -
  let ?key = "\<lparr>pk_parent_node_key = parent, pk_page_token = token, pk_page_size = psize\<rparr>"
  have "\<exists>s' np nt. \<not> mgr_poisoned m' \<and> map_of (mgr_sessions m') sid = Some s' \<and> ses_server s' = server \<and>
      map_of (ses_pages s') ?key = Some page \<and>
      resolve_parent s' parent = Inr np \<and> resolve_token s' ?key = Inr nt"
    using call refl
  proof (cases rule: browse_existing_Inr)
    case (hit s np nt)
    then show ?thesis by auto
  next
    case (fetched s s1 np nt native n s')
    have s1: "session_wf (env_token env) (mgr_issued m) s1"
      using fetched(7) manager_wf_session [OF wf fetched(2)] by (auto intro: invalidate_parent_wf)
    have "ses_node_bindings s1 = ses_node_bindings s"
      using fetched(7) by (simp add: invalidate_parent_def Let_def)
    note old = commit_page_old_nodes [OF assms(1) s1 fetched(11), unfolded this]
    have "resolve_parent s' parent = Inr np"
    proof (cases parent)
      case (Some k)
      then show ?thesis
        using fetched(4) by (cases "map_of (ses_node_bindings s) k") (auto simp: resolve_parent_def old)
    qed (use fetched(4) in \<open>simp add: resolve_parent_def\<close>)
    moreover have "resolve_token s' ?key = Inr nt"
    proof (cases token)
      case (Some t)
      then have "s1 = touch now s" and "length (ses_page_bindings s) < MAX_PAGE_BINDINGS_PER_SESSION"
        using still fetched(2,7) by simp_all
      moreover obtain b where b: "map_of (ses_page_bindings s) t = Some b"
        using fetched(5) Some by (cases "map_of (ses_page_bindings s) t") (simp_all add: resolve_token_def)
      ultimately have "map_of (ses_page_bindings s') t = Some b"
        using commit_page_old_token [OF assms(1) s1 fetched(11)] by simp
      with b show ?thesis using fetched(5) Some by (simp add: resolve_token_def)
    qed (use fetched(5) in \<open>simp add: resolve_token_def\<close>)
    moreover have "ses_server s' = server"
      using fetched(3,7,11)
      by (auto simp: commit_page_def bind_continuation_def invalidate_parent_def Let_def case_prod_beta
          split: option.splits)
    ultimately show ?thesis
      using fetched(12,13) commit_page_pages [OF assms(1) s1 fetched(11)] by blast
  qed
  then show ?thesis
    by (auto simp: browse_existing_def prepare_def Let_def)
qed

text \<open>
  C35. A continuation token is bound to the request that produced it. After a page with a
  continuation was fetched, the same parent and page size resolve the returned token to exactly
  the native client's token; another page size or another parent is refused.
\<close>

theorem continuation_token_roundtrip:
  assumes "inj (env_token env)" and wf: "manager_wf (env_token env) m"
    and commit: "commit (env_token env) now sid key native m = (Inr page, m')"
    and native: "bp_next_page_token native = Some native_token"
  shows "\<exists>t s'. bp_next_page_token page = Some t \<and> map_of (mgr_sessions m') sid = Some s' \<and>
    (\<forall>parent psize. resolve_token s'
        \<lparr>pk_parent_node_key = parent, pk_page_token = Some t, pk_page_size = psize\<rparr> =
      (if psize \<noteq> pk_page_size key
       then Inl (Status FailedPrecondition ''browse page token was created for a different page size'')
       else if parent \<noteq> pk_parent_node_key key
       then Inl (Status FailedPrecondition ''browse page token is bound to a different parent'')
       else Inr (Some native_token)))"
  using commit
proof (rule commit_Inr)
  fix s0 n s'
  assume s0: "map_of (mgr_sessions m) sid = Some s0"
    and c: "commit_page (env_token env) key native (mgr_issued m) (touch now s0) = (n, page, s')"
    and m': "m' = (put_session sid s' m)\<lparr>mgr_issued := n\<rparr>"
  have "session_wf (env_token env) (mgr_issued m) (touch now s0)"
    using manager_wf_session [OF wf s0] by simp
  from commit_page_continuation [OF assms(1) this c] native obtain t
    where "bp_next_page_token page = Some t"
      and "map_of (ses_page_bindings s') t =
        Some \<lparr>pb_native_page_token = native_token, pb_parent_node_key = pk_parent_node_key key,
              pb_page_size = pk_page_size key\<rparr>"
    by auto
  then show ?thesis by (auto simp: m' resolve_token_def)
qed

text \<open>
  Node keys are opaque but faithful: every node of a fetched page keeps the display name,
  kind and exact ItemID of the native node at its position, and its new key, used as a parent,
  resolves to the native key of that node. Keys handed out earlier keep resolving.
\<close>

theorem node_key_roundtrip:
  assumes "inj (env_token env)" and wf: "manager_wf (env_token env) m"
    and commit: "commit (env_token env) now sid key native m = (Inr page, m')"
    and i: "i < length (bp_nodes native)"
  shows "\<exists>s s'. map_of (mgr_sessions m) sid = Some s \<and> map_of (mgr_sessions m') sid = Some s' \<and>
    bp_nodes page ! i = (bp_nodes native ! i)\<lparr>bn_node_key := bn_node_key (bp_nodes page ! i)\<rparr> \<and>
    resolve_parent s' (Some (bn_node_key (bp_nodes page ! i))) =
      Inr (Some (bn_node_key (bp_nodes native ! i))) \<and>
    (\<forall>k v. resolve_parent s (Some k) = Inr v \<longrightarrow> resolve_parent s' (Some k) = Inr v)"
  using commit
proof (rule commit_Inr)
  fix s n s'
  assume s: "map_of (mgr_sessions m) sid = Some s"
    and c: "commit_page (env_token env) key native (mgr_issued m) (touch now s) = (n, page, s')"
    and m': "m' = (put_session sid s' m)\<lparr>mgr_issued := n\<rparr>"
  have ses: "session_wf (env_token env) (mgr_issued m) (touch now s)"
    using manager_wf_session [OF wf s] by simp
  have "resolve_parent s' (Some k) = Inr v" if "resolve_parent s (Some k) = Inr v" for k v
    using that commit_page_old_nodes [OF assms(1) ses c]
    by (cases "map_of (ses_node_bindings s) k") (auto simp: resolve_parent_def)
  then show ?thesis
    using s commit_page_nodes [OF assms(1) c i] by (auto simp: m' resolve_parent_def)
qed

text \<open>
  Where \<open>Instant::now() - SESSION_TTL\<close> is not representable (on Windows during the first
  minute after boot) the first browse panics inside the lock, and from then on every browse
  fails: the manager stays poisoned and no request reaches the native client.
\<close>

theorem early_browse_poisons_manager:
  assumes "\<not> mgr_poisoned m" and "now - SESSION_TTL < env_instant_min env"
    and "browse env now server session_id parent token psize refresh m w = (r, m', w')"
  shows "r = Inl Panic \<and> w' = w \<and> mgr_poisoned m' \<and>
    (\<forall>later server' sid parent' token' psize' refresh'. \<exists>e.
       browse env later server' (Some sid) parent' token' psize' refresh' m' v = (Inl e, m', v))"
proof -
  have r: "r = Inl Panic" "w' = w" and m': "m' = m\<lparr>mgr_poisoned := True\<rparr>"
    using assms by (auto simp: browse_def expire_def remove_expired_def)
  have "\<exists>e. browse env later server' (Some sid) parent' token' psize' refresh' m' v = (Inl e, m', v)"
    for later server' sid parent' token' psize' refresh'
    using m' by (auto simp: browse_def expire_def remove_expired_def browse_existing_def prepare_def Let_def
        split: sum.splits)
  then show ?thesis using r m' by simp
qed

section \<open>A concrete run\<close>

text \<open>
  A native client with one page of two nodes and a continuation. It shows that the hypotheses of
  the properties above can hold together.
\<close>

definition demo_token :: "nat \<Rightarrow> string" where
  "demo_token n = replicate n (CHR ''t'')"

definition demo_native_page :: browse_page where
  "demo_native_page =
     \<lparr>bp_nodes =
        [\<lparr>bn_node_key = ''k1'', bn_display_name = ascii ''Area'', bn_kind = Branch, bn_item_id = None\<rparr>,
         \<lparr>bn_node_key = ''k2'', bn_display_name = ascii ''Tag'', bn_kind = Item, bn_item_id = Some (ascii ''A.T'')\<rparr>],
      bp_next_page_token = Some ''more'', bp_complete = False, bp_organization = OrgHierarchical,
      bp_source = SrcDa3, bp_warning = None\<rparr>"

definition demo_env :: "unit browse_env" where
  "demo_env =
     \<lparr>env_instant_min = 0, env_token = demo_token,
      env_open_browse_session = (\<lambda>w server. (Inr ''native'', w)),
      env_browse_page = (\<lambda>w sid parent token psize refresh. (Inr demo_native_page, w)),
      env_close_browse_session = (\<lambda>w sid. (Inr (), w))\<rparr>"

definition empty_manager :: manager where
  "empty_manager = \<lparr>mgr_sessions = [], mgr_poisoned = False, mgr_issued = 0\<rparr>"

definition demo_opened :: manager where
  "demo_opened =
     \<lparr>mgr_sessions = [(demo_token 0, session_new 100000 ''S'' ''native'')], mgr_poisoned = False, mgr_issued = 1\<rparr>"

definition demo_page :: browse_page where
  "demo_page =
     \<lparr>bp_nodes =
        [\<lparr>bn_node_key = demo_token 1, bn_display_name = ascii ''Area'', bn_kind = Branch, bn_item_id = None\<rparr>,
         \<lparr>bn_node_key = demo_token 2, bn_display_name = ascii ''Tag'', bn_kind = Item, bn_item_id = Some (ascii ''A.T'')\<rparr>],
      bp_next_page_token = Some (demo_token 3), bp_complete = False, bp_organization = OrgHierarchical,
      bp_source = SrcDa3, bp_warning = None\<rparr>"

definition demo_key :: page_key where
  "demo_key = \<lparr>pk_parent_node_key = None, pk_page_token = None, pk_page_size = 200\<rparr>"

definition demo_session :: session where
  "demo_session =
     \<lparr>ses_server = ''S'', ses_native_session_id = ''native'', ses_last_used = 100001,
      ses_node_bindings = [(demo_token 1, ''k1''), (demo_token 2, ''k2'')],
      ses_page_bindings =
        [(demo_token 3, \<lparr>pb_native_page_token = ''more'', pb_parent_node_key = None, pb_page_size = 200\<rparr>)],
      ses_page_binding_order = [demo_token 3],
      ses_pages = [(demo_key, demo_page)], ses_page_order = [demo_key]\<rparr>"

definition demo_fetched :: manager where
  "demo_fetched = \<lparr>mgr_sessions = [(demo_token 0, demo_session)], mgr_poisoned = False, mgr_issued = 4\<rparr>"

lemma demo_token_inj: "inj demo_token"
  by (rule injI) (metis demo_token_def length_replicate)

lemma demo_token_eq [simp]: "demo_token a = demo_token b \<longleftrightarrow> a = b"
  using demo_token_inj by (auto dest: injD)

lemma demo_env_simps [simp]:
  "env_token demo_env = demo_token" "env_instant_min demo_env = 0"
  "env_open_browse_session demo_env = (\<lambda>w server. (Inr ''native'', w))"
  "env_browse_page demo_env = (\<lambda>w sid parent token psize refresh. (Inr demo_native_page, w))"
  by (simp_all add: demo_env_def)

lemma empty_manager_init: "manager_init empty_manager"
  by (simp add: manager_init_def empty_manager_def)

lemma demo_open: "open_session demo_env 100000 ''S'' empty_manager () = (Inr (demo_token 0), demo_opened, ())"
  by (simp add: open_session_def expire_def remove_expired_def empty_manager_def SESSION_TTL_def
      check_capacity_def MAX_ACTIVE_SESSIONS_def admit_session_def demo_opened_def Let_def)

lemma demo_commit:
  assumes "mgr_sessions m = [(demo_token 0, session_new t ''S'' ''native'')]"
    and "\<not> mgr_poisoned m" and "mgr_issued m = 1"
  shows "commit demo_token 100001 (demo_token 0) demo_key demo_native_page m = (Inr demo_page, demo_fetched)"
  using assms
  by (cases m) (simp add: commit_def touch_def session_new_def MAX_NODE_BINDINGS_PER_SESSION_def
      demo_native_page_def commit_page_def bind_continuation_def bind_page_def cache_page_def Let_def
      MAX_PAGE_BINDINGS_PER_SESSION_def MAX_CACHED_PAGES_PER_SESSION_def put_session_def demo_fetched_def
      demo_session_def demo_page_def demo_key_def)

lemma demo_commit_opened:
  "commit demo_token 100001 (demo_token 0) demo_key demo_native_page demo_opened = (Inr demo_page, demo_fetched)"
  by (rule demo_commit) (simp_all add: demo_opened_def)

lemma demo_browse:
  "browse_existing demo_env 100001 ''S'' (demo_token 0) None None 200 False demo_opened () =
     (Inr demo_page, demo_fetched, ())"
proof -
  let ?m = "demo_opened\<lparr>mgr_sessions := [(demo_token 0, touch 100001 (session_new 100000 ''S'' ''native''))]\<rparr>"
  have "prepare 100001 ''S'' (demo_token 0) demo_key False demo_opened = (Inr (''native'', None, None, None), ?m)"
    by (simp add: prepare_def demo_opened_def session_new_def touch_def put_session_def Let_def
        resolve_parent_def resolve_token_def demo_key_def)
  moreover have "recheck 100001 (demo_token 0) demo_key False ?m = (Inr None, ?m)"
    by (simp add: recheck_def demo_opened_def session_new_def touch_def put_session_def Let_def)
  moreover have "commit demo_token 100001 (demo_token 0) demo_key demo_native_page ?m = (Inr demo_page, demo_fetched)"
    by (rule demo_commit [of _ 100001]) (simp_all add: demo_opened_def touch_def session_new_def)
  ultimately show ?thesis
    by (simp add: browse_existing_def fetch_page_def check_native_page_def demo_native_page_def
        demo_key_def [symmetric])
qed

lemma demo_serial: "(serial_step demo_env)\<^sup>*\<^sup>* empty_manager demo_fetched"
proof -
  have "browse demo_env 100001 ''S'' (Some (demo_token 0)) None None 200 False demo_opened () =
      (Inr (demo_token 0, demo_page), demo_fetched, ())"
    using demo_browse
    by (simp add: browse_def expire_def remove_expired_def SESSION_TTL_def normalize_page_size_def
        MAX_PAGE_SIZE_def demo_opened_def session_new_def)
  then have "serial_step demo_env demo_opened demo_fetched" by (rule serial_browse)
  moreover have "serial_step demo_env empty_manager demo_opened" by (rule serial_open [OF demo_open])
  ultimately show ?thesis by (metis converse_rtranclp_into_rtranclp rtranclp.rtrancl_refl)
qed

lemma demo_opened_wf: "manager_wf demo_token demo_opened"
  using open_session_steps [OF demo_open] browse_system.reachable_inv [of demo_token empty_manager 0]
    demo_token_inj empty_manager_init by fastforce

theorem browse_resources_bounded_witness:
  "length (mgr_sessions demo_opened) \<le> 128 \<and>
   list_all (\<lambda>(sid, s).
      length (ses_pages s) \<le> 256 \<and> length (ses_page_bindings s) \<le> 256 \<and>
      length (ses_node_bindings s) \<le> 100000) (mgr_sessions demo_opened)"
  using browse_resources_bounded [OF demo_token_inj empty_manager_init, of 0 demo_opened]
    open_session_steps [OF demo_open] by (simp add: list_all_iff)


theorem cached_continuation_resolves_witness:
  "\<exists>native. resolve_token demo_session \<lparr>pk_parent_node_key = None, pk_page_token = Some (demo_token 3),
     pk_page_size = 200\<rparr> = Inr (Some native)"
  using cached_continuation_resolves [of demo_env empty_manager demo_fetched "demo_token 0" demo_session
      demo_key demo_page "demo_token 3"] demo_token_inj empty_manager_init demo_serial
  by (simp add: demo_fetched_def demo_session_def demo_page_def demo_key_def)

theorem browse_replays_from_cache_witness:
  "\<exists>m. browse_existing demo_env 100002 ''S'' (demo_token 0) None None 200 False demo_fetched () =
     (Inr demo_page, m, ())"
  using browse_replays_from_cache [OF _ _ demo_browse, of 100002 "()"] demo_token_inj demo_opened_wf by simp

theorem continuation_token_roundtrip_witness:
  "\<exists>t s'. bp_next_page_token demo_page = Some t \<and> map_of (mgr_sessions demo_fetched) (demo_token 0) = Some s' \<and>
    (\<forall>parent psize. resolve_token s'
        \<lparr>pk_parent_node_key = parent, pk_page_token = Some t, pk_page_size = psize\<rparr> =
      (if psize \<noteq> pk_page_size demo_key
       then Inl (Status FailedPrecondition ''browse page token was created for a different page size'')
       else if parent \<noteq> pk_parent_node_key demo_key
       then Inl (Status FailedPrecondition ''browse page token is bound to a different parent'')
       else Inr (Some ''more'')))"
  by (rule continuation_token_roundtrip [where env = demo_env and m = demo_opened and native = demo_native_page
        and now = 100001])
    (simp_all add: demo_token_inj demo_opened_wf demo_commit_opened demo_native_page_def [THEN arg_cong [of _ _ bp_next_page_token]])

theorem node_key_roundtrip_witness:
  "\<exists>s s'. map_of (mgr_sessions demo_opened) (demo_token 0) = Some s \<and>
    map_of (mgr_sessions demo_fetched) (demo_token 0) = Some s' \<and>
    bp_nodes demo_page ! 1 = (bp_nodes demo_native_page ! 1)\<lparr>bn_node_key := bn_node_key (bp_nodes demo_page ! 1)\<rparr> \<and>
    resolve_parent s' (Some (bn_node_key (bp_nodes demo_page ! 1))) =
      Inr (Some (bn_node_key (bp_nodes demo_native_page ! 1))) \<and>
    (\<forall>k v. resolve_parent s (Some k) = Inr v \<longrightarrow> resolve_parent s' (Some k) = Inr v)"
  by (rule node_key_roundtrip [where env = demo_env and now = 100001 and key = demo_key])
    (simp_all add: demo_token_inj demo_opened_wf demo_commit_opened,
     simp add: demo_native_page_def)

theorem early_browse_poisons_manager_witness:
  "fst (browse demo_env 10 ''S'' None None None 0 False empty_manager ()) = Inl Panic \<and>
   mgr_poisoned (fst (snd (browse demo_env 10 ''S'' None None None 0 False empty_manager ())))"
  using early_browse_poisons_manager [of empty_manager 10 demo_env "''S''" None None None 0 False "()"
      "fst (browse demo_env 10 ''S'' None None None 0 False empty_manager ())"
      "fst (snd (browse demo_env 10 ''S'' None None None 0 False empty_manager ()))"]
  by (simp add: SESSION_TTL_def empty_manager_def prod_eq_iff)

end
