(* ===== verification/Pages.thy ===== *)
theory Pages
  imports Browse
begin

text \<open>
  What the native client promises of its pages holds of every page the gateway serves. A promise is
  a property of a page and of the key it was asked for; a promise that does not speak about the
  opaque node keys and page tokens survives the exchange of native tokens for gateway tokens, so it
  holds of the cached pages and of the result of every browse. Live search and the command line
  client rest on instances of it.
\<close>

definition session_pages :: "(page_key \<Rightarrow> browse_page \<Rightarrow> bool) \<Rightarrow> session \<Rightarrow> bool" where
  "session_pages Q s \<longleftrightarrow> (\<forall>(key, page) \<in> set (ses_pages s). Q key page)"

definition cached_pages :: "(page_key \<Rightarrow> browse_page \<Rightarrow> bool) \<Rightarrow> manager \<Rightarrow> bool" where
  "cached_pages Q m \<longleftrightarrow> (\<forall>(sid, s) \<in> set (mgr_sessions m). session_pages Q s)"

text \<open>The promise is asked only of the pages that pass the gateway's own check.\<close>

definition client_pages :: "(page_key \<Rightarrow> browse_page \<Rightarrow> bool) \<Rightarrow> 'w browse_env \<Rightarrow> bool" where
  "client_pages Q env \<longleftrightarrow> (\<forall>w sid parent token key refresh page w'.
     env_browse_page env w sid parent token (pk_page_size key) refresh = (Inr page, w') \<longrightarrow>
     check_native_page page = Inr () \<longrightarrow> Q key page)"

definition renamed_node :: "browse_node \<Rightarrow> browse_node \<Rightarrow> bool" where
  "renamed_node a b \<longleftrightarrow> b = a\<lparr>bn_node_key := bn_node_key b\<rparr>"

lemma set_deleteD: "x \<in> set (AList.delete k m) \<Longrightarrow> x \<in> set m"
  by (auto simp: AList.delete_eq)

lemma evict_subset: "set (snd (evict_oldest cap q m)) \<subseteq> set m"
  by (induction cap q m rule: evict_oldest.induct) (auto dest: set_deleteD)

lemma bind_nodes_renamed:
  "bind_nodes tok n nodes bindings = (n', nodes', bindings') \<Longrightarrow> list_all2 renamed_node nodes nodes'"
  by (induction tok n nodes bindings arbitrary: n' nodes' bindings' rule: bind_nodes.induct)
    (auto simp: Let_def renamed_node_def split: prod.splits)

lemma cache_page_pages:
  "session_pages Q s \<Longrightarrow> Q key page \<Longrightarrow> session_pages Q (cache_page key page s)"
  using evict_subset
  by (fastforce simp: session_pages_def cache_page_def Let_def case_prod_beta dest!: set_updateD)

lemma put_session_pages:
  "cached_pages Q m \<Longrightarrow> session_pages Q s \<Longrightarrow> cached_pages Q (put_session sid s m)"
  by (auto simp: cached_pages_def put_session_def dest!: set_updateD)

lemma session_pages_simps [simp]:
  "session_pages Q (touch now s) = session_pages Q s"
  "session_pages Q s \<Longrightarrow> session_pages Q (invalidate_parent parent s)"
  by (auto simp: session_pages_def touch_def invalidate_parent_def Let_def)

lemma cached_session: "cached_pages Q m \<Longrightarrow> map_of (mgr_sessions m) sid = Some s \<Longrightarrow> session_pages Q s"
  by (auto simp: cached_pages_def dest: map_of_SomeD)

lemma cached_page: "session_pages Q s \<Longrightarrow> map_of (ses_pages s) key = Some page \<Longrightarrow> Q key page"
  by (auto simp: session_pages_def dest: map_of_SomeD)

lemma expire_pages: "cached_pages Q m \<Longrightarrow> expire env now m w = (r, m', w') \<Longrightarrow> cached_pages Q m'"
  by (auto simp: expire_def remove_expired_def cached_pages_def Let_def split: if_splits)

lemma prepare_pages:
  assumes "cached_pages Q m" and "prepare now server sid key refresh m = (r, m')"
  shows "cached_pages Q m'" and "r = Inr (a, b, c, Some page) \<Longrightarrow> Q key page"
  using assms cached_session [OF assms(1), of sid]
  by (auto simp: prepare_def Let_def intro!: put_session_pages intro: cached_page
      split: if_splits option.splits sum.splits)

lemma recheck_pages:
  assumes "cached_pages Q m" and "recheck now sid key refresh m = (r, m')"
  shows "cached_pages Q m'" and "r = Inr (Some page) \<Longrightarrow> Q key page"
  using assms cached_session [OF assms(1), of sid]
  by (auto simp: recheck_def Let_def intro!: put_session_pages intro: cached_page
      split: if_splits option.splits)

lemma issued_pages [simp]: "cached_pages Q (m\<lparr>mgr_issued := n\<rparr>) = cached_pages Q m"
  by (simp add: cached_pages_def)

lemma session_new_pages [simp]: "session_pages Q (session_new now server native)"
  by (simp add: session_pages_def session_new_def)

lemma admit_pages:
  "cached_pages Q m \<Longrightarrow> admit_session tok now server native m = (r, m') \<Longrightarrow> cached_pages Q m'"
  using put_session_pages [of Q "m\<lparr>mgr_issued := Suc (mgr_issued m)\<rparr>" "session_new now server native" "tok (mgr_issued m)"]
  by (auto simp: admit_session_def put_session_def Let_def split: if_splits)

lemma open_session_pages:
  assumes "cached_pages Q m" and "open_session env now server m w = (r, m', w')"
  shows "cached_pages Q m'"
proof -
  obtain e m1 w1 where ex: "expire env now m w = (e, m1, w1)" by (metis prod_cases3)
  note m1 = expire_pages [OF assms(1) ex]
  have "cached_pages Q m2" if "admit_session tok now server native m1 = (a, m2)" for tok native a m2
    using admit_pages [OF m1 that] .
  then show ?thesis
    using assms(2) ex m1 by (auto simp: open_session_def split: prod.splits sum.splits option.splits)
qed

lemma close_session_pages:
  assumes "cached_pages Q m" and "close_session env sid m w = (r, m', w')"
  shows "cached_pages Q m'"
proof -
  have "cached_pages Q (m\<lparr>mgr_sessions := AList.delete sid (mgr_sessions m)\<rparr>)"
    using assms(1) unfolding cached_pages_def by (metis (no_types, lifting) manager.select_convs(1) manager.surjective manager.update_convs(1) set_deleteD)
  then show ?thesis
    using assms by (auto simp: close_session_def remove_session_def split: prod.splits sum.splits if_splits)
qed

text \<open>The contract of a promise, and what it gives.\<close>

locale page_law =
  fixes Q :: "page_key \<Rightarrow> browse_page \<Rightarrow> bool"
  assumes renamed: "Q key native \<Longrightarrow> list_all2 renamed_node (bp_nodes native) nodes \<Longrightarrow>
    (next_token = None \<longleftrightarrow> bp_next_page_token native = None) \<Longrightarrow>
    Q key (native\<lparr>bp_nodes := nodes, bp_next_page_token := next_token\<rparr>)"
begin

lemma committed_page_pages:
  assumes "session_pages Q s" and "Q key native" and "commit_page tok key native n s = (n', page, s')"
  shows "Q key page" and "session_pages Q s'"
proof -
  obtain n1 nodes bindings where bn: "bind_nodes tok n (bp_nodes native) (ses_node_bindings s) = (n1, nodes, bindings)"
    by (metis prod_cases3)
  obtain n2 nxt s2 where bc: "bind_continuation tok n1 key (bp_next_page_token native)
      (s\<lparr>ses_node_bindings := bindings\<rparr>) = (n2, nxt, s2)" by (metis prod_cases3)
  have "nxt = None \<longleftrightarrow> bp_next_page_token native = None" and s2: "ses_pages s2 = ses_pages s"
    using bc by (auto simp: bind_continuation_def split: option.splits)
  then have page: "Q key (native\<lparr>bp_nodes := nodes, bp_next_page_token := nxt\<rparr>)"
    using renamed [OF assms(2) bind_nodes_renamed [OF bn]] by simp
  have "session_pages Q s2" using assms(1) s2 by (simp add: session_pages_def)
  then show "Q key page" "session_pages Q s'"
    using assms(3) page bn bc by (auto simp: commit_page_def Let_def intro: cache_page_pages)
qed

lemma commit_pages:
  assumes "cached_pages Q m" and "Q key native" and "commit tok now sid key native m = (r, m')"
  shows "cached_pages Q m'" and "r = Inr page \<Longrightarrow> Q key page"
proof -
  have committed: "Q key p \<and> session_pages Q s'"
    if "map_of (mgr_sessions m) sid = Some s"
      and "commit_page tok key native (mgr_issued m) (touch now s) = (n, p, s')" for s n p s'
    using committed_page_pages [OF _ assms(2) that(2)] cached_session [OF assms(1) that(1)] by simp
  show "cached_pages Q m'" "r = Inr page \<Longrightarrow> Q key page"
    using assms cached_session [OF assms(1), of sid]
    by (auto simp: commit_def Let_def intro!: put_session_pages dest: committed
        split: if_splits option.splits prod.splits)
qed

lemma fetch_pages:
  assumes "client_pages Q env" and "cached_pages Q m"
    and "fetch_page env now sid key refresh native m w = (r, m', w')"
  shows "cached_pages Q m' \<and> (\<forall>page. r = Inr page \<longrightarrow> Q key page)"
proof -
  obtain a b c where native: "native = (a, b, c)" by (metis prod_cases3)
  obtain res w1 where call: "env_browse_page env w a b c (pk_page_size key) refresh = (res, w1)"
    by fastforce
  show ?thesis
  proof (cases "\<exists>page. res = Inr page \<and> check_native_page page = Inr ()")
    case False
    then show ?thesis using assms(2,3) native call by (auto simp: fetch_page_def split: sum.splits)
  next
    case True
    then obtain page where page: "res = Inr page" "check_native_page page = Inr ()" by blast
    then have "Q key page" using assms(1) call unfolding client_pages_def by blast
    moreover obtain r1 m1 where c: "commit (env_token env) now sid key page m = (r1, m1)" by fastforce
    ultimately show ?thesis
      using assms(3) native call page commit_pages [OF assms(2) _ c] by (auto simp: fetch_page_def)
  qed
qed

lemma browse_existing_pages:
  assumes "client_pages Q env" and "cached_pages Q m"
    and "browse_existing env now server sid parent token psize refresh m w = (r, m', w')"
  shows "cached_pages Q m' \<and>
    (\<forall>page. r = Inr page \<longrightarrow> Q \<lparr>pk_parent_node_key = parent, pk_page_token = token, pk_page_size = psize\<rparr> page)"
proof -
  define key where "key = \<lparr>pk_parent_node_key = parent, pk_page_token = token, pk_page_size = psize\<rparr>"
  obtain r1 m1 where p: "prepare now server sid key refresh m = (r1, m1)" by fastforce
  note prep = prepare_pages [OF assms(2) p]
  obtain r2 m2 where c: "recheck now sid key refresh m1 = (r2, m2)" by fastforce
  note rech = recheck_pages [OF prep(1) c]
  have "cached_pages Q m' \<and> (\<forall>page. r = Inr page \<longrightarrow> Q key page)"
  proof (cases r1)
    case (Inl e)
    then show ?thesis using assms(3) p prep(1) by (auto simp: browse_existing_def key_def)
  next
    case (Inr q)
    obtain a b d cached where q: "q = (a, b, d, cached)" by (metis prod_cases4)
    show ?thesis
    proof (cases cached)
      case (Some page)
      then show ?thesis using assms(3) p prep Inr q by (auto simp: browse_existing_def key_def)
    next
      case None
      then have run: "(case r2 of Inl e \<Rightarrow> (Inl e, m2, w) | Inr (Some page) \<Rightarrow> (Inr page, m2, w)
          | Inr None \<Rightarrow> fetch_page env now sid key refresh (a, b, d) m2 w) = (r, m', w')"
        using assms(3) p c Inr q
        by (auto simp: browse_existing_def key_def split: sum.splits option.splits)
      then show ?thesis
        using rech fetch_pages [OF assms(1) rech(1)] by (auto split: sum.splits option.splits)
    qed
  qed
  then show ?thesis unfolding key_def .
qed

lemma browse_pages:
  assumes "client_pages Q env" and "cached_pages Q m"
    and "browse env now server session_id parent token page_size refresh m w = (r, m', w')"
  shows "cached_pages Q m' \<and>
    (\<forall>sid page. r = Inr (sid, page) \<longrightarrow> (\<exists>psize. normalize_page_size page_size = Inr psize \<and>
       Q \<lparr>pk_parent_node_key = parent, pk_page_token = token, pk_page_size = psize\<rparr> page))"
proof -
  obtain e m1 w1 where ex: "expire env now m w = (e, m1, w1)" by (metis prod_cases3)
  note m1 = expire_pages [OF assms(2) ex]
  define opened where "opened = (case session_id of Some sid \<Rightarrow> (Inr sid, m1, w1) | None \<Rightarrow> open_session env now server m1 w1)"
  obtain s m2 w2 where op: "opened = (s, m2, w2)" by (metis prod_cases3)
  have m2: "cached_pages Q m2"
    using op m1 open_session_pages [OF m1, of env now server w1] unfolding opened_def by (cases session_id) auto
  show ?thesis
  proof (cases "\<exists>u psize sid. e = Inr u \<and> normalize_page_size page_size = Inr psize \<and> s = Inr sid \<and> \<not> (refresh \<and> token \<noteq> None)")
    case False
    then show ?thesis
      using assms(3) m1 m2
      by (cases e; cases "normalize_page_size page_size"; cases s)
        (auto simp: browse_def ex op [unfolded opened_def] split: if_splits)
  next
    case True
    then obtain psize sid where ok: "e = Inr ()" "normalize_page_size page_size = Inr psize" "s = Inr sid"
      "\<not> (refresh \<and> token \<noteq> None)" by auto
    obtain r3 m3 w3 where be: "browse_existing env now server sid parent token psize refresh m2 w2 = (r3, m3, w3)"
      by (metis prod_cases3)
    note found = browse_existing_pages [OF assms(1) m2 be]
    obtain r4 m4 w4 where cl: "close_session env sid m3 w3 = (r4, m4, w4)" by (metis prod_cases3)
    have m4: "cached_pages Q m4" using close_session_pages [OF _ cl] found by blast
    have "(case r3 of Inr page \<Rightarrow> (Inr (sid, page), m3, w3)
        | Inl err \<Rightarrow> if session_id = None then (Inl err, m4, w4) else (Inl err, m3, w3)) = (r, m', w')"
      using assms(3) ok(4)
      by (cases r3) (auto simp: browse_def ex op [unfolded opened_def] be cl ok(1-3) split: if_splits)
    then show ?thesis using found m4 ok(2) by (cases r3) (auto split: if_splits)
  qed
qed

end

end
