(* ===== verification/LiveSearch.thy ===== *)
theory LiveSearch
  imports Pages
begin

text \<open>
  Live namespace search (\<open>server/search.rs\<close>): the breadth-first walk that browses the native
  namespace page by page and streams matches, progress and one completion to the caller.

  The walk is written over a page source; \<open>gateway_source\<close> is the browse manager of theory
  Browse as such a source. The channel to the caller is a predicate that says which sends find
  the receiver alive. Both loops are \<open>partial_function\<close>s, so that a search that never ends is
  \<open>None\<close>.
\<close>

section \<open>Requests and events\<close>

definition DEFAULT_SEARCH_RESULTS :: u32 where "DEFAULT_SEARCH_RESULTS = 200"
definition MAX_SEARCH_RESULTS :: u32 where "MAX_SEARCH_RESULTS = 1000"
definition MAX_SEARCH_VISITED :: u32 where "MAX_SEARCH_VISITED = 50000"

datatype search_match_mode = ModeUnspecified | ModeExact | ModePrefix | ModeContains

record search_request =
  sq_query :: ustring
  sq_match_mode :: int
  sq_max_results :: u32
  sq_scope_node_key :: "string option"
  sq_include_branches :: bool
  sq_refresh :: bool

definition search_match_mode_of :: "int \<Rightarrow> search_match_mode option" where
  "search_match_mode_of i =
     (if i = 0 then Some ModeUnspecified else if i = 1 then Some ModeExact
      else if i = 2 then Some ModePrefix else if i = 3 then Some ModeContains else None)"

definition search_mode :: "int \<Rightarrow> search_match_mode rpc" where
  "search_mode mode =
     (case search_match_mode_of mode of
        None \<Rightarrow> Inl (Status InvalidArgument ''unknown search match mode'')
      | Some m \<Rightarrow> if m = ModeUnspecified then Inr ModeContains else Inr m)"

definition validate_search ::
  "(ustring \<Rightarrow> ustring) \<Rightarrow> search_request \<Rightarrow> (search_match_mode \<times> u32) rpc" where
  "validate_search lower request =
     (if normalize_query lower (sq_query request) = []
      then Inl (Status InvalidArgument ''search query must not be empty'')
      else case search_mode (sq_match_mode request) of
        Inl e \<Rightarrow> Inl e
      | Inr mode \<Rightarrow>
          if mode = ModeContains \<and> length (sq_query request) < 2
          then Inl (Status InvalidArgument ''contains searches require at least two characters'')
          else
            let max_results = (if sq_max_results request = 0 then DEFAULT_SEARCH_RESULTS
                               else sq_max_results request)
            in if max_results > MAX_SEARCH_RESULTS
               then Inl (Status InvalidArgument ''max_results must not exceed 1000'')
               else Inr (mode, max_results))"

definition search_matches :: "browse_node \<Rightarrow> ustring \<Rightarrow> search_match_mode \<Rightarrow> bool" where
  "search_matches node query mode =
     (let matches = (\<lambda>value. case mode of
                       ModeExact \<Rightarrow> value = query
                     | ModePrefix \<Rightarrow> starts_with value query
                     | ModeContains \<Rightarrow> contains value query
                     | ModeUnspecified \<Rightarrow> contains value query)
      in matches (bn_display_name node) \<or> is_some_and (bn_item_id node) matches)"

definition is_expandable :: "browse_node_kind \<Rightarrow> bool" where
  "is_expandable kind \<longleftrightarrow> kind = Branch \<or> kind = BranchAndItem"

text \<open>The node as the protocol carries it; a branch never carries an ItemID.\<close>

record proto_browse_node =
  pn_node_key :: string
  pn_display_name :: ustring
  pn_kind :: int
  pn_item_id :: "ustring option"

definition map_browse_node :: "browse_node \<Rightarrow> proto_browse_node" where
  "map_browse_node node =
     \<lparr>pn_node_key = bn_node_key node, pn_display_name = bn_display_name node,
      pn_kind = (case bn_kind node of Branch \<Rightarrow> 1 | Item \<Rightarrow> 2 | BranchAndItem \<Rightarrow> 3),
      pn_item_id = (case bn_kind node of Branch \<Rightarrow> None | _ \<Rightarrow> bn_item_id node)\<rparr>"

record breadcrumb =
  bc_node_key :: string
  bc_display_name :: ustring

datatype search_event =
  Progress (ev_visited: u32) (ev_matches: u32) (ev_partial: bool)
| Match (ev_node: proto_browse_node) (ev_breadcrumbs: "breadcrumb list")
| Completed (ev_complete: bool) (ev_cancelled: bool) (ev_truncated: bool) (ev_warning: "string option")

record search_scope =
  ss_parent_node_key :: "string option"
  ss_breadcrumbs :: "breadcrumb list"
  ss_refresh :: bool

datatype search_step = Continue | Stop

section \<open>The walk\<close>

text \<open>
  \<open>se_rx n\<close> tells whether the receiver is alive at the \<open>n\<close>-th send. A failed send is not
  delivered.
\<close>

record 'b search_env =
  se_rx :: "nat \<Rightarrow> bool"
  se_browse :: "'b \<Rightarrow> string option \<Rightarrow> string option \<Rightarrow> bool \<Rightarrow> browse_page rpc \<times> 'b"
  se_request :: search_request
  se_mode :: search_match_mode
  se_max_results :: u32

record 'b search_context =
  sc_source :: 'b
  sc_matched_item_ids :: "ustring set"
  sc_visited_nodes :: u32
  sc_matches :: u32
  sc_scopes :: "search_scope list"
  sc_sent :: "(rpc_error + search_event) list"
  sc_sends :: nat

definition tx_send :: "'b search_env \<Rightarrow> rpc_error + search_event \<Rightarrow> 'b search_context \<Rightarrow> bool \<times> 'b search_context" where
  "tx_send env event ctx =
     (if se_rx env (sc_sends ctx)
      then (True, ctx\<lparr>sc_sent := sc_sent ctx @ [event], sc_sends := Suc (sc_sends ctx)\<rparr>)
      else (False, ctx\<lparr>sc_sends := Suc (sc_sends ctx)\<rparr>))"

definition send_search_completion ::
  "'b search_env \<Rightarrow> bool \<Rightarrow> bool \<Rightarrow> string option \<Rightarrow> 'b search_context \<Rightarrow> unit rpc \<times> 'b search_context" where
  "send_search_completion env is_complete truncated warning ctx =
     (case tx_send env (Inr (Completed is_complete False truncated warning)) ctx of
        (True, ctx') \<Rightarrow> (Inr (), ctx')
      | (False, ctx') \<Rightarrow> (Inl (Status Cancelled ''search stream closed''), ctx'))"

definition match_node ::
  "browse_node \<Rightarrow> search_request \<Rightarrow> search_match_mode \<Rightarrow> breadcrumb list \<Rightarrow> 'b search_context \<Rightarrow>
     search_event option \<times> 'b search_context" where
  "match_node node request mode breadcrumbs ctx =
     (let item_match = search_matches node (sq_query request) mode;
          branch_match = (sq_include_branches request \<and> item_match);
          has_new_item = (case bn_item_id node of None \<Rightarrow> True | Some item_id \<Rightarrow> item_id \<notin> sc_matched_item_ids ctx)
      in if \<not> (item_match \<and> has_new_item \<and> (bn_item_id node \<noteq> None \<or> branch_match)) then (None, ctx)
         else
           (Some (Match (map_browse_node node)
              (breadcrumbs @ [\<lparr>bc_node_key = bn_node_key node, bc_display_name = bn_display_name node\<rparr>])),
            ctx\<lparr>sc_matched_item_ids :=
                  (case bn_item_id node of None \<Rightarrow> sc_matched_item_ids ctx
                   | Some item_id \<Rightarrow> insert item_id (sc_matched_item_ids ctx)),
                sc_matches := saturating_add (sc_matches ctx) 1\<rparr>))"

definition initial_search_scopes :: "search_request \<Rightarrow> search_scope list" where
  "initial_search_scopes request =
     [\<lparr>ss_parent_node_key = sq_scope_node_key request,
       ss_breadcrumbs = (case sq_scope_node_key request of
           None \<Rightarrow> [] | Some key \<Rightarrow> [\<lparr>bc_node_key = key, bc_display_name = []\<rparr>]),
       ss_refresh = sq_refresh request\<rparr>]"

definition child_search_scope :: "browse_node \<Rightarrow> breadcrumb list \<Rightarrow> search_scope option" where
  "child_search_scope node breadcrumbs =
     (if \<not> is_expandable (bn_kind node) then None
      else Some \<lparr>ss_parent_node_key = Some (bn_node_key node),
                 ss_breadcrumbs = breadcrumbs @
                   [\<lparr>bc_node_key = bn_node_key node, bc_display_name = bn_display_name node\<rparr>],
                 ss_refresh = False\<rparr>)"

text \<open>The second half of \<open>process_node\<close>, after a match has been sent.\<close>

definition expand_node ::
  "'b search_env \<Rightarrow> browse_node \<Rightarrow> breadcrumb list \<Rightarrow> 'b search_context \<Rightarrow> search_step rpc \<times> 'b search_context" where
  "expand_node env node breadcrumbs ctx0 =
     (let ctx = (case child_search_scope node breadcrumbs of
                   None \<Rightarrow> ctx0
                 | Some scope \<Rightarrow> ctx0\<lparr>sc_scopes := sc_scopes ctx0 @ [scope]\<rparr>)
      in if sc_visited_nodes ctx \<ge> MAX_SEARCH_VISITED
         then (case send_search_completion env False True (Some ''search visit limit reached'') ctx of
                 (Inl e, ctx') \<Rightarrow> (Inl e, ctx')
               | (Inr _, ctx') \<Rightarrow> (Inr Stop, ctx'))
         else (Inr Continue, ctx))"

definition process_node ::
  "'b search_env \<Rightarrow> browse_node \<Rightarrow> breadcrumb list \<Rightarrow> 'b search_context \<Rightarrow> search_step rpc \<times> 'b search_context" where
  "process_node env node breadcrumbs ctx0 =
     (let ctx1 = ctx0\<lparr>sc_visited_nodes := saturating_add (sc_visited_nodes ctx0) 1\<rparr> in
      case match_node node (se_request env) (se_mode env) breadcrumbs ctx1 of
        (None, ctx) \<Rightarrow> expand_node env node breadcrumbs ctx
      | (Some search_match, ctx) \<Rightarrow>
          (case tx_send env (Inr search_match) ctx of
             (False, ctx2) \<Rightarrow> (Inr Stop, ctx2)
           | (True, ctx2) \<Rightarrow>
               if sc_matches ctx2 \<ge> se_max_results env
               then (case send_search_completion env False True (Some ''search result limit reached'') ctx2 of
                       (Inl e, ctx3) \<Rightarrow> (Inl e, ctx3)
                     | (Inr _, ctx3) \<Rightarrow> (Inr Stop, ctx3))
               else expand_node env node breadcrumbs ctx2))"

fun process_nodes ::
  "'b search_env \<Rightarrow> browse_node list \<Rightarrow> breadcrumb list \<Rightarrow> 'b search_context \<Rightarrow> search_step rpc \<times> 'b search_context" where
  "process_nodes env [] breadcrumbs ctx = (Inr Continue, ctx)"
| "process_nodes env (node # nodes) breadcrumbs ctx =
     (case process_node env node breadcrumbs ctx of
        (Inl e, ctx') \<Rightarrow> (Inl e, ctx')
      | (Inr Stop, ctx') \<Rightarrow> (Inr Stop, ctx')
      | (Inr Continue, ctx') \<Rightarrow> process_nodes env nodes breadcrumbs ctx')"

definition process_page ::
  "'b search_env \<Rightarrow> browse_node list \<Rightarrow> bool \<Rightarrow> breadcrumb list \<Rightarrow> 'b search_context \<Rightarrow>
     search_step rpc \<times> 'b search_context" where
  "process_page env nodes partial breadcrumbs ctx0 =
     (case process_nodes env nodes breadcrumbs ctx0 of
        (Inl e, ctx) \<Rightarrow> (Inl e, ctx)
      | (Inr Stop, ctx) \<Rightarrow> (Inr Stop, ctx)
      | (Inr Continue, ctx) \<Rightarrow>
          (case tx_send env (Inr (Progress (sc_visited_nodes ctx) (sc_matches ctx) partial)) ctx of
             (False, ctx') \<Rightarrow> (Inr Stop, ctx')
           | (True, ctx') \<Rightarrow> (Inr Continue, ctx')))"

text \<open>The loop of \<open>process_scope\<close>; \<open>token\<close> and \<open>first\<close> are its \<open>page_token\<close> and \<open>first_page\<close>.\<close>

partial_function (option) scope_pages ::
  "'b search_env \<Rightarrow> search_scope \<Rightarrow> string option \<Rightarrow> bool \<Rightarrow> 'b search_context \<Rightarrow>
     (search_step rpc \<times> 'b search_context) option" where
  "scope_pages env scope token first ctx =
     (case se_browse env (sc_source ctx) (ss_parent_node_key scope) token (ss_refresh scope \<and> first) of
        (Inl e, b) \<Rightarrow> Some (Inl e, ctx\<lparr>sc_source := b\<rparr>)
      | (Inr page, b) \<Rightarrow>
          (case process_page env (bp_nodes page) (bp_next_page_token page \<noteq> None) (ss_breadcrumbs scope)
                  (ctx\<lparr>sc_source := b\<rparr>) of
             (Inl e, ctx') \<Rightarrow> Some (Inl e, ctx')
           | (Inr Stop, ctx') \<Rightarrow> Some (Inr Stop, ctx')
           | (Inr Continue, ctx') \<Rightarrow>
               (case bp_next_page_token page of
                  None \<Rightarrow> Some (Inr Continue, ctx')
                | Some next \<Rightarrow> scope_pages env scope (Some next) False ctx')))"

definition process_scope ::
  "'b search_env \<Rightarrow> search_scope \<Rightarrow> 'b search_context \<Rightarrow> (search_step rpc \<times> 'b search_context) option" where
  "process_scope env scope ctx = scope_pages env scope None True ctx"

partial_function (option) run_scopes ::
  "'b search_env \<Rightarrow> 'b search_context \<Rightarrow> (search_step rpc \<times> 'b search_context) option" where
  "run_scopes env ctx =
     (case sc_scopes ctx of
        [] \<Rightarrow> Some (Inr Continue, ctx)
      | scope # scopes \<Rightarrow>
          (case process_scope env scope (ctx\<lparr>sc_scopes := scopes\<rparr>) of
             None \<Rightarrow> None
           | Some (Inl e, ctx') \<Rightarrow> Some (Inl e, ctx')
           | Some (Inr Stop, ctx') \<Rightarrow> Some (Inr Stop, ctx')
           | Some (Inr Continue, ctx') \<Rightarrow> run_scopes env ctx'))"

definition search_start :: "'b search_env \<Rightarrow> 'b \<Rightarrow> 'b search_context" where
  "search_start env b =
     \<lparr>sc_source = b, sc_matched_item_ids = {}, sc_visited_nodes = 0, sc_matches = 0,
      sc_scopes = initial_search_scopes (se_request env), sc_sent = [], sc_sends = 0\<rparr>"

definition run_search_inner :: "'b search_env \<Rightarrow> 'b \<Rightarrow> (unit rpc \<times> 'b search_context) option" where
  "run_search_inner env b =
     (case tx_send env (Inr (Progress 0 0 False)) (search_start env b) of
        (False, ctx) \<Rightarrow> Some (Inr (), ctx)
      | (True, ctx) \<Rightarrow>
          (case run_scopes env ctx of
             None \<Rightarrow> None
           | Some (Inl e, ctx') \<Rightarrow> Some (Inl e, ctx')
           | Some (Inr Stop, ctx') \<Rightarrow> Some (Inr (), ctx')
           | Some (Inr Continue, ctx') \<Rightarrow> Some (send_search_completion env True False None ctx')))"

text \<open>\<open>run_search\<close>: an error ends the stream, and a session opened for this search is closed.\<close>

definition run_search ::
  "'b search_env \<Rightarrow> ('b \<Rightarrow> 'b) \<Rightarrow> bool \<Rightarrow> 'b \<Rightarrow> ((rpc_error + search_event) list \<times> 'b) option" where
  "run_search env close temporary_session b =
     (case run_search_inner env b of
        None \<Rightarrow> None
      | Some (result, ctx) \<Rightarrow>
          (let ctx' = (case result of Inl e \<Rightarrow> snd (tx_send env (Inl e) ctx) | Inr _ \<Rightarrow> ctx)
           in Some (sc_sent ctx', if temporary_session then close (sc_source ctx') else sc_source ctx')))"

section \<open>What the stream carries\<close>

fun stream_matches :: "(rpc_error + search_event) list \<Rightarrow> proto_browse_node list" where
  "stream_matches [] = []"
| "stream_matches (Inr (Match node _) # events) = node # stream_matches events"
| "stream_matches (_ # events) = stream_matches events"

fun stream_item_ids :: "proto_browse_node list \<Rightarrow> ustring list" where
  "stream_item_ids [] = []"
| "stream_item_ids (node # nodes) =
     (case pn_item_id node of None \<Rightarrow> [] | Some item_id \<Rightarrow> [item_id]) @ stream_item_ids nodes"

definition is_terminal :: "rpc_error + search_event \<Rightarrow> bool" where
  "is_terminal event = (case event of Inl _ \<Rightarrow> True | Inr (Completed _ _ _ _) \<Rightarrow> True | Inr _ \<Rightarrow> False)"

definition unfinished :: "(rpc_error + search_event) list \<Rightarrow> bool" where
  "unfinished sent \<longleftrightarrow> list_all (\<lambda>event. \<not> is_terminal event) sent"

definition is_requested :: "'b search_env \<Rightarrow> proto_browse_node \<Rightarrow> bool" where
  "is_requested env pn \<longleftrightarrow> (\<exists>node. pn = map_browse_node node \<and>
     search_matches node (sq_query (se_request env)) (se_mode env) \<and>
     (bn_item_id node \<noteq> None \<or> sq_include_branches (se_request env)))"

definition stream_ok :: "'b search_env \<Rightarrow> (rpc_error + search_event) list \<Rightarrow> bool" where
  "stream_ok env sent \<longleftrightarrow> length (stream_matches sent) \<le> unat (se_max_results env) \<and>
     distinct (stream_item_ids (stream_matches sent)) \<and> list_all (is_requested env) (stream_matches sent)"

definition running :: "'b search_env \<Rightarrow> 'b search_context \<Rightarrow> bool" where
  "running env ctx \<longleftrightarrow> unfinished (sc_sent ctx) \<and> stream_ok env (sc_sent ctx) \<and>
     unat (sc_matches ctx) = length (stream_matches (sc_sent ctx)) \<and> sc_matches ctx < se_max_results env \<and>
     sc_visited_nodes ctx < MAX_SEARCH_VISITED \<and>
     set (stream_item_ids (stream_matches (sc_sent ctx))) \<subseteq> sc_matched_item_ids ctx"

definition ends_with_completion :: "bool \<Rightarrow> (rpc_error + search_event) list \<Rightarrow> bool" where
  "ends_with_completion is_complete sent \<longleftrightarrow> (\<exists>before warning.
     sent = before @ [Inr (Completed is_complete False (\<not> is_complete) warning)] \<and> unfinished before)"

definition receiver_closed :: "'b search_env \<Rightarrow> bool" where
  "receiver_closed env \<longleftrightarrow> (\<exists>n. \<not> se_rx env n)"

fun outcome :: "'b search_env \<Rightarrow> search_step rpc \<times> 'b search_context \<Rightarrow> bool" where
  "outcome env (Inr Continue, ctx) = running env ctx"
| "outcome env (Inr Stop, ctx) =
     (stream_ok env (sc_sent ctx) \<and>
      (ends_with_completion False (sc_sent ctx) \<or> receiver_closed env \<and> unfinished (sc_sent ctx)))"
| "outcome env (Inl e, ctx) = (stream_ok env (sc_sent ctx) \<and> unfinished (sc_sent ctx))"

lemma stream_matches_append [simp]:
  "stream_matches (a @ b) = stream_matches a @ stream_matches b"
  by (induction a rule: stream_matches.induct) auto

lemma stream_item_ids_append [simp]: "stream_item_ids (a @ b) = stream_item_ids a @ stream_item_ids b"
  by (induction a) auto

lemma stream_matches_non_match [simp]:
  "stream_matches [Inr (Progress v m p)] = []" "stream_matches [Inr (Completed c d t w)] = []"
  "stream_matches [Inl e] = []"
  by simp_all

lemma unfinished_append [simp]:
  "unfinished (a @ b) \<longleftrightarrow> unfinished a \<and> unfinished b" "unfinished []"
  "unfinished [Inr (Match n bs)]" "unfinished [Inr (Progress v m p)]"
  by (auto simp: unfinished_def is_terminal_def)

lemma completion_outcome:
  assumes "stream_ok env (sc_sent ctx)" and "unfinished (sc_sent ctx)"
  shows "outcome env (case send_search_completion env False True w ctx of
      (Inl e, ctx') \<Rightarrow> (Inl e, ctx') | (Inr _, ctx') \<Rightarrow> (Inr Stop, ctx'))"
  using assms
  by (auto simp: send_search_completion_def tx_send_def stream_ok_def ends_with_completion_def)

lemma expand_node_outcome:
  assumes "stream_ok env (sc_sent ctx)" and "unfinished (sc_sent ctx)"
    and "sc_visited_nodes ctx < MAX_SEARCH_VISITED \<Longrightarrow> running env ctx"
  shows "outcome env (expand_node env node breadcrumbs ctx)"
  using assms completion_outcome [of env]
  by (auto simp: expand_node_def Let_def running_def split: option.splits)

text \<open>One more match: it is new, it was asked for, and it stays within the limit.\<close>

lemma match_node_Some:
  assumes "running env ctx" and "match_node node (se_request env) (se_mode env) bs
      (ctx\<lparr>sc_visited_nodes := v\<rparr>) = (Some ev, ctx')"
  shows "sc_sent ctx' = sc_sent ctx" and "stream_ok env (sc_sent ctx @ [Inr ev])"
    and "unfinished (sc_sent ctx @ [Inr ev])"
    and "unat (sc_matches ctx') = length (stream_matches (sc_sent ctx @ [Inr ev]))"
    and "set (stream_item_ids (stream_matches (sc_sent ctx @ [Inr ev]))) \<subseteq> sc_matched_item_ids ctx'"
    and "sc_visited_nodes ctx' = v"
proof -
  have lt: "unat (sc_matches ctx) < unat (se_max_results env)" and inc: "unat (sc_matches ctx) + 1 < 2 ^ 32"
    using assms(1) unat_le_max [of "se_max_results env"] by (auto simp: running_def word_less_nat_alt)
  have ids: "set (stream_item_ids (stream_matches (sc_sent ctx))) \<subseteq> sc_matched_item_ids ctx"
    using assms(1) by (simp add: running_def)
  note defs = match_node_def Let_def running_def stream_ok_def map_browse_node_def is_requested_def
  show "sc_sent ctx' = sc_sent ctx" "unfinished (sc_sent ctx @ [Inr ev])" "sc_visited_nodes ctx' = v"
    using assms by (auto simp: defs split: if_splits)
  show "unat (sc_matches ctx') = length (stream_matches (sc_sent ctx @ [Inr ev]))"
    using assms inc by (auto simp: defs unat_saturating_add split: if_splits)
  show "set (stream_item_ids (stream_matches (sc_sent ctx @ [Inr ev]))) \<subseteq> sc_matched_item_ids ctx'"
    using assms ids by (auto simp: defs split: if_splits option.splits browse_node_kind.splits)
  have "is_requested env (map_browse_node node)"
    if "ev = Match (map_browse_node node) bs'" for bs'
    using assms(2) that by (auto simp: match_node_def is_requested_def Let_def split: if_splits)
  then show "stream_ok env (sc_sent ctx @ [Inr ev])"
    using assms ids lt
    by (auto simp: match_node_def Let_def running_def stream_ok_def map_browse_node_def
        split: if_splits option.splits browse_node_kind.splits)
qed

lemma process_node_outcome:
  assumes "running env ctx"
  shows "outcome env (process_node env node breadcrumbs ctx)"
proof -
  let ?ctx1 = "ctx\<lparr>sc_visited_nodes := saturating_add (sc_visited_nodes ctx) 1\<rparr>"
  obtain ev ctx' where m: "match_node node (se_request env) (se_mode env) breadcrumbs ?ctx1 = (ev, ctx')"
    by fastforce
  show ?thesis
  proof (cases ev)
    case None
    then have "ctx' = ?ctx1" using m by (auto simp: match_node_def Let_def split: if_splits)
    then show ?thesis
      using assms m None expand_node_outcome [of env ?ctx1]
      by (auto simp: process_node_def running_def)
  next
    case (Some e)
    note facts = match_node_Some [OF assms m [unfolded Some]]
    show ?thesis
    proof (cases "se_rx env (sc_sends ctx')")
      case False
      then show ?thesis
        using assms m Some facts(1)
        by (auto simp: process_node_def tx_send_def running_def receiver_closed_def)
    next
      case True
      let ?ctx2 = "ctx'\<lparr>sc_sent := sc_sent ctx' @ [Inr e], sc_sends := Suc (sc_sends ctx')\<rparr>"
      have ok: "stream_ok env (sc_sent ?ctx2)" "unfinished (sc_sent ?ctx2)"
        using facts(1-3) by simp_all
      moreover have "running env ?ctx2"
        if "sc_matches ctx' < se_max_results env" and "sc_visited_nodes ctx' < MAX_SEARCH_VISITED"
        using that facts(1,4,5) ok by (simp add: running_def)
      ultimately show ?thesis
        using m Some True completion_outcome [of env ?ctx2] expand_node_outcome [of env ?ctx2]
        by (auto simp: process_node_def tx_send_def not_le)
    qed
  qed
qed

lemma process_nodes_outcome:
  "running env ctx \<Longrightarrow> outcome env (process_nodes env nodes breadcrumbs ctx)"
proof (induction nodes arbitrary: ctx)
  case (Cons node nodes)
  obtain r ctx' where p: "process_node env node breadcrumbs ctx = (r, ctx')" by fastforce
  show ?case
    using process_node_outcome [OF Cons.prems, of node breadcrumbs] Cons.IH [of ctx'] p
    by (cases r; cases "projr r") auto
qed simp

lemma process_page_outcome:
  assumes "running env ctx"
  shows "outcome env (process_page env nodes partial breadcrumbs ctx)"
proof -
  obtain r ctx' where p: "process_nodes env nodes breadcrumbs ctx = (r, ctx')" by fastforce
  show ?thesis
    using process_nodes_outcome [OF assms, of nodes breadcrumbs] p
    by (cases r; cases "projr r")
      (auto simp: process_page_def tx_send_def running_def stream_ok_def receiver_closed_def)
qed

lemma running_source [simp]: "running env (ctx\<lparr>sc_source := b\<rparr>) = running env ctx"
  by (simp add: running_def)

lemma running_scopes [simp]: "running env (ctx\<lparr>sc_scopes := scopes\<rparr>) = running env ctx"
  by (simp add: running_def)

lemma scope_pages_outcome:
  assumes "scope_pages env scope token first ctx = Some r" and "running env ctx"
  shows "outcome env r"
proof -
  have "running env ctx \<longrightarrow> outcome env r"
  proof (rule scope_pages.raw_induct [where P = "\<lambda>env _ _ _ ctx r. running env ctx \<longrightarrow> outcome env r",
        OF _ assms(1)], intro impI, goal_cases)
    case (1 pages env scope token first ctx r)
    obtain res b where b: "se_browse env (sc_source ctx) (ss_parent_node_key scope) token
        (ss_refresh scope \<and> first) = (res, b)" by fastforce
    show ?case
    proof (cases res)
      case (Inl e)
      then show ?thesis using 1 b by (auto simp: running_def)
    next
      case (Inr page)
      let ?page = "process_page env (bp_nodes page) (bp_next_page_token page \<noteq> None)
          (ss_breadcrumbs scope) (ctx\<lparr>sc_source := b\<rparr>)"
      obtain step ctx' where p: "?page = (step, ctx')" by fastforce
      have "outcome env ?page" using 1(3) by (intro process_page_outcome) simp
      then show ?thesis
        using 1(1,2) b p Inr by (cases step; cases "projr step"; cases "bp_next_page_token page") auto
    qed
  qed
  then show ?thesis using assms(2) by blast
qed

lemma run_scopes_outcome:
  assumes "run_scopes env ctx = Some r" and "running env ctx"
  shows "outcome env r"
proof -
  have "running env ctx \<longrightarrow> outcome env r"
  proof (rule run_scopes.raw_induct [where P = "\<lambda>env ctx r. running env ctx \<longrightarrow> outcome env r",
        OF _ assms(1)], intro impI, goal_cases)
    case (1 run env ctx r)
    show ?case
    proof (cases "sc_scopes ctx")
      case (Cons scope scopes)
      obtain step ctx' where p: "process_scope env scope (ctx\<lparr>sc_scopes := scopes\<rparr>) = Some (step, ctx')"
        using 1(2) Cons by (cases "process_scope env scope (ctx\<lparr>sc_scopes := scopes\<rparr>)") auto
      have "outcome env (step, ctx')"
        using scope_pages_outcome [OF p [unfolded process_scope_def]] 1(3) by simp
      then show ?thesis
        using 1(1,2) p Cons by (cases step; cases "projr step") auto
    qed (use 1 in auto)
  qed
  then show ?thesis using assms(2) by blast
qed

lemma search_start_running:
  assumes "0 < se_max_results env"
  shows "running env (snd (tx_send env (Inr (Progress 0 0 False)) (search_start env b)))"
  using assms
  by (simp add: running_def tx_send_def search_start_def stream_ok_def MAX_SEARCH_VISITED_def word_less_nat_alt)

lemma search_inner_stream:
  assumes "0 < se_max_results env" and "run_search_inner env b = Some (r, ctx)"
  shows "stream_ok env (sc_sent ctx) \<and>
    (case r of Inl e \<Rightarrow> unfinished (sc_sent ctx)
     | Inr _ \<Rightarrow> (\<exists>c. ends_with_completion c (sc_sent ctx)) \<or> receiver_closed env \<and> unfinished (sc_sent ctx))"
proof -
  let ?start = "tx_send env (Inr (Progress 0 0 False)) (search_start env b)"
  obtain ok ctx0 where st: "?start = (ok, ctx0)" by fastforce
  have run0: "running env ctx0" using search_start_running [OF assms(1)] st by (metis snd_conv)
  show ?thesis
  proof (cases ok)
    case False
    then have "\<not> se_rx env 0" using st by (auto simp: tx_send_def search_start_def split: if_splits)
    then show ?thesis
      using assms(2) st False run0 by (auto simp: run_search_inner_def running_def receiver_closed_def)
  next
    case True
    then obtain step ctx1 where rs: "run_scopes env ctx0 = Some (step, ctx1)"
      using assms(2) st by (cases "run_scopes env ctx0") (auto simp: run_search_inner_def)
    have out: "outcome env (step, ctx1)" by (rule run_scopes_outcome [OF rs run0])
    show ?thesis
    proof (cases "step = Inr Continue")
      case True
      then have "(r, ctx) = send_search_completion env True False None ctx1"
        using assms(2) st rs \<open>ok\<close> by (auto simp: run_search_inner_def)
      then show ?thesis
        using out True
        by (auto simp: send_search_completion_def tx_send_def running_def stream_ok_def ends_with_completion_def
            split: if_splits)
    next
      case False
      then show ?thesis
        using assms(2) st rs \<open>ok\<close> out by (cases step; cases "projr step") (auto simp: run_search_inner_def)
    qed
  qed
qed

lemma search_stream:
  assumes "0 < se_max_results env" and "run_search env close temporary b = Some (events, b')"
  shows "stream_ok env events \<and>
    ((\<exists>c. ends_with_completion c events) \<or> (\<exists>before e. events = before @ [Inl e] \<and> unfinished before) \<or>
     receiver_closed env \<and> unfinished events)"
proof -
  obtain r ctx where inner: "run_search_inner env b = Some (r, ctx)"
    using assms(2) by (cases "run_search_inner env b") (auto simp: run_search_def)
  show ?thesis
    using search_inner_stream [OF assms(1) inner] assms(2) inner
    by (cases r) (auto simp: run_search_def Let_def tx_send_def stream_ok_def receiver_closed_def split: if_splits)
qed

section \<open>The search ends\<close>

text \<open>
  What the walk needs of its page source: a page that announces another page is not empty. An
  invariant of the source's state may be needed to promise that.
\<close>

locale page_source =
  fixes brw :: "'b \<Rightarrow> string option \<Rightarrow> string option \<Rightarrow> bool \<Rightarrow> browse_page rpc \<times> 'b"
    and inv :: "'b \<Rightarrow> bool"
  assumes inv_browse: "inv b \<Longrightarrow> brw b parent token refresh = (res, b') \<Longrightarrow> inv b'"
    and productive: "inv b \<Longrightarrow> brw b parent token refresh = (Inr page, b') \<Longrightarrow>
      bp_next_page_token page \<noteq> None \<Longrightarrow> bp_nodes page \<noteq> []"

lemma visited_Suc:
  "v < MAX_SEARCH_VISITED \<Longrightarrow> unat (saturating_add v 1) = Suc (unat v)"
  by (simp add: unat_saturating_add MAX_SEARCH_VISITED_def word_less_nat_alt)

lemma expand_node_Continue:
  "expand_node env node bs ctx = (Inr Continue, ctx') \<Longrightarrow>
     sc_source ctx' = sc_source ctx \<and> sc_visited_nodes ctx' = sc_visited_nodes ctx \<and>
     length (sc_scopes ctx') \<le> Suc (length (sc_scopes ctx))"
  by (auto simp: expand_node_def Let_def split: if_splits option.splits prod.splits sum.splits)

lemma process_node_Continue:
  assumes "running env ctx" and "process_node env node bs ctx = (Inr Continue, ctx')"
  shows "sc_source ctx' = sc_source ctx \<and> unat (sc_visited_nodes ctx') = Suc (unat (sc_visited_nodes ctx)) \<and>
    length (sc_scopes ctx') \<le> Suc (length (sc_scopes ctx))"
proof -
  let ?ctx1 = "ctx\<lparr>sc_visited_nodes := saturating_add (sc_visited_nodes ctx) 1\<rparr>"
  obtain ev ctx2 where m: "match_node node (se_request env) (se_mode env) bs ?ctx1 = (ev, ctx2)" by fastforce
  then have same: "sc_source ctx2 = sc_source ctx" "sc_scopes ctx2 = sc_scopes ctx"
      "sc_visited_nodes ctx2 = saturating_add (sc_visited_nodes ctx) 1"
    by (auto simp: match_node_def Let_def split: if_splits)
  obtain ctx3 where "expand_node env node bs ctx3 = (Inr Continue, ctx')" "sc_source ctx3 = sc_source ctx2"
      "sc_scopes ctx3 = sc_scopes ctx2" "sc_visited_nodes ctx3 = sc_visited_nodes ctx2"
    using assms(2) m
    by (auto simp: process_node_def tx_send_def split: option.splits if_splits prod.splits sum.splits)
  then show ?thesis
    using expand_node_Continue [of env node bs ctx3 ctx'] same assms(1) visited_Suc by (simp add: running_def)
qed

lemma process_nodes_Continue:
  assumes "running env ctx" and "process_nodes env nodes bs ctx = (Inr Continue, ctx')"
  shows "sc_source ctx' = sc_source ctx \<and>
    unat (sc_visited_nodes ctx') = unat (sc_visited_nodes ctx) + length nodes \<and>
    length (sc_scopes ctx') \<le> length (sc_scopes ctx) + length nodes"
  using assms
proof (induction nodes arbitrary: ctx)
  case (Cons node nodes)
  obtain step ctx1 where p: "process_node env node bs ctx = (step, ctx1)" by fastforce
  then have "step = Inr Continue"
    using Cons.prems(2) by (cases step; cases "projr step") auto
  then show ?case
    using Cons p process_node_Continue [OF Cons.prems(1), of node bs ctx1]
      process_node_outcome [OF Cons.prems(1), of node bs] by fastforce
qed simp

lemma process_page_Continue:
  assumes "running env ctx" and "process_page env nodes partial bs ctx = (Inr Continue, ctx')"
  shows "sc_source ctx' = sc_source ctx \<and>
    unat (sc_visited_nodes ctx') = unat (sc_visited_nodes ctx) + length nodes \<and>
    length (sc_scopes ctx') \<le> length (sc_scopes ctx) + length nodes"
proof -
  obtain step ctx1 where p: "process_nodes env nodes bs ctx = (step, ctx1)" by fastforce
  then have "step = Inr Continue" "sc_source ctx' = sc_source ctx1" "sc_scopes ctx' = sc_scopes ctx1"
      "sc_visited_nodes ctx' = sc_visited_nodes ctx1"
    using assms(2)
    by (auto simp: process_page_def tx_send_def split: sum.splits search_step.splits if_splits)
  then show ?thesis using process_nodes_Continue [OF assms(1), of nodes bs ctx1] p by simp
qed

context page_source
begin

lemma scope_pages_ends:
  assumes "se_browse env = brw" and "running env ctx" and "inv (sc_source ctx)"
  shows "\<exists>step ctx'. scope_pages env scope token first ctx = Some (step, ctx') \<and>
    (step = Inr Continue \<longrightarrow> inv (sc_source ctx') \<and> unat (sc_visited_nodes ctx) \<le> unat (sc_visited_nodes ctx') \<and>
       length (sc_scopes ctx') + unat (sc_visited_nodes ctx) \<le> length (sc_scopes ctx) + unat (sc_visited_nodes ctx'))"
  using assms(2,3)
proof (induction "50000 - unat (sc_visited_nodes ctx)" arbitrary: ctx token first rule: less_induct)
  case less
  obtain res b where b: "brw (sc_source ctx) (ss_parent_node_key scope) token
      (ss_refresh scope \<and> first) = (res, b)" by fastforce
  have inv: "inv b" using inv_browse less.prems(2) b by blast
  show ?case
  proof (cases res)
    case (Inl e)
    then show ?thesis using b assms(1) by (subst scope_pages.simps) simp
  next
    case (Inr page)
    let ?page = "process_page env (bp_nodes page) (bp_next_page_token page \<noteq> None)
        (ss_breadcrumbs scope) (ctx\<lparr>sc_source := b\<rparr>)"
    obtain step ctx' where p: "?page = (step, ctx')" by fastforce
    show ?thesis
    proof (cases "step = Inr Continue")
      case False
      then show ?thesis
        using b assms(1) Inr p by (subst scope_pages.simps, cases step; cases "projr step") auto
    next
      case True
      have run: "running env (ctx\<lparr>sc_source := b\<rparr>)" using less.prems(1) by simp
      note facts = process_page_Continue [OF run p [unfolded True]]
      show ?thesis
      proof (cases "bp_next_page_token page")
        case None
        then show ?thesis using b assms(1) Inr p True facts inv by (subst scope_pages.simps) auto
      next
        case (Some t)
        have run': "running env ctx'" using process_page_outcome [OF run] p True by (metis outcome.simps(1))
        have "bp_nodes page \<noteq> []" using productive [OF less.prems(2)] b Inr Some by blast
        then have more: "unat (sc_visited_nodes ctx) < unat (sc_visited_nodes ctx')" using facts by simp
        moreover have "unat (sc_visited_nodes ctx') < 50000"
          using run' by (simp add: running_def MAX_SEARCH_VISITED_def word_less_nat_alt)
        ultimately have "50000 - unat (sc_visited_nodes ctx') < 50000 - unat (sc_visited_nodes ctx)" by simp
        from less.hyps [OF this run', of "Some t" False] inv facts obtain step2 ctx2
          where "scope_pages env scope (Some t) False ctx' = Some (step2, ctx2)"
            and "step2 = Inr Continue \<longrightarrow> inv (sc_source ctx2) \<and>
              unat (sc_visited_nodes ctx') \<le> unat (sc_visited_nodes ctx2) \<and>
              length (sc_scopes ctx2) + unat (sc_visited_nodes ctx') \<le>
                length (sc_scopes ctx') + unat (sc_visited_nodes ctx2)"
          by auto
        then show ?thesis using b assms(1) Inr p True Some facts more by (subst scope_pages.simps) auto
      qed
    qed
  qed
qed

lemma run_scopes_ends:
  assumes "se_browse env = brw" and "running env ctx" and "inv (sc_source ctx)"
  shows "\<exists>r. run_scopes env ctx = Some r"
  using assms(2,3)
proof (induction "2 * (50000 - unat (sc_visited_nodes ctx)) + length (sc_scopes ctx)" arbitrary: ctx
    rule: less_induct)
  case less
  show ?case
  proof (cases "sc_scopes ctx")
    case Nil
    then show ?thesis by (subst run_scopes.simps) simp
  next
    case (Cons scope scopes)
    let ?ctx = "ctx\<lparr>sc_scopes := scopes\<rparr>"
    have run: "running env ?ctx" "inv (sc_source ?ctx)" using less.prems by simp_all
    obtain step ctx' where p: "process_scope env scope ?ctx = Some (step, ctx')"
      and facts: "step = Inr Continue \<longrightarrow> inv (sc_source ctx') \<and>
        unat (sc_visited_nodes ?ctx) \<le> unat (sc_visited_nodes ctx') \<and>
        length (sc_scopes ctx') + unat (sc_visited_nodes ?ctx) \<le> length (sc_scopes ?ctx) + unat (sc_visited_nodes ctx')"
      using scope_pages_ends [OF assms(1) run, of scope None True] unfolding process_scope_def by blast
    show ?thesis
    proof (cases "step = Inr Continue")
      case False
      then show ?thesis using Cons p by (subst run_scopes.simps, cases step; cases "projr step") auto
    next
      case True
      have run': "running env ctx'"
        using scope_pages_outcome [OF p [unfolded process_scope_def True] run(1)] by simp
      then have "unat (sc_visited_nodes ctx') < 50000"
        by (simp add: running_def MAX_SEARCH_VISITED_def word_less_nat_alt)
      then have "2 * (50000 - unat (sc_visited_nodes ctx')) + length (sc_scopes ctx')
          < 2 * (50000 - unat (sc_visited_nodes ctx)) + length (sc_scopes ctx)"
        using facts True Cons by auto
      from less.hyps [OF this run'] facts True show ?thesis
        using Cons p by (subst run_scopes.simps) auto
    qed
  qed
qed

lemma search_ends:
  assumes "se_browse env = brw" and "0 < se_max_results env" and "inv b"
  shows "\<exists>r. run_search_inner env b = Some r"
proof -
  have "running env (snd (tx_send env (Inr (Progress 0 0 False)) (search_start env b)))"
    using assms(2) by (rule search_start_running)
  moreover have "sc_source (snd (tx_send env e (search_start env b))) = b" for e
    by (simp add: tx_send_def search_start_def)
  ultimately obtain r where
    "run_scopes env (snd (tx_send env (Inr (Progress 0 0 False)) (search_start env b))) = Some r"
    using run_scopes_ends [OF assms(1)] assms(3) by metis
  then show ?thesis
    by (auto simp: run_search_inner_def split: prod.splits bool.splits sum.splits search_step.splits)
qed

end

section \<open>The browse manager as a page source\<close>

text \<open>
  Every page of a search is one \<open>browse\<close> of the search's session; \<open>clock n\<close> is the instant of
  the \<open>n\<close>-th call.
\<close>

definition gateway_source ::
  "'w browse_env \<Rightarrow> (nat \<Rightarrow> int) \<Rightarrow> string \<Rightarrow> string \<Rightarrow> manager \<times> 'w \<times> nat \<Rightarrow> string option \<Rightarrow>
     string option \<Rightarrow> bool \<Rightarrow> browse_page rpc \<times> (manager \<times> 'w \<times> nat)" where
  "gateway_source env clock server sid b parent token refresh =
     (case b of (m, w, n) \<Rightarrow>
        (case browse env (clock n) server (Some sid) parent token DEFAULT_PAGE_SIZE refresh m w of
           (Inl e, m', w') \<Rightarrow> (Inl e, (m', w', Suc n))
         | (Inr (_, page), m', w') \<Rightarrow> (Inr page, (m', w', Suc n))))"

definition page_productive :: "browse_page \<Rightarrow> bool" where
  "page_productive page \<longleftrightarrow> bp_next_page_token page = None \<or> bp_nodes page \<noteq> []"

definition client_productive :: "'w browse_env \<Rightarrow> bool" where
  "client_productive env \<longleftrightarrow> (\<forall>w sid parent token psize refresh page w'.
     env_browse_page env w sid parent token psize refresh = (Inr page, w') \<longrightarrow> page_productive page)"

definition cache_productive :: "manager \<Rightarrow> bool" where
  "cache_productive m \<longleftrightarrow> cached_pages (\<lambda>_. page_productive) m"

interpretation productive_pages: page_law "\<lambda>_. page_productive"
  by unfold_locales (auto simp: page_productive_def)

lemma gateway_source_productive:
  assumes "client_productive env" and "cache_productive m"
    and "gateway_source env clock server sid (m, w, n) parent token refresh = (res, (m', w', n'))"
  shows "cache_productive m' \<and> (\<forall>page. res = Inr page \<longrightarrow> page_productive page)"
proof -
  obtain r m1 w1 where br: "browse env (clock n) server (Some sid) parent token DEFAULT_PAGE_SIZE refresh m w =
      (r, m1, w1)" by (metis prod_cases3)
  have "client_pages (\<lambda>_. page_productive) env"
    using assms(1) by (auto simp: client_productive_def client_pages_def)
  from productive_pages.browse_pages [OF this _ br] assms(2) show ?thesis
    using assms(3) br unfolding cache_productive_def by (cases r) (auto simp: gateway_source_def)
qed

interpretation gateway_pages: page_source "gateway_source env clock server sid"
  "\<lambda>(m, w, n). client_productive env \<and> cache_productive m"
  by unfold_locales (auto dest!: gateway_source_productive [rotated 2] simp: page_productive_def)

definition gateway_close :: "'w browse_env \<Rightarrow> string \<Rightarrow> manager \<times> 'w \<times> nat \<Rightarrow> manager \<times> 'w \<times> nat" where
  "gateway_close env sid b =
     (case b of (m, w, n) \<Rightarrow> (case close_session env sid m w of (_, m', w') \<Rightarrow> (m', w', n)))"

lemma gateway_search_ends:
  assumes "se_browse senv = gateway_source env clock server sid" and "0 < se_max_results senv"
    and "client_productive env" and "cache_productive m"
  shows "\<exists>events b. run_search senv (gateway_close env sid) temporary (m, w, n) = Some (events, b)"
proof -
  obtain r where "run_search_inner senv (m, w, n) = Some r"
    using gateway_pages.search_ends [OF assms(1,2), of "(m, w, n)"] assms(3,4) by auto
  then show ?thesis by (cases r) (metis (no_types, lifting) run_search_def option.simps(5) case_prod_conv)
qed

section \<open>Properties\<close>

text \<open>
  C10. A live search through the gateway's browse manager always ends, however large or cyclic the
  native namespace is, provided the native client never announces a continuation on an empty
  page.
\<close>

theorem live_search_terminates:
  assumes "se_browse senv = gateway_source env clock server sid" and "0 < se_max_results senv"
    and "client_productive env" and "cache_productive m"
  shows "\<exists>events b. run_search senv (gateway_close env sid) temporary (m, w, n) = Some (events, b)"
  using gateway_search_ends [OF assms] .


text \<open>
  C11. A stream whose receiver stays connected ends in exactly one terminal element, its last: a
  completion, either complete or truncated and never both, or the error that stopped the search.
\<close>

theorem live_search_one_terminal_event:
  assumes "0 < se_max_results senv" and "run_search senv close temporary b = Some (events, b')"
    and "\<forall>k. se_rx senv k"
  shows "\<exists>before last. events = before @ [last] \<and> unfinished before \<and>
    ((\<exists>e. last = Inl e) \<or> (\<exists>c w. last = Inr (Completed c False (\<not> c) w)))"
proof -
  have "\<not> receiver_closed senv" using assms(3) by (simp add: receiver_closed_def)
  then show ?thesis
    using search_stream [OF assms(1,2)] by (auto simp: ends_with_completion_def)
qed

text \<open>
  Validation accepts a request exactly when the normalised query is not empty, the match mode
  is known, a contains query has at least two characters and at most 1000 results are asked for;
  it then always returns a resolved mode and a result limit between 1 and 1000.
\<close>

theorem validate_search_limits:
  "(case validate_search lower request of
      Inr (mode, limit) \<Rightarrow> mode \<noteq> ModeUnspecified \<and> 1 \<le> limit \<and> limit \<le> 1000 \<and>
        sq_match_mode request \<in> {0..3} \<and> sq_max_results request \<in> {0, limit} \<and>
        normalize_query lower (sq_query request) \<noteq> [] \<and> (mode = ModeContains \<longrightarrow> 2 \<le> length (sq_query request))
    | Inl e \<Rightarrow> (\<exists>msg. e = Status InvalidArgument msg) \<and>
        (normalize_query lower (sq_query request) = [] \<or> sq_match_mode request \<notin> {0..3} \<or>
         sq_match_mode request \<in> {0, 3} \<and> length (sq_query request) < 2 \<or> 1000 < sq_max_results request))"
  by (auto simp: validate_search_def search_mode_def search_match_mode_of_def Let_def DEFAULT_SEARCH_RESULTS_def
      MAX_SEARCH_RESULTS_def word_le_nat_alt word_less_nat_alt unat_gt_0 Suc_le_eq split: if_splits)

section \<open>A concrete search\<close>

definition demo_search :: "(manager \<times> unit \<times> nat) search_env" where
  "demo_search =
     \<lparr>se_rx = (\<lambda>_. True), se_browse = gateway_source demo_env (\<lambda>n. 100002 + int n) ''S'' (demo_token 0),
      se_request = \<lparr>sq_query = ascii ''Tag'', sq_match_mode = 3, sq_max_results = 7,
        sq_scope_node_key = None, sq_include_branches = False, sq_refresh = False\<rparr>,
      se_mode = ModeContains, se_max_results = 7\<rparr>"

lemma demo_client_productive: "client_productive demo_env"
  by (auto simp: client_productive_def page_productive_def demo_native_page_def)

lemma demo_cache_productive: "cache_productive demo_opened"
  by (simp add: cache_productive_def cached_pages_def demo_opened_def session_new_def session_pages_def)

lemma demo_search_params:
  "se_browse demo_search = gateway_source demo_env (\<lambda>n. 100002 + int n) ''S'' (demo_token 0)"
  "0 < se_max_results demo_search" "\<forall>k. se_rx demo_search k"
  by (simp_all add: demo_search_def)

theorem live_search_terminates_witness:
  "\<exists>events b. run_search demo_search (gateway_close demo_env (demo_token 0)) True (demo_opened, (), 0) = Some (events, b)"
  by (rule live_search_terminates [OF demo_search_params(1,2) demo_client_productive demo_cache_productive])


theorem live_search_one_terminal_event_witness:
  "\<exists>before last b. run_search demo_search (gateway_close demo_env (demo_token 0)) True (demo_opened, (), 0) =
     Some (before @ [last], b) \<and> unfinished before \<and> is_terminal last"
proof -
  obtain events b where
    r: "run_search demo_search (gateway_close demo_env (demo_token 0)) True (demo_opened, (), 0) = Some (events, b)"
    using gateway_search_ends [OF demo_search_params(1,2) demo_client_productive demo_cache_productive] by blast
  obtain before last where "events = before @ [last]" "unfinished before"
      "(\<exists>e. last = Inl e) \<or> (\<exists>c w. last = Inr (Completed c False (\<not> c) w))"
    using live_search_one_terminal_event [OF demo_search_params(2) r demo_search_params(3)] by blast
  moreover from this(3) have "is_terminal last" by (elim disjE exE) (simp_all add: is_terminal_def)
  ultimately show ?thesis using r by blast
qed

theorem validate_search_limits_witness:
  "validate_search (\<lambda>s. s) \<lparr>sq_query = ascii ''ab'', sq_match_mode = 0, sq_max_results = 0,
     sq_scope_node_key = None, sq_include_branches = False, sq_refresh = False\<rparr> = Inr (ModeContains, 200)"
  using validate_search_limits [of "\<lambda>s. s" "\<lparr>sq_query = ascii ''ab'', sq_match_mode = 0, sq_max_results = 0,
     sq_scope_node_key = None, sq_include_branches = False, sq_refresh = False\<rparr>"]
  by (simp add: validate_search_def search_mode_def search_match_mode_of_def DEFAULT_SEARCH_RESULTS_def
      MAX_SEARCH_RESULTS_def normalize_query_def ascii_def is_whitespace_def split_whitespace.simps)

end
