(* ===== verification/Decimal.thy ===== *)
theory Decimal
  imports Prelude
begin

text \<open>
  Decimal numbers as the gateway stores and parses them: \<open>to_string\<close> of an unsigned integer and
  the \<open>FromStr\<close> parsers of the integer types, which accept one leading sign and at least one
  digit and reject a value outside the type.
\<close>

definition digit_char :: "nat \<Rightarrow> char" where
  "digit_char d = char_of (48 + d)"

definition digit_value :: "char \<Rightarrow> nat option" where
  "digit_value c = (let v = (of_char c :: nat) in if 48 \<le> v \<and> v \<le> 57 then Some (v - 48) else None)"

fun nat_to_string :: "nat \<Rightarrow> string" where
  "nat_to_string n = (if n < 10 then [digit_char n] else nat_to_string (n div 10) @ [digit_char (n mod 10)])"

declare nat_to_string.simps [simp del]

fun parse_digits :: "nat \<Rightarrow> string \<Rightarrow> nat option" where
  "parse_digits acc [] = Some acc"
| "parse_digits acc (c # cs) =
     (case digit_value c of None \<Rightarrow> None | Some d \<Rightarrow> parse_digits (10 * acc + d) cs)"

definition parse_magnitude :: "string \<Rightarrow> nat option" where
  "parse_magnitude s = (if s = [] then None else parse_digits 0 s)"

text \<open>\<open>str::parse\<close> for an unsigned type with the given largest value.\<close>

definition parse_unsigned :: "nat \<Rightarrow> string \<Rightarrow> nat option" where
  "parse_unsigned limit s =
     (let digits = (case s of c # cs \<Rightarrow> if c = CHR ''+'' then cs else s | [] \<Rightarrow> []) in
      case parse_magnitude digits of None \<Rightarrow> None | Some n \<Rightarrow> if n \<le> limit then Some n else None)"

text \<open>\<open>str::parse::<i64>\<close>.\<close>

definition parse_i64 :: "string \<Rightarrow> int option" where
  "parse_i64 s =
     (case s of
        [] \<Rightarrow> None
      | c # cs \<Rightarrow>
          if c = CHR ''-''
          then (case parse_magnitude cs of None \<Rightarrow> None | Some n \<Rightarrow> if n \<le> 2 ^ 63 then Some (- int n) else None)
          else (case parse_magnitude (if c = CHR ''+'' then cs else s) of
                  None \<Rightarrow> None | Some n \<Rightarrow> if n < 2 ^ 63 then Some (int n) else None))"

lemma digit_value_char [simp]: "d < 10 \<Longrightarrow> digit_value (digit_char d) = Some d"
  by (simp add: digit_value_def digit_char_def Let_def)

lemma parse_digits_append:
  "parse_digits acc (xs @ ys) = (case parse_digits acc xs of None \<Rightarrow> None | Some a \<Rightarrow> parse_digits a ys)"
  by (induction xs arbitrary: acc) (auto split: option.splits)

lemma parse_digits_nat: "parse_digits 0 (nat_to_string n) = Some n"
proof (induction n rule: nat_to_string.induct)
  case (1 n)
  show ?case
  proof (cases "n < 10")
    case True
    then show ?thesis by (simp add: nat_to_string.simps [of n])
  next
    case False
    then have "parse_digits 0 (nat_to_string (n div 10)) = Some (n div 10)" by (rule 1)
    then show ?thesis
      using False by (simp add: nat_to_string.simps [of n] parse_digits_append)
  qed
qed

lemma nat_to_string_nonempty [simp]: "nat_to_string n \<noteq> []"
  by (simp add: nat_to_string.simps [of n])

lemma hd_nat_to_string: "\<exists>d < 10. hd (nat_to_string n) = digit_char d"
proof (induction n rule: nat_to_string.induct)
  case (1 n)
  show ?case
  proof (cases "n < 10")
    case True
    then show ?thesis by (auto simp: nat_to_string.simps [of n])
  next
    case False
    then show ?thesis using 1 by (simp add: nat_to_string.simps [of n])
  qed
qed

lemma digit_not_sign: "d < 10 \<Longrightarrow> digit_char d \<noteq> CHR ''+'' \<and> digit_char d \<noteq> CHR ''-''"
proof -
  assume "d < 10"
  then have "digit_value (digit_char d) \<noteq> None" by simp
  moreover have "digit_value CHR ''+'' = None" "digit_value CHR ''-'' = None"
    by (simp_all add: digit_value_def)
  ultimately show ?thesis by metis
qed

lemma parse_unsigned_to_string: "n \<le> limit \<Longrightarrow> parse_unsigned limit (nat_to_string n) = Some n"
  using hd_nat_to_string [of n] digit_not_sign parse_digits_nat [of n] nat_to_string_nonempty [of n]
  by (cases "nat_to_string n") (auto simp: parse_unsigned_def parse_magnitude_def)

lemma parse_i64_to_string: "n < 2 ^ 63 \<Longrightarrow> parse_i64 (nat_to_string n) = Some (int n)"
  using hd_nat_to_string [of n] digit_not_sign parse_digits_nat [of n] nat_to_string_nonempty [of n]
  by (cases "nat_to_string n") (auto simp: parse_i64_def parse_magnitude_def)

end
