(* ===== verification/Store.thy ===== *)
theory Store
  imports Opc Decimal "HOL-Library.Product_Lexorder" "HOL-Library.Char_ord"
begin

text \<open>
  The persistent namespace index (\<open>index/store.rs\<close>): the tables of the SQLite database as lists
  of rows, every SQL statement of the code as an operation on them, and every operation of
  \<open>IndexDb\<close> with its transaction boundaries. Which statements fail is a parameter: \<open>faults k\<close>
  says that the \<open>k\<close>-th statement of the operation fails. A failed statement inside a transaction
  rolls the whole transaction back; outside a transaction the earlier statements stay.
\<close>

section \<open>Tables\<close>

datatype generation_state = Staging | Active | Superseded | Failed

record generation_row =
  g_server :: string
  g_generation :: int
  g_state :: generation_state
  g_organization :: string
  g_source :: string
  g_started_at :: string
  g_completed_at :: "string option"
  g_entry_count :: int
  g_unique_item_count :: int
  g_last_error :: "string option"
  g_compatibility_fallback :: bool

record entry_row =
  e_server :: string
  e_generation :: int
  e_item_id :: ustring
  e_item_id_norm :: ustring
  e_display_name :: ustring
  e_display_name_norm :: ustring
  e_kind :: int
  e_breadcrumbs :: ustring

record fts_row =
  f_server :: string
  f_generation :: int
  f_item_id :: ustring
  f_display_name :: ustring
  f_breadcrumbs :: ustring

record enrolled_row =
  en_auto_refresh_enabled :: bool
  en_enrolled_at :: string
  en_updated_at :: string

record index_db =
  db_meta :: "(string, string) hmap"
  db_enrolled :: "(string, enrolled_row) hmap"
  db_generations :: "generation_row list"
  db_entries :: "entry_row list"
  db_fts :: "fts_row list"

datatype db_error = SqlError | Bail string

type_synonym 'a db_result = "db_error + 'a"
type_synonym faults = "nat \<Rightarrow> bool"

text \<open>The Unicode tables and \<open>serde_json\<close>.\<close>

record text_env =
  te_lower :: "ustring \<Rightarrow> ustring"
  te_to_json :: "ustring list \<Rightarrow> ustring"
  te_from_json :: "ustring \<Rightarrow> ustring list option"

abbreviation normalize :: "text_env \<Rightarrow> ustring \<Rightarrow> ustring" where
  "normalize te \<equiv> normalize_query (te_lower te)"

section \<open>Stored values\<close>

definition namespace_string :: "namespace_organization \<Rightarrow> string" where
  "namespace_string value =
     (case value of OrgUnspecified \<Rightarrow> ''unspecified'' | OrgFlat \<Rightarrow> ''flat'' | OrgHierarchical \<Rightarrow> ''hierarchical'')"

definition parse_namespace :: "string \<Rightarrow> namespace_organization" where
  "parse_namespace value =
     (if value = ''flat'' then OrgFlat else if value = ''hierarchical'' then OrgHierarchical else OrgUnspecified)"

definition source_string :: "browse_source \<Rightarrow> string" where
  "source_string value =
     (case value of SrcUnspecified \<Rightarrow> ''unspecified'' | SrcDa3 \<Rightarrow> ''da3'' | SrcDa2 \<Rightarrow> ''da2''
      | SrcFlat \<Rightarrow> ''flat'' | SrcDerived \<Rightarrow> ''derived'')"

definition parse_source :: "string \<Rightarrow> browse_source" where
  "parse_source value =
     (if value = ''da3'' then SrcDa3 else if value = ''da2'' then SrcDa2
      else if value = ''flat'' then SrcFlat else if value = ''derived'' then SrcDerived else SrcUnspecified)"

definition index_profile_is_compatible ::
  "namespace_organization \<Rightarrow> browse_source \<Rightarrow> bool \<Rightarrow> namespace_organization \<Rightarrow> browse_source \<Rightarrow> bool" where
  "index_profile_is_compatible indexed_organization indexed_source fallback raw_organization raw_source \<longleftrightarrow>
     indexed_organization = raw_organization \<and>
     (indexed_source = raw_source \<or> fallback \<and> indexed_source = SrcDa2 \<and> raw_source = SrcDa3)"

definition node_kind_number :: "inventory_node_kind \<Rightarrow> int" where
  "node_kind_number value = (case value of InvItem \<Rightarrow> 1 | InvBranchAndItem \<Rightarrow> 2)"

definition i64_try_from :: "u64 \<Rightarrow> int option" where
  "i64_try_from n = (if unat n < 2 ^ 63 then Some (int (unat n)) else None)"

definition generation_range_error :: db_error where
  "generation_range_error = Bail ''namespace index generation exceeds SQLite range''"

section \<open>Transactions\<close>

text \<open>
  The statements of a transaction run from \<open>n\<close> on, then the commit. An error anywhere drops the
  transaction, which rolls it back.
\<close>

fun run_statements :: "faults \<Rightarrow> nat \<Rightarrow> (index_db \<Rightarrow> index_db) list \<Rightarrow> index_db \<Rightarrow> index_db option" where
  "run_statements faults n [] db = (if faults n then None else Some db)"
| "run_statements faults n (stmt # stmts) db =
     (if faults n then None else run_statements faults (Suc n) stmts (stmt db))"

definition transaction :: "faults \<Rightarrow> (index_db \<Rightarrow> index_db) list \<Rightarrow> index_db \<Rightarrow> unit db_result \<times> index_db" where
  "transaction faults stmts db =
     (case run_statements faults 0 stmts db of None \<Rightarrow> (Inl SqlError, db) | Some db' \<Rightarrow> (Inr (), db'))"

lemma run_statements_eq:
  "run_statements faults n stmts db =
     (if \<exists>i \<le> length stmts. faults (n + i) then None else Some (fold (\<lambda>stmt. stmt) stmts db))"
proof (induction stmts arbitrary: n db)
  case (Cons stmt stmts)
  have "(\<exists>i \<le> length (stmt # stmts). faults (n + i)) \<longleftrightarrow> faults n \<or> (\<exists>i \<le> length stmts. faults (Suc n + i))"
    by (metis (no_types, lifting) Suc_le_mono add_0_right add_Suc_right add_Suc length_Cons not0_implies_Suc zero_le)
  then show ?case using Cons by simp
qed simp

lemma transaction_cases:
  "transaction faults stmts db = (Inl SqlError, db) \<or>
   transaction faults stmts db = (Inr (), fold (\<lambda>stmt. stmt) stmts db)"
  by (simp add: transaction_def run_statements_eq)

section \<open>Enrollment\<close>

definition sql_enroll :: "string \<Rightarrow> bool \<Rightarrow> string \<Rightarrow> index_db \<Rightarrow> index_db" where
  "sql_enroll server enabled timestamp db =
     (if map_of (db_enrolled db) server \<noteq> None then db
      else db\<lparr>db_enrolled := db_enrolled db @
        [(server, \<lparr>en_auto_refresh_enabled = enabled, en_enrolled_at = timestamp, en_updated_at = timestamp\<rparr>)]\<rparr>)"

definition enroll :: "faults \<Rightarrow> string \<Rightarrow> string \<Rightarrow> index_db \<Rightarrow> unit db_result \<times> index_db" where
  "enroll faults server timestamp db =
     (if faults 0 then (Inl SqlError, db) else (Inr (), sql_enroll server False timestamp db))"

definition enrollment :: "string \<Rightarrow> index_db \<Rightarrow> bool option" where
  "enrollment server db = map_option en_auto_refresh_enabled (map_of (db_enrolled db) server)"

definition is_enrolled :: "string \<Rightarrow> index_db \<Rightarrow> bool" where
  "is_enrolled server db \<longleftrightarrow> enrollment server db \<noteq> None"

definition set_auto_refresh :: "faults \<Rightarrow> string \<Rightarrow> bool \<Rightarrow> string \<Rightarrow> index_db \<Rightarrow> bool db_result \<times> index_db" where
  "set_auto_refresh faults server enabled now db =
     (if faults 0 then (Inl SqlError, db)
      else case map_of (db_enrolled db) server of
        None \<Rightarrow> (Inr False, db)
      | Some row \<Rightarrow>
          (Inr True, db\<lparr>db_enrolled := AList.update server
             (row\<lparr>en_auto_refresh_enabled := enabled, en_updated_at := now\<rparr>) (db_enrolled db)\<rparr>))"

definition has_state :: "string \<Rightarrow> generation_state \<Rightarrow> index_db \<Rightarrow> bool" where
  "has_state server state db \<longleftrightarrow> (\<exists>g \<in> set (db_generations db). g_server g = server \<and> g_state g = state)"

definition scheduled_servers :: "index_db \<Rightarrow> string list" where
  "scheduled_servers db =
     sort (map fst (filter (\<lambda>(server, row). en_auto_refresh_enabled row \<and> has_state server Active db)
       (db_enrolled db)))"

section \<open>Generations\<close>

definition next_generation :: "string \<Rightarrow> index_db \<Rightarrow> int db_result" where
  "next_generation server db =
     (let gens = map g_generation (filter (\<lambda>g. g_server g = server) (db_generations db));
          next = (if gens = [] then 0 else Max (set gens)) + 1
      in if next < 2 ^ 63 then Inr next else Inl SqlError)"

definition sql_update_generations ::
  "(generation_row \<Rightarrow> bool) \<Rightarrow> (generation_row \<Rightarrow> generation_row) \<Rightarrow> index_db \<Rightarrow> index_db" where
  "sql_update_generations cond upd db =
     db\<lparr>db_generations := map (\<lambda>g. if cond g then upd g else g) (db_generations db)\<rparr>"

definition staging_row :: "string \<Rightarrow> u64 \<Rightarrow> generation_row \<Rightarrow> bool" where
  "staging_row server generation g \<longleftrightarrow>
     g_server g = server \<and> g_generation g = int (unat generation) \<and> g_state g = Staging"

definition start_generation ::
  "faults \<Rightarrow> string \<Rightarrow> namespace_organization \<Rightarrow> browse_source \<Rightarrow> string \<Rightarrow> index_db \<Rightarrow> u64 db_result \<times> index_db" where
  "start_generation faults server organization source started_at db0 =
     (case enroll faults server started_at db0 of
        (Inl e, db) \<Rightarrow> (Inl e, db)
      | (Inr _, db) \<Rightarrow>
          if faults 1 then (Inl SqlError, db)
          else (case next_generation server db of
            Inl e \<Rightarrow> (Inl e, db)
          | Inr generation \<Rightarrow>
              if generation < 0 then (Inl (Bail ''namespace index generation is negative''), db)
              else if faults 2 then (Inl SqlError, db)
              else
                (Inr (word_of_int generation),
                 db\<lparr>db_generations := db_generations db @
                   [\<lparr>g_server = server, g_generation = generation, g_state = Staging,
                     g_organization = namespace_string organization, g_source = source_string source,
                     g_started_at = started_at, g_completed_at = None, g_entry_count = 0,
                     g_unique_item_count = 0, g_last_error = None, g_compatibility_fallback = False\<rparr>]\<rparr>)))"

definition record_failed_attempt ::
  "faults \<Rightarrow> string \<Rightarrow> string \<Rightarrow> string \<Rightarrow> index_db \<Rightarrow> unit db_result \<times> index_db" where
  "record_failed_attempt faults server error now db =
     (if faults 0 then (Inl SqlError, db)
      else case next_generation server db of
        Inl e \<Rightarrow> (Inl e, db)
      | Inr generation \<Rightarrow>
          if faults 1 then (Inl SqlError, db)
          else
            (Inr (),
             db\<lparr>db_generations := db_generations db @
               [\<lparr>g_server = server, g_generation = generation, g_state = Failed,
                 g_organization = ''unspecified'', g_source = ''unspecified'', g_started_at = now,
                 g_completed_at = None, g_entry_count = 0, g_unique_item_count = 0,
                 g_last_error = Some error, g_compatibility_fallback = False\<rparr>]\<rparr>))"

definition update_progress ::
  "faults \<Rightarrow> string \<Rightarrow> u64 \<Rightarrow> inventory_progress \<Rightarrow> index_db \<Rightarrow> unit db_result \<times> index_db" where
  "update_progress faults server generation progress db =
     (case i64_try_from (ip_entries_seen progress) of
        None \<Rightarrow> (Inl (Bail ''namespace index entry count exceeds SQLite range''), db)
      | Some entry_count \<Rightarrow>
          (case i64_try_from (ip_unique_items progress) of
             None \<Rightarrow> (Inl (Bail ''namespace index unique item count exceeds SQLite range''), db)
           | Some unique_item_count \<Rightarrow>
               if i64_try_from generation = None then (Inl generation_range_error, db)
               else if faults 0 then (Inl SqlError, db)
               else (Inr (), sql_update_generations (staging_row server generation)
                      (\<lambda>g. g\<lparr>g_entry_count := entry_count, g_unique_item_count := unique_item_count\<rparr>) db)))"

definition fail_generation ::
  "faults \<Rightarrow> string \<Rightarrow> u64 \<Rightarrow> string \<Rightarrow> index_db \<Rightarrow> unit db_result \<times> index_db" where
  "fail_generation faults server generation error db =
     (if i64_try_from generation = None then (Inl generation_range_error, db)
      else if faults 0 then (Inl SqlError, db)
      else (Inr (), sql_update_generations (staging_row server generation)
             (\<lambda>g. g\<lparr>g_state := Failed, g_last_error := Some error\<rparr>) db))"

definition sql_supersede :: "string \<Rightarrow> index_db \<Rightarrow> index_db" where
  "sql_supersede server =
     sql_update_generations (\<lambda>g. g_server g = server \<and> g_state g = Active) (\<lambda>g. g\<lparr>g_state := Superseded\<rparr>)"

definition sql_activate ::
  "string \<Rightarrow> u64 \<Rightarrow> string \<Rightarrow> int \<Rightarrow> (namespace_organization \<times> browse_source) option \<Rightarrow> string option \<Rightarrow>
     index_db \<Rightarrow> index_db" where
  "sql_activate server generation completed_at count profile warning =
     sql_update_generations (staging_row server generation)
       (\<lambda>g. g\<lparr>g_state := Active, g_completed_at := Some completed_at,
              g_entry_count := count, g_unique_item_count := count,
              g_organization := (case profile of None \<Rightarrow> g_organization g
                                 | Some (organization, _) \<Rightarrow> namespace_string organization),
              g_compatibility_fallback :=
                (case profile of None \<Rightarrow> False
                 | Some (_, source) \<Rightarrow> g_source g = ''da3'' \<and> source_string source = ''da2''),
              g_source := (case profile of None \<Rightarrow> g_source g | Some (_, source) \<Rightarrow> source_string source),
              g_last_error := warning\<rparr>)"

text \<open>
  The second update has to change exactly one row; otherwise the function returns before the
  commit and the transaction rolls back.
\<close>

definition promote_with_profile ::
  "faults \<Rightarrow> string \<Rightarrow> u64 \<Rightarrow> string \<Rightarrow> u64 \<Rightarrow> (namespace_organization \<times> browse_source) option \<Rightarrow>
     string option \<Rightarrow> index_db \<Rightarrow> unit db_result \<times> index_db" where
  "promote_with_profile faults server generation completed_at searchable_item_count profile warning db =
     (case i64_try_from searchable_item_count of
        None \<Rightarrow> (Inl (Bail ''namespace index entry count exceeds SQLite range''), db)
      | Some count \<Rightarrow>
          if i64_try_from generation = None then (Inl generation_range_error, db)
          else if faults 0 \<or> faults 1 then (Inl SqlError, db)
          else
            let db1 = sql_supersede server db;
                promoted = length (filter (staging_row server generation) (db_generations db1));
                db2 = sql_activate server generation completed_at count profile warning db1
            in if promoted \<noteq> 1 then (Inl (Bail ''namespace index generation is not staging''), db)
               else if faults 2 then (Inl SqlError, db)
               else (Inr (), db2))"

definition discard_empty_generation ::
  "faults \<Rightarrow> string \<Rightarrow> u64 \<Rightarrow> index_db \<Rightarrow> bool db_result \<times> index_db" where
  "discard_empty_generation faults server generation db =
     (if i64_try_from generation = None then (Inl generation_range_error, db)
      else if faults 0 then (Inl SqlError, db)
      else
        let doomed = (\<lambda>g. staging_row server generation g \<and>
              \<not> (\<exists>e \<in> set (db_entries db). e_server e = g_server g \<and> e_generation e = g_generation g) \<and>
              \<not> (\<exists>f \<in> set (db_fts db). f_server f = g_server g \<and> f_generation f = g_generation g))
        in (Inr (length (filter doomed (db_generations db)) = 1),
            db\<lparr>db_generations := filter (\<lambda>g. \<not> doomed g) (db_generations db)\<rparr>))"

definition is_obsolete :: "index_db \<Rightarrow> generation_row \<Rightarrow> bool" where
  "is_obsolete db g \<longleftrightarrow> g_state g = Superseded \<or> g_state g = Failed \<and> has_state (g_server g) Active db"

definition obsolete_servers :: "index_db \<Rightarrow> string list" where
  "obsolete_servers db = remdups (map g_server (filter (is_obsolete db) (db_generations db)))"

definition has_obsolete_generations :: "string \<Rightarrow> index_db \<Rightarrow> bool" where
  "has_obsolete_generations server db \<longleftrightarrow>
     (\<exists>g \<in> set (db_generations db). g_server g = server \<and> is_obsolete db g)"

section \<open>Entries\<close>

text \<open>
  The loop of \<open>insert_entries\<close>, inside its transaction; \<open>n\<close> numbers the statements. An entry whose
  key is already there is ignored; a new entry whose generation does not exist violates the
  foreign key.
\<close>

definition generation_exists :: "string \<Rightarrow> int \<Rightarrow> index_db \<Rightarrow> bool" where
  "generation_exists server generation db \<longleftrightarrow>
     (\<exists>g \<in> set (db_generations db). g_server g = server \<and> g_generation g = generation)"

definition entry_exists :: "string \<Rightarrow> int \<Rightarrow> ustring \<Rightarrow> index_db \<Rightarrow> bool" where
  "entry_exists server generation item_id db \<longleftrightarrow>
     (\<exists>e \<in> set (db_entries db). e_server e = server \<and> e_generation e = generation \<and> e_item_id e = item_id)"

definition entry_of :: "text_env \<Rightarrow> string \<Rightarrow> int \<Rightarrow> inventory_entry \<Rightarrow> entry_row" where
  "entry_of te server generation entry =
     \<lparr>e_server = server, e_generation = generation, e_item_id = ie_item_id entry,
      e_item_id_norm = normalize te (ie_item_id entry), e_display_name = ie_display_name entry,
      e_display_name_norm = normalize te (ie_display_name entry), e_kind = node_kind_number (ie_kind entry),
      e_breadcrumbs = te_to_json te (ie_breadcrumbs entry)\<rparr>"

definition fts_of :: "string \<Rightarrow> int \<Rightarrow> inventory_entry \<Rightarrow> fts_row" where
  "fts_of server generation entry =
     \<lparr>f_server = server, f_generation = generation, f_item_id = ie_item_id entry,
      f_display_name = ie_display_name entry, f_breadcrumbs = join (ascii '' '') (ie_breadcrumbs entry)\<rparr>"

fun insert_entry_rows ::
  "text_env \<Rightarrow> faults \<Rightarrow> string \<Rightarrow> int \<Rightarrow> inventory_entry list \<Rightarrow> nat \<Rightarrow> u64 \<Rightarrow> index_db \<Rightarrow>
     (nat \<times> u64 \<times> index_db) db_result" where
  "insert_entry_rows te faults server generation [] n inserted_count db = Inr (n, inserted_count, db)"
| "insert_entry_rows te faults server generation (entry # entries) n inserted_count db =
     (if ie_item_id entry = [] then Inl (Bail ''inventory entry has an empty ItemID'')
      else if faults n then Inl SqlError
      else if entry_exists server generation (ie_item_id entry) db
      then insert_entry_rows te faults server generation entries (Suc n) inserted_count db
      else if \<not> generation_exists server generation db then Inl SqlError
      else if faults (Suc n) then Inl SqlError
      else insert_entry_rows te faults server generation entries (n + 2) (saturating_add inserted_count 1)
             (db\<lparr>db_entries := db_entries db @ [entry_of te server generation entry],
                 db_fts := db_fts db @ [fts_of server generation entry]\<rparr>))"

definition insert_entries ::
  "text_env \<Rightarrow> faults \<Rightarrow> string \<Rightarrow> u64 \<Rightarrow> inventory_entry list \<Rightarrow> index_db \<Rightarrow> u64 db_result \<times> index_db" where
  "insert_entries te faults server generation entries db =
     (case i64_try_from generation of
        None \<Rightarrow> (Inl generation_range_error, db)
      | Some gen \<Rightarrow>
          (case insert_entry_rows te faults server gen entries 0 0 db of
             Inl e \<Rightarrow> (Inl e, db)
           | Inr (n, inserted_count, db') \<Rightarrow>
               if faults n then (Inl SqlError, db) else (Inr inserted_count, db')))"

section \<open>Deletion\<close>

text \<open>Deleting a generation deletes its entries (\<open>ON DELETE CASCADE\<close>); the full-text table has no foreign key.\<close>

definition sql_delete_fts :: "string \<Rightarrow> index_db \<Rightarrow> index_db" where
  "sql_delete_fts server db = db\<lparr>db_fts := filter (\<lambda>f. f_server f \<noteq> server) (db_fts db)\<rparr>"

definition sql_delete_generations :: "string \<Rightarrow> index_db \<Rightarrow> index_db" where
  "sql_delete_generations server db =
     db\<lparr>db_generations := filter (\<lambda>g. g_server g \<noteq> server) (db_generations db),
        db_entries := filter (\<lambda>e. \<not> (\<exists>g \<in> set (db_generations db).
          g_server g = server \<and> e_server e = server \<and> e_generation e = g_generation g)) (db_entries db)\<rparr>"

definition retry_after_key :: "string \<Rightarrow> string" where "retry_after_key server = ''retry_after:'' @ server"
definition failures_key :: "string \<Rightarrow> string" where "failures_key server = ''failures:'' @ server"
definition circuit_key :: "string \<Rightarrow> string" where "circuit_key server = ''circuit:'' @ server"

definition sql_delete_meta :: "string \<Rightarrow> index_db \<Rightarrow> index_db" where
  "sql_delete_meta server db =
     db\<lparr>db_meta := filter (\<lambda>(key, _). key \<notin> {retry_after_key server, failures_key server, circuit_key server})
       (db_meta db)\<rparr>"

definition sql_unenroll :: "string \<Rightarrow> index_db \<Rightarrow> index_db" where
  "sql_unenroll server db = db\<lparr>db_enrolled := AList.delete server (db_enrolled db)\<rparr>"

definition clear_server :: "faults \<Rightarrow> string \<Rightarrow> index_db \<Rightarrow> unit db_result \<times> index_db" where
  "clear_server faults server = transaction faults [sql_delete_fts server, sql_delete_generations server]"

definition delete_index :: "faults \<Rightarrow> string \<Rightarrow> index_db \<Rightarrow> unit db_result \<times> index_db" where
  "delete_index faults server =
     transaction faults
       [sql_delete_fts server, sql_delete_generations server, sql_delete_meta server, sql_unenroll server]"

section \<open>Reading the state of a server\<close>

record db_status =
  ds_generation :: u64
  ds_state :: generation_state
  ds_organization :: namespace_organization
  ds_source :: browse_source
  ds_started_at :: string
  ds_completed_at :: "string option"
  ds_entry_count :: u64
  ds_unique_item_count :: u64
  ds_last_error :: "string option"

record status_summary =
  sr_active :: "db_status option"
  sr_staging :: "db_status option"
  sr_failed :: "db_status option"
  sr_failed_after_active :: "db_status option"

definition state_rank :: "generation_state \<Rightarrow> nat" where
  "state_rank state = (case state of Active \<Rightarrow> 0 | Staging \<Rightarrow> 1 | _ \<Rightarrow> 2)"

definition db_status_of :: "generation_row \<Rightarrow> db_status" where
  "db_status_of g =
     \<lparr>ds_generation = word_of_int (g_generation g), ds_state = g_state g,
      ds_organization = parse_namespace (g_organization g), ds_source = parse_source (g_source g),
      ds_started_at = g_started_at g, ds_completed_at = g_completed_at g,
      ds_entry_count = word_of_int (g_entry_count g),
      ds_unique_item_count = word_of_int (g_unique_item_count g), ds_last_error = g_last_error g\<rparr>"

definition status_rows :: "string \<Rightarrow> index_db \<Rightarrow> db_status list" where
  "status_rows server db =
     map db_status_of (sort_key (\<lambda>g. (state_rank (g_state g), - g_generation g))
       (filter (\<lambda>g. g_server g = server \<and> g_state g \<in> {Active, Staging, Failed}) (db_generations db)))"

definition from_rows :: "db_status list \<Rightarrow> status_summary" where
  "from_rows rows =
     (let active = find (\<lambda>row. ds_state row = Active) rows;
          staging = find (\<lambda>row. ds_state row = Staging) rows;
          failed = find (\<lambda>row. ds_state row = Failed) rows
      in \<lparr>sr_active = active, sr_staging = staging, sr_failed = failed,
          sr_failed_after_active =
            (case active of None \<Rightarrow> None
             | Some a \<Rightarrow>
                 (case failed of None \<Rightarrow> None
                  | Some f \<Rightarrow> if ds_generation f > ds_generation a then Some f else None))\<rparr>)"

record stored_profile =
  sp_organization :: namespace_organization
  sp_source :: browse_source
  sp_compatibility_fallback :: bool

definition active_profile :: "string \<Rightarrow> index_db \<Rightarrow> stored_profile option" where
  "active_profile server db =
     (case sort_key (\<lambda>g. - g_generation g)
             (filter (\<lambda>g. g_server g = server \<and> g_state g = Active) (db_generations db)) of
        [] \<Rightarrow> None
      | g # _ \<Rightarrow> Some \<lparr>sp_organization = parse_namespace (g_organization g), sp_source = parse_source (g_source g),
                       sp_compatibility_fallback = g_compatibility_fallback g\<rparr>)"

definition search_generation :: "string \<Rightarrow> index_db \<Rightarrow> u64 option" where
  "search_generation server db =
     (case sort_key (\<lambda>g. (if g_state g = Active then 0 else 1 :: nat, - g_generation g))
             (filter (\<lambda>g. g_server g = server \<and> g_state g \<in> {Active, Staging}) (db_generations db)) of
        [] \<Rightarrow> None
      | g # _ \<Rightarrow> Some (word_of_int (g_generation g)))"

section \<open>Retry state\<close>

text \<open>
  A \<open>SystemTime\<close> is a number of nanoseconds since the epoch, up to the platform's last time
  \<open>tmax\<close>. The deadline is stored in milliseconds.
\<close>

definition retry_text :: "int option \<Rightarrow> string" where
  "retry_text retry_after =
     (case retry_after of
        None \<Rightarrow> []
      | Some t \<Rightarrow> if 0 \<le> t then nat_to_string (nat t div 1000000) else [])"

definition sql_set_meta :: "string \<Rightarrow> string \<Rightarrow> index_db \<Rightarrow> index_db" where
  "sql_set_meta key value db = db\<lparr>db_meta := AList.update key value (db_meta db)\<rparr>"

text \<open>
  The writes run between \<open>BEGIN IMMEDIATE\<close> and \<open>COMMIT\<close>; a failed write rolls back. A failed
  \<open>COMMIT\<close> does not: the connection keeps the uncommitted rows.
\<close>

definition set_retry_state ::
  "faults \<Rightarrow> string \<Rightarrow> int option \<Rightarrow> u32 \<Rightarrow> bool \<Rightarrow> index_db \<Rightarrow> unit db_result \<times> index_db" where
  "set_retry_state faults server retry_after failures circuit_open db =
     (if faults 0 then (Inl SqlError, db)
      else if faults 1 \<or> faults 2 \<or> faults 3 then (Inl SqlError, db)
      else
        let db1 = sql_set_meta (retry_after_key server) (retry_text retry_after) db;
            db2 = sql_set_meta (failures_key server) (nat_to_string (unat failures)) db1;
            db3 = sql_set_meta (circuit_key server) (if circuit_open then ''1'' else ''0'') db2
        in if faults 4 then (Inl SqlError, db3) else (Inr (), db3))"

definition retry_state :: "int \<Rightarrow> string \<Rightarrow> index_db \<Rightarrow> (int option \<times> u32 \<times> bool) db_result" where
  "retry_state tmax server db =
     (let failures = (case map_of (db_meta db) (failures_key server) of
                        None \<Rightarrow> 0
                      | Some value \<Rightarrow> (case parse_unsigned (2 ^ 32 - 1) value of None \<Rightarrow> 0 | Some n \<Rightarrow> of_nat n));
          circuit_open = (map_of (db_meta db) (circuit_key server) = Some ''1'')
      in case map_of (db_meta db) (retry_after_key server) of
           None \<Rightarrow> Inr (None, failures, circuit_open)
         | Some value \<Rightarrow>
             if value = [] then Inr (None, failures, circuit_open)
             else (case parse_unsigned (2 ^ 64 - 1) value of
                     None \<Rightarrow> Inl (Bail ''invalid persisted index retry deadline'')
                   | Some millis \<Rightarrow>
                       if int millis * 1000000 \<le> tmax
                       then Inr (Some (int millis * 1000000), failures, circuit_open)
                       else Inl (Bail ''persisted index retry deadline overflow'')))"

section \<open>Migrations\<close>

definition SCHEMA_VERSION :: int where "SCHEMA_VERSION = 4"

definition int_to_string :: "int \<Rightarrow> string" where
  "int_to_string i = (if i < 0 then ''-'' @ nat_to_string (nat (- i)) else nat_to_string (nat i))"

text \<open>Version 3 added the column \<open>compatibility_fallback\<close>, which is 0 in every older row.\<close>

definition migrate_schema_2_to_3 :: "faults \<Rightarrow> index_db \<Rightarrow> unit db_result \<times> index_db" where
  "migrate_schema_2_to_3 faults =
     transaction faults
       [sql_update_generations (\<lambda>_. True) (\<lambda>g. g\<lparr>g_compatibility_fallback := False\<rparr>),
        sql_set_meta ''schema_version'' ''3'']"

text \<open>Version 4 added \<open>enrolled_servers\<close>: every indexed server is enrolled, with automatic refresh if it has an active generation.\<close>

definition migrate_schema_3_to_4 :: "faults \<Rightarrow> string \<Rightarrow> index_db \<Rightarrow> unit db_result \<times> index_db" where
  "migrate_schema_3_to_4 faults migrated_at db =
     (let servers = sort (remdups (map g_server (db_generations db))) in
      transaction faults
        ([\<lambda>db. db, \<lambda>db. db] @
         concat (map (\<lambda>server. [\<lambda>db. db,
                   \<lambda>db. sql_enroll server (has_state server Active db) migrated_at db]) servers) @
         [sql_set_meta ''schema_version'' (int_to_string SCHEMA_VERSION)]) db)"

section \<open>Opening the database\<close>

definition INTERRUPTED :: string where
  "INTERRUPTED = ''namespace index build interrupted by gateway restart''"

definition sql_mark_interrupted :: "string \<Rightarrow> index_db \<Rightarrow> index_db" where
  "sql_mark_interrupted server db =
     sql_update_generations (\<lambda>g. g_server g = server \<and> g_state g = Active \<and> has_state server Staging db)
       (\<lambda>g. g\<lparr>g_last_error := Some INTERRUPTED\<rparr>) db"

definition sql_retire_staging :: "string \<Rightarrow> index_db \<Rightarrow> index_db" where
  "sql_retire_staging server db =
     sql_update_generations (\<lambda>g. g_server g = server \<and> g_state g = Staging)
       (\<lambda>g. g\<lparr>g_state := (if has_state server Active db then Superseded else Failed),
              g_last_error := (case g_last_error g of None \<Rightarrow> Some INTERRUPTED | Some e \<Rightarrow> Some e)\<rparr>) db"

text \<open>\<open>held\<close> is \<open>BuildFileLock::is_held\<close>: whether a live process builds the server's index.\<close>

fun recover_servers ::
  "faults \<Rightarrow> nat \<Rightarrow> (string \<Rightarrow> bool option) \<Rightarrow> string list \<Rightarrow> index_db \<Rightarrow> unit db_result \<times> index_db" where
  "recover_servers faults n held [] db = (Inr (), db)"
| "recover_servers faults n held (server # servers) db =
     (case held server of
        None \<Rightarrow> (Inl (Bail ''index build lock error''), db)
      | Some True \<Rightarrow> recover_servers faults n held servers db
      | Some False \<Rightarrow>
          if faults n then (Inl SqlError, db)
          else
            let db1 = sql_mark_interrupted server db
            in if faults (Suc n) then (Inl SqlError, db1)
               else recover_servers faults (n + 2) held servers (sql_retire_staging server db1))"

definition staging_servers :: "index_db \<Rightarrow> string list" where
  "staging_servers db = remdups (map g_server (filter (\<lambda>g. g_state g = Staging) (db_generations db)))"

text \<open>The faults of one opening, by phase.\<close>

record open_env =
  oe_connect :: faults
  oe_migrate_2 :: faults
  oe_migrate_3 :: faults
  oe_schema :: faults
  oe_recover :: faults
  oe_held :: "string \<Rightarrow> bool option"
  oe_now :: string

definition check_schema :: "open_env \<Rightarrow> index_db \<Rightarrow> unit db_result \<times> index_db" where
  "check_schema env db =
     (case map_of (db_meta db) ''schema_version'' of
        None \<Rightarrow> (Inr (), db)
      | Some text \<Rightarrow>
          (case parse_i64 text of
             None \<Rightarrow> (Inl (Bail (''invalid namespace index schema version '' @ text)), db)
           | Some version \<Rightarrow>
               if version = 2
               then (case migrate_schema_2_to_3 (oe_migrate_2 env) db of
                       (Inl e, db1) \<Rightarrow> (Inl e, db1)
                     | (Inr _, db1) \<Rightarrow> migrate_schema_3_to_4 (oe_migrate_3 env) (oe_now env) db1)
               else if version = 3 then migrate_schema_3_to_4 (oe_migrate_3 env) (oe_now env) db
               else if version = SCHEMA_VERSION then (Inr (), db)
               else (Inl (Bail (''unsupported namespace index schema version '' @ int_to_string version)), db)))"

definition open_once :: "open_env \<Rightarrow> index_db \<Rightarrow> unit db_result \<times> index_db" where
  "open_once env db0 =
     (if oe_connect env 0 then (Inl SqlError, db0)
      else case check_schema env db0 of
        (Inl e, db) \<Rightarrow> (Inl e, db)
      | (Inr _, db) \<Rightarrow>
          if oe_schema env 0 \<or> oe_schema env 1 then (Inl SqlError, db)
          else
            let db1 = sql_set_meta ''schema_version'' (int_to_string SCHEMA_VERSION) db
            in if oe_schema env 2 then (Inl SqlError, db1)
               else if (db_entries db1 \<noteq> []) \<noteq> (db_fts db1 \<noteq> [])
               then (Inl (Bail ''namespace index relational and full-text data are inconsistent''), db1)
               else if oe_schema env 3 then (Inl SqlError, db1)
               else recover_servers (oe_recover env) 0 (oe_held env) (staging_servers db1) db1)"

definition empty_db :: index_db where
  "empty_db = \<lparr>db_meta = [], db_enrolled = [], db_generations = [], db_entries = [], db_fts = []\<rparr>"

section \<open>Quarantine\<close>

text \<open>
  A file system maps paths to contents. \<open>meta_error\<close> says that looking at a path fails with an
  error other than \<open>NotFound\<close>, \<open>rename_error k\<close> that the \<open>k\<close>-th rename fails.
\<close>

type_synonym 'f filesystem = "string \<Rightarrow> 'f option"

definition fs_rename :: "string \<Rightarrow> string \<Rightarrow> 'f filesystem \<Rightarrow> 'f filesystem" where
  "fs_rename source destination fs = fs(destination := fs source, source := None)"

definition sqlite_sidecar_path :: "string \<Rightarrow> string \<Rightarrow> string" where
  "sqlite_sidecar_path path ending = path @ ending"

definition quarantine_files :: "string \<Rightarrow> string \<Rightarrow> (string \<times> string) list" where
  "quarantine_files path quarantine =
     [(path, quarantine),
      (sqlite_sidecar_path path ''-wal'', sqlite_sidecar_path quarantine ''-wal''),
      (sqlite_sidecar_path path ''-shm'', sqlite_sidecar_path quarantine ''-shm'')]"

text \<open>Undoing the renames, the last one first; the number of renames that failed.\<close>

fun rollback_renames ::
  "(nat \<Rightarrow> bool) \<Rightarrow> nat \<Rightarrow> (string \<times> string) list \<Rightarrow> 'f filesystem \<Rightarrow> nat \<times> 'f filesystem" where
  "rollback_renames rename_error k [] fs = (0, fs)"
| "rollback_renames rename_error k ((source, destination) # moved) fs =
     (if rename_error k
      then (case rollback_renames rename_error (Suc k) moved fs of (n, fs') \<Rightarrow> (Suc n, fs'))
      else rollback_renames rename_error (Suc k) moved (fs_rename destination source fs))"

fun quarantine_loop ::
  "(string \<Rightarrow> bool) \<Rightarrow> (nat \<Rightarrow> bool) \<Rightarrow> nat \<Rightarrow> (string \<times> string) list \<Rightarrow> (string \<times> string) list \<Rightarrow>
     'f filesystem \<Rightarrow> bool db_result \<times> 'f filesystem" where
  "quarantine_loop meta_error rename_error k moved [] fs = (Inr (moved \<noteq> []), fs)"
| "quarantine_loop meta_error rename_error k moved ((source, destination) # files) fs =
     (if meta_error source then (Inl (Bail ''index file metadata error''), fs)
      else if fs source = None then quarantine_loop meta_error rename_error k moved files fs
      else if rename_error k
      then (case rollback_renames rename_error (Suc k) moved fs of
              (failed, fs') \<Rightarrow>
                (Inl (Bail (if failed = 0 then ''index file rename error''
                            else ''failed to quarantine namespace index file; rollback also failed'')), fs'))
      else quarantine_loop meta_error rename_error (Suc k) ((source, destination) # moved) files
             (fs_rename source destination fs))"

definition quarantine_index_files_with ::
  "(string \<Rightarrow> bool) \<Rightarrow> (nat \<Rightarrow> bool) \<Rightarrow> string \<Rightarrow> string \<Rightarrow> 'f filesystem \<Rightarrow> bool db_result \<times> 'f filesystem" where
  "quarantine_index_files_with meta_error rename_error path quarantine fs =
     quarantine_loop meta_error rename_error 0 [] (quarantine_files path quarantine) fs"

definition to_ascii_lowercase :: "string \<Rightarrow> string" where
  "to_ascii_lowercase s =
     map (\<lambda>c. let v = (of_char c :: nat) in if 65 \<le> v \<and> v \<le> 90 then char_of (v + 32) else c) s"

text \<open>\<open>sql_message\<close> is the text of an error that SQLite raised.\<close>

definition error_message :: "string \<Rightarrow> db_error \<Rightarrow> string" where
  "error_message sql_message e = (case e of SqlError \<Rightarrow> sql_message | Bail message \<Rightarrow> message)"

definition is_quarantinable_index_error :: "string \<Rightarrow> bool" where
  "is_quarantinable_index_error error =
     (let message = to_ascii_lowercase error
      in sublist ''unsupported namespace index schema version'' message \<or>
         sublist ''invalid namespace index schema version'' message \<or>
         sublist ''namespace index relational and full-text data are inconsistent'' message \<or>
         sublist ''file is not a database'' message \<or>
         sublist ''database disk image is malformed'' message)"

text \<open>After a quarantine the path is free, and opening it creates an empty database.\<close>

definition index_open ::
  "open_env \<Rightarrow> open_env \<Rightarrow> string \<Rightarrow> (string \<Rightarrow> bool) \<Rightarrow> (nat \<Rightarrow> bool) \<Rightarrow> string \<Rightarrow> string \<Rightarrow>
     'f filesystem \<Rightarrow> index_db \<Rightarrow> unit db_result \<times> 'f filesystem \<times> index_db" where
  "index_open first second sql_message meta_error rename_error path quarantine fs db =
     (case open_once first db of
        (Inr _, db') \<Rightarrow> (Inr (), fs, db')
      | (Inl e, db') \<Rightarrow>
          if \<not> is_quarantinable_index_error (error_message sql_message e) then (Inl e, fs, db')
          else (case quarantine_index_files_with meta_error rename_error path quarantine fs of
                 (Inl e', fs') \<Rightarrow> (Inl e', fs', db')
               | (Inr _, fs') \<Rightarrow>
                   (case open_once second empty_db of (r, db'') \<Rightarrow> (r, fs', db''))))"

section \<open>Well-formedness\<close>

definition generation_key :: "generation_row \<Rightarrow> string \<times> int" where
  "generation_key g = (g_server g, g_generation g)"

definition active_rows :: "string \<Rightarrow> index_db \<Rightarrow> generation_row list" where
  "active_rows server db = filter (\<lambda>g. g_server g = server \<and> g_state g = Active) (db_generations db)"

definition entry_key :: "entry_row \<Rightarrow> string \<times> int \<times> ustring" where
  "entry_key e = (e_server e, e_generation e, e_item_id e)"

definition entry_doc :: "entry_row \<Rightarrow> string \<times> int \<times> ustring \<times> ustring" where
  "entry_doc e = (e_server e, e_generation e, e_item_id e, e_display_name e)"

definition fts_doc :: "fts_row \<Rightarrow> string \<times> int \<times> ustring \<times> ustring" where
  "fts_doc f = (f_server f, f_generation f, f_item_id f, f_display_name f)"

definition generations_wf :: "generation_row list \<Rightarrow> bool" where
  "generations_wf gens \<longleftrightarrow> distinct (map generation_key gens) \<and>
     (\<forall>g \<in> set gens. 1 \<le> g_generation g \<and> g_generation g < 2 ^ 63) \<and>
     (\<forall>g \<in> set gens. \<forall>h \<in> set gens. g_server g = g_server h \<and> g_state g = Active \<and> g_state h = Active \<longrightarrow> g = h)"

text \<open>The full-text table mirrors the relational one row by row.\<close>

definition entries_wf :: "index_db \<Rightarrow> bool" where
  "entries_wf db \<longleftrightarrow> distinct (map entry_key (db_entries db)) \<and>
     (\<forall>e \<in> set (db_entries db). generation_exists (e_server e) (e_generation e) db) \<and>
     map fts_doc (db_fts db) = map entry_doc (db_entries db)"

definition db_wf :: "index_db \<Rightarrow> bool" where
  "db_wf db \<longleftrightarrow> hm_wf (db_meta db) \<and> hm_wf (db_enrolled db) \<and> generations_wf (db_generations db) \<and> entries_wf db"

lemmas db_wf_defs = db_wf_def generations_wf_def entries_wf_def

lemma empty_db_wf: "db_wf empty_db"
  by (simp add: db_wf_defs empty_db_def)

lemma entries_wf_cong:
  assumes "db_entries db' = db_entries db" and "db_fts db' = db_fts db"
    and "generation_key ` set (db_generations db) \<subseteq> generation_key ` set (db_generations db')" and "entries_wf db"
  shows "entries_wf db'"
proof -
  have "generation_exists s n db \<longleftrightarrow> (s, n) \<in> generation_key ` set (db_generations db)" for s n db
    by (auto simp: generation_exists_def generation_key_def)
  then show ?thesis using assms by (auto simp: entries_wf_def)
qed

lemma enroll_wf [wf_intros]: "db_wf db \<Longrightarrow> db_wf (sql_enroll server enabled ts db)"
  by (auto simp: sql_enroll_def db_wf_def entries_wf_def generation_exists_def map_of_eq_None_iff)

lemma set_meta_wf [wf_intros]: "db_wf db \<Longrightarrow> db_wf (sql_set_meta key value db)"
  by (auto simp: sql_set_meta_def db_wf_def entries_wf_def generation_exists_def)

lemma update_generations_keys:
  assumes "\<And>g. generation_key (upd g) = generation_key g"
  shows "map generation_key (db_generations (sql_update_generations cond upd db)) =
    map generation_key (db_generations db)"
  using assms by (auto simp: sql_update_generations_def)

lemma update_generations_frame [simp]:
  "db_entries (sql_update_generations cond upd db) = db_entries db"
  "db_fts (sql_update_generations cond upd db) = db_fts db"
  "db_meta (sql_update_generations cond upd db) = db_meta db"
  "db_enrolled (sql_update_generations cond upd db) = db_enrolled db"
  by (simp_all add: sql_update_generations_def)

text \<open>An update that keeps the keys is fine as long as it leaves one active row per server.\<close>

lemma update_generations_wf:
  assumes "db_wf db" and key: "\<And>g. generation_key (upd g) = generation_key g"
    and active: "\<And>g h. g \<in> set (db_generations db) \<Longrightarrow> h \<in> set (db_generations db) \<Longrightarrow> g_server g = g_server h \<Longrightarrow>
      g_state (if cond g then upd g else g) = Active \<Longrightarrow> g_state (if cond h then upd h else h) = Active \<Longrightarrow> g = h"
  shows "db_wf (sql_update_generations cond upd db)"
proof -
  define f where "f = (\<lambda>g. if cond g then upd g else g)"
  have gens: "db_generations (sql_update_generations cond upd db) = map f (db_generations db)"
    by (simp add: sql_update_generations_def f_def)
  have parts: "g_server (f g) = g_server g" "g_generation (f g) = g_generation g" for g
    using key [of g] by (auto simp: generation_key_def f_def)
  have keys: "map generation_key (map f (db_generations db)) = map generation_key (db_generations db)"
    using key by (simp add: f_def)
  have once: "g = h" if "g \<in> set (db_generations db)" "h \<in> set (db_generations db)" "g_server g = g_server h"
      "g_state (f g) = Active" "g_state (f h) = Active" for g h
    using active that by (auto simp: f_def)
  have "generations_wf (db_generations (sql_update_generations cond upd db))"
    unfolding generations_wf_def gens keys
  proof (intro conjI ballI impI)
    show "distinct (map generation_key (db_generations db))" using assms(1) by (simp add: db_wf_defs)
  next
    fix g assume "g \<in> set (map f (db_generations db))"
    then show "1 \<le> g_generation g" "g_generation g < 2 ^ 63" using assms(1) by (auto simp: db_wf_defs parts)
  next
    fix g h assume "g \<in> set (map f (db_generations db))" "h \<in> set (map f (db_generations db))"
      and gh: "g_server g = g_server h \<and> g_state g = Active \<and> g_state h = Active"
    then obtain g0 h0 where "g = f g0" "h = f h0" "g0 \<in> set (db_generations db)" "h0 \<in> set (db_generations db)"
      by auto
    then show "g = h" using once [of g0 h0] gh by (simp add: parts)
  qed
  moreover have "entries_wf (sql_update_generations cond upd db)"
  proof (rule entries_wf_cong [of _ db])
    show "generation_key ` set (db_generations db) \<subseteq>
        generation_key ` set (db_generations (sql_update_generations cond upd db))"
      unfolding gens by (metis keys order_refl set_map)
  qed (use assms(1) in \<open>simp_all add: db_wf_def\<close>)
  ultimately show ?thesis
    using assms(1) by (simp add: db_wf_def)
qed

lemma passive_update_wf [wf_intros]:
  assumes "db_wf db" and "\<And>g. generation_key (upd g) = generation_key g"
    and quiet: "\<And>g. g_state (upd g) = Active \<Longrightarrow> g_state g = Active"
  shows "db_wf (sql_update_generations cond upd db)"
proof (rule update_generations_wf [OF assms(1,2)])
  fix g h
  assume gh: "g \<in> set (db_generations db)" "h \<in> set (db_generations db)" "g_server g = g_server h"
    and "g_state (if cond g then upd g else g) = Active" "g_state (if cond h then upd h else h) = Active"
  then have "g_state g = Active" "g_state h = Active" by (auto split: if_splits intro: quiet)
  with gh show "g = h" using assms(1) by (auto simp: db_wf_defs)
qed

lemma next_generation_fresh:
  assumes "generations_wf (db_generations db)" and "next_generation server db = Inr n"
  shows "1 \<le> n" and "n < 2 ^ 63"
    and "g \<in> set (db_generations db) \<Longrightarrow> g_server g = server \<Longrightarrow> g_generation g < n"
proof -
  let ?gens = "map g_generation (filter (\<lambda>g. g_server g = server) (db_generations db))"
  have n: "n = (if ?gens = [] then 0 else Max (set ?gens)) + 1" "n < 2 ^ 63"
    using assms(2) by (auto simp: next_generation_def Let_def split: if_splits)
  show "n < 2 ^ 63" by (rule n)
  show below: "g_generation g < n" if "g \<in> set (db_generations db)" "g_server g = server" for g
  proof -
    have "g_generation g \<in> set ?gens" using that by auto
    then have "g_generation g \<le> Max (set ?gens)" and "?gens \<noteq> []" by (auto intro: Max_ge simp del: set_map)
    then show ?thesis using n(1) by simp
  qed
  show "1 \<le> n"
  proof (cases "?gens = []")
    case True
    then show ?thesis using n by simp
  next
    case False
    then obtain g where "g \<in> set (db_generations db)" "g_server g = server"
      by (auto simp: filter_empty_conv)
    then show ?thesis using below [of g] assms(1) by (force simp: generations_wf_def)
  qed
qed

lemma append_generation_wf [wf_intros]:
  assumes "db_wf db" and "next_generation (g_server g) db = Inr (g_generation g)" and "g_state g \<noteq> Active"
  shows "db_wf (db\<lparr>db_generations := db_generations db @ [g]\<rparr>)"
proof -
  have wf: "generations_wf (db_generations db)" using assms(1) by (simp add: db_wf_def)
  note fresh = next_generation_fresh [OF wf assms(2)]
  have "generation_key g \<notin> generation_key ` set (db_generations db)"
    using fresh(3) by (fastforce simp: generation_key_def)
  then have "generations_wf (db_generations db @ [g])"
    using wf fresh(1,2) assms(3) by (auto simp: generations_wf_def)
  moreover have "entries_wf (db\<lparr>db_generations := db_generations db @ [g]\<rparr>)"
    by (rule entries_wf_cong [of _ db]) (use assms(1) in \<open>auto simp: db_wf_def\<close>)
  ultimately show ?thesis using assms(1) by (simp add: db_wf_def)
qed

lemma start_generation_wf [wf_intros]:
  "db_wf db \<Longrightarrow> db_wf (snd (start_generation faults server organization source started_at db))"
  by (auto simp: start_generation_def enroll_def intro: enroll_wf append_generation_wf split: sum.splits if_splits)

lemma record_failed_attempt_wf [wf_intros]:
  "db_wf db \<Longrightarrow> db_wf (snd (record_failed_attempt faults server error now db))"
  by (auto simp: record_failed_attempt_def intro: append_generation_wf split: sum.splits)

lemma update_progress_wf [wf_intros]:
  "db_wf db \<Longrightarrow> db_wf (snd (update_progress faults server generation progress db))"
  by (auto simp: update_progress_def generation_key_def intro!: passive_update_wf split: option.splits)

lemma fail_generation_wf [wf_intros]:
  "db_wf db \<Longrightarrow> db_wf (snd (fail_generation faults server generation error db))"
  by (auto simp: fail_generation_def generation_key_def intro!: passive_update_wf)

lemma supersede_wf [wf_intros]: "db_wf db \<Longrightarrow> db_wf (sql_supersede server db)"
  unfolding sql_supersede_def by (rule passive_update_wf) (auto simp: generation_key_def)

lemma in_update_generations:
  assumes "g \<in> set (db_generations (sql_update_generations cond upd db))"
  obtains g0 where "g0 \<in> set (db_generations db)" and "g = (if cond g0 then upd g0 else g0)"
proof -
  have "g \<in> (\<lambda>g. if cond g then upd g else g) ` set (db_generations db)"
    using assms by (simp add: sql_update_generations_def)
  then show thesis by (rule imageE) (rule that)
qed

lemma supersede_no_active:
  assumes "g \<in> set (db_generations (sql_supersede server db))" and "g_server g = server"
  shows "g_state g \<noteq> Active"
  using assms(1) unfolding sql_supersede_def
  by (rule in_update_generations) (use assms(2) in \<open>simp split: if_splits\<close>)

lemma activate_wf [wf_intros]:
  assumes "db_wf db" and none: "\<And>g. g \<in> set (db_generations db) \<Longrightarrow> g_server g = server \<Longrightarrow> g_state g \<noteq> Active"
  shows "db_wf (sql_activate server generation completed_at count profile warning db)"
  unfolding sql_activate_def
proof (rule update_generations_wf [OF assms(1)], goal_cases)
  case (1 g)
  then show ?case by (simp add: generation_key_def)
next
  case (2 g h)
  show ?case
  proof (cases "g_server g = server")
    case True
    then have "staging_row server generation g" "staging_row server generation h"
      using 2 none by (auto split: if_splits)
    then have "generation_key g = generation_key h" by (auto simp: staging_row_def generation_key_def)
    then show ?thesis using 2(1,2) assms(1) by (auto simp: db_wf_defs distinct_map dest: inj_onD)
  next
    case False
    then have "\<not> staging_row server generation g" "\<not> staging_row server generation h"
      using 2(3) by (auto simp: staging_row_def)
    then show ?thesis using 2 assms(1) by (auto simp: db_wf_defs)
  qed
qed

lemma promote_wf [wf_intros]:
  "db_wf db \<Longrightarrow> db_wf (snd (promote_with_profile faults server generation completed_at count profile warning db))"
  using activate_wf [OF supersede_wf supersede_no_active]
  by (auto simp: promote_with_profile_def Let_def split: option.splits)

lemma insert_row_wf:
  assumes "db_wf db" and "\<not> entry_exists server generation (ie_item_id entry) db"
    and "generation_exists server generation db"
  shows "db_wf (db\<lparr>db_entries := db_entries db @ [entry_of te server generation entry],
    db_fts := db_fts db @ [fts_of server generation entry]\<rparr>)"
proof -
  have "entry_key (entry_of te server generation entry) \<notin> entry_key ` set (db_entries db)"
    using assms(2) by (auto simp: entry_key_def entry_of_def entry_exists_def)
  then show ?thesis
    using assms(1,3)
    by (auto simp: db_wf_defs entry_of_def fts_of_def entry_doc_def fts_doc_def generation_exists_def)
qed

lemma insert_entry_rows_wf:
  "db_wf db \<Longrightarrow> insert_entry_rows te faults server generation entries n count db = Inr (n', count', db') \<Longrightarrow> db_wf db'"
proof (induction te faults server generation entries n count db rule: insert_entry_rows.induct)
  case (2 te faults server generation entry entries n count db)
  then show ?case using insert_row_wf [OF "2.prems"(1)] by (simp split: if_splits)
qed simp

lemma insert_entries_wf [wf_intros]:
  "db_wf db \<Longrightarrow> db_wf (snd (insert_entries te faults server generation entries db))"
  by (auto simp: insert_entries_def dest: insert_entry_rows_wf split: option.splits sum.splits)

lemma filter_generations_wf:
  assumes "db_wf db" and "\<And>e g. e \<in> set (db_entries db) \<Longrightarrow> g \<in> set (db_generations db) \<Longrightarrow>
      e_server e = g_server g \<Longrightarrow> e_generation e = g_generation g \<Longrightarrow> P g"
  shows "db_wf (db\<lparr>db_generations := filter P (db_generations db)\<rparr>)"
proof -
  have "generations_wf (filter P (db_generations db))"
    using assms(1) by (auto simp: db_wf_defs distinct_map_filter)
  moreover have "generation_exists (e_server e) (e_generation e) (db\<lparr>db_generations := filter P (db_generations db)\<rparr>)"
    if "e \<in> set (db_entries db)" for e
    using assms that by (fastforce simp: db_wf_defs generation_exists_def)
  ultimately show ?thesis using assms(1) by (auto simp: db_wf_def entries_wf_def)
qed

lemma discard_empty_generation_wf [wf_intros]:
  assumes "db_wf db"
  shows "db_wf (snd (discard_empty_generation faults server generation db))"
  using assms by (auto simp: discard_empty_generation_def Let_def intro!: filter_generations_wf)

text \<open>
  Without foreign keys on the full-text table, deleting a server's documents, generations and (by
  the cascade) entries keeps the two tables in step.
\<close>

lemma map_eq_filter:
  "map f xs = map g ys \<Longrightarrow> map f (filter (\<lambda>x. P (f x)) xs) = map g (filter (\<lambda>y. P (g y)) ys)"
proof (induction xs arbitrary: ys)
  case (Cons x xs)
  then show ?case by (cases ys) auto
qed simp

lemma cascade_eq:
  assumes "entries_wf db"
  shows "db_entries (sql_delete_generations server db) = filter (\<lambda>e. e_server e \<noteq> server) (db_entries db)"
proof -
  have "(\<exists>g \<in> set (db_generations db). g_server g = server \<and> e_server e = server \<and> e_generation e = g_generation g)
      \<longleftrightarrow> e_server e = server" if "e \<in> set (db_entries db)" for e
    using assms that unfolding entries_wf_def generation_exists_def by metis
  then show ?thesis by (auto simp: sql_delete_generations_def intro!: filter_cong)
qed

lemma delete_rows_wf:
  assumes "db_wf db"
  shows "db_wf (sql_delete_generations server (sql_delete_fts server db))"
proof -
  let ?db = "sql_delete_generations server (sql_delete_fts server db)"
  have ents: "db_entries ?db = filter (\<lambda>e. e_server e \<noteq> server) (db_entries db)"
    using cascade_eq [of db server] assms by (simp add: db_wf_def sql_delete_generations_def sql_delete_fts_def)
  have gens: "db_generations ?db = filter (\<lambda>g. g_server g \<noteq> server) (db_generations db)"
    by (simp add: sql_delete_generations_def sql_delete_fts_def)
  have fts: "db_fts ?db = filter (\<lambda>f. f_server f \<noteq> server) (db_fts db)"
    by (simp add: sql_delete_generations_def sql_delete_fts_def)
  have "map fts_doc (db_fts ?db) = map entry_doc (db_entries ?db)"
    using map_eq_filter [of fts_doc "db_fts db" entry_doc "db_entries db" "\<lambda>d. fst d \<noteq> server"] assms
    by (simp add: ents fts db_wf_defs fts_doc_def entry_doc_def)
  moreover have "generation_exists (e_server e) (e_generation e) ?db" if "e \<in> set (db_entries ?db)" for e
    using that assms unfolding ents by (fastforce simp: generation_exists_def gens db_wf_defs)
  moreover have "generations_wf (db_generations ?db)"
    using assms by (auto simp: gens db_wf_defs distinct_map_filter)
  moreover have "distinct (map entry_key (db_entries ?db))"
    using assms by (simp add: ents db_wf_defs distinct_map_filter)
  ultimately show ?thesis
    using assms by (simp add: db_wf_def entries_wf_def) (simp add: sql_delete_generations_def sql_delete_fts_def)
qed

lemma unenroll_wf: "db_wf db \<Longrightarrow> db_wf (sql_unenroll server db)"
  by (simp add: sql_unenroll_def db_wf_def entries_wf_def generation_exists_def)

lemma delete_meta_wf: "db_wf db \<Longrightarrow> db_wf (sql_delete_meta server db)"
  by (simp add: sql_delete_meta_def db_wf_def entries_wf_def generation_exists_def)

lemma transaction_wf:
  "db_wf db \<Longrightarrow> db_wf (fold (\<lambda>stmt. stmt) stmts db) \<Longrightarrow> db_wf (snd (transaction faults stmts db))"
  using transaction_cases [of faults stmts db] by auto

lemma clear_server_wf [wf_intros]: "db_wf db \<Longrightarrow> db_wf (snd (clear_server faults server db))"
  unfolding clear_server_def by (rule transaction_wf) (simp_all add: delete_rows_wf)

lemma delete_index_wf [wf_intros]: "db_wf db \<Longrightarrow> db_wf (snd (delete_index faults server db))"
  unfolding delete_index_def by (rule transaction_wf) (simp_all add: delete_rows_wf delete_meta_wf unenroll_wf)

lemma set_retry_state_wf [wf_intros]:
  "db_wf db \<Longrightarrow> db_wf (snd (set_retry_state faults server retry_after failures circuit_open db))"
  by (auto simp: set_retry_state_def Let_def intro: set_meta_wf)

lemma set_auto_refresh_wf [wf_intros]: "db_wf db \<Longrightarrow> db_wf (snd (set_auto_refresh faults server enabled now db))"
  by (auto simp: set_auto_refresh_def db_wf_def entries_wf_def generation_exists_def split: option.splits)

lemma fold_statements_wf: "(\<And>stmt db. stmt \<in> set stmts \<Longrightarrow> db_wf db \<Longrightarrow> db_wf (stmt db)) \<Longrightarrow> db_wf db \<Longrightarrow> db_wf (fold (\<lambda>stmt. stmt) stmts db)"
  by (induction stmts arbitrary: db) auto

lemma migrate_2_wf: "db_wf db \<Longrightarrow> db_wf (snd (migrate_schema_2_to_3 faults db))"
  unfolding migrate_schema_2_to_3_def
  by (rule transaction_wf) (auto simp: generation_key_def intro!: set_meta_wf passive_update_wf)

lemma migrate_3_wf: "db_wf db \<Longrightarrow> db_wf (snd (migrate_schema_3_to_4 faults now db))"
  unfolding migrate_schema_3_to_4_def Let_def
  by (rule transaction_wf, assumption, rule fold_statements_wf) (auto intro: set_meta_wf enroll_wf split: if_splits)

lemma check_schema_wf: "db_wf db \<Longrightarrow> db_wf (snd (check_schema env db))"
  using migrate_2_wf [of db "oe_migrate_2 env"] migrate_3_wf
  by (auto simp: check_schema_def split: option.splits sum.splits prod.splits)

lemma mark_interrupted_wf: "db_wf db \<Longrightarrow> db_wf (sql_mark_interrupted server db)"
  unfolding sql_mark_interrupted_def by (rule passive_update_wf) (auto simp: generation_key_def)

lemma retire_staging_wf: "db_wf db \<Longrightarrow> db_wf (sql_retire_staging server db)"
  unfolding sql_retire_staging_def by (rule passive_update_wf) (auto simp: generation_key_def split: if_splits)

lemma recover_servers_wf: "db_wf db \<Longrightarrow> db_wf (snd (recover_servers faults n held servers db))"
  by (induction faults n held servers db rule: recover_servers.induct)
    (auto simp: Let_def mark_interrupted_wf retire_staging_wf split: option.splits bool.splits)

lemma open_once_wf [wf_intros]: "db_wf db \<Longrightarrow> db_wf (snd (open_once env db))"
  using check_schema_wf [of db env]
  by (auto simp: open_once_def Let_def intro!: recover_servers_wf set_meta_wf split: prod.splits sum.splits)

section \<open>Runs of the store\<close>

inductive db_step :: "index_db \<Rightarrow> index_db \<Rightarrow> bool" where
  step_open: "db_step db (snd (open_once env db))"
| step_enroll: "db_step db (snd (enroll faults server timestamp db))"
| step_auto_refresh: "db_step db (snd (set_auto_refresh faults server enabled now db))"
| step_start: "db_step db (snd (start_generation faults server organization source started_at db))"
| step_failed_attempt: "db_step db (snd (record_failed_attempt faults server error now db))"
| step_insert: "db_step db (snd (insert_entries te faults server generation entries db))"
| step_progress: "db_step db (snd (update_progress faults server generation progress db))"
| step_promote: "db_step db (snd (promote_with_profile faults server generation completed_at count profile warning db))"
| step_fail: "db_step db (snd (fail_generation faults server generation error db))"
| step_discard: "db_step db (snd (discard_empty_generation faults server generation db))"
| step_clear: "db_step db (snd (clear_server faults server db))"
| step_delete: "db_step db (snd (delete_index faults server db))"
| step_retry: "db_step db (snd (set_retry_state faults server retry_after failures circuit_open db))"

lemma enroll_op_wf: "db_wf db \<Longrightarrow> db_wf (snd (enroll faults server timestamp db))"
  by (simp add: enroll_def enroll_wf)

lemma db_step_wf: "db_step db db' \<Longrightarrow> db_wf db \<Longrightarrow> db_wf db'"
  by (induction rule: db_step.induct) (simp_all add: wf_intros enroll_op_wf)

interpretation store_system: invariant_system "\<lambda>db. db = empty_db" db_step db_wf
  by unfold_locales (auto simp: empty_db_wf intro: db_step_wf)

section \<open>Promotion\<close>

lemma filter_map_if:
  assumes "\<And>x. x \<in> set xs \<Longrightarrow> c x \<Longrightarrow> P (u x)" and "\<And>x. x \<in> set xs \<Longrightarrow> \<not> c x \<Longrightarrow> \<not> P x"
  shows "filter P (map (\<lambda>x. if c x then u x else x) xs) = map u (filter c xs)"
  using assms by (induction xs) auto

lemma filter_map_id:
  assumes "\<And>x. x \<in> set xs \<Longrightarrow> P (f x) = P x" and "\<And>x. x \<in> set xs \<Longrightarrow> P x \<Longrightarrow> f x = x"
  shows "filter P (map f xs) = filter P xs"
  using assms by (induction xs) auto

lemma update_generations_filter:
  assumes "\<And>g. g \<in> set (db_generations db) \<Longrightarrow> cond g \<Longrightarrow> \<not> P g \<and> \<not> P (upd g)"
  shows "filter P (db_generations (sql_update_generations cond upd db)) = filter P (db_generations db)"
proof -
  have "filter P (map (\<lambda>g. if cond g then upd g else g) (db_generations db)) = filter P (db_generations db)"
    by (rule filter_map_id) (use assms in \<open>auto split: if_splits\<close>)
  then show ?thesis by (simp add: sql_update_generations_def)
qed

lemma supersede_staging:
  "filter (staging_row server generation) (db_generations (sql_supersede server db)) =
     filter (staging_row server generation) (db_generations db)"
  unfolding sql_supersede_def by (rule update_generations_filter) (simp add: staging_row_def)

lemma staging_unique:
  assumes "db_wf db"
  shows "length (filter (staging_row server generation) (db_generations db)) \<le> 1"
proof -
  let ?rows = "filter (staging_row server generation) (db_generations db)"
  have "distinct (map generation_key ?rows)" using assms by (simp add: db_wf_defs distinct_map_filter)
  moreover have "generation_key g = (server, int (unat generation))" if "g \<in> set ?rows" for g
    using that by (simp add: staging_row_def generation_key_def)
  then have "set (map generation_key ?rows) \<subseteq> {(server, int (unat generation))}" by auto
  ultimately show ?thesis
    using card_mono [of "{(server, int (unat generation))}" "set (map generation_key ?rows)"]
    by (metis card.empty card.insert distinct_card empty_iff finite.emptyI finite.insertI length_map One_nat_def)
qed

lemma promoted_rows:
  assumes "promote_with_profile faults server generation completed_at count profile warning db = (Inr u, db')"
  shows "db' = sql_activate server generation completed_at (int (unat count)) profile warning (sql_supersede server db)"
    and "length (filter (staging_row server generation) (db_generations db)) = 1"
  using assms
  by (auto simp: promote_with_profile_def Let_def i64_try_from_def supersede_staging split: option.splits if_splits)

lemma activate_active_rows:
  assumes "\<And>g. g \<in> set (db_generations db) \<Longrightarrow> g_server g = server \<Longrightarrow> g_state g \<noteq> Active"
    and "length (filter (staging_row server generation) (db_generations db)) = 1"
  shows "\<exists>g. active_rows server (sql_activate server generation completed_at count profile warning db) = [g] \<and>
    g_generation g = int (unat generation) \<and> g_completed_at g = Some completed_at \<and>
    g_entry_count g = count \<and> g_last_error g = warning"
proof -
  obtain g where g: "filter (staging_row server generation) (db_generations db) = [g]"
    using assms(2) by (auto simp: length_Suc_conv)
  then have "staging_row server generation g" by (metis filter_eq_ConsD)
  moreover have "active_rows server (sql_activate server generation completed_at count profile warning db) =
      map (\<lambda>g. g\<lparr>g_state := Active, g_completed_at := Some completed_at,
              g_entry_count := count, g_unique_item_count := count,
              g_organization := (case profile of None \<Rightarrow> g_organization g
                                 | Some (organization, _) \<Rightarrow> namespace_string organization),
              g_compatibility_fallback :=
                (case profile of None \<Rightarrow> False
                 | Some (_, source) \<Rightarrow> g_source g = ''da3'' \<and> source_string source = ''da2''),
              g_source := (case profile of None \<Rightarrow> g_source g | Some (_, source) \<Rightarrow> source_string source),
              g_last_error := warning\<rparr>) (filter (staging_row server generation) (db_generations db))"
    unfolding active_rows_def sql_activate_def sql_update_generations_def
    using assms(1) by (simp, intro filter_map_if) (auto simp: staging_row_def)
  ultimately show ?thesis using g by (simp add: staging_row_def)
qed

section \<open>Builds that are not promoted\<close>

text \<open>
  The steps of an index build other than its promotion. Entries are only ever inserted into a
  generation that is not active.
\<close>

inductive build_step :: "index_db \<Rightarrow> index_db \<Rightarrow> bool" where
  build_start: "build_step db (snd (start_generation faults server organization source started_at db))"
| build_failed_attempt: "build_step db (snd (record_failed_attempt faults server error now db))"
| build_insert: "(\<And>g. g \<in> set (active_rows server db) \<Longrightarrow> g_generation g \<noteq> int (unat generation)) \<Longrightarrow>
     build_step db (snd (insert_entries te faults server generation entries db))"
| build_progress: "build_step db (snd (update_progress faults server generation progress db))"
| build_fail: "build_step db (snd (fail_generation faults server generation error db))"
| build_discard: "build_step db (snd (discard_empty_generation faults server generation db))"
| build_retry: "build_step db (snd (set_retry_state faults server retry_after failures circuit_open db))"

definition active_entries :: "string \<Rightarrow> index_db \<Rightarrow> entry_row list" where
  "active_entries server db =
     filter (\<lambda>e. e_server e = server \<and> e_generation e \<in> g_generation ` set (active_rows server db)) (db_entries db)"

lemma active_rows_update:
  assumes "\<And>g. cond g \<Longrightarrow> g_state g = Staging" and "\<And>g. g_state g = Staging \<Longrightarrow> g_state (upd g) \<noteq> Active"
  shows "active_rows server (sql_update_generations cond upd db) = active_rows server db"
  unfolding active_rows_def by (rule update_generations_filter) (use assms in \<open>auto dest: assms(1)\<close>)

lemma insert_entry_rows_frame:
  "insert_entry_rows te faults server generation entries n count db = Inr (n', count', db') \<Longrightarrow>
     db_generations db' = db_generations db \<and>
     (\<exists>new. db_entries db' = db_entries db @ new \<and> (\<forall>e \<in> set new. e_server e = server \<and> e_generation e = generation))"
proof (induction te faults server generation entries n count db rule: insert_entry_rows.induct)
  case (2 te faults server generation entry entries n count db)
  show ?case
  proof (cases "entry_exists server generation (ie_item_id entry) db")
    case True
    then show ?thesis using 2 by (simp split: if_splits)
  next
    case False
    then have ins: "insert_entry_rows te faults server generation entries (n + 2) (saturating_add count 1)
        (db\<lparr>db_entries := db_entries db @ [entry_of te server generation entry],
            db_fts := db_fts db @ [fts_of server generation entry]\<rparr>) = Inr (n', count', db')"
      and *: "ie_item_id entry \<noteq> []" "\<not> faults n" "generation_exists server generation db" "\<not> faults (Suc n)"
      using "2.prems" by (simp_all split: if_splits)
    from "2.IH"(2) [OF *(1,2) False _ *(4) ins] *(3) show ?thesis
      by (force simp: entry_of_def)
  qed
qed simp

lemma insert_entries_frame:
  assumes "insert_entries te faults server generation entries db = (r, db')"
  shows "db_generations db' = db_generations db \<and>
    (\<exists>new. db_entries db' = db_entries db @ new \<and>
       (\<forall>e \<in> set new. e_server e = server \<and> e_generation e = int (unat generation)))"
proof -
  have "i64_try_from generation = Some gen \<Longrightarrow> gen = int (unat generation)" for gen
    by (auto simp: i64_try_from_def split: if_splits)
  then show ?thesis
    using assms insert_entry_rows_frame
    by (fastforce simp: insert_entries_def split: option.splits sum.splits prod.splits if_splits)
qed

lemma active_frame:
  assumes "active_rows s db' = active_rows s db" and "db_entries db' = db_entries db"
  shows "active_rows s db' = active_rows s db \<and> active_entries s db' = active_entries s db"
  using assms by (simp add: active_entries_def)

lemma build_step_active:
  assumes "build_step db db'"
  shows "active_rows s db' = active_rows s db \<and> active_entries s db' = active_entries s db"
  using assms
proof (induction rule: build_step.induct)
  case (build_insert server db generation te faults entries)
  obtain r db' where ins: "insert_entries te faults server generation entries db = (r, db')" by fastforce
  obtain new where new: "db_entries db' = db_entries db @ new"
      "\<forall>e \<in> set new. e_server e = server \<and> e_generation e = int (unat generation)"
    and gens: "db_generations db' = db_generations db"
    using insert_entries_frame [OF ins] by blast
  have "active_rows s db' = active_rows s db" by (simp add: active_rows_def gens)
  moreover have "filter (\<lambda>e. e_server e = s \<and> e_generation e \<in> g_generation ` set (active_rows s db)) new = []"
    using new(2) build_insert by (fastforce simp: filter_empty_conv)
  ultimately show ?case using ins new(1) by (simp add: active_entries_def)
next
  case (build_progress db faults server generation progress)
  show ?case
    by (rule active_frame)
      (auto simp: update_progress_def staging_row_def intro!: active_rows_update split: option.splits)
next
  case (build_fail db faults server generation error)
  show ?case
    by (rule active_frame) (auto simp: fail_generation_def staging_row_def intro!: active_rows_update)
qed (rule active_frame; auto simp: start_generation_def enroll_def sql_enroll_def record_failed_attempt_def
    discard_empty_generation_def set_retry_state_def sql_set_meta_def Let_def active_rows_def staging_row_def
    intro!: filter_cong split: sum.splits)+

definition item_ids :: "string \<Rightarrow> int \<Rightarrow> index_db \<Rightarrow> ustring set" where
  "item_ids server generation db =
     e_item_id ` {e \<in> set (db_entries db). e_server e = server \<and> e_generation e = generation}"

lemma entry_exists_iff: "entry_exists server generation item_id db \<longleftrightarrow> item_id \<in> item_ids server generation db"
  by (auto simp: entry_exists_def item_ids_def)

lemma insert_entry_rows_content:
  assumes "insert_entry_rows te faults server generation entries n count db = Inr (n', count', db')"
    and "unat count + length entries < 2 ^ 64"
  shows "item_ids server generation db' = item_ids server generation db \<union> ie_item_id ` set entries \<and>
    [] \<notin> ie_item_id ` set entries \<and>
    length (db_entries db') + unat count = length (db_entries db) + unat count'"
  using assms
proof (induction te faults server generation entries n count db rule: insert_entry_rows.induct)
  case (2 te faults server generation entry entries n count db)
  show ?case
  proof (cases "entry_exists server generation (ie_item_id entry) db")
    case True
    then show ?thesis using 2 by (auto simp: entry_exists_iff split: if_splits)
  next
    case False
    let ?db = "db\<lparr>db_entries := db_entries db @ [entry_of te server generation entry],
        db_fts := db_fts db @ [fts_of server generation entry]\<rparr>"
    have ins: "insert_entry_rows te faults server generation entries (n + 2) (saturating_add count 1) ?db =
        Inr (n', count', db')"
      and *: "ie_item_id entry \<noteq> []" "\<not> faults n" "generation_exists server generation db" "\<not> faults (Suc n)"
      using "2.prems"(1) False by (simp_all split: if_splits)
    have cnt: "unat (saturating_add count 1) = Suc (unat count)"
      using "2.prems"(2) by (simp add: unat_saturating_add)
    have ids: "item_ids server generation ?db = insert (ie_item_id entry) (item_ids server generation db)"
    proof -
      let ?e = "entry_of te server generation entry"
      have e: "e_server ?e = server" "e_generation ?e = generation" "e_item_id ?e = ie_item_id entry"
        by (simp_all add: entry_of_def)
      then have "{e \<in> set (db_entries ?db). e_server e = server \<and> e_generation e = generation} =
          insert ?e {e \<in> set (db_entries db). e_server e = server \<and> e_generation e = generation}" by auto
      then show ?thesis by (simp add: item_ids_def e(3))
    qed
    from "2.IH"(2) [OF *(1,2) False _ *(4) ins] *(3) cnt "2.prems"(2) ids *(1) show ?thesis by auto
  qed
qed simp

lemma insert_entry_rows_again:
  assumes "\<And>entry. entry \<in> set entries \<Longrightarrow> ie_item_id entry \<noteq> [] \<and> ie_item_id entry \<in> item_ids server generation db"
  shows "insert_entry_rows te (\<lambda>_. False) server generation entries n count db = Inr (n + length entries, count, db)"
  using assms by (induction entries arbitrary: n) (auto simp: entry_exists_iff)

section \<open>Deletion and retry state\<close>

lemma delete_index_result:
  assumes "delete_index faults server db = (r, db')"
  shows "(\<exists>e. r = Inl e \<and> db' = db) \<or>
    r = Inr () \<and> db' = sql_unenroll server (sql_delete_meta server (sql_delete_generations server (sql_delete_fts server db)))"
  using assms transaction_cases [of faults "[sql_delete_fts server, sql_delete_generations server,
      sql_delete_meta server, sql_unenroll server]" db]
  by (auto simp: delete_index_def)

lemma retry_keys [simp]:
  "retry_after_key a = retry_after_key b \<longleftrightarrow> a = b" "failures_key a = failures_key b \<longleftrightarrow> a = b"
  "circuit_key a = circuit_key b \<longleftrightarrow> a = b"
  "retry_after_key a \<noteq> failures_key b" "failures_key b \<noteq> retry_after_key a"
  "retry_after_key a \<noteq> circuit_key b" "circuit_key b \<noteq> retry_after_key a"
  "failures_key a \<noteq> circuit_key b" "circuit_key b \<noteq> failures_key a"
  by (simp_all add: retry_after_key_def failures_key_def circuit_key_def)

lemma set_meta_lookup [simp]:
  "map_of (db_meta (sql_set_meta key value db)) k = (if k = key then Some value else map_of (db_meta db) k)"
  by (simp add: sql_set_meta_def hmap_simps)

lemma parse_retry_text:
  assumes "0 \<le> t" and "nat t div 1000000 < 2 ^ 64"
  shows "parse_unsigned (2 ^ 64 - 1) (retry_text (Some t)) = Some (nat t div 1000000)" and "retry_text (Some t) \<noteq> []"
  using assms by (simp_all add: retry_text_def parse_unsigned_to_string)

lemma parse_failures: "parse_unsigned (2 ^ 32 - 1) (nat_to_string (unat f)) = Some (unat f)" for f :: u32
  using unat_le_max [of f] by (intro parse_unsigned_to_string) simp

lemma set_retry_state_Inr:
  assumes "set_retry_state faults server retry_after failures circuit_open db = (Inr u, db')"
  shows "map_of (db_meta db') = (map_of (db_meta db))(retry_after_key server \<mapsto> retry_text retry_after,
    failures_key server \<mapsto> nat_to_string (unat failures), circuit_key server \<mapsto> (if circuit_open then ''1'' else ''0''))"
  using assms by (auto simp: set_retry_state_def Let_def split: if_splits)

section \<open>Recovery and migration\<close>

definition without_error :: "generation_row \<Rightarrow> generation_row" where
  "without_error g = g\<lparr>g_last_error := None\<rparr>"

text \<open>Recovering one server: its interrupted build ends, its active rows change at most in their error.\<close>

lemma update_generations_map:
  assumes "\<And>g. f (upd g) = f g"
  shows "map f (db_generations (sql_update_generations cond upd db)) = map f (db_generations db)"
  using assms by (auto simp: sql_update_generations_def)

lemma active_rows_errors:
  assumes "\<And>g. without_error (upd g) = without_error g"
  shows "map without_error (active_rows s (sql_update_generations cond upd db)) = map without_error (active_rows s db)"
proof -
  have same: "g_server (upd g) = g_server g" "g_state (upd g) = g_state g" for g
    using assms [of g] by (auto simp: without_error_def dest: arg_cong [where f = g_server] arg_cong [where f = g_state])
  have "map without_error (filter (\<lambda>g. g_server g = s \<and> g_state g = Active) (map (\<lambda>g. if cond g then upd g else g) gens)) =
      map without_error (filter (\<lambda>g. g_server g = s \<and> g_state g = Active) gens)" for gens
    by (induction gens) (simp_all add: same assms)
  then show ?thesis by (simp add: active_rows_def sql_update_generations_def)
qed

definition recover_one :: "string \<Rightarrow> index_db \<Rightarrow> index_db" where
  "recover_one server db = sql_retire_staging server (sql_mark_interrupted server db)"

lemma update_generations_rows:
  "db_generations (sql_update_generations cond upd db) = map (\<lambda>g. if cond g then upd g else g) (db_generations db)"
  by (simp add: sql_update_generations_def)

lemma has_state_update:
  "has_state s st (sql_update_generations cond upd db) \<longleftrightarrow>
     (\<exists>g \<in> set (db_generations db). g_server (if cond g then upd g else g) = s \<and>
        g_state (if cond g then upd g else g) = st)"
  by (simp only: has_state_def update_generations_rows set_map bex_simps)

lemma mark_interrupted_states: "has_state s st (sql_mark_interrupted server db) = has_state s st db"
proof -
  have "g_server (if c then g\<lparr>g_last_error := e\<rparr> else g) = g_server g"
    "g_state (if c then g\<lparr>g_last_error := e\<rparr> else g) = g_state g" for c e and g :: generation_row by simp_all
  then show ?thesis unfolding sql_mark_interrupted_def has_state_update by (simp only: has_state_def)
qed

lemma retire_staging_states:
  "has_state s Staging (sql_retire_staging server db) \<longleftrightarrow> s \<noteq> server \<and> has_state s Staging db"
proof -
  have "g_server (if g_server g = server \<and> g_state g = Staging then g\<lparr>g_state := st, g_last_error := e\<rparr> else g) = s \<and>
      g_state (if g_server g = server \<and> g_state g = Staging then g\<lparr>g_state := st, g_last_error := e\<rparr> else g) = Staging \<longleftrightarrow>
      s \<noteq> server \<and> g_server g = s \<and> g_state g = Staging" if "st \<noteq> Staging" for g st e
    using that by auto
  then show ?thesis
    unfolding sql_retire_staging_def has_state_update by (cases "has_state server Active db") (auto simp: has_state_def)
qed

lemma recover_one_staging:
  "has_state s Staging (recover_one server db) \<longleftrightarrow> s \<noteq> server \<and> has_state s Staging db"
  by (simp add: recover_one_def retire_staging_states mark_interrupted_states)

lemma recover_one_active: "map without_error (active_rows s (recover_one server db)) = map without_error (active_rows s db)"
proof -
  have "active_rows s (recover_one server db) = active_rows s (sql_mark_interrupted server db)"
    unfolding recover_one_def sql_retire_staging_def by (rule active_rows_update) auto
  also have "map without_error \<dots> = map without_error (active_rows s db)"
    unfolding sql_mark_interrupted_def by (rule active_rows_errors) (simp add: without_error_def)
  finally show ?thesis .
qed

lemma recover_one_frame [simp]:
  "db_entries (recover_one server db) = db_entries db" "db_fts (recover_one server db) = db_fts db"
  "db_meta (recover_one server db) = db_meta db" "db_enrolled (recover_one server db) = db_enrolled db"
  by (simp_all add: recover_one_def sql_retire_staging_def sql_mark_interrupted_def)

lemma recover_servers_Inr:
  assumes "recover_servers faults n held servers db = (Inr u, db')" and "\<And>s. held s = Some False"
  shows "db' = fold recover_one servers db"
  using assms
  by (induction faults n held servers db rule: recover_servers.induct)
    (auto simp: Let_def recover_one_def split: if_splits)

lemma fold_recover:
  "has_state s Staging (fold recover_one servers db) \<longleftrightarrow> s \<notin> set servers \<and> has_state s Staging db"
  "map without_error (active_rows s (fold recover_one servers db)) = map without_error (active_rows s db)"
  "db_entries (fold recover_one servers db) = db_entries db"
  by (induction servers arbitrary: db) (auto simp: recover_one_staging recover_one_active)

lemma staging_servers_iff: "s \<in> set (staging_servers db) \<longleftrightarrow> has_state s Staging db"
  by (auto simp: staging_servers_def has_state_def)

lemma sql_enroll_frame [simp]:
  "db_entries (sql_enroll server enabled ts db) = db_entries db" "db_fts (sql_enroll server enabled ts db) = db_fts db"
  "db_generations (sql_enroll server enabled ts db) = db_generations db"
  "db_meta (sql_enroll server enabled ts db) = db_meta db"
  by (simp_all add: sql_enroll_def)

lemma sql_set_meta_frame [simp]:
  "db_entries (sql_set_meta k v db) = db_entries db" "db_fts (sql_set_meta k v db) = db_fts db"
  "db_generations (sql_set_meta k v db) = db_generations db" "db_enrolled (sql_set_meta k v db) = db_enrolled db"
  by (simp_all add: sql_set_meta_def)

lemma has_state_cong: "db_generations db' = db_generations db \<Longrightarrow> has_state s st db' = has_state s st db"
  by (simp add: has_state_def)

lemma enrollment_enroll:
  "enrollment s (sql_enroll server enabled ts db) =
     (if s = server \<and> enrollment s db = None then Some enabled else enrollment s db)"
  by (auto simp: enrollment_def sql_enroll_def map_add_def split: option.splits)

definition enroll_all :: "string \<Rightarrow> string list \<Rightarrow> index_db \<Rightarrow> index_db" where
  "enroll_all now servers db = fold (\<lambda>server db. sql_enroll server (has_state server Active db) now db) servers db"

lemma enroll_all_simps:
  "db_generations (enroll_all now servers db) = db_generations db"
  "db_entries (enroll_all now servers db) = db_entries db" "db_fts (enroll_all now servers db) = db_fts db"
  "enrollment s (enroll_all now servers db) =
     (if s \<in> set servers \<and> enrollment s db = None then Some (has_state s Active db) else enrollment s db)"
  unfolding enroll_all_def
  by (induction servers arbitrary: db) (auto simp: enrollment_enroll has_state_def)

lemma fold_enroll_statements:
  "fold (\<lambda>stmt. stmt) (concat (map (\<lambda>server. [\<lambda>db. db, \<lambda>db. sql_enroll server (has_state server Active db) now db]) servers)) db =
     enroll_all now servers db"
  unfolding enroll_all_def by (induction servers arbitrary: db) auto

lemma migrate_3_Inr:
  assumes "migrate_schema_3_to_4 faults now db = (Inr u, db')"
  shows "db' = sql_set_meta ''schema_version'' ''4''
    (enroll_all now (sort (remdups (map g_server (db_generations db)))) db)"
proof -
  let ?servers = "sort (remdups (map g_server (db_generations db)))"
  let ?stmts = "[\<lambda>db. db, \<lambda>db. db] @
         concat (map (\<lambda>server. [\<lambda>db. db, \<lambda>db. sql_enroll server (has_state server Active db) now db]) ?servers) @
         [sql_set_meta ''schema_version'' (int_to_string SCHEMA_VERSION)]"
  have four: "int_to_string SCHEMA_VERSION = ''4''"
    by code_simp
  have "db' = fold (\<lambda>stmt. stmt) ?stmts db"
    using assms transaction_cases [of faults ?stmts db] unfolding migrate_schema_3_to_4_def Let_def by auto
  then show ?thesis by (simp add: fold_enroll_statements four)
qed

lemma digit_strings: "nat_to_string 2 = ''2''" "nat_to_string 3 = ''3''" "nat_to_string 4 = ''4''"
  by code_simp+

lemma parse_small: "parse_i64 ''2'' = Some 2" "parse_i64 ''3'' = Some 3" "parse_i64 ''4'' = Some 4"
  using parse_i64_to_string [of 2] parse_i64_to_string [of 3] parse_i64_to_string [of 4]
  by (simp_all add: digit_strings)

section \<open>Rollback of a quarantine\<close>

text \<open>
  Renames between distinct fresh paths can be undone: moving the files back in the reverse order
  restores the file system.
\<close>

lemma fs_rename_back:
  assumes "fs destination = None" and "source \<noteq> destination"
  shows "fs_rename destination source (fs_rename source destination fs) = fs"
  using assms by (auto simp: fs_rename_def fun_eq_iff)

definition undo_renames :: "(string \<times> string) list \<Rightarrow> 'f filesystem \<Rightarrow> 'f filesystem" where
  "undo_renames moved fs = fold (\<lambda>(source, destination). fs_rename destination source) moved fs"

lemma rollback_all:
  assumes "\<And>i. \<not> rename_error (k + i)"
  shows "rollback_renames rename_error k moved fs = (0, undo_renames moved fs)"
  using assms
proof (induction moved arbitrary: k fs)
  case (Cons m moved)
  obtain source destination where "m = (source, destination)" by fastforce
  moreover have "\<not> rename_error k" using Cons.prems [of 0] by simp
  moreover have "\<not> rename_error (Suc k + i)" for i using Cons.prems [of "Suc i"] by simp
  ultimately show ?case using Cons.IH by (simp add: undo_renames_def)
qed (simp add: undo_renames_def)

lemma quarantine_loop_rollback:
  assumes "quarantine_loop meta_error rename_error k moved files fs = (Inl e, fs')"
    and "\<And>source. \<not> meta_error source" and once: "\<And>i. rename_error i \<Longrightarrow> i = n"
    and "\<forall>(source, destination) \<in> set files. fs destination = None \<and> source \<noteq> destination"
    and "distinct (map snd files)" and "fst ` set files \<inter> snd ` set files = {}"
  shows "fs' = undo_renames moved fs"
  using assms(1,4-6)
proof (induction files arbitrary: k moved fs)
  case (Cons pair files)
  obtain source destination where f: "pair = (source, destination)" by fastforce
  consider (absent) "fs source = None" | (failed) y where "fs source = Some y" "rename_error k"
    | (renamed) y where "fs source = Some y" "\<not> rename_error k" by (cases "fs source") auto
  then show ?case
  proof cases
    case absent
    then show ?thesis using Cons f assms(2) by auto
  next
    case failed
    then have "\<not> rename_error (Suc k + i)" for i using once [of k] once [of "Suc k + i"] by auto
    then have "rollback_renames rename_error (Suc k) moved fs = (0, undo_renames moved fs)"
      by (rule rollback_all)
    then show ?thesis using Cons.prems(1) f failed assms(2) by simp
  next
    case renamed
    let ?fs = "fs_rename source destination fs"
    have "fs' = undo_renames ((source, destination) # moved) ?fs"
    proof (rule Cons.IH)
      show "quarantine_loop meta_error rename_error (Suc k) ((source, destination) # moved) files ?fs = (Inl e, fs')"
        using Cons.prems(1) f renamed assms(2) [of source] by simp
      show "\<forall>(s, d) \<in> set files. ?fs d = None \<and> s \<noteq> d"
      proof clarify
        fix s d assume sd: "(s, d) \<in> set files"
        then have d: "d \<in> snd ` set files" by force
        then have "d \<noteq> destination" using Cons.prems(3) f by auto
        moreover have "d \<noteq> source" using Cons.prems(4) f d by auto
        moreover have "fs d = None \<and> s \<noteq> d" using Cons.prems(2) sd by auto
        ultimately show "?fs d = None \<and> s \<noteq> d" by (simp add: fs_rename_def)
      qed
      show "distinct (map snd files)" "fst ` set files \<inter> snd ` set files = {}"
        using Cons.prems(3,4) by auto
    qed
    moreover have "fs destination = None" "source \<noteq> destination" using Cons.prems(2) f by auto
    ultimately show ?thesis by (simp add: undo_renames_def fs_rename_back)
  qed
qed simp

section \<open>Properties\<close>


lemma promoted_active:
  assumes "promote_with_profile faults server generation completed_at count profile warning db = (Inr u, db')"
  shows "\<exists>g. active_rows server db' = [g] \<and> g_generation g = int (unat generation) \<and>
      g_completed_at g = Some completed_at \<and> g_entry_count g = int (unat count) \<and> g_last_error g = warning"
    and "s \<noteq> server \<Longrightarrow> active_rows s db' = active_rows s db" and "db_entries db' = db_entries db"
proof -
  note rows = promoted_rows [OF assms]
  show "\<exists>g. active_rows server db' = [g] \<and> g_generation g = int (unat generation) \<and>
      g_completed_at g = Some completed_at \<and> g_entry_count g = int (unat count) \<and> g_last_error g = warning"
    unfolding rows(1)
    by (rule activate_active_rows) (use rows(2) in \<open>simp_all add: supersede_no_active supersede_staging\<close>)
  show "db_entries db' = db_entries db" using rows(1) by (simp add: sql_activate_def sql_supersede_def)
  assume "s \<noteq> server"
  have "active_rows s db' = active_rows s (sql_supersede server db)"
    unfolding active_rows_def rows(1) sql_activate_def
    by (rule update_generations_filter) (use \<open>s \<noteq> server\<close> in \<open>auto simp: staging_row_def\<close>)
  also have "\<dots> = active_rows s db"
    unfolding active_rows_def sql_supersede_def
    by (rule update_generations_filter) (use \<open>s \<noteq> server\<close> in auto)
  finally show "active_rows s db' = active_rows s db" .
qed

lemma promote_error: "promote_with_profile faults server generation completed_at count profile warning db = (Inl e, db') \<Longrightarrow> db' = db"
  by (auto simp: promote_with_profile_def Let_def split: option.splits if_splits)

lemma promote_succeeds:
  assumes "db_wf db" and "\<And>k. \<not> faults k" and "unat generation < 2 ^ 63" and "unat count < 2 ^ 63"
    and "g \<in> set (db_generations db)" and "staging_row server generation g"
  shows "\<exists>db'. promote_with_profile faults server generation completed_at count profile warning db = (Inr (), db')"
proof -
  have "filter (staging_row server generation) (db_generations db) \<noteq> []" using assms(5,6) by (auto simp: filter_empty_conv)
  then have "length (filter (staging_row server generation) (db_generations db)) = 1"
    using staging_unique [OF assms(1), of server generation] by (simp add: le_Suc_eq)
  then show ?thesis
    using assms(2-4) by (simp add: promote_with_profile_def Let_def i64_try_from_def supersede_staging)
qed

text \<open>
  C2. Promotion is atomic. When it fails, for whatever statement, the database is unchanged.
  When it succeeds, the promoted generation is the only active one of its server, with the given
  completion time, counts and warning, and no other server and no entry is touched. It does
  succeed whenever the generation is staging, the numbers fit and no statement fails.
\<close>

theorem promotion_is_atomic:
  assumes "db_wf db"
    and "promote_with_profile faults server generation completed_at count profile warning db = (r, db')"
  shows "(case r of
      Inl e \<Rightarrow> db' = db
    | Inr _ \<Rightarrow> (\<exists>g. active_rows server db' = [g] \<and> g_generation g = int (unat generation) \<and>
          g_completed_at g = Some completed_at \<and> g_entry_count g = int (unat count) \<and> g_last_error g = warning) \<and>
        (\<forall>s. s \<noteq> server \<longrightarrow> active_rows s db' = active_rows s db) \<and> db_entries db' = db_entries db) \<and>
    ((\<forall>k. \<not> faults k) \<and> unat generation < 2 ^ 63 \<and> unat count < 2 ^ 63 \<and>
     (\<exists>g \<in> set (db_generations db). staging_row server generation g) \<longrightarrow> r = Inr ())"
proof (intro conjI impI)
  show "case r of Inl e \<Rightarrow> db' = db
    | Inr _ \<Rightarrow> (\<exists>g. active_rows server db' = [g] \<and> g_generation g = int (unat generation) \<and>
          g_completed_at g = Some completed_at \<and> g_entry_count g = int (unat count) \<and> g_last_error g = warning) \<and>
        (\<forall>s. s \<noteq> server \<longrightarrow> active_rows s db' = active_rows s db) \<and> db_entries db' = db_entries db"
    using assms(2) promote_error promoted_active by (cases r) auto
next
  assume *: "(\<forall>k. \<not> faults k) \<and> unat generation < 2 ^ 63 \<and> unat count < 2 ^ 63 \<and>
    (\<exists>g \<in> set (db_generations db). staging_row server generation g)"
  then obtain g where "g \<in> set (db_generations db)" "staging_row server generation g" by blast
  then show "r = Inr ()"
    using promote_succeeds [OF assms(1), of faults generation count g server completed_at profile warning] * assms(2) by auto
qed

text \<open>
  A build that is not promoted never costs a server its searchable index: starting a
  generation, inserting into it, reporting progress, failing or discarding it, and recording
  failed attempts and retry state leave the active generation of every server and its entries
  exactly as they were, whichever statements fail.
\<close>

theorem unpromoted_build_keeps_active_index:
  assumes "build_step\<^sup>*\<^sup>* db db'"
  shows "active_rows s db' = active_rows s db \<and> active_entries s db' = active_entries s db"
  using assms by (induction rule: rtranclp_induct) (auto dest: build_step_active [of _ _ s])


text \<open>
  The retry state survives a restart: what \<open>set_retry_state\<close> stored is what \<open>retry_state\<close>
  reads, the deadline cut to whole milliseconds, and the stored state of every other server is
  unchanged.
\<close>

theorem retry_state_roundtrip:
  assumes "set_retry_state faults server (Some t) failures circuit_open db = (Inr u, db')"
    and "0 \<le> t" and "nat t div 1000000 < 2 ^ 64" and "t \<le> tmax"
  shows "retry_state tmax server db' = Inr (Some (t div 1000000 * 1000000), failures, circuit_open) \<and>
    (\<forall>s. s \<noteq> server \<longrightarrow> retry_state tmax s db' = retry_state tmax s db)"
proof -
  note meta = set_retry_state_Inr [OF assms(1)]
  have "int (nat t div 1000000) = t div 1000000" using assms(2) by (simp add: zdiv_int)
  moreover have "t div 1000000 * 1000000 \<le> tmax" using assms(4) minus_mod_eq_div_mult [of t 1000000] by simp
  ultimately have "retry_state tmax server db' = Inr (Some (t div 1000000 * 1000000), failures, circuit_open)"
    using parse_retry_text [OF assms(2,3)] parse_failures [of failures]
    by (simp add: retry_state_def meta Let_def)
  moreover have "retry_state tmax s db' = retry_state tmax s db" if "s \<noteq> server" for s
    using that by (simp add: retry_state_def meta)
  ultimately show ?thesis by blast
qed

text \<open>
  After a restart no interrupted build is left: opening the database of a gateway that does not
  run any more leaves no staging generation, no entry is lost, and the active generation of every
  server is kept, at most with a new error message.
\<close>

theorem open_recovers_interrupted_builds:
  assumes "open_once env db = (Inr u, db')" and "\<And>s. oe_held env s = Some False"
    and "map_of (db_meta db) ''schema_version'' = Some ''4''"
  shows "\<not> has_state s Staging db' \<and> map without_error (active_rows s db') = map without_error (active_rows s db) \<and>
    db_entries db' = db_entries db"
proof -
  have "parse_i64 ''4'' = Some 4" by (rule parse_small)
  then have schema: "check_schema env db = (Inr (), db)"
    using assms(3) by (simp add: check_schema_def SCHEMA_VERSION_def)
  let ?db = "sql_set_meta ''schema_version'' (int_to_string SCHEMA_VERSION) db"
  have "recover_servers (oe_recover env) 0 (oe_held env) (staging_servers ?db) ?db = (Inr u, db')"
    using assms(1) schema by (auto simp: open_once_def Let_def split: if_splits)
  from recover_servers_Inr [OF this assms(2)] have db': "db' = fold recover_one (staging_servers ?db) ?db" .
  have "active_rows s ?db = active_rows s db" by (simp add: active_rows_def)
  then show ?thesis unfolding db' fold_recover staging_servers_iff by (simp add: has_state_cong [of ?db db])
qed

text \<open>
  Migrating an old database (schema 2 or 3) to the current schema loses nothing: entries and
  documents stay, every indexed server is enrolled, servers that already were keep their setting,
  and a newly enrolled server refreshes automatically exactly if it has an active generation.
\<close>

theorem migration_enrolls_indexed_servers:
  assumes "check_schema env db = (Inr u, db')" and "map_of (db_meta db) ''schema_version'' \<in> {Some ''2'', Some ''3''}"
  shows "map_of (db_meta db') ''schema_version'' = Some ''4'' \<and> db_entries db' = db_entries db \<and>
    db_fts db' = db_fts db \<and> map generation_key (db_generations db') = map generation_key (db_generations db) \<and>
    enrollment s db' =
      (if s \<in> g_server ` set (db_generations db) \<and> enrollment s db = None then Some (has_state s Active db)
       else enrollment s db)"
proof -
  have parse: "parse_i64 ''2'' = Some 2" "parse_i64 ''3'' = Some 3" by (rule parse_small)+
  let ?cut = "sql_update_generations (\<lambda>_. True) (\<lambda>g. g\<lparr>g_compatibility_fallback := False\<rparr>)"
  have two: "snd (migrate_schema_2_to_3 faults db) = sql_set_meta ''schema_version'' ''3'' (?cut db)"
    if "fst (migrate_schema_2_to_3 faults db) = Inr v" for faults v
    using that transaction_cases [of faults "[?cut, sql_set_meta ''schema_version'' ''3'']" db]
    unfolding migrate_schema_2_to_3_def by auto
  obtain db1 where "migrate_schema_3_to_4 (oe_migrate_3 env) (oe_now env) db1 = (Inr u, db')"
    and db1: "db1 = db \<or> db1 = sql_set_meta ''schema_version'' ''3'' (?cut db)"
    using assms parse two [of "oe_migrate_2 env"]
    by (auto simp: check_schema_def split: sum.splits prod.splits)
  from migrate_3_Inr [OF this(1)]
  have db': "db' = sql_set_meta ''schema_version'' ''4''
      (enroll_all (oe_now env) (sort (remdups (map g_server (db_generations db1)))) db1)" .
  have same: "enrollment s db1 = enrollment s db" "has_state s Active db1 = has_state s Active db"
      "g_server ` set (db_generations db1) = g_server ` set (db_generations db)"
      "db_entries db1 = db_entries db" "db_fts db1 = db_fts db"
      "map generation_key (db_generations db1) = map generation_key (db_generations db)"
    using db1 by (auto simp: enrollment_def has_state_def sql_update_generations_def generation_key_def image_image)
      blast+
  have "enrollment s db' = enrollment s (enroll_all (oe_now env) (sort (remdups (map g_server (db_generations db1)))) db1)"
    by (simp add: db' enrollment_def)
  then show ?thesis
    using same by (simp add: db' enroll_all_simps)
qed

text \<open>
  Quarantine is undone when a rename fails: as long as the quarantine paths are free and only
  one rename fails, an error leaves all three index files where they were.
\<close>

theorem quarantine_rolls_back:
  assumes "quarantine_index_files_with meta_error rename_error path quarantine fs = (Inl e, fs')"
    and "\<And>source. \<not> meta_error source" and "\<And>i j. rename_error i \<Longrightarrow> rename_error j \<Longrightarrow> i = j"
    and "\<forall>(source, destination) \<in> set (quarantine_files path quarantine). fs destination = None"
    and "fst ` set (quarantine_files path quarantine) \<inter> snd ` set (quarantine_files path quarantine) = {}"
  shows "fs' = fs"
proof -
  obtain n where once: "\<And>i. rename_error i \<Longrightarrow> i = n" using assms(3) by metis
  have "fs' = undo_renames [] fs"
  proof (rule quarantine_loop_rollback [OF assms(1) [unfolded quarantine_index_files_with_def] assms(2) once])
    show "\<forall>(source, destination) \<in> set (quarantine_files path quarantine). fs destination = None \<and> source \<noteq> destination"
    proof clarify
      fix source destination assume sd: "(source, destination) \<in> set (quarantine_files path quarantine)"
      then have "source \<in> fst ` set (quarantine_files path quarantine)"
          "destination \<in> snd ` set (quarantine_files path quarantine)" by force+
      then have "source \<noteq> destination" using assms(5) by blast
      with sd assms(4) show "fs destination = None \<and> source \<noteq> destination" by blast
    qed
    show "distinct (map snd (quarantine_files path quarantine))"
      by (simp add: quarantine_files_def sqlite_sidecar_path_def)
  qed (use assms(5) in auto)
  then show ?thesis by (simp add: undo_renames_def)
qed

text \<open>
  The metadata check has no such rollback: when looking at the write-ahead log fails after the
  main file has been moved, the function returns an error with the database already in
  quarantine and its log left behind.
\<close>

theorem quarantine_metadata_error_leaves_database_moved:
  assumes "\<not> meta_error path" and "fs path = Some content" and "\<not> rename_error 0"
    and "meta_error (path @ ''-wal'')" and "quarantine \<noteq> path"
  shows "\<exists>e fs'. quarantine_index_files_with meta_error rename_error path quarantine fs = (Inl e, fs') \<and>
    fs' path = None \<and> fs' quarantine = Some content"
  using assms
  by (simp add: quarantine_index_files_with_def quarantine_files_def sqlite_sidecar_path_def fs_rename_def)

text \<open>
  Inserting a batch is all or nothing and idempotent: on an error nothing is stored; otherwise
  the generation holds its old ItemIDs and exactly those of the batch, the returned number is the
  number of entries added, and inserting the same batch again adds nothing.
\<close>

theorem insert_entries_exact:
  assumes "insert_entries te faults server generation entries db = (r, db')" and "length entries < 2 ^ 64"
  shows "case r of
      Inl e \<Rightarrow> db' = db
    | Inr n \<Rightarrow>
        item_ids server (int (unat generation)) db' =
          item_ids server (int (unat generation)) db \<union> ie_item_id ` set entries \<and>
        length (db_entries db') = length (db_entries db) + unat n \<and>
        insert_entries te (\<lambda>_. False) server generation entries db' = (Inr 0, db')"
proof (cases "i64_try_from generation")
  case None
  then show ?thesis using assms(1) by (auto simp: insert_entries_def)
next
  case (Some gen)
  then have gen: "gen = int (unat generation)" by (auto simp: i64_try_from_def split: if_splits)
  show ?thesis
  proof (cases "insert_entry_rows te faults server gen entries 0 0 db")
    case (Inl e)
    then show ?thesis using assms(1) Some by (auto simp: insert_entries_def)
  next
    case (Inr q)
    obtain n c db1 where q: "q = (n, c, db1)" by (metis prod_cases3)
    have content: "item_ids server gen db1 = item_ids server gen db \<union> ie_item_id ` set entries"
        "[] \<notin> ie_item_id ` set entries" "length (db_entries db1) = length (db_entries db) + unat c"
      using insert_entry_rows_content [OF Inr [unfolded q]] assms(2) by simp_all
    have "insert_entry_rows te (\<lambda>_. False) server gen entries 0 0 db1 = Inr (0 + length entries, 0, db1)"
      by (rule insert_entry_rows_again) (use content in force)
    then have "insert_entries te (\<lambda>_. False) server generation entries db1 = (Inr 0, db1)"
      using Some by (simp add: insert_entries_def)
    then show ?thesis
      using assms(1) Some Inr q content gen by (auto simp: insert_entries_def split: if_splits)
  qed
qed

section \<open>Concrete databases\<close>

abbreviation no_faults :: faults where "no_faults \<equiv> \<lambda>_. False"

definition demo_staged :: index_db where
  "demo_staged = snd (start_generation no_faults ''S'' OrgHierarchical SrcDa3 ''t0'' empty_db)"

definition demo_text :: text_env where
  "demo_text = \<lparr>te_lower = (\<lambda>s. s), te_to_json = join (ascii ''/''), te_from_json = (\<lambda>s. Some [s])\<rparr>"

definition demo_entries :: "inventory_entry list" where
  "demo_entries =
     [\<lparr>ie_display_name = ascii ''Tag'', ie_item_id = ascii ''A.T'', ie_kind = InvItem, ie_breadcrumbs = []\<rparr>]"

definition demo_open :: open_env where
  "demo_open = \<lparr>oe_connect = no_faults, oe_migrate_2 = no_faults, oe_migrate_3 = no_faults,
     oe_schema = no_faults, oe_recover = no_faults, oe_held = (\<lambda>_. Some False), oe_now = ''t1''\<rparr>"

lemma demo_staged_step: "db_step\<^sup>*\<^sup>* empty_db demo_staged"
  unfolding demo_staged_def by (rule r_into_rtranclp) (rule step_start)

lemma demo_staged_wf: "db_wf demo_staged"
  using store_system.reachable_inv [OF refl demo_staged_step] .

lemma demo_staged_eq:
  "demo_staged = \<lparr>db_meta = [], db_enrolled = [(''S'', \<lparr>en_auto_refresh_enabled = False, en_enrolled_at = ''t0'', en_updated_at = ''t0''\<rparr>)],
     db_generations = [\<lparr>g_server = ''S'', g_generation = 1, g_state = Staging,
       g_organization = ''hierarchical'', g_source = ''da3'', g_started_at = ''t0'', g_completed_at = None,
       g_entry_count = 0, g_unique_item_count = 0, g_last_error = None, g_compatibility_fallback = False\<rparr>],
     db_entries = [], db_fts = []\<rparr>"
  by (simp add: demo_staged_def start_generation_def enroll_def sql_enroll_def empty_db_def next_generation_def
      namespace_string_def source_string_def)


theorem promotion_is_atomic_witness:
  "\<exists>g. active_rows ''S'' (snd (promote_with_profile no_faults ''S'' 1 ''t2'' 0 None None demo_staged)) = [g] \<and>
     g_generation g = 1"
proof -
  obtain r db' where p: "promote_with_profile no_faults ''S'' 1 ''t2'' 0 None None demo_staged = (r, db')" by fastforce
  have "staging_row ''S'' 1 (hd (db_generations demo_staged))"
    by (simp add: demo_staged_eq staging_row_def)
  then have "r = Inr ()" using promotion_is_atomic [OF demo_staged_wf p] by (auto simp: demo_staged_eq)
  then show ?thesis using promotion_is_atomic [OF demo_staged_wf p] p by auto
qed

theorem unpromoted_build_keeps_active_index_witness:
  "active_rows ''S'' (snd (fail_generation no_faults ''S'' 1 ''boom'' demo_staged)) = active_rows ''S'' demo_staged \<and>
   active_entries ''S'' (snd (fail_generation no_faults ''S'' 1 ''boom'' demo_staged)) = active_entries ''S'' demo_staged"
  by (rule unpromoted_build_keeps_active_index) (rule r_into_rtranclp, rule build_fail)


theorem retry_state_roundtrip_witness:
  "retry_state (10 ^ 20) ''S'' (snd (set_retry_state no_faults ''S'' (Some 5000007) 3 True empty_db)) =
     Inr (Some 5000000, 3, True)"
proof -
  have "set_retry_state no_faults ''S'' (Some 5000007) 3 True empty_db =
      (Inr (), snd (set_retry_state no_faults ''S'' (Some 5000007) 3 True empty_db))"
    by (simp add: set_retry_state_def)
  from retry_state_roundtrip [OF this, of "10 ^ 20"] show ?thesis by simp
qed

theorem open_recovers_interrupted_builds_witness:
  "\<not> has_state ''S'' Staging (snd (open_once demo_open (sql_set_meta ''schema_version'' ''4'' demo_staged)))"
proof -
  let ?db = "sql_set_meta ''schema_version'' ''4'' demo_staged"
  have "fst (open_once demo_open ?db) = Inr ()"
    by (simp add: open_once_def check_schema_def parse_small SCHEMA_VERSION_def demo_open_def Let_def
        staging_servers_def sql_set_meta_def demo_staged_eq)
  then obtain db' where o: "open_once demo_open ?db = (Inr (), db')" by (metis prod.collapse)
  show ?thesis using open_recovers_interrupted_builds [OF o, of "''S''"] o by (simp add: demo_open_def)
qed

theorem migration_enrolls_indexed_servers_witness:
  "enrollment ''S'' (snd (check_schema demo_open (sql_set_meta ''schema_version'' ''3''
     (demo_staged\<lparr>db_enrolled := []\<rparr>)))) = Some False"
proof -
  let ?db = "sql_set_meta ''schema_version'' ''3'' (demo_staged\<lparr>db_enrolled := []\<rparr>)"
  have "fst (check_schema demo_open ?db) = Inr ()"
    by (simp add: check_schema_def parse_small demo_open_def migrate_schema_3_to_4_def transaction_def
        run_statements_eq)
  then obtain db' where c: "check_schema demo_open ?db = (Inr (), db')" by (metis prod.collapse)
  show ?thesis
    using migration_enrolls_indexed_servers [OF c, of "''S''"] c
    by (simp add: demo_staged_eq enrollment_def has_state_def)
qed

theorem quarantine_rolls_back_witness:
  "snd (quarantine_index_files_with (\<lambda>_. False) (\<lambda>k. k = 1) ''p'' ''q'' [''p'' \<mapsto> 0, ''p-wal'' \<mapsto> 1 :: nat]) =
     [''p'' \<mapsto> 0, ''p-wal'' \<mapsto> 1]"
proof -
  let ?fs = "[''p'' \<mapsto> 0, ''p-wal'' \<mapsto> 1 :: nat]"
  obtain e fs' where q: "quarantine_index_files_with (\<lambda>_. False) (\<lambda>k. k = 1) ''p'' ''q'' ?fs = (Inl e, fs')"
    by (simp add: quarantine_index_files_with_def quarantine_files_def sqlite_sidecar_path_def fs_rename_def)
  have "fs' = ?fs"
    by (rule quarantine_rolls_back [OF q]) (auto simp: quarantine_files_def sqlite_sidecar_path_def)
  then show ?thesis using q by simp
qed

theorem quarantine_metadata_error_leaves_database_moved_witness:
  "\<exists>e fs'. quarantine_index_files_with (\<lambda>p. p = ''p-wal'') (\<lambda>_. False) ''p'' ''q'' [''p'' \<mapsto> 0 :: nat] = (Inl e, fs') \<and>
     fs' ''p'' = None \<and> fs' ''q'' = Some 0"
  by (rule quarantine_metadata_error_leaves_database_moved) simp_all

theorem insert_entries_exact_witness:
  "item_ids ''S'' 1 (snd (insert_entries demo_text no_faults ''S'' 1 demo_entries demo_staged)) = {ascii ''A.T''}"
proof -
  obtain r db' where i: "insert_entries demo_text no_faults ''S'' 1 demo_entries demo_staged = (r, db')" by fastforce
  then have "r = Inr 1"
    by (auto simp: insert_entries_def i64_try_from_def demo_entries_def demo_staged_eq entry_exists_def
        generation_exists_def saturating_add_def ascii_def)
  then show ?thesis
    using insert_entries_exact [OF i] i by (simp add: demo_entries_def demo_staged_eq item_ids_def)
qed

end
