(* ===== verification/TopK.thy ===== *)
theory TopK
  imports Prelude "HOL-Library.Multiset"
begin

text \<open>
  Selection of the best \<open>k\<close> elements, as the index queries use it: the best \<open>k\<close> of a union from
  the best \<open>k\<close> of its parts, and the best \<open>k\<close> of a stream by a bounded max-heap.
\<close>

section \<open>Sorting by a key\<close>

lemma insort_key_map: "insort_key f (g x) (map g xs) = map g (insort_key (\<lambda>y. f (g y)) x xs)"
  by (induction xs) auto

lemma sort_key_map: "sort_key f (map g xs) = map g (sort_key (\<lambda>x. f (g x)) xs)"
  by (induction xs) (simp_all add: insort_key_map)

lemma insort_key_agree:
  assumes "\<And>a b. a \<in> insert x (set xs) \<Longrightarrow> b \<in> insert x (set xs) \<Longrightarrow> f a \<le> f b \<longleftrightarrow> g a \<le> g b"
  shows "insort_key f x xs = insort_key g x xs"
  using assms by (induction xs) auto

text \<open>Two keys that order the elements of the list alike give the same sorted list.\<close>

lemma sort_key_agree:
  assumes "\<And>a b. a \<in> set xs \<Longrightarrow> b \<in> set xs \<Longrightarrow> f a \<le> f b \<longleftrightarrow> g a \<le> g b"
  shows "sort_key f xs = sort_key g xs"
  using assms
proof (induction xs)
  case (Cons x xs)
  then have "sort_key f xs = sort_key g xs" by simp
  moreover have "insort_key f x (sort_key g xs) = insort_key g x (sort_key g xs)"
    by (rule insort_key_agree) (use Cons.prems in auto)
  ultimately show ?case by simp
qed simp

text \<open>With distinct keys the sorted list is determined by the set of its elements.\<close>

lemma sort_key_unique:
  assumes "distinct (map f xs)" and "sorted (map f ys)" and "distinct (map f ys)" and "set ys = set xs"
  shows "sort_key f xs = ys"
proof (rule map_sorted_distinct_set_unique)
  show "inj_on f (set (sort_key f xs) \<union> set ys)"
    using assms(1,4) by (simp add: distinct_map)
  show "distinct (map f (sort_key f xs))"
    using assms(1) by (simp add: distinct_map)
qed (use assms in simp_all)

lemma sort_key_append:
  assumes "distinct (map f (xs @ ys))" and "\<And>a b. a \<in> set xs \<Longrightarrow> b \<in> set ys \<Longrightarrow> f a \<le> f b"
  shows "sort_key f (xs @ ys) = sort_key f xs @ sort_key f ys"
proof (rule sort_key_unique [OF assms(1)])
  show "sorted (map f (sort_key f xs @ sort_key f ys))" using assms(2) by (auto simp: sorted_append)
  show "distinct (map f (sort_key f xs @ sort_key f ys))" using assms(1) by (auto simp: distinct_map inj_on_Un)
qed simp

section \<open>The best elements of a union\<close>

text \<open>Whatever contains the best \<open>k\<close> elements of a list, and nothing else than its elements, has the same best \<open>k\<close>.\<close>

lemma topk_superset:
  assumes xs: "distinct (map f xs)" and ys: "distinct (map f ys)" and sub: "set ys \<subseteq> set xs"
    and top: "set (take k (sort_key f xs)) \<subseteq> set ys"
  shows "take k (sort_key f ys) = take k (sort_key f xs)"
proof -
  let ?S = "sort_key f xs"
  have "sort_key f ys = filter (\<lambda>x. x \<in> set ys) ?S"
  proof (rule sort_key_unique [OF ys])
    show "sorted (map f (filter (\<lambda>x. x \<in> set ys) ?S))" by (rule sorted_filter) simp
    show "distinct (map f (filter (\<lambda>x. x \<in> set ys) ?S))" using xs by (auto simp: distinct_map inj_on_def)
  qed (use sub in auto)
  also have "\<dots> = take k ?S @ filter (\<lambda>x. x \<in> set ys) (drop k ?S)"
    using top by (subst append_take_drop_id [of k ?S, symmetric], subst filter_append)
      (simp add: filter_id_conv subset_iff del: append_take_drop_id)
  finally show ?thesis by (cases "k \<le> length ?S") simp_all
qed

lemma topk_filter: "x \<in> set (take k xs) \<Longrightarrow> P x \<Longrightarrow> x \<in> set (take k (filter P xs))"
proof (induction xs arbitrary: k)
  case (Cons a xs)
  then obtain j where k: "k = Suc j" by (cases k) auto
  have "x \<in> set (take k (filter P xs))" if "x \<in> set (take j xs)"
    using Cons.IH [OF that Cons.prems(2)] set_take_subset_set_take [of j k "filter P xs"] k by auto
  moreover have "x \<in> set (take j (filter P xs))" if "x \<in> set (take j xs)"
    using Cons.IH [OF that Cons.prems(2)] .
  ultimately show ?case using Cons.prems k by auto
qed simp

section \<open>Bounded max-heap\<close>

text \<open>
  The interface of a max-heap, seen through the ascending list of its elements, and its client: a
  stream of elements, each pushed while there is room and afterwards only when it beats the worst
  element kept.
\<close>

lemma take_insort: "sorted xs \<Longrightarrow> take k (insort x (take k xs)) = take k (insort x xs)"
proof (induction xs arbitrary: k)
  case (Cons a xs)
  then show ?case by (cases k) (auto simp: take_Cons' min_def)
qed simp

lemma insort_last: "sorted xs \<Longrightarrow> xs \<noteq> [] \<Longrightarrow> last xs \<le> x \<Longrightarrow> take (length xs) (insort x xs) = xs"
proof (induction xs)
  case (Cons a xs)
  have "a \<le> last (a # xs)" using Cons.prems(1) by (cases xs) auto
  then have "a \<le> x" using Cons.prems(3) by simp
  then show ?case using Cons by (cases xs) auto
qed simp

lemma insort_butlast:
  "sorted xs \<Longrightarrow> xs \<noteq> [] \<Longrightarrow> x < last xs \<Longrightarrow> take (length xs) (insort x xs) = insort x (butlast xs)"
proof (induction xs)
  case (Cons a xs)
  then show ?case by (cases xs) (auto simp: take_Cons' butlast_conv_take)
qed simp

lemma sort_append_single: "sort (xs @ [x]) = insort x (sort xs)"
  by (rule properties_for_sort) (auto simp: sorted_insort)

locale max_heap =
  fixes new :: 'h
    and push :: "'a::linorder \<Rightarrow> 'h \<Rightarrow> 'h"
    and peek :: "'h \<Rightarrow> 'a option"
    and pop :: "'h \<Rightarrow> 'h"
    and len :: "'h \<Rightarrow> nat"
    and into_sorted_vec :: "'h \<Rightarrow> 'a list"
  assumes vec_new: "into_sorted_vec new = []"
    and vec_push: "sorted (into_sorted_vec h) \<Longrightarrow> into_sorted_vec (push x h) = insort x (into_sorted_vec h)"
    and vec_peek: "peek h = (if into_sorted_vec h = [] then None else Some (last (into_sorted_vec h)))"
    and vec_pop: "into_sorted_vec (pop h) = butlast (into_sorted_vec h)"
    and vec_len: "len h = length (into_sorted_vec h)"
begin

lemma keep_step:
  assumes "sorted s" and vec: "into_sorted_vec h = take cap s"
  shows "into_sorted_vec (if len h < cap then push x h
      else if is_some_and (peek h) (\<lambda>worst. x < worst) then push x (pop h) else h) = take cap (insort x s)"
proof -
  let ?t = "take cap s"
  have t: "sorted ?t" and b: "sorted (butlast ?t)"
    using assms(1) by (auto intro: sorted_wrt_take simp: butlast_conv_take)
  have top: "take cap (insort x s) = take cap (insort x ?t)"
    using take_insort [OF assms(1)] by simp
  show ?thesis
  proof (cases "length ?t < cap")
    case True
    then have "length (insort x ?t) \<le> cap" by simp
    then show ?thesis using True top vec t by (simp add: vec_len vec_push)
  next
    case False
    then have l: "length ?t = cap" by simp
    show ?thesis
    proof (cases "?t = []")
      case True
      then show ?thesis using l vec by (auto simp: vec_len vec_peek)
    next
      case ne: False
      then show ?thesis
        using insort_last [OF t ne, of x] insort_butlast [OF t ne, of x] top l vec b
        by (auto simp: vec_len vec_peek vec_push vec_pop not_less)
    qed
  qed
qed

lemma best_of_stream:
  "into_sorted_vec (fold (\<lambda>x h. if len h < cap then push x h
      else if is_some_and (peek h) (\<lambda>worst. x < worst) then push x (pop h) else h) xs new) =
   take cap (sort xs)"
proof (induction xs rule: rev_induct)
  case Nil
  then show ?case by (simp add: vec_new)
next
  case (snoc x xs)
  then show ?case by (simp only: fold_append o_apply fold_Cons fold_Nil id_apply sort_append_single)
      (rule keep_step, simp_all)
qed

end

end
