(* ===== verification/Query.thy ===== *)
theory Query
  imports Store TopK
begin

text \<open>
  The index queries (\<open>index/query.rs\<close>): the ranking of a row, the exact, prefix, full-text and
  substring searches over the tables of \<open>Store\<close>, and the least-recently-used query cache.

  SQLite's full-text engine is the parameter \<open>fts_match\<close>: which row of \<open>entries_fts\<close> the query
  text of \<open>build_fts_query\<close> matches. A reading statement that fails returns its error and
  changes nothing; the model covers the errors that depend on the data (a row whose kind or
  breadcrumbs do not parse, a generation that SQLite cannot hold).
\<close>

section \<open>Search results and their rank\<close>

record indexed_match =
  im_item_id :: ustring
  im_display_name :: ustring
  im_kind :: inventory_node_kind
  im_breadcrumbs :: "ustring list"

datatype search_rank = SearchRank
  (sr_tier: u8) (sr_display_name_len: nat) (sr_display_name_norm: ustring) (sr_item_id_norm: ustring)

datatype search_candidate = SearchCandidate (sc_rank: search_rank) (sc_item_id: ustring)

text \<open>The derived \<open>Ord\<close> of both structs compares the fields in their order.\<close>

definition rank_key :: "search_rank \<Rightarrow> u8 \<times> nat \<times> ustring \<times> ustring" where
  "rank_key r = (sr_tier r, sr_display_name_len r, sr_display_name_norm r, sr_item_id_norm r)"

lemma rank_key_inj [simp]: "rank_key r = rank_key r' \<longleftrightarrow> r = r'"
  by (cases r; cases r') (auto simp: rank_key_def)

instantiation search_rank :: linorder
begin

definition less_eq_search_rank :: "search_rank \<Rightarrow> search_rank \<Rightarrow> bool" where
  "less_eq_search_rank r r' \<longleftrightarrow> rank_key r \<le> rank_key r'"

definition less_search_rank :: "search_rank \<Rightarrow> search_rank \<Rightarrow> bool" where
  "less_search_rank r r' \<longleftrightarrow> rank_key r < rank_key r'"

instance
proof
  fix x y :: search_rank
  assume "x \<le> y" and "y \<le> x"
  then have "rank_key x = rank_key y" unfolding less_eq_search_rank_def by (rule order.antisym)
  then show "x = y" by simp
qed (auto simp: less_eq_search_rank_def less_search_rank_def less_le_not_le)

end

definition candidate_key :: "search_candidate \<Rightarrow> search_rank \<times> ustring" where
  "candidate_key c = (sc_rank c, sc_item_id c)"

lemma candidate_key_inj [simp]: "candidate_key c = candidate_key c' \<longleftrightarrow> c = c'"
  by (cases c; cases c') (auto simp: candidate_key_def)

instantiation search_candidate :: linorder
begin

definition less_eq_search_candidate :: "search_candidate \<Rightarrow> search_candidate \<Rightarrow> bool" where
  "less_eq_search_candidate c c' \<longleftrightarrow> candidate_key c \<le> candidate_key c'"

definition less_search_candidate :: "search_candidate \<Rightarrow> search_candidate \<Rightarrow> bool" where
  "less_search_candidate c c' \<longleftrightarrow> candidate_key c < candidate_key c'"

instance
proof
  fix x y :: search_candidate
  assume "x \<le> y" and "y \<le> x"
  then have "candidate_key x = candidate_key y" unfolding less_eq_search_candidate_def by (rule order.antisym)
  then show "x = y" by simp
qed (auto simp: less_eq_search_candidate_def less_search_candidate_def less_le_not_le)

end

definition search_rank_of :: "ustring \<Rightarrow> ustring \<Rightarrow> ustring \<Rightarrow> u8" where
  "search_rank_of query display_name_norm item_id_norm =
     (if display_name_norm = query then 0
      else if item_id_norm = query then 1
      else if starts_with display_name_norm query then 2
      else if starts_with item_id_norm query then 3
      else if contains display_name_norm query then 4
      else if contains item_id_norm query then 5
      else 6)"

definition candidate_of :: "ustring \<Rightarrow> ustring \<Rightarrow> ustring \<Rightarrow> ustring \<Rightarrow> search_candidate" where
  "candidate_of query display_name_norm item_id_norm item_id =
     SearchCandidate
       (SearchRank (search_rank_of query display_name_norm item_id_norm) (length display_name_norm)
          display_name_norm item_id_norm) item_id"

section \<open>Reading a row\<close>

definition parse_indexed_kind :: "int \<Rightarrow> inventory_node_kind db_result" where
  "parse_indexed_kind value =
     (if value = 1 then Inr InvItem else if value = 2 then Inr InvBranchAndItem else Inl SqlError)"

definition parse_indexed_breadcrumbs :: "text_env \<Rightarrow> ustring \<Rightarrow> ustring list db_result" where
  "parse_indexed_breadcrumbs te value =
     (case te_from_json te value of Some breadcrumbs \<Rightarrow> Inr breadcrumbs | None \<Rightarrow> Inl SqlError)"

definition row_match :: "text_env \<Rightarrow> entry_row \<Rightarrow> indexed_match db_result" where
  "row_match te e =
     (case parse_indexed_kind (e_kind e) of
        Inl error \<Rightarrow> Inl error
      | Inr kind \<Rightarrow>
          (case parse_indexed_breadcrumbs te (e_breadcrumbs e) of
             Inl error \<Rightarrow> Inl error
           | Inr breadcrumbs \<Rightarrow>
               Inr \<lparr>im_item_id = e_item_id e, im_display_name = e_display_name e, im_kind = kind,
                    im_breadcrumbs = breadcrumbs\<rparr>))"

definition entry_candidate :: "ustring \<Rightarrow> entry_row \<Rightarrow> search_candidate" where
  "entry_candidate query e = candidate_of query (e_display_name_norm e) (e_item_id_norm e) (e_item_id e)"

definition row_mapper :: "text_env \<Rightarrow> ustring \<Rightarrow> entry_row \<Rightarrow> (search_candidate \<times> indexed_match) db_result" where
  "row_mapper te query e =
     (case row_match te e of Inl error \<Rightarrow> Inl error | Inr value \<Rightarrow> Inr (entry_candidate query e, value))"

text \<open>\<open>collect::<Result<Vec<_>, _>>\<close>: the first error, or all values.\<close>

fun collect_results :: "'a db_result list \<Rightarrow> 'a list db_result" where
  "collect_results [] = Inr []"
| "collect_results (Inl error # rs) = Inl error"
| "collect_results (Inr x # rs) =
     (case collect_results rs of Inl error \<Rightarrow> Inl error | Inr xs \<Rightarrow> Inr (x # xs))"

text \<open>SQLite's \<open>length\<close> and \<open>substr\<close> on text stop at the first NUL character.\<close>

definition sql_length :: "ustring \<Rightarrow> nat" where
  "sql_length s = length (takeWhile (\<lambda>c. c \<noteq> 0) s)"

definition sql_substr1 :: "ustring \<Rightarrow> nat \<Rightarrow> ustring" where
  "sql_substr1 s n = take n (takeWhile (\<lambda>c. c \<noteq> 0) s)"

definition generation_entries :: "string \<Rightarrow> int \<Rightarrow> index_db \<Rightarrow> entry_row list" where
  "generation_entries server generation db =
     filter (\<lambda>e. e_server e = server \<and> e_generation e = generation) (db_entries db)"

text \<open>\<open>candidates.entry(item_id).or_insert(...)\<close> over the rows of one statement.\<close>

fun or_insert_all ::
  "(search_candidate \<times> indexed_match) list \<Rightarrow> (ustring, search_candidate \<times> indexed_match) hmap \<Rightarrow>
     (ustring, search_candidate \<times> indexed_match) hmap" where
  "or_insert_all [] m = m"
| "or_insert_all ((candidate, value) # rows) m =
     or_insert_all rows
       (if map_of m (im_item_id value) = None then AList.update (im_item_id value) (candidate, value) m else m)"

text \<open>\<open>into_values\<close>, sorted by candidate, truncated.\<close>

definition best_candidates ::
  "u32 \<Rightarrow> (ustring, search_candidate \<times> indexed_match) hmap \<Rightarrow> indexed_match list" where
  "best_candidates limit m = map snd (take (unat (saturating_add limit 1)) (sort_key fst (map snd m)))"

section \<open>Exact search\<close>

definition exact_query1 :: "ustring \<Rightarrow> u32 \<Rightarrow> entry_row list \<Rightarrow> entry_row list" where
  "exact_query1 query limit rows =
     take (unat (saturating_add limit 1))
       (sort_key (\<lambda>e. (e_item_id_norm e, e_item_id e))
         (filter (\<lambda>e. e_display_name_norm e = query) rows))"

definition exact_query2 :: "ustring \<Rightarrow> u32 \<Rightarrow> entry_row list \<Rightarrow> entry_row list" where
  "exact_query2 query limit rows =
     take (unat (saturating_add limit 1))
       (sort_key (\<lambda>e. (sql_length (e_display_name_norm e), e_display_name_norm e, e_item_id_norm e, e_item_id e))
         (filter (\<lambda>e. e_item_id_norm e = query \<and> e_display_name_norm e \<noteq> query) rows))"

definition search_exact ::
  "text_env \<Rightarrow> string \<Rightarrow> u64 \<Rightarrow> ustring \<Rightarrow> u32 \<Rightarrow> index_db \<Rightarrow> indexed_match list db_result" where
  "search_exact te server generation query limit db =
     (case i64_try_from generation of
        None \<Rightarrow> Inl generation_range_error
      | Some gen \<Rightarrow>
          let rows = generation_entries server gen db in
          (case collect_results (map (row_mapper te query) (exact_query1 query limit rows)) of
             Inl error \<Rightarrow> Inl error
           | Inr found \<Rightarrow>
               let candidates = or_insert_all found [] in
               if length candidates \<ge> unat (saturating_add limit 1)
               then Inr (best_candidates limit candidates)
               else (case collect_results (map (row_mapper te query) (exact_query2 query limit rows)) of
                       Inl error \<Rightarrow> Inl error
                     | Inr found2 \<Rightarrow> Inr (best_candidates limit (or_insert_all found2 candidates)))))"

section \<open>Prefix search\<close>

definition prefix_condition :: "ustring \<Rightarrow> ustring \<Rightarrow> bool" where
  "prefix_condition query value =
     (case prefix_upper_bound query of
        Some bound \<Rightarrow> query \<le> value \<and> value < bound
      | None \<Rightarrow> sql_substr1 value (sql_length query) = query)"

definition prefix_range_condition :: "ustring \<Rightarrow> ustring \<Rightarrow> bool" where
  "prefix_range_condition query value =
     (case prefix_upper_bound query of
        Some bound \<Rightarrow> query \<le> value \<and> value < bound
      | None \<Rightarrow> query \<le> value \<and> sql_substr1 value (sql_length query) = query)"

definition prefix_tier :: "ustring \<Rightarrow> entry_row \<Rightarrow> nat" where
  "prefix_tier query e =
     (if e_display_name_norm e = query then 0
      else if e_item_id_norm e = query then 1
      else if prefix_condition query (e_display_name_norm e) then 2
      else if prefix_condition query (e_item_id_norm e) then 3
      else 6)"

definition prefix_query :: "ustring \<Rightarrow> u32 \<Rightarrow> (entry_row \<Rightarrow> ustring) \<Rightarrow> entry_row list \<Rightarrow> entry_row list" where
  "prefix_query query limit column rows =
     take (unat (saturating_add limit 1))
       (sort_key (\<lambda>e. (prefix_tier query e, sql_length (e_display_name_norm e), e_display_name_norm e,
                       e_item_id_norm e, e_item_id e))
         (filter (\<lambda>e. prefix_range_condition query (column e)) rows))"

definition search_prefix ::
  "text_env \<Rightarrow> string \<Rightarrow> u64 \<Rightarrow> ustring \<Rightarrow> u32 \<Rightarrow> index_db \<Rightarrow> indexed_match list db_result" where
  "search_prefix te server generation query limit db =
     (case i64_try_from generation of
        None \<Rightarrow> Inl generation_range_error
      | Some gen \<Rightarrow>
          let rows = generation_entries server gen db in
          (case collect_results (map (row_mapper te query) (prefix_query query limit e_display_name_norm rows)) of
             Inl error \<Rightarrow> Inl error
           | Inr found \<Rightarrow>
               (case collect_results (map (row_mapper te query) (prefix_query query limit e_item_id_norm rows)) of
                  Inl error \<Rightarrow> Inl error
                | Inr found2 \<Rightarrow> Inr (best_candidates limit (or_insert_all found2 (or_insert_all found []))))))"

section \<open>Full-text search\<close>

text \<open>
  \<open>std::collections::BinaryHeap\<close> as the list of its elements in ascending order: the greatest
  element is the one \<open>peek\<close> and \<open>pop\<close> see, \<open>into_sorted_vec\<close> is the list itself.
\<close>

type_synonym 'a binary_heap = "'a list"

definition heap_new :: "'a binary_heap" where "heap_new = []"

definition heap_push :: "'a::linorder \<Rightarrow> 'a binary_heap \<Rightarrow> 'a binary_heap" where
  "heap_push x h = insort x h"

definition heap_peek :: "'a binary_heap \<Rightarrow> 'a option" where
  "heap_peek h = (if h = [] then None else Some (last h))"

definition heap_pop :: "'a binary_heap \<Rightarrow> 'a binary_heap" where
  "heap_pop h = butlast h"

definition heap_into_sorted_vec :: "'a binary_heap \<Rightarrow> 'a list" where
  "heap_into_sorted_vec h = h"

definition keep_candidate :: "nat \<Rightarrow> search_candidate \<Rightarrow> search_candidate binary_heap \<Rightarrow> search_candidate binary_heap" where
  "keep_candidate capacity candidate candidates =
     (if length candidates < capacity then heap_push candidate candidates
      else if is_some_and (heap_peek candidates) (\<lambda>worst. candidate < worst)
      then heap_push candidate (heap_pop candidates)
      else candidates)"

definition fts_candidate :: "text_env \<Rightarrow> ustring \<Rightarrow> fts_row \<Rightarrow> search_candidate" where
  "fts_candidate te query f =
     candidate_of query (normalize te (f_display_name f)) (normalize te (f_item_id f)) (f_item_id f)"

definition fts_rows ::
  "(ustring \<Rightarrow> fts_row \<Rightarrow> bool) \<Rightarrow> string \<Rightarrow> int \<Rightarrow> ustring \<Rightarrow> index_db \<Rightarrow> fts_row list" where
  "fts_rows fts_match server generation query db =
     filter (\<lambda>f. fts_match (build_fts_query query) f \<and> f_server f = server \<and> f_generation f = generation)
       (db_fts db)"

fun fetch_matches ::
  "text_env \<Rightarrow> entry_row list \<Rightarrow> search_candidate list \<Rightarrow> indexed_match list db_result" where
  "fetch_matches te rows [] = Inr []"
| "fetch_matches te rows (candidate # candidates) =
     (case find (\<lambda>e. e_item_id e = sc_item_id candidate) rows of
        None \<Rightarrow> fetch_matches te rows candidates
      | Some e \<Rightarrow>
          (case row_match te e of
             Inl error \<Rightarrow> Inl error
           | Inr value \<Rightarrow>
               (case fetch_matches te rows candidates of
                  Inl error \<Rightarrow> Inl error
                | Inr values \<Rightarrow> Inr (value # values))))"

definition search_full_text ::
  "text_env \<Rightarrow> (ustring \<Rightarrow> fts_row \<Rightarrow> bool) \<Rightarrow> string \<Rightarrow> u64 \<Rightarrow> ustring \<Rightarrow> u32 \<Rightarrow> index_db \<Rightarrow>
     indexed_match list db_result" where
  "search_full_text te fts_match server generation query limit db =
     (case i64_try_from generation of
        None \<Rightarrow> Inl generation_range_error
      | Some gen \<Rightarrow>
          let capacity = unat (saturating_add limit 1);
              candidates = fold (\<lambda>f. keep_candidate capacity (fts_candidate te query f))
                             (fts_rows fts_match server gen query db) heap_new
          in fetch_matches te (generation_entries server gen db) (heap_into_sorted_vec candidates))"

section \<open>Substring search\<close>

text \<open>
  The \<open>LIKE\<close> statement of \<open>IndexDb::search\<close>. SQLite reads the pattern and the value up to the
  first NUL character. The generation stands in the statement as a number, so it is compared
  without a range check. Rows with equal sort keys come in the order of the table.
\<close>

definition sql_like_text :: "ustring \<Rightarrow> ustring \<Rightarrow> bool" where
  "sql_like_text value pattern = sql_like (takeWhile (\<lambda>c. c \<noteq> 0) pattern) (takeWhile (\<lambda>c. c \<noteq> 0) value)"

definition like_condition :: "ustring \<Rightarrow> entry_row \<Rightarrow> bool" where
  "like_condition query e =
     (let pattern = PERCENT # escape_like query @ [PERCENT]
      in sql_like_text (e_display_name_norm e) pattern \<or> sql_like_text (e_item_id_norm e) pattern \<or>
         sql_like_text (e_breadcrumbs e) pattern)"

definition like_tier :: "ustring \<Rightarrow> entry_row \<Rightarrow> nat" where
  "like_tier query e =
     (if e_display_name_norm e = query then 0
      else if e_item_id_norm e = query then 1
      else if sql_like_text (e_display_name_norm e) (escape_like query @ [PERCENT]) then 2
      else if sql_like_text (e_item_id_norm e) (escape_like query @ [PERCENT]) then 3
      else if sql_like_text (e_display_name_norm e) (PERCENT # escape_like query @ [PERCENT]) then 4
      else if sql_like_text (e_item_id_norm e) (PERCENT # escape_like query @ [PERCENT]) then 5
      else 6)"

definition search_like ::
  "text_env \<Rightarrow> string \<Rightarrow> u64 \<Rightarrow> ustring \<Rightarrow> u32 \<Rightarrow> index_db \<Rightarrow> indexed_match list db_result" where
  "search_like te server generation query limit db =
     collect_results (map (row_match te)
       (take (unat (saturating_add limit 1))
         (sort_key (\<lambda>e. (like_tier query e, sql_length (e_display_name_norm e), e_display_name_norm e, e_item_id_norm e))
           (filter (like_condition query) (generation_entries server (uint generation) db)))))"

definition fts_compatible :: "ustring \<Rightarrow> bool" where
  "fts_compatible query \<longleftrightarrow> list_all (\<lambda>term. length term \<ge> 3) (split_whitespace query)"

definition db_search ::
  "text_env \<Rightarrow> (ustring \<Rightarrow> fts_row \<Rightarrow> bool) \<Rightarrow> string \<Rightarrow> u64 \<Rightarrow> ustring \<Rightarrow> int \<Rightarrow> u32 \<Rightarrow> index_db \<Rightarrow>
     indexed_match list db_result" where
  "db_search te fts_match server generation query mode limit db =
     (let normalized_query = normalize te query in
      if mode = 1 then search_exact te server generation normalized_query limit db
      else if mode = 2 then search_prefix te server generation normalized_query limit db
      else if length normalized_query \<ge> 3 \<and> fts_compatible normalized_query
      then search_full_text te fts_match server generation normalized_query limit db
      else search_like te server generation normalized_query limit db)"

section \<open>Query cache\<close>

record cache_key =
  ck_server :: string
  ck_generation :: u64
  ck_query :: ustring
  ck_mode :: int
  ck_limit :: u32

record 'v query_cache =
  qc_values :: "(cache_key, 'v) hmap"
  qc_order :: "cache_key list"
  qc_capacity :: nat

definition cache_get :: "cache_key \<Rightarrow> 'v query_cache \<Rightarrow> 'v option \<times> 'v query_cache" where
  "cache_get key c =
     (case map_of (qc_values c) key of
        None \<Rightarrow> (None, c)
      | Some value \<Rightarrow> (Some value, c\<lparr>qc_order := filter (\<lambda>existing. existing \<noteq> key) (qc_order c) @ [key]\<rparr>))"

definition cache_insert :: "cache_key \<Rightarrow> 'v \<Rightarrow> 'v query_cache \<Rightarrow> 'v query_cache" where
  "cache_insert key value c =
     (case evict_oldest (qc_capacity c) (filter (\<lambda>existing. existing \<noteq> key) (qc_order c) @ [key])
             (AList.update key value (qc_values c)) of
        (order, values) \<Rightarrow> c\<lparr>qc_values := values, qc_order := order\<rparr>)"

definition cache_clear_server :: "string \<Rightarrow> 'v query_cache \<Rightarrow> 'v query_cache" where
  "cache_clear_server server c =
     c\<lparr>qc_values := filter (\<lambda>(key, _). ck_server key \<noteq> server) (qc_values c),
       qc_order := filter (\<lambda>key. ck_server key \<noteq> server) (qc_order c)\<rparr>"

section \<open>Ranking lemmas\<close>

definition row_ok :: "text_env \<Rightarrow> entry_row \<Rightarrow> bool" where
  "row_ok te e \<longleftrightarrow> \<not> isl (row_match te e)"

abbreviation row_value :: "text_env \<Rightarrow> entry_row \<Rightarrow> indexed_match" where
  "row_value te e \<equiv> projr (row_match te e)"

definition ranked :: "text_env \<Rightarrow> ustring \<Rightarrow> entry_row \<Rightarrow> search_candidate \<times> indexed_match" where
  "ranked te query e = (entry_candidate query e, row_value te e)"

lemma row_okE:
  assumes "row_ok te e"
  obtains v where "row_match te e = Inr v"
  using assms by (cases "row_match te e") (simp_all add: row_ok_def)

lemma distinct_of_map: "distinct (map f xs) \<Longrightarrow> distinct xs"
  by (simp add: distinct_map)

lemma row_value_item_id [simp]: "row_ok te e \<Longrightarrow> im_item_id (row_value te e) = e_item_id e"
  by (auto simp: row_ok_def row_match_def split: sum.splits)

lemma ranked_simps [simp]:
  "fst (ranked te query e) = entry_candidate query e"
  "snd (ranked te query e) = row_value te e"
  by (simp_all add: ranked_def)

lemma candidate_item_id [simp]: "sc_item_id (entry_candidate query e) = e_item_id e"
  by (simp add: entry_candidate_def candidate_of_def)

lemma collect_values:
  "list_all (row_ok te) rows \<Longrightarrow> collect_results (map (row_match te) rows) = Inr (map (row_value te) rows)"
  by (induction rows) (auto elim!: row_okE)

lemma collect_ranked:
  "list_all (row_ok te) rows \<Longrightarrow> collect_results (map (row_mapper te query) rows) = Inr (map (ranked te query) rows)"
  by (induction rows) (auto simp: row_mapper_def ranked_def elim!: row_okE)

lemma set_update_fresh: "k \<notin> hm_keys m \<Longrightarrow> set (AList.update k v m) = insert (k, v) (set m)"
  by (induction m) auto

definition keyed :: "(search_candidate \<times> indexed_match) set \<Rightarrow> (ustring, search_candidate \<times> indexed_match) hmap \<Rightarrow> bool" where
  "keyed U m \<longleftrightarrow> hm_wf m \<and> snd ` set m \<subseteq> U \<and> (\<forall>(k, p) \<in> set m. k = im_item_id (snd p))"

lemma or_insert_all_spec:
  assumes "inj_on (\<lambda>p. im_item_id (snd p)) U" and "set rows \<subseteq> U" and "keyed U m"
  shows "keyed U (or_insert_all rows m) \<and> snd ` set (or_insert_all rows m) = snd ` set m \<union> set rows"
  using assms(2,3)
proof (induction rows m rule: or_insert_all.induct)
  case (2 candidate v rows m)
  let ?m = "if map_of m (im_item_id v) = None then AList.update (im_item_id v) (candidate, v) m else m"
  have step: "keyed U ?m \<and> snd ` set ?m = insert (candidate, v) (snd ` set m)"
  proof (cases "map_of m (im_item_id v)")
    case None
    then have "im_item_id v \<notin> hm_keys m" by (simp add: map_of_eq_None_iff)
    then show ?thesis using 2 None by (auto simp: keyed_def set_update_fresh)
  next
    case (Some p)
    then have p: "(im_item_id v, p) \<in> set m" by (rule map_of_SomeD)
    then have "im_item_id (snd p) = im_item_id v" "p \<in> U" using 2(3) by (auto simp: keyed_def)
    then have "p = (candidate, v)" using inj_onD [OF assms(1), of p "(candidate, v)"] 2(2) by simp
    then have "(candidate, v) \<in> snd ` set m" using p by force
    then show ?thesis using 2(3) Some by auto
  qed
  then show ?case using 2 by auto
qed auto

lemma candidates_distinct:
  assumes "keyed U m" and "\<And>p. p \<in> U \<Longrightarrow> sc_item_id (fst p) = im_item_id (snd p)"
  shows "distinct (map fst (map snd m))"
proof -
  have "map fst m = map sc_item_id (map fst (map snd m))"
    unfolding map_map
  proof (rule map_cong [OF refl])
    fix x
    assume x: "x \<in> set m"
    then have "fst x = im_item_id (snd (snd x))" "snd x \<in> U" using assms(1) by (auto simp: keyed_def)
    then show "fst x = (sc_item_id \<circ> (fst \<circ> snd)) x" using assms(2) by simp
  qed
  then have "distinct (map sc_item_id (map fst (map snd m)))" using assms(1) by (metis keyed_def)
  then show ?thesis by (rule distinct_of_map)
qed

section \<open>Selection\<close>

abbreviation fetch_count :: "u32 \<Rightarrow> nat" where
  "fetch_count limit \<equiv> unat (saturating_add limit 1)"

text \<open>What the final sort keeps, once every row of the best \<open>limit + 1\<close> is among the candidates.\<close>

lemma best_candidates_top:
  assumes rows: "distinct (map e_item_id rows)" "list_all (row_ok te) rows"
    and picked: "set picked \<subseteq> set rows"
      "set (take (fetch_count limit) (sort_key (entry_candidate query) rows)) \<subseteq> set picked"
    and m: "keyed (ranked te query ` set rows) m" "snd ` set m = ranked te query ` set picked"
  shows "best_candidates limit m =
    map (row_value te) (take (fetch_count limit) (sort_key (entry_candidate query) rows))"
proof -
  let ?xs = "map (ranked te query) rows" and ?k = "fetch_count limit"
  have sorted: "sort_key fst ?xs = map (ranked te query) (sort_key (entry_candidate query) rows)"
    by (simp add: sort_key_map)
  have ok: "\<And>e. e \<in> set rows \<Longrightarrow> row_ok te e" using rows(2) by (simp add: list_all_iff)
  have xs: "distinct (map fst ?xs)"
    using rows(1) by (intro distinct_of_map [where f = sc_item_id]) (simp add: comp_def)
  have ys: "distinct (map fst (map snd m))"
    by (rule candidates_distinct [OF m(1)]) (auto simp: ok)
  have "take ?k (sort_key fst (map snd m)) = take ?k (sort_key fst ?xs)"
    by (rule topk_superset [OF xs ys]) (use m(2) picked in \<open>auto simp: sorted take_map\<close>)
  then show ?thesis by (simp add: best_candidates_def sorted take_map)
qed

text \<open>Two statements, their results merged by ItemID.\<close>

lemma merged_top:
  assumes rows: "distinct (map e_item_id rows)" "list_all (row_ok te) rows"
    and sub: "set a \<subseteq> set rows" "set b \<subseteq> set rows"
    and top: "set (take (fetch_count limit) (sort_key (entry_candidate query) rows)) \<subseteq> set a \<union> set b"
  shows "best_candidates limit (or_insert_all (map (ranked te query) b) (or_insert_all (map (ranked te query) a) [])) =
    map (row_value te) (take (fetch_count limit) (sort_key (entry_candidate query) rows))"
proof -
  let ?U = "ranked te query ` set rows"
  have inj: "inj_on (\<lambda>p. im_item_id (snd p)) ?U"
    using rows by (auto simp: inj_on_def distinct_map list_all_iff)
  let ?a = "or_insert_all (map (ranked te query) a) []"
  have a: "keyed ?U ?a" "snd ` set ?a = ranked te query ` set a"
    using or_insert_all_spec [OF inj, of "map (ranked te query) a" "[]"] sub(1) by (auto simp: keyed_def)
  have "set (map (ranked te query) b) \<subseteq> ?U" using sub(2) by auto
  note b = or_insert_all_spec [OF inj this a(1)]
  show ?thesis
    by (rule best_candidates_top [OF rows, where picked = "a @ b"]) (use a b sub top in \<open>simp_all add: image_Un\<close>)
qed

lemma single_top:
  assumes "distinct (map e_item_id rows)" "list_all (row_ok te) rows" "set a \<subseteq> set rows"
    "set (take (fetch_count limit) (sort_key (entry_candidate query) rows)) \<subseteq> set a"
  shows "best_candidates limit (or_insert_all (map (ranked te query) a) []) =
    map (row_value te) (take (fetch_count limit) (sort_key (entry_candidate query) rows))"
  using merged_top [of rows te a "[]" limit query] assms by simp

lemma or_insert_all_length:
  assumes "distinct (map e_item_id a)" and "list_all (row_ok te) a"
  shows "length (or_insert_all (map (ranked te query) a) []) = length a"
proof -
  let ?U = "ranked te query ` set a" and ?m = "or_insert_all (map (ranked te query) a) []"
  have inj: "inj_on (\<lambda>p. im_item_id (snd p)) ?U"
    using assms by (auto simp: inj_on_def distinct_map list_all_iff)
  have m: "keyed ?U ?m" "snd ` set ?m = ?U"
    using or_insert_all_spec [OF inj, of "map (ranked te query) a" "[]"] by (auto simp: keyed_def)
  have keys: "map fst ?m = map (\<lambda>x. im_item_id (snd (snd x))) ?m"
    using m(1) by (intro map_cong) (auto simp: keyed_def)
  have "set (map fst ?m) = (\<lambda>p. im_item_id (snd p)) ` (snd ` set ?m)"
    unfolding keys by (simp add: image_image)
  also have "\<dots> = set (map e_item_id a)"
    unfolding m(2) image_image using assms(2) by (auto simp: list_all_iff)
  finally have "set (map fst ?m) = set (map e_item_id a)" .
  then show ?thesis
    using m(1) assms(1) by (metis keyed_def distinct_card length_map)
qed

subsection \<open>Order of the statements\<close>

definition sql_key :: "nat \<Rightarrow> entry_row \<Rightarrow> nat \<times> nat \<times> ustring \<times> ustring \<times> ustring" where
  "sql_key tier e = (tier, sql_length (e_display_name_norm e), e_display_name_norm e, e_item_id_norm e, e_item_id e)"

lemma takeWhile_text: "0 \<notin> set s \<Longrightarrow> takeWhile (\<lambda>c. c \<noteq> 0) s = s" for s :: ustring
  by (induction s) auto

lemma sql_length_text [simp]: "0 \<notin> set s \<Longrightarrow> sql_length s = length s"
  unfolding sql_length_def by (subst takeWhile_text) simp_all

lemma sql_substr1_text [simp]: "0 \<notin> set s \<Longrightarrow> sql_substr1 s n = take n s"
  unfolding sql_substr1_def by (subst takeWhile_text) simp_all

lemma candidate_le:
  assumes "0 \<notin> set (e_display_name_norm a)" and "0 \<notin> set (e_display_name_norm b)"
  shows "entry_candidate query a \<le> entry_candidate query b \<longleftrightarrow>
    sql_key (unat (search_rank_of query (e_display_name_norm a) (e_item_id_norm a))) a \<le>
    sql_key (unat (search_rank_of query (e_display_name_norm b) (e_item_id_norm b))) b"
  using assms
  by (auto simp: entry_candidate_def candidate_of_def less_eq_search_candidate_def candidate_key_def
      less_search_rank_def less_eq_search_rank_def rank_key_def sql_key_def less_le_not_le unat_arith_simps)

definition row_clean :: "entry_row \<Rightarrow> bool" where
  "row_clean e \<longleftrightarrow> is_text (e_display_name_norm e) \<and> is_text (e_item_id_norm e) \<and>
     0 \<notin> set (e_display_name_norm e) \<and> 0 \<notin> set (e_item_id_norm e)"

text \<open>The range and the \<open>substr\<close> conditions both say that the value starts with the query.\<close>

lemma prefix_condition_iff:
  assumes "is_text query" and "0 \<notin> set query" and "is_text value" and "0 \<notin> set value"
  shows "prefix_condition query value = prefix query value" and "prefix_range_condition query value = prefix query value"
proof -
  have "take (length query) value = query \<longleftrightarrow> prefix query value"
    by (metis append_eq_conv_conj prefix_def take_is_prefix)
  then show "prefix_condition query value = prefix query value" "prefix_range_condition query value = prefix query value"
    using assms prefix_range le_prefix
    by (auto simp: prefix_condition_def prefix_range_condition_def split: option.splits)
qed

lemma sort_by_sql_key:
  assumes "\<And>e. e \<in> set rows \<Longrightarrow> 0 \<notin> set (e_display_name_norm e) \<and>
      tier e = unat (search_rank_of query (e_display_name_norm e) (e_item_id_norm e))"
  shows "sort_key (\<lambda>e. sql_key (tier e) e) rows = sort_key (entry_candidate query) rows"
  using assms by (intro sort_key_agree) (simp add: candidate_le)

lemma prefix_query_top:
  assumes "is_text query" "0 \<notin> set query" "list_all row_clean rows"
    and column: "column = e_display_name_norm \<or> column = e_item_id_norm"
  shows "prefix_query query limit column rows =
    take (fetch_count limit) (sort_key (entry_candidate query) (filter (\<lambda>e. starts_with (column e) query) rows))"
proof -
  have clean: "is_text (e_display_name_norm e)" "is_text (e_item_id_norm e)"
    "0 \<notin> set (e_display_name_norm e)" "0 \<notin> set (e_item_id_norm e)" if "e \<in> set rows" for e
    using that assms(3) by (auto simp: list_all_iff row_clean_def)
  have "filter (\<lambda>e. prefix_range_condition query (column e)) rows = filter (\<lambda>e. starts_with (column e) query) rows"
    using column clean assms(1,2) by (intro filter_cong) (auto simp: prefix_condition_iff)
  moreover have "sort_key (\<lambda>e. sql_key (prefix_tier query e) e) (filter (\<lambda>e. starts_with (column e) query) rows) =
      sort_key (entry_candidate query) (filter (\<lambda>e. starts_with (column e) query) rows)"
    using column clean assms(1,2)
    by (intro sort_by_sql_key) (auto simp: prefix_tier_def search_rank_of_def prefix_condition_iff)
  ultimately show ?thesis by (simp add: prefix_query_def sql_key_def)
qed

lemma entries_distinct:
  assumes "db_wf db"
  shows "distinct (map e_item_id (generation_entries server gen db))"
proof -
  have "distinct (map entry_key (db_entries db))" using assms by (simp add: db_wf_defs)
  then have "distinct (map entry_key (generation_entries server gen db))"
    unfolding generation_entries_def by (rule distinct_map_filter)
  then show ?thesis
    by (auto simp: distinct_map inj_on_def entry_key_def generation_entries_def)
qed

lemma distinct_filter_ids: "distinct (map e_item_id rows) \<Longrightarrow> distinct (map e_item_id (filter P rows))"
  by (rule distinct_map_filter)

lemma filter_ok: "list_all P rows \<Longrightarrow> list_all P (filter Q rows)"
  by (auto simp: list_all_iff)

text \<open>Where the best rows of a union come from.\<close>

lemma union_top:
  "set (take k (sort_key f (filter (\<lambda>e. P e \<or> Q e) rows))) \<subseteq>
     set (take k (sort_key f (filter P rows))) \<union> set (take k (sort_key f (filter Q rows)))"
proof
  let ?s = "sort_key f (filter (\<lambda>e. P e \<or> Q e) rows)"
  fix e
  assume e: "e \<in> set (take k ?s)"
  have "filter P ?s = sort_key f (filter P rows)" "filter Q ?s = sort_key f (filter Q rows)"
    by (auto simp: filter_sort intro!: arg_cong [where f = "sort_key f"] filter_cong)
  moreover have "P e \<or> Q e" using in_set_takeD [OF e] by auto
  ultimately show "e \<in> set (take k (sort_key f (filter P rows))) \<union> set (take k (sort_key f (filter Q rows)))"
    using topk_filter [OF e] by (metis UnI1 UnI2)
qed

lemma prefix_search_top:
  assumes wf: "db_wf db" and gen: "i64_try_from generation = Some gen"
    and rows: "rows = generation_entries server gen db" "list_all row_clean rows" "list_all (row_ok te) rows"
    and query: "is_text query" "0 \<notin> set query"
  shows "search_prefix te server generation query limit db =
    Inr (map (row_value te) (take (fetch_count limit) (sort_key (entry_candidate query)
      (filter (\<lambda>e. starts_with (e_display_name_norm e) query \<or> starts_with (e_item_id_norm e) query) rows))))"
proof -
  let ?a = "prefix_query query limit e_display_name_norm rows"
  let ?b = "prefix_query query limit e_item_id_norm rows"
  note a = prefix_query_top [OF query rows(2), of e_display_name_norm limit, simplified]
  note b = prefix_query_top [OF query rows(2), of e_item_id_norm limit, simplified]
  have sub: "set ?a \<subseteq> set rows" "set ?b \<subseteq> set rows"
    by (auto simp: a b dest: in_set_takeD)
  then have "list_all (row_ok te) ?a" "list_all (row_ok te) ?b" using rows(3) by (auto simp: list_all_iff)
  then have "search_prefix te server generation query limit db =
      Inr (best_candidates limit (or_insert_all (map (ranked te query) ?b) (or_insert_all (map (ranked te query) ?a) [])))"
    using gen by (simp add: search_prefix_def Let_def collect_ranked rows(1) [symmetric])
  moreover have "distinct (map e_item_id rows)" using wf by (simp add: rows(1) entries_distinct)
  ultimately show ?thesis
    using union_top [of "fetch_count limit" "entry_candidate query"
        "\<lambda>e. starts_with (e_display_name_norm e) query" "\<lambda>e. starts_with (e_item_id_norm e) query" rows]
    by (simp, intro merged_top distinct_filter_ids filter_ok) (use rows(3) in \<open>auto simp: a b dest: in_set_takeD\<close>)
qed

lemma exact_queries_top:
  assumes "list_all row_clean rows"
  shows "exact_query1 query limit rows =
      take (fetch_count limit) (sort_key (entry_candidate query) (filter (\<lambda>e. e_display_name_norm e = query) rows))"
    and "exact_query2 query limit rows =
      take (fetch_count limit) (sort_key (entry_candidate query)
        (filter (\<lambda>e. e_item_id_norm e = query \<and> e_display_name_norm e \<noteq> query) rows))"
proof -
  let ?p = "filter (\<lambda>e. e_display_name_norm e = query) rows"
  let ?q = "filter (\<lambda>e. e_item_id_norm e = query \<and> e_display_name_norm e \<noteq> query) rows"
  have clean: "0 \<notin> set (e_display_name_norm e)" if "e \<in> set rows" for e
    using that assms by (auto simp: list_all_iff row_clean_def)
  have "sort_key (\<lambda>e. (e_item_id_norm e, e_item_id e)) ?p = sort_key (\<lambda>e. sql_key 0 e) ?p"
    by (rule sort_key_agree) (auto simp: sql_key_def)
  also have "\<dots> = sort_key (entry_candidate query) ?p"
    using clean by (intro sort_by_sql_key) (auto simp: search_rank_of_def)
  finally show "exact_query1 query limit rows = take (fetch_count limit) (sort_key (entry_candidate query) ?p)"
    by (simp add: exact_query1_def)
  have "sort_key (\<lambda>e. (sql_length (e_display_name_norm e), e_display_name_norm e, e_item_id_norm e, e_item_id e)) ?q =
      sort_key (\<lambda>e. sql_key 1 e) ?q"
    by (rule sort_key_agree) (auto simp: sql_key_def)
  also have "\<dots> = sort_key (entry_candidate query) ?q"
    using clean by (intro sort_by_sql_key) (auto simp: search_rank_of_def)
  finally show "exact_query2 query limit rows = take (fetch_count limit) (sort_key (entry_candidate query) ?q)"
    by (simp add: exact_query2_def)
qed

text \<open>Rows whose display name is the query come before the rows whose ItemID is.\<close>

lemma exact_rows_split:
  assumes rows: "distinct (map e_item_id rows)"
  shows "sort_key (entry_candidate query) (filter (\<lambda>e. e_display_name_norm e = query \<or> e_item_id_norm e = query) rows) =
    sort_key (entry_candidate query) (filter (\<lambda>e. e_display_name_norm e = query) rows) @
    sort_key (entry_candidate query) (filter (\<lambda>e. e_item_id_norm e = query \<and> e_display_name_norm e \<noteq> query) rows)"
  (is "sort_key ?f ?r = sort_key ?f ?p @ sort_key ?f ?q")
proof (rule sort_key_unique)
  have ids: "distinct (map (\<lambda>e. sc_item_id (?f e)) xs)" if "set xs \<subseteq> set rows" "distinct xs" for xs
    using that rows by (auto simp: distinct_map inj_on_def)
  have sub: "distinct (map ?f xs)" if "set xs \<subseteq> set rows" "distinct xs" for xs
    using ids [OF that] distinct_of_map [of sc_item_id "map ?f xs"] by (simp add: comp_def)
  have d: "distinct rows" using rows by (rule distinct_of_map)
  show "distinct (map ?f ?r)" by (rule sub) (use d in auto)
  show "distinct (map ?f (sort_key ?f ?p @ sort_key ?f ?q))" by (rule sub) (use d in auto)
  have "?f a \<le> ?f b" if "a \<in> set ?p" "b \<in> set ?q" for a b
    using that by (auto simp: entry_candidate_def candidate_of_def less_eq_search_candidate_def candidate_key_def
        less_search_rank_def rank_key_def search_rank_of_def)
  then show "sorted (map ?f (sort_key ?f ?p @ sort_key ?f ?q))" by (auto simp: sorted_append)
qed auto

lemma exact_search_top:
  assumes wf: "db_wf db" and gen: "i64_try_from generation = Some gen"
    and rows: "rows = generation_entries server gen db" "list_all row_clean rows" "list_all (row_ok te) rows"
  shows "search_exact te server generation query limit db =
    Inr (map (row_value te) (take (fetch_count limit) (sort_key (entry_candidate query)
      (filter (\<lambda>e. e_display_name_norm e = query \<or> e_item_id_norm e = query) rows))))"
proof -
  let ?k = "fetch_count limit" and ?f = "entry_candidate query"
  let ?p = "filter (\<lambda>e. e_display_name_norm e = query) rows"
  let ?q = "filter (\<lambda>e. e_item_id_norm e = query \<and> e_display_name_norm e \<noteq> query) rows"
  let ?r = "filter (\<lambda>e. e_display_name_norm e = query \<or> e_item_id_norm e = query) rows"
  let ?a = "take ?k (sort_key ?f ?p)" and ?b = "take ?k (sort_key ?f ?q)"
  note queries = exact_queries_top [OF rows(2)]
  have ids: "distinct (map e_item_id rows)" using wf by (simp add: rows(1) entries_distinct)
  have ok: "list_all (row_ok te) ?a" "list_all (row_ok te) ?b"
    using rows(3) by (auto simp: list_all_iff dest!: in_set_takeD)
  have r: "distinct (map e_item_id ?r)" "list_all (row_ok te) ?r"
    using ids rows(3) by (auto intro: distinct_filter_ids filter_ok)
  have sub: "set ?a \<subseteq> set ?r" "set ?b \<subseteq> set ?r" by (auto dest: in_set_takeD)
  note split = exact_rows_split [OF ids, of query]
  have "distinct (map e_item_id ?a)"
    using ids by (auto simp: distinct_map inj_on_def intro!: distinct_take dest!: in_set_takeD)
  note len = or_insert_all_length [OF this ok(1), of query]
  have run: "search_exact te server generation query limit db =
     (if length ?a \<ge> ?k then Inr (best_candidates limit (or_insert_all (map (ranked te query) ?a) []))
      else Inr (best_candidates limit
             (or_insert_all (map (ranked te query) ?b) (or_insert_all (map (ranked te query) ?a) []))))"
    using gen ok len by (simp add: search_exact_def Let_def collect_ranked rows(1) [symmetric] queries)
  show ?thesis
  proof (cases "length ?a \<ge> ?k")
    case True
    then have "set (take ?k (sort_key ?f ?r)) \<subseteq> set ?a" by (simp add: split)
    from single_top [OF r sub(1) this] show ?thesis using run True by simp
  next
    case False
    have "set (take ?k (sort_key ?f ?r)) \<subseteq> set ?a \<union> set ?b"
      using set_take_subset_set_take [of "?k - length ?p" ?k "sort_key ?f ?q"] unfolding split by auto
    from merged_top [OF r sub this] show ?thesis using run False by simp
  qed
qed

subsection \<open>The heap of the full-text search\<close>

interpretation candidate_heap: max_heap heap_new heap_push heap_peek heap_pop length heap_into_sorted_vec
  by unfold_locales
    (simp_all add: heap_new_def heap_push_def heap_peek_def heap_pop_def heap_into_sorted_vec_def)

lemma fold_keep_candidate:
  "heap_into_sorted_vec (fold (\<lambda>f. keep_candidate capacity (cand f)) fs heap_new) = take capacity (sort (map cand fs))"
proof -
  have "fold (\<lambda>f. keep_candidate capacity (cand f)) fs heap_new = fold (keep_candidate capacity) (map cand fs) heap_new"
    by (simp add: fold_map comp_def)
  then show ?thesis
    using candidate_heap.best_of_stream [of capacity "map cand fs"] unfolding keep_candidate_def by simp
qed

lemma fetch_matches_all:
  assumes "list_all (row_ok te) rows"
    and "\<And>c. c \<in> set cs \<Longrightarrow> sc_item_id c \<in> e_item_id ` set rows"
  shows "\<exists>es. fetch_matches te rows cs = Inr (map (row_value te) es) \<and> set es \<subseteq> set rows \<and>
    map e_item_id es = map sc_item_id cs"
  using assms(2)
proof (induction cs)
  case Nil
  then show ?case by (intro exI [of _ "[]"]) simp
next
  case (Cons c cs)
  then obtain es where es: "fetch_matches te rows cs = Inr (map (row_value te) es)" "set es \<subseteq> set rows"
    "map e_item_id es = map sc_item_id cs" by auto
  obtain e where e: "find (\<lambda>e. e_item_id e = sc_item_id c) rows = Some e"
    using Cons.prems [of c] by (cases "find (\<lambda>e. e_item_id e = sc_item_id c) rows") (auto simp: find_None_iff image_iff)
  then have mem: "e \<in> set rows" "e_item_id e = sc_item_id c" by (auto simp: find_Some_iff)
  then have "row_ok te e" using assms(1) by (simp add: list_all_iff)
  then show ?case
    using e es mem by (intro exI [of _ "e # es"]) (auto elim!: row_okE)
qed

lemma fts_rows_indexed:
  assumes wf: "db_wf db" and f: "f \<in> set (fts_rows fts_match server gen query db)"
  shows "f_item_id f \<in> e_item_id ` set (generation_entries server gen db)"
proof -
  have "fts_doc f \<in> set (map fts_doc (db_fts db))" using f by (simp add: fts_rows_def)
  also have "\<dots> = set (map entry_doc (db_entries db))" using wf by (simp add: db_wf_defs)
  finally obtain e where "e \<in> set (db_entries db)" "entry_doc e = fts_doc f" by auto
  then show ?thesis
    using f by (auto simp: fts_rows_def generation_entries_def entry_doc_def fts_doc_def image_iff)
qed

lemma candidate_of_item_id [simp]: "sc_item_id (fts_candidate te query f) = f_item_id f"
  by (simp add: fts_candidate_def candidate_of_def)

lemma full_text_search_top:
  assumes wf: "db_wf db" and gen: "i64_try_from generation = Some gen"
    and ok: "list_all (row_ok te) (generation_entries server gen db)"
  shows "\<exists>es. search_full_text te fts_match server generation query limit db = Inr (map (row_value te) es) \<and>
    set es \<subseteq> set (generation_entries server gen db) \<and>
    map e_item_id es = map sc_item_id (take (fetch_count limit)
      (sort (map (fts_candidate te query) (fts_rows fts_match server gen query db))))"
proof -
  let ?cs = "take (fetch_count limit) (sort (map (fts_candidate te query) (fts_rows fts_match server gen query db)))"
  have "sc_item_id c \<in> e_item_id ` set (generation_entries server gen db)" if "c \<in> set ?cs" for c
    using in_set_takeD [OF that] fts_rows_indexed [OF wf] by auto
  from fetch_matches_all [OF ok this] show ?thesis
    using gen by (simp add: search_full_text_def Let_def fold_keep_candidate)
qed

subsection \<open>The substring search\<close>

lemma escape_like_no_nul: "0 \<notin> set query \<Longrightarrow> 0 \<notin> set (escape_like query)"
  by (induction query) (auto simp: like_chars)

lemma sql_like_text_contains:
  assumes "0 \<notin> set query" and "0 \<notin> set value"
  shows "sql_like_text value (PERCENT # escape_like query @ [PERCENT]) \<longleftrightarrow>
    contains (map fold_case value) (map fold_case query)"
proof -
  have "0 \<notin> set (PERCENT # escape_like query @ [PERCENT])"
    using escape_like_no_nul [OF assms(1)] by (simp add: PERCENT_def)
  then have pattern: "takeWhile (\<lambda>c. c \<noteq> 0) (PERCENT # escape_like query @ [PERCENT]) = PERCENT # escape_like query @ [PERCENT]"
    by (rule takeWhile_text)
  show ?thesis
    unfolding sql_like_text_def pattern takeWhile_text [OF assms(2)] by (rule like_contains)
qed

lemma like_search_top:
  assumes rows: "rows = generation_entries server (uint generation) db" "list_all (row_ok te) rows"
    and query: "0 \<notin> set query"
    and clean: "\<And>e. e \<in> set rows \<Longrightarrow>
      0 \<notin> set (e_display_name_norm e) \<and> 0 \<notin> set (e_item_id_norm e) \<and> 0 \<notin> set (e_breadcrumbs e)"
  shows "search_like te server generation query limit db =
    Inr (map (row_value te) (take (fetch_count limit)
      (sort_key (\<lambda>e. (like_tier query e, length (e_display_name_norm e), e_display_name_norm e, e_item_id_norm e))
        (filter (\<lambda>e. list_ex (\<lambda>field. contains (map fold_case field) (map fold_case query))
           [e_display_name_norm e, e_item_id_norm e, e_breadcrumbs e]) rows))))"
proof -
  have "filter (like_condition query) rows =
      filter (\<lambda>e. list_ex (\<lambda>field. contains (map fold_case field) (map fold_case query))
        [e_display_name_norm e, e_item_id_norm e, e_breadcrumbs e]) rows" (is "_ = ?r")
    using clean query by (intro filter_cong) (simp_all add: like_condition_def Let_def sql_like_text_contains)
  moreover have "sort_key (\<lambda>e. (like_tier query e, sql_length (e_display_name_norm e), e_display_name_norm e, e_item_id_norm e)) ?r =
      sort_key (\<lambda>e. (like_tier query e, length (e_display_name_norm e), e_display_name_norm e, e_item_id_norm e)) ?r" (is "_ = ?s")
    using clean by (intro sort_key_agree) auto
  moreover have "list_all (row_ok te) (take (fetch_count limit) ?s)"
    using rows(2) by (auto simp: list_all_iff dest!: in_set_takeD)
  ultimately show ?thesis by (simp add: search_like_def rows(1) [symmetric] collect_values)
qed

section \<open>Cache lemmas\<close>

definition cache_wf :: "'v query_cache \<Rightarrow> bool" where
  "cache_wf c \<longleftrightarrow> hm_wf (qc_values c) \<and> distinct (qc_order c) \<and> set (qc_order c) = hm_keys (qc_values c) \<and>
     length (qc_order c) \<le> qc_capacity c"

lemma filter_neq_removeAll: "filter (\<lambda>existing. existing \<noteq> key) xs = removeAll key xs"
  by (induction xs) auto

lemma cache_insert_eq:
  "qc_order (cache_insert k v c) =
     drop (Suc (length (removeAll k (qc_order c))) - qc_capacity c) (removeAll k (qc_order c) @ [k])"
  "qc_values (cache_insert k v c) =
     snd (evict_oldest (qc_capacity c) (removeAll k (qc_order c) @ [k]) (AList.update k v (qc_values c)))"
  "qc_capacity (cache_insert k v c) = qc_capacity c"
  by (simp_all add: cache_insert_def filter_neq_removeAll evict_order split_def)

lemma cache_insert_wf: "cache_wf c \<Longrightarrow> cache_wf (cache_insert k v c)"
proof -
  assume wf: "cache_wf c"
  let ?q = "removeAll k (qc_order c) @ [k]" and ?m = "AList.update k v (qc_values c)"
  have "distinct ?q" and "set ?q = hm_keys ?m" using wf by (auto simp: cache_wf_def distinct_removeAll)
  note evict_sync [OF this, of "qc_capacity c"]
  then show ?thesis using wf by (simp add: cache_wf_def cache_insert_eq evict_order evict_wf)
qed

lemma cache_insert_lookup:
  assumes wf: "cache_wf c" and k': "k' \<in> set (qc_order (cache_insert k v c))"
  shows "map_of (qc_values (cache_insert k v c)) k' = (if k' = k then Some v else map_of (qc_values c) k')"
proof -
  let ?q = "removeAll k (qc_order c) @ [k]"
  let ?n = "length ?q - qc_capacity c"
  have "distinct ?q" using wf by (simp add: cache_wf_def distinct_removeAll)
  then have "set (take ?n ?q) \<inter> set (drop ?n ?q) = {}" by (rule set_take_disj_set_drop_if_distinct) simp
  with k' have "k' \<notin> set (take ?n ?q)" by (auto simp: cache_insert_eq)
  then show ?thesis by (simp add: cache_insert_eq evict_lookup hmap_simps)
qed

interpretation query_lru: bounded_cache "Suc n" "\<lambda>c :: 'v query_cache. cache_wf c \<and> qc_capacity c = Suc n" qc_order
  "\<lambda>c. map_of (qc_values c)" cache_insert "\<lambda>_ _. True" for n
proof unfold_locales
  fix c :: "'v query_cache" and k k' v
  assume c: "cache_wf c \<and> qc_capacity c = Suc n"
  then show "cache_wf (cache_insert k v c) \<and> qc_capacity (cache_insert k v c) = Suc n"
    by (simp add: cache_insert_wf cache_insert_eq)
  from c show "qc_order (cache_insert k v c) =
      drop (Suc (length (removeAll k (qc_order c))) - Suc n) (removeAll k (qc_order c) @ [k])"
    by (simp add: cache_insert_eq)
  assume "k' \<in> set (qc_order (cache_insert k v c))"
  with c show "map_of (qc_values (cache_insert k v c)) k' = (if k' = k then Some v else map_of (qc_values c) k')"
    by (simp add: cache_insert_lookup)
qed (auto simp: cache_wf_def dom_map_of_conv_image_fst)

lemma cache_get_wf:
  assumes "cache_wf c"
  shows "cache_wf (snd (cache_get key c))" and "qc_capacity (snd (cache_get key c)) = qc_capacity c"
    and "qc_values (snd (cache_get key c)) = qc_values c"
proof -
  show "cache_wf (snd (cache_get key c))"
  proof (cases "map_of (qc_values c) key")
    case (Some v)
    then have "key \<in> hm_keys (qc_values c)" by (rule map_of_Some_key)
    moreover from this have "length (removeAll key (qc_order c)) < length (qc_order c)"
      using assms by (intro length_removeAll_less) (simp add: cache_wf_def)
    ultimately show ?thesis
      using assms Some by (simp add: cache_wf_def cache_get_def filter_neq_removeAll distinct_removeAll insert_absorb)
  qed (simp add: cache_get_def assms)
qed (auto simp: cache_get_def split: option.splits)

lemma cache_clear_wf:
  assumes "cache_wf c"
  shows "cache_wf (cache_clear_server server c)"
proof -
  have "hm_keys (filter (\<lambda>(key, _). ck_server key \<noteq> server) (qc_values c)) =
      {key \<in> hm_keys (qc_values c). ck_server key \<noteq> server}" by force
  moreover have "length (filter P (qc_order c)) \<le> qc_capacity c" for P
    using assms by (meson cache_wf_def le_trans length_filter_le)
  ultimately show ?thesis using assms by (simp add: cache_wf_def cache_clear_server_def)
qed

section \<open>Properties\<close>

text \<open>
  C20. A prefix search returns the best \<open>limit + 1\<close> of the rows whose display name or ItemID starts
  with the query, best first. The code runs one range query per column, each cut off at
  \<open>limit + 1\<close> rows, and merges the results by ItemID; nothing that belongs to the answer is lost.
\<close>

theorem search_prefix_best:
  assumes "db_wf db" and "i64_try_from generation = Some gen" and "is_text query" and "0 \<notin> set query"
    and "rows = generation_entries server gen db" and "list_all row_clean rows" and "list_all (row_ok te) rows"
  shows "search_prefix te server generation query limit db =
    collect_results (map (row_match te) (take (unat (saturating_add limit 1)) (sort_key (entry_candidate query)
      (filter (\<lambda>e. starts_with (e_display_name_norm e) query \<or> starts_with (e_item_id_norm e) query) rows))))"
proof -
  have "list_all (row_ok te) (take (fetch_count limit) (sort_key (entry_candidate query)
      (filter (\<lambda>e. starts_with (e_display_name_norm e) query \<or> starts_with (e_item_id_norm e) query) rows)))"
    using assms(7) by (auto simp: list_all_iff dest!: in_set_takeD)
  then show ?thesis
    using prefix_search_top [OF assms(1,2,5-7,3,4)] by (simp add: collect_values)
qed

text \<open>
  An exact search returns the best \<open>limit + 1\<close> of the rows whose display name or ItemID equals the
  query, best first, also when the second statement is skipped because the first one filled the limit.
\<close>

theorem search_exact_best:
  assumes "db_wf db" and "i64_try_from generation = Some gen"
    and "rows = generation_entries server gen db" and "list_all row_clean rows" and "list_all (row_ok te) rows"
  shows "search_exact te server generation query limit db =
    collect_results (map (row_match te) (take (unat (saturating_add limit 1)) (sort_key (entry_candidate query)
      (filter (\<lambda>e. e_display_name_norm e = query \<or> e_item_id_norm e = query) rows))))"
proof -
  have "list_all (row_ok te) (take (fetch_count limit) (sort_key (entry_candidate query)
      (filter (\<lambda>e. e_display_name_norm e = query \<or> e_item_id_norm e = query) rows)))"
    using assms(5) by (auto simp: list_all_iff dest!: in_set_takeD)
  then show ?thesis using exact_search_top [OF assms] by (simp add: collect_values)
qed

text \<open>
  C21. The full-text search keeps the \<open>limit + 1\<close> best of all matching documents in its bounded heap,
  and on a consistent database none of them is lost when the rows are read back: the answer lists
  the ItemIDs of the best documents, best first.
\<close>

theorem search_full_text_best:
  assumes "db_wf db" and "i64_try_from generation = Some gen"
    and "list_all (row_ok te) (generation_entries server gen db)"
  shows "\<exists>es matches. search_full_text te fts_match server generation query limit db = Inr matches \<and>
    collect_results (map (row_match te) es) = Inr matches \<and> set es \<subseteq> set (generation_entries server gen db) \<and>
    map e_item_id es = map sc_item_id (take (unat (saturating_add limit 1))
      (sort (map (fts_candidate te query) (fts_rows fts_match server gen query db))))"
proof -
  obtain es where es: "search_full_text te fts_match server generation query limit db = Inr (map (row_value te) es)"
    "set es \<subseteq> set (generation_entries server gen db)"
    "map e_item_id es = map sc_item_id (take (fetch_count limit)
      (sort (map (fts_candidate te query) (fts_rows fts_match server gen query db))))"
    using full_text_search_top [OF assms, of fts_match query limit] by auto
  have "list_all (row_ok te) es" using es(2) assms(3) by (auto simp: list_all_iff)
  then show ?thesis using es collect_values by blast
qed

text \<open>
  A short query is a literal substring: whatever \<open>%\<close>, \<open>_\<close> or backslash it contains, the rows
  found are those with the query in the display name, the ItemID or the breadcrumbs, up to ASCII case.
\<close>

theorem search_like_literal:
  assumes "rows = generation_entries server (uint generation) db" and "list_all (row_ok te) rows"
    and "0 \<notin> set query"
    and "list_all (\<lambda>e. 0 \<notin> set (e_display_name_norm e) \<and> 0 \<notin> set (e_item_id_norm e) \<and>
      0 \<notin> set (e_breadcrumbs e)) rows"
  shows "search_like te server generation query limit db =
    collect_results (map (row_match te) (take (unat (saturating_add limit 1))
      (sort_key (\<lambda>e. (like_tier query e, length (e_display_name_norm e), e_display_name_norm e, e_item_id_norm e))
        (filter (\<lambda>e. list_ex (\<lambda>field. contains (map fold_case field) (map fold_case query))
           [e_display_name_norm e, e_item_id_norm e, e_breadcrumbs e]) rows))))"
    (is "_ = collect_results (map (row_match te) (take _ ?s))")
proof -
  have "list_all (row_ok te) (take (fetch_count limit) ?s)"
    using assms(2) by (auto simp: list_all_iff dest!: in_set_takeD)
  then show ?thesis
    using like_search_top [OF assms(1-3), of limit] assms(4) by (simp add: collect_values list_all_iff)
qed

text \<open>
  The query cache is least recently used: a value that was just read survives any number of
  insertions under other keys below the capacity, and the cache never holds more than its capacity.
\<close>

theorem query_cache_lru:
  assumes "cache_wf c" and "0 < qc_capacity c" and "map_of (qc_values c) key = Some value"
    and "length kvs < qc_capacity c" and "key \<notin> fst ` set kvs"
  defines "c' \<equiv> fold (\<lambda>(k, v). cache_insert k v) kvs (snd (cache_get key c))"
  shows "fst (cache_get key c') = Some value \<and> length (qc_values c') \<le> qc_capacity c"
proof -
  let ?c = "snd (cache_get key c)"
  obtain n where n: "qc_capacity c = Suc n" using assms(2) by (cases "qc_capacity c") auto
  have wf: "cache_wf ?c \<and> qc_capacity ?c = Suc n" using cache_get_wf [OF assms(1)] n by auto
  have "cache_wf (fold (\<lambda>(k, v). cache_insert k v) kvs d) \<and>
      qc_capacity (fold (\<lambda>(k, v). cache_insert k v) kvs d) = Suc n"
    if "cache_wf d \<and> qc_capacity d = Suc n" for d :: "'a query_cache"
    using that by (induction kvs arbitrary: d) (auto simp: cache_insert_wf cache_insert_eq)
  from this [OF wf] have c': "cache_wf c'" "qc_capacity c' = Suc n" by (auto simp: c'_def)
  then have "length (qc_values c') \<le> Suc n"
    by (metis cache_wf_def distinct_card length_map set_map)
  moreover have "qc_order ?c = removeAll key (qc_order c) @ key # []"
    using assms(3) by (simp add: cache_get_def filter_neq_removeAll)
  from query_lru.survives [OF wf this, of kvs] have "map_of (qc_values c') key = Some value"
    using assms(3,4,5) n cache_get_wf(3) [OF assms(1), of key] by (simp add: c'_def)
  ultimately show ?thesis by (simp add: cache_get_def n)
qed

text \<open>
  Clearing a server's cached queries removes every one of them, whatever the generation, mode or
  limit, and leaves the cached queries of all other servers as they are.
\<close>

theorem cache_clear_exact:
  assumes "cache_wf c"
  shows "fst (cache_get key (cache_clear_server server c)) =
    (if ck_server key = server then None else fst (cache_get key c)) \<and> cache_wf (cache_clear_server server c)"
proof -
  have "map_of (qc_values (cache_clear_server server c)) key =
      (if ck_server key = server then None else map_of (qc_values c) key)"
    using assms by (auto simp: cache_clear_server_def cache_wf_def map_of_retain split: option.splits)
  then show ?thesis using cache_clear_wf [OF assms] by (auto simp: cache_get_def split: option.splits)
qed

text \<open>
  The substring search reads the breadcrumbs as the JSON text they are stored as, so it also
  matches the punctuation of that text: a query that is a bracket finds an item at the root of the
  namespace although neither its name, its ItemID nor its (empty) breadcrumbs contain one.
  \<open>serde_json\<close> writes an empty list as \<open>[]\<close>.
\<close>

theorem short_query_matches_json_syntax:
  assumes "te_to_json te [] = ascii ''[]''" and "ie_breadcrumbs entry = []"
  shows "like_condition (ascii ''['') (entry_of te server gen entry)"
proof -
  have "sql_like_text (ascii ''[]'') (PERCENT # escape_like (ascii ''['') @ [PERCENT])"
    by (simp add: sql_like_text_def ascii_def like_chars fold_case_def)
  then show ?thesis using assms by (simp add: like_condition_def Let_def entry_of_def)
qed

section \<open>A concrete index\<close>

definition demo_tags :: "inventory_entry list" where
  "demo_tags =
     [\<lparr>ie_display_name = ascii ''pump 2'', ie_item_id = ascii ''a.p2'', ie_kind = InvItem, ie_breadcrumbs = []\<rparr>,
      \<lparr>ie_display_name = ascii ''flow'', ie_item_id = ascii ''pump'', ie_kind = InvBranchAndItem, ie_breadcrumbs = []\<rparr>,
      \<lparr>ie_display_name = ascii ''pump'', ie_item_id = ascii ''a.p'', ie_kind = InvItem, ie_breadcrumbs = []\<rparr>]"

definition demo_index :: index_db where
  "demo_index = snd (insert_entries demo_text no_faults ''S'' 1 demo_tags demo_staged)"

lemma demo_index_wf: "db_wf demo_index"
proof (rule store_system.reachable_inv [OF refl])
  show "db_step\<^sup>*\<^sup>* empty_db demo_index"
    unfolding demo_index_def by (rule rtranclp.rtrancl_into_rtrancl [OF demo_staged_step]) (rule step_insert)
qed

lemma demo_normalize:
  "normalize demo_text (ascii ''pump 2'') = ascii ''pump 2''" "normalize demo_text (ascii ''pump'') = ascii ''pump''"
  "normalize demo_text (ascii ''flow'') = ascii ''flow''" "normalize demo_text (ascii ''a.p2'') = ascii ''a.p2''"
  "normalize demo_text (ascii ''a.p'') = ascii ''a.p''"
  by (simp_all add: normalize_query_def demo_text_def split_whitespace.simps is_whitespace_def ascii_def)

definition demo_row :: "string \<Rightarrow> string \<Rightarrow> int \<Rightarrow> entry_row" where
  "demo_row item_id display_name kind =
     \<lparr>e_server = ''S'', e_generation = 1, e_item_id = ascii item_id, e_item_id_norm = ascii item_id,
      e_display_name = ascii display_name, e_display_name_norm = ascii display_name, e_kind = kind, e_breadcrumbs = []\<rparr>"

lemma demo_rows:
  "generation_entries ''S'' 1 demo_index = [demo_row ''a.p2'' ''pump 2'' 1, demo_row ''pump'' ''flow'' 2, demo_row ''a.p'' ''pump'' 1]"
  by (simp add: demo_index_def insert_entries_def i64_try_from_def demo_staged_eq demo_tags_def entry_exists_def
      generation_exists_def entry_of_def fts_of_def generation_entries_def demo_row_def demo_normalize node_kind_number_def)
    (simp add: ascii_def demo_text_def)

lemma demo_rows_ok:
  "list_all row_clean (generation_entries ''S'' 1 demo_index)"
  "list_all (row_ok demo_text) (generation_entries ''S'' 1 demo_index)"
  by (simp_all add: demo_rows demo_row_def row_clean_def row_ok_def is_text_def is_scalar_def char_from_u32_def ascii_def
      row_match_def parse_indexed_kind_def parse_indexed_breadcrumbs_def demo_text_def)

lemma demo_generation: "i64_try_from 1 = Some 1"
  by (simp add: i64_try_from_def)

definition demo_found :: "string \<Rightarrow> string \<Rightarrow> inventory_node_kind \<Rightarrow> indexed_match" where
  "demo_found item_id display_name kind =
     \<lparr>im_item_id = ascii item_id, im_display_name = ascii display_name, im_kind = kind, im_breadcrumbs = [[]]\<rparr>"

lemmas demo_eval = demo_row_def demo_found_def ascii_def saturating_add_def entry_candidate_def candidate_of_def
  search_rank_of_def less_eq_search_candidate_def candidate_key_def less_search_rank_def less_eq_search_rank_def
  rank_key_def row_match_def parse_indexed_kind_def parse_indexed_breadcrumbs_def demo_text_def

theorem search_prefix_best_witness:
  "search_prefix demo_text ''S'' 1 (ascii ''pump'') 1 demo_index =
     Inr [demo_found ''a.p'' ''pump'' InvItem, demo_found ''pump'' ''flow'' InvBranchAndItem]"
proof -
  have "is_text (ascii ''pump'')" "0 \<notin> set (ascii ''pump'')"
    by (simp_all add: is_text_def is_scalar_def char_from_u32_def ascii_def)
  from search_prefix_best [OF demo_index_wf demo_generation this refl demo_rows_ok, of 1]
  show ?thesis unfolding demo_rows by (rule trans) (simp add: demo_eval)
qed

theorem search_exact_best_witness:
  "search_exact demo_text ''S'' 1 (ascii ''pump'') 0 demo_index = Inr [demo_found ''a.p'' ''pump'' InvItem]"
  by (rule trans [OF search_exact_best [OF demo_index_wf demo_generation refl demo_rows_ok]], unfold demo_rows) (simp add: demo_eval)

theorem search_full_text_best_witness:
  "\<exists>matches. search_full_text demo_text (\<lambda>_ f. contains (f_display_name f) (ascii ''pump'')) ''S'' 1 (ascii ''pump'') 0
      demo_index = Inr matches \<and> map im_item_id matches = [ascii ''a.p'']"
proof -
  let ?match = "\<lambda>(_ :: ustring) f. contains (f_display_name f) (ascii ''pump'')"
  have fts: "fts_rows ?match ''S'' 1 (ascii ''pump'') demo_index =
      [\<lparr>f_server = ''S'', f_generation = 1, f_item_id = ascii ''a.p2'', f_display_name = ascii ''pump 2'', f_breadcrumbs = []\<rparr>,
       \<lparr>f_server = ''S'', f_generation = 1, f_item_id = ascii ''a.p'', f_display_name = ascii ''pump'', f_breadcrumbs = []\<rparr>]"
    by (simp add: demo_index_def insert_entries_def i64_try_from_def demo_staged_eq demo_tags_def entry_exists_def
        generation_exists_def entry_of_def fts_of_def fts_rows_def)
      (simp add: ascii_def sublist_def Cons_eq_append_conv)
  obtain es matches where m: "search_full_text demo_text ?match ''S'' 1 (ascii ''pump'') 0 demo_index = Inr matches"
    "collect_results (map (row_match demo_text) es) = Inr matches" "set es \<subseteq> set (generation_entries ''S'' 1 demo_index)"
    "map e_item_id es = map sc_item_id (take (fetch_count 0) (sort (map (fts_candidate demo_text (ascii ''pump''))
       (fts_rows ?match ''S'' 1 (ascii ''pump'') demo_index))))"
    using search_full_text_best [OF demo_index_wf demo_generation demo_rows_ok(2), of ?match "ascii ''pump''" 0] by auto
  have "map e_item_id es = [ascii ''a.p'']"
    unfolding m(4) fts by (simp add: fts_candidate_def demo_normalize) (simp add: demo_eval)
  moreover have "list_all (row_ok demo_text) es" using m(3) demo_rows_ok(2) by (auto simp: list_all_iff)
  then have "map im_item_id matches = map e_item_id es" using m(2) by (auto simp: collect_values list_all_iff)
  ultimately show ?thesis using m(1) by auto
qed

theorem search_like_literal_witness:
  "search_like demo_text ''S'' 1 (ascii ''%'') 5 demo_index = Inr []"
proof -
  have "list_all (\<lambda>e. 0 \<notin> set (e_display_name_norm e) \<and> 0 \<notin> set (e_item_id_norm e) \<and> 0 \<notin> set (e_breadcrumbs e))
      (generation_entries ''S'' 1 demo_index)"
    by (simp add: demo_rows demo_row_def ascii_def)
  then show ?thesis
    using search_like_literal [of "generation_entries ''S'' 1 demo_index" "''S''" 1 demo_index demo_text "ascii ''%''" 5]
      demo_rows_ok(2)
    by (simp add: ascii_def demo_rows demo_row_def fold_case_def sublist_def Cons_eq_append_conv)
qed

definition demo_key2 :: "ustring \<Rightarrow> cache_key" where
  "demo_key2 query = \<lparr>ck_server = ''S'', ck_generation = 1, ck_query = query, ck_mode = 0, ck_limit = 1\<rparr>"

definition demo_cache :: "nat query_cache" where
  "demo_cache = \<lparr>qc_values = [(demo_key2 [1], 10), (demo_key2 [2], 20)], qc_order = [demo_key2 [1], demo_key2 [2]],
     qc_capacity = 2\<rparr>"

lemma demo_cache_wf: "cache_wf demo_cache"
  by (simp add: cache_wf_def demo_cache_def demo_key2_def)

theorem query_cache_lru_witness:
  "fst (cache_get (demo_key2 [1]) (cache_insert (demo_key2 [3]) 30 (snd (cache_get (demo_key2 [1]) demo_cache)))) = Some 10"
  using query_cache_lru [OF demo_cache_wf, of "demo_key2 [1]" 10 "[(demo_key2 [3], 30)]"]
  by (simp add: demo_cache_def demo_key2_def)

theorem cache_clear_exact_witness:
  "fst (cache_get (demo_key2 [1]) (cache_clear_server ''S'' demo_cache)) = None"
  using cache_clear_exact [OF demo_cache_wf, of "demo_key2 [1]" "''S''"] by (simp add: demo_key2_def)

theorem short_query_matches_json_syntax_witness:
  "like_condition (ascii ''['') (entry_of (demo_text\<lparr>te_to_json := \<lambda>_. ascii ''[]''\<rparr>) ''S'' 1 (hd demo_tags))"
  by (rule short_query_matches_json_syntax) (simp_all add: demo_tags_def)

end
