(* ===== verification/Controller.thy ===== *)
theory Controller
  imports Opc
begin

text \<open>
  The adaptive inventory controller (\<open>controller.rs\<close>): an additive-increase,
  multiplicative-decrease loop over three limits, with throttling on soft signals, a pause with
  exponentially growing recovery on hard signals and a pause while a foreground operation runs.
  An operation is \<open>None\<close> when the code panics on an instant beyond the platform's last one.
\<close>

section \<open>Configuration\<close>

datatype pause_reason =
  Foreground | OpcHealth | HostCpu | Memory | Disk | Database | Operator | Circuit | Maintenance

datatype controller_state = Ramping | Steady | Throttled | Paused pause_reason

definition pause_reason_as_str :: "pause_reason \<Rightarrow> string" where
  "pause_reason_as_str reason =
     (case reason of
        Foreground \<Rightarrow> ''foreground''
      | OpcHealth \<Rightarrow> ''opc_health''
      | HostCpu \<Rightarrow> ''host_cpu''
      | Memory \<Rightarrow> ''memory''
      | Disk \<Rightarrow> ''disk''
      | Database \<Rightarrow> ''database''
      | Operator \<Rightarrow> ''operator''
      | Circuit \<Rightarrow> ''circuit''
      | Maintenance \<Rightarrow> ''maintenance'')"

record inventory_limits =
  item_rate_per_second :: u32
  batch_size :: u32
  duty_cycle_percent :: u8

record controller_config =
  cfg_floor :: inventory_limits
  cfg_canary :: inventory_limits
  cfg_ceiling :: inventory_limits
  cfg_unlimited_item_rate :: bool
  cfg_healthy_window :: duration
  cfg_recovery_delay :: duration
  cfg_maximum_recovery_delay :: duration
  cfg_foreground_latency_soft_ms :: u64
  cfg_foreground_latency_hard_ms :: u64

definition MAX_NATIVE_INVENTORY_BATCH_SIZE :: u32 where
  "MAX_NATIVE_INVENTORY_BATCH_SIZE = 1000"

definition MILLISECOND :: duration where "MILLISECOND = 1000000"
definition SECOND :: duration where "SECOND = 1000000000"

definition normalized_floor :: "controller_config \<Rightarrow> inventory_limits option" where
  "normalized_floor c = do {
     batch \<leftarrow> clamp 1 MAX_NATIVE_INVENTORY_BATCH_SIZE (batch_size (cfg_floor c));
     duty \<leftarrow> clamp 1 100 (duty_cycle_percent (cfg_floor c));
     Some \<lparr>item_rate_per_second =
             (if cfg_unlimited_item_rate c then 0 else max (item_rate_per_second (cfg_floor c)) 1),
           batch_size = batch, duty_cycle_percent = duty\<rparr>
   }"

definition normalized_ceiling :: "controller_config \<Rightarrow> inventory_limits \<Rightarrow> inventory_limits option" where
  "normalized_ceiling c low = do {
     batch \<leftarrow> clamp (batch_size low) MAX_NATIVE_INVENTORY_BATCH_SIZE (batch_size (cfg_ceiling c));
     duty \<leftarrow> clamp (duty_cycle_percent low) 100 (duty_cycle_percent (cfg_ceiling c));
     Some \<lparr>item_rate_per_second =
             (if cfg_unlimited_item_rate c then 0
              else max (item_rate_per_second (cfg_ceiling c)) (item_rate_per_second low)),
           batch_size = batch, duty_cycle_percent = duty\<rparr>
   }"

definition normalized_canary ::
  "controller_config \<Rightarrow> inventory_limits \<Rightarrow> inventory_limits \<Rightarrow> inventory_limits option" where
  "normalized_canary c low high = do {
     rate \<leftarrow> (if cfg_unlimited_item_rate c then Some 0
             else clamp (item_rate_per_second low) (item_rate_per_second high)
                    (item_rate_per_second (cfg_canary c)));
     batch \<leftarrow> clamp (batch_size low) (min (batch_size high) MAX_NATIVE_INVENTORY_BATCH_SIZE)
               (batch_size (cfg_canary c));
     duty \<leftarrow> clamp (duty_cycle_percent low) (duty_cycle_percent high)
               (duty_cycle_percent (cfg_canary c));
     Some \<lparr>item_rate_per_second = rate, batch_size = batch, duty_cycle_percent = duty\<rparr>
   }"

definition normalized :: "controller_config \<Rightarrow> controller_config option" where
  "normalized c = do {
     low \<leftarrow> normalized_floor c;
     high \<leftarrow> normalized_ceiling c low;
     canary \<leftarrow> normalized_canary c low high;
     Some \<lparr>cfg_floor = low, cfg_canary = canary, cfg_ceiling = high,
           cfg_unlimited_item_rate = cfg_unlimited_item_rate c,
           cfg_healthy_window = max (cfg_healthy_window c) MILLISECOND,
           cfg_recovery_delay = max (cfg_recovery_delay c) MILLISECOND,
           cfg_maximum_recovery_delay =
             max (cfg_maximum_recovery_delay c) (max (cfg_recovery_delay c) MILLISECOND),
           cfg_foreground_latency_soft_ms = max (cfg_foreground_latency_soft_ms c) 1,
           cfg_foreground_latency_hard_ms =
             max (cfg_foreground_latency_hard_ms c) (max (cfg_foreground_latency_soft_ms c) 1)\<rparr>
   }"

definition controller_config_default :: controller_config where
  "controller_config_default =
     \<lparr>cfg_floor = \<lparr>item_rate_per_second = 10, batch_size = 1, duty_cycle_percent = 1\<rparr>,
      cfg_canary = \<lparr>item_rate_per_second = 50, batch_size = 25, duty_cycle_percent = 5\<rparr>,
      cfg_ceiling = \<lparr>item_rate_per_second = 250, batch_size = 100, duty_cycle_percent = 20\<rparr>,
      cfg_unlimited_item_rate = False,
      cfg_healthy_window = 30 * SECOND, cfg_recovery_delay = 30 * SECOND,
      cfg_maximum_recovery_delay = 300 * SECOND,
      cfg_foreground_latency_soft_ms = 1000, cfg_foreground_latency_hard_ms = 2000\<rparr>"

section \<open>Observations and controller\<close>

record controller_observation =
  foreground_active :: bool
  foreground_error :: bool
  foreground_bad_quality :: bool
  foreground_latency_ms :: "u64 option"
  baseline_latency_ms :: "u64 option"
  inventory_error :: bool
  host_cpu_percent :: "f64 option"
  available_memory_percent :: "f64 option"
  disk_active_percent :: "f64 option"
  disk_queue :: "f64 option"
  database_commit_p95_ms :: "u64 option"
  insufficient_disk_space :: bool

record controller_decision =
  dec_state :: controller_state
  dec_limits :: inventory_limits
  dec_paused :: bool
  dec_reason :: "pause_reason option"
  dec_recovery_at :: "instant option"
  dec_transitioned :: bool

record controller =
  ctl_config :: controller_config
  ctl_state :: controller_state
  ctl_limits :: inventory_limits
  ctl_hold_until :: "instant option"
  ctl_recovery_at :: "instant option"
  ctl_recovery_exponent :: u32
  ctl_last_reason :: "pause_reason option"

definition is_paused :: "controller_state \<Rightarrow> bool" where
  "is_paused st = (case st of Paused _ \<Rightarrow> True | _ \<Rightarrow> False)"

definition controller_new :: "instant \<Rightarrow> controller_config \<Rightarrow> instant \<Rightarrow> controller option" where
  "controller_new imax config now = do {
     c \<leftarrow> normalized config;
     hold \<leftarrow> instant_add imax now (cfg_healthy_window c);
     Some \<lparr>ctl_config = c, ctl_state = Ramping, ctl_limits = cfg_canary c, ctl_hold_until = Some hold,
           ctl_recovery_at = None, ctl_recovery_exponent = 0, ctl_last_reason = None\<rparr>
   }"

definition hard_reason :: "controller_config \<Rightarrow> controller_observation \<Rightarrow> pause_reason option" where
  "hard_reason cfg obs =
     (if foreground_error obs \<or> foreground_bad_quality obs \<or> inventory_error obs then Some OpcHealth
      else if is_some_and (foreground_latency_ms obs) (\<lambda>l. l \<ge> cfg_foreground_latency_hard_ms cfg)
      then Some OpcHealth
      else if is_some_and (host_cpu_percent obs) (\<lambda>v. f64_ge v 85) then Some HostCpu
      else if is_some_and (available_memory_percent obs) (\<lambda>v. f64_le v 8) then Some Memory
      else if is_some_and (disk_active_percent obs) (\<lambda>v. f64_ge v 90) \<or>
              is_some_and (disk_queue obs) (\<lambda>v. f64_ge v 5) then Some Disk
      else if is_some_and (database_commit_p95_ms obs) (\<lambda>v. v \<ge> 1000) \<or> insufficient_disk_space obs
      then Some Database
      else None)"

definition soft_reason :: "controller_config \<Rightarrow> controller_observation \<Rightarrow> pause_reason option" where
  "soft_reason cfg obs =
     (if is_some_and (foreground_latency_ms obs) (\<lambda>l. l \<ge> cfg_foreground_latency_soft_ms cfg)
      then Some OpcHealth
      else if is_some_and (host_cpu_percent obs) (\<lambda>v. f64_ge v 70) then Some HostCpu
      else if is_some_and (available_memory_percent obs) (\<lambda>v. f64_le v 15) then Some Memory
      else if is_some_and (disk_active_percent obs) (\<lambda>v. f64_ge v 70) \<or>
              is_some_and (disk_queue obs) (\<lambda>v. f64_ge v 2) then Some Disk
      else if is_some_and (database_commit_p95_ms obs) (\<lambda>v. v \<ge> 250) then Some Database
      else None)"

definition throttle :: "instant \<Rightarrow> instant \<Rightarrow> pause_reason \<Rightarrow> controller \<Rightarrow> controller option" where
  "throttle imax now reason ctl = do {
     let cfg = ctl_config ctl;
     let limits = ctl_limits ctl;
     let low = cfg_floor cfg;
     hold \<leftarrow> instant_add imax now (cfg_healthy_window cfg);
     Some (ctl\<lparr>ctl_state := Throttled,
       ctl_limits :=
         \<lparr>item_rate_per_second = max (item_rate_per_second limits div 2) (item_rate_per_second low),
          batch_size = max (batch_size limits div 2) (batch_size low),
          duty_cycle_percent = max (duty_cycle_percent limits div 2) (duty_cycle_percent low)\<rparr>,
       ctl_hold_until := Some hold, ctl_recovery_at := None, ctl_last_reason := Some reason\<rparr>)
   }"

definition recovery_duration :: "controller_config \<Rightarrow> u32 \<Rightarrow> duration" where
  "recovery_duration cfg exponent =
     (let multiplier = (case checked_shl (1::u32) (unat (min exponent 10)) of None \<Rightarrow> - 1 | Some k \<Rightarrow> k)
      in min (case duration_checked_mul (cfg_recovery_delay cfg) multiplier of
                None \<Rightarrow> cfg_maximum_recovery_delay cfg
              | Some d \<Rightarrow> d)
           (cfg_maximum_recovery_delay cfg))"

definition pause_for :: "instant \<Rightarrow> instant \<Rightarrow> pause_reason \<Rightarrow> controller \<Rightarrow> controller option" where
  "pause_for imax now reason ctl = do {
     until \<leftarrow> instant_add imax now (recovery_duration (ctl_config ctl) (ctl_recovery_exponent ctl));
     Some (ctl\<lparr>ctl_state := Paused reason, ctl_limits := cfg_canary (ctl_config ctl),
       ctl_recovery_at := Some until,
       ctl_recovery_exponent := saturating_add (ctl_recovery_exponent ctl) 1,
       ctl_hold_until := None, ctl_last_reason := Some reason\<rparr>)
   }"

definition raised_limits :: "controller_config \<Rightarrow> inventory_limits \<Rightarrow> inventory_limits" where
  "raised_limits cfg limits =
     \<lparr>item_rate_per_second =
        (if cfg_unlimited_item_rate cfg then item_rate_per_second limits
         else min (saturating_add (item_rate_per_second limits) (max (item_rate_per_second limits div 10) 1))
                (item_rate_per_second (cfg_ceiling cfg))),
      batch_size =
        min (saturating_add (batch_size limits) (max (batch_size limits div 10) 1))
          (batch_size (cfg_ceiling cfg)),
      duty_cycle_percent =
        min (saturating_add (duty_cycle_percent limits) 1) (duty_cycle_percent (cfg_ceiling cfg))\<rparr>"

definition increase_limits :: "instant \<Rightarrow> instant \<Rightarrow> controller \<Rightarrow> controller option" where
  "increase_limits imax now ctl = do {
     let cfg = ctl_config ctl;
     let limits = raised_limits cfg (ctl_limits ctl);
     hold \<leftarrow> instant_add imax now (cfg_healthy_window cfg);
     Some (ctl\<lparr>ctl_limits := limits,
       ctl_state := (if limits = cfg_ceiling cfg then Steady else Ramping),
       ctl_hold_until := Some hold, ctl_recovery_exponent := 0, ctl_last_reason := None\<rparr>)
   }"

definition decision ::
  "controller_state \<times> inventory_limits \<times> instant option \<Rightarrow> controller \<Rightarrow> controller_decision" where
  "decision previous ctl =
     \<lparr>dec_state = ctl_state ctl, dec_limits = ctl_limits ctl, dec_paused = is_paused (ctl_state ctl),
      dec_reason = ctl_last_reason ctl, dec_recovery_at = ctl_recovery_at ctl,
      dec_transitioned = (previous \<noteq> (ctl_state ctl, ctl_limits ctl, ctl_recovery_at ctl))\<rparr>"

text \<open>
  The state changes of \<open>observe\<close>, in its order: the end of a foreground pause, the hard signals,
  the end of a recovery, the soft signals and the healthy window.
\<close>

definition leave_foreground :: "instant \<Rightarrow> instant \<Rightarrow> controller \<Rightarrow> controller option" where
  "leave_foreground imax now ctl =
     (if ctl_state ctl = Paused Foreground
      then do {
        hold \<leftarrow> instant_add imax now (cfg_healthy_window (ctl_config ctl));
        Some (ctl\<lparr>ctl_state := Ramping, ctl_hold_until := Some hold, ctl_last_reason := None\<rparr>)
      }
      else Some ctl)"

definition end_recovery :: "instant \<Rightarrow> instant \<Rightarrow> controller \<Rightarrow> controller option" where
  "end_recovery imax now ctl =
     (if is_paused (ctl_state ctl)
      then do {
        hold \<leftarrow> instant_add imax now (cfg_healthy_window (ctl_config ctl));
        Some (ctl\<lparr>ctl_state := Ramping, ctl_limits := cfg_canary (ctl_config ctl),
          ctl_recovery_at := None, ctl_hold_until := Some hold, ctl_last_reason := None\<rparr>)
      }
      else Some ctl)"

definition settle ::
  "instant \<Rightarrow> instant \<Rightarrow> controller_observation \<Rightarrow> controller \<Rightarrow> controller option" where
  "settle imax now obs ctl =
     (case soft_reason (ctl_config ctl) obs of
        Some reason \<Rightarrow>
          (let hold_expired = (case ctl_hold_until ctl of None \<Rightarrow> True | Some hold \<Rightarrow> now \<ge> hold)
           in if ctl_state ctl \<noteq> Throttled \<or> hold_expired then throttle imax now reason ctl
              else Some ctl)
      | None \<Rightarrow>
          if is_some_and (ctl_hold_until ctl) (\<lambda>hold. now \<ge> hold) then increase_limits imax now ctl
          else Some ctl)"

definition observe_state ::
  "instant \<Rightarrow> instant \<Rightarrow> controller_observation \<Rightarrow> controller \<Rightarrow> controller option" where
  "observe_state imax now obs ctl =
     (if foreground_active obs
      then Some (ctl\<lparr>ctl_state := Paused Foreground, ctl_recovery_at := None,
                    ctl_last_reason := Some Foreground\<rparr>)
      else do {
        ctl1 \<leftarrow> leave_foreground imax now ctl;
        (case hard_reason (ctl_config ctl1) obs of
           Some reason \<Rightarrow> pause_for imax now reason ctl1
         | None \<Rightarrow>
             if is_paused (ctl_state ctl1) \<and> is_some_and (ctl_recovery_at ctl1) (\<lambda>until. now < until)
             then Some ctl1
             else do { ctl2 \<leftarrow> end_recovery imax now ctl1; settle imax now obs ctl2 })
      })"

definition observe ::
  "instant \<Rightarrow> instant \<Rightarrow> controller_observation \<Rightarrow> controller \<Rightarrow> (controller_decision \<times> controller) option" where
  "observe imax now obs ctl = do {
     ctl' \<leftarrow> observe_state imax now obs ctl;
     Some (decision (ctl_state ctl, ctl_limits ctl, ctl_recovery_at ctl) ctl', ctl')
   }"

section \<open>Configurations after normalisation\<close>

definition limits_le :: "inventory_limits \<Rightarrow> inventory_limits \<Rightarrow> bool" where
  "limits_le a b \<longleftrightarrow> item_rate_per_second a \<le> item_rate_per_second b \<and> batch_size a \<le> batch_size b \<and>
     duty_cycle_percent a \<le> duty_cycle_percent b"

definition config_ok :: "controller_config \<Rightarrow> bool" where
  "config_ok c \<longleftrightarrow> limits_le (cfg_floor c) (cfg_canary c) \<and> limits_le (cfg_canary c) (cfg_ceiling c) \<and>
     1 \<le> batch_size (cfg_floor c) \<and> batch_size (cfg_ceiling c) \<le> 1000 \<and>
     1 \<le> duty_cycle_percent (cfg_floor c) \<and> duty_cycle_percent (cfg_ceiling c) \<le> 100 \<and>
     (if cfg_unlimited_item_rate c then item_rate_per_second (cfg_ceiling c) = 0
      else 1 \<le> item_rate_per_second (cfg_floor c)) \<and>
     MILLISECOND \<le> cfg_healthy_window c \<and> MILLISECOND \<le> cfg_recovery_delay c \<and>
     cfg_recovery_delay c \<le> cfg_maximum_recovery_delay c \<and>
     1 \<le> cfg_foreground_latency_soft_ms c \<and>
     cfg_foreground_latency_soft_ms c \<le> cfg_foreground_latency_hard_ms c"

lemma limits_le_refl [simp]: "limits_le a a"
  by (simp add: limits_le_def)

lemma limits_le_trans [trans]: "limits_le a b \<Longrightarrow> limits_le b c \<Longrightarrow> limits_le a c"
  by (auto simp: limits_le_def)

lemma limits_le_antisym: "limits_le a b \<Longrightarrow> limits_le b a \<Longrightarrow> a = b" for a b :: inventory_limits
  by (auto simp: limits_le_def)

lemma numeral_ords [simp]: "(1::u32) \<le> 1000" "(1::u8) \<le> 100"
  by (simp_all add: word_le_nat_alt)

lemma normalized_exists: "\<exists>c'. normalized c = Some c' \<and> config_ok c'"
proof -
  obtain low where low: "normalized_floor c = Some low" "1 \<le> batch_size low" "batch_size low \<le> 1000"
      "1 \<le> duty_cycle_percent low" "duty_cycle_percent low \<le> 100"
      "if cfg_unlimited_item_rate c then item_rate_per_second low = 0 else 1 \<le> item_rate_per_second low"
    by (simp add: normalized_floor_def MAX_NATIVE_INVENTORY_BATCH_SIZE_def)
  obtain high where high: "normalized_ceiling c low = Some high" "limits_le low high"
      "batch_size high \<le> 1000" "duty_cycle_percent high \<le> 100"
      "cfg_unlimited_item_rate c \<Longrightarrow> item_rate_per_second high = 0"
    using low by (simp add: normalized_ceiling_def MAX_NATIVE_INVENTORY_BATCH_SIZE_def limits_le_def)
  obtain canary where canary: "normalized_canary c low high = Some canary" "limits_le low canary"
      "limits_le canary high"
    using low high
    by (cases "cfg_unlimited_item_rate c")
      (simp_all add: normalized_canary_def MAX_NATIVE_INVENTORY_BATCH_SIZE_def limits_le_def)
  show ?thesis
    using low high canary by (auto simp: normalized_def config_ok_def)
qed

lemma normalized_config_ok: "normalized c = Some c' \<Longrightarrow> config_ok c'"
  using normalized_exists [of c] by auto

lemma normalized_fixed:
  assumes "config_ok c"
  shows "normalized c = Some c"
proof -
  have le: "limits_le (cfg_floor c) (cfg_canary c)" "limits_le (cfg_canary c) (cfg_ceiling c)"
      "limits_le (cfg_floor c) (cfg_ceiling c)"
    using assms limits_le_trans by (auto simp: config_ok_def)
  then have rate0: "item_rate_per_second l = 0"
    if "cfg_unlimited_item_rate c" and "l \<in> {cfg_floor c, cfg_canary c, cfg_ceiling c}" for l
    using assms that by (auto simp: config_ok_def limits_le_def)
  have "batch_size (cfg_floor c) \<le> 1000" "duty_cycle_percent (cfg_floor c) \<le> 100"
    using assms le(3) unfolding config_ok_def limits_le_def by (meson order_trans)+
  then have "normalized_floor c = Some (cfg_floor c)"
    using assms rate0 [of "cfg_floor c"]
    by (simp add: normalized_floor_def MAX_NATIVE_INVENTORY_BATCH_SIZE_def config_ok_def
        clamp_id max_absorb1 del: clamp_eq)
  moreover have "normalized_ceiling c (cfg_floor c) = Some (cfg_ceiling c)"
    using assms le(3) rate0 [of "cfg_ceiling c"]
    by (simp add: normalized_ceiling_def MAX_NATIVE_INVENTORY_BATCH_SIZE_def config_ok_def limits_le_def
        clamp_id max_absorb1 del: clamp_eq)
  moreover have "normalized_canary c (cfg_floor c) (cfg_ceiling c) = Some (cfg_canary c)"
    using assms le(1,2) rate0 [of "cfg_canary c"]
    by (simp add: normalized_canary_def MAX_NATIVE_INVENTORY_BATCH_SIZE_def config_ok_def limits_le_def
        clamp_id min_absorb1 del: clamp_eq)
  ultimately show ?thesis
    using assms by (simp add: normalized_def config_ok_def max_absorb1)
qed

section \<open>Invariant\<close>

definition controller_inv :: "controller \<Rightarrow> bool" where
  "controller_inv ctl \<longleftrightarrow> config_ok (ctl_config ctl) \<and>
     limits_le (cfg_floor (ctl_config ctl)) (ctl_limits ctl) \<and>
     limits_le (ctl_limits ctl) (cfg_ceiling (ctl_config ctl)) \<and>
     (case ctl_state ctl of
        Paused reason \<Rightarrow> ctl_last_reason ctl = Some reason \<and>
          (if reason = Foreground then ctl_recovery_at ctl = None
           else ctl_recovery_at ctl \<noteq> None \<and> ctl_limits ctl = cfg_canary (ctl_config ctl))
      | Throttled \<Rightarrow> ctl_last_reason ctl \<noteq> None \<and> ctl_hold_until ctl \<noteq> None \<and> ctl_recovery_at ctl = None
      | Steady \<Rightarrow> ctl_last_reason ctl = None \<and> ctl_hold_until ctl \<noteq> None \<and> ctl_recovery_at ctl = None \<and>
          ctl_limits ctl = cfg_ceiling (ctl_config ctl)
      | Ramping \<Rightarrow> ctl_last_reason ctl = None \<and> ctl_hold_until ctl \<noteq> None \<and> ctl_recovery_at ctl = None)"

lemma instant_add_Some [simp]: "instant_add imax t d = Some u \<longleftrightarrow> u = t + d \<and> t + d \<le> imax"
  by (auto simp: instant_add_def)

lemma canary_within:
  "config_ok c \<Longrightarrow> limits_le (cfg_floor c) (cfg_canary c)"
  "config_ok c \<Longrightarrow> limits_le (cfg_canary c) (cfg_ceiling c)"
  "config_ok c \<Longrightarrow> limits_le (cfg_floor c) (cfg_ceiling c)"
  by (auto simp: config_ok_def intro: limits_le_trans)

lemma halved_le: "x \<le> hi \<Longrightarrow> x div 2 \<le> hi" for x hi :: "'a::len word"
  using word_div_le [of x 2] by (rule order_trans)

lemma throttle_inv [wf_intros]:
  assumes "controller_inv ctl" and "throttle imax now reason ctl = Some ctl'"
  shows "controller_inv ctl'"
  using assms canary_within(3) [of "ctl_config ctl"]
  by (auto simp: throttle_def controller_inv_def Let_def bind_eq_Some_conv limits_le_def halved_le)

lemma hard_reason_background: "hard_reason cfg obs = Some reason \<Longrightarrow> reason \<noteq> Foreground"
  by (auto simp: hard_reason_def split: if_splits)

lemma pause_for_inv [wf_intros]:
  assumes "controller_inv ctl" and "pause_for imax now reason ctl = Some ctl'" and "reason \<noteq> Foreground"
  shows "controller_inv ctl'"
  using assms canary_within [of "ctl_config ctl"]
  by (auto simp: pause_for_def controller_inv_def bind_eq_Some_conv)

text \<open>One increase raises a limit by at least one unless it is at its ceiling.\<close>

lemma raise_component:
  fixes x c k :: "'a::len word"
  assumes "x \<le> c" and "1 \<le> k"
  shows "x \<le> min (saturating_add x k) c"
    and "unat c - unat (min (saturating_add x k) c) \<le> unat c - unat x - 1"
proof -
  show "x \<le> min (saturating_add x k) c" using assms saturating_add_ge by simp
  have "1 \<le> unat k" using assms(2) by (simp add: word_le_nat_alt)
  then show "unat c - unat (min (saturating_add x k) c) \<le> unat c - unat x - 1"
    using assms(1) unat_le_max [of c] by (auto simp: unat_min unat_saturating_add word_le_nat_alt)
qed

lemma raised_limits_within:
  assumes "config_ok cfg" and "limits_le l (cfg_ceiling cfg)"
  shows "limits_le l (raised_limits cfg l)" and "limits_le (raised_limits cfg l) (cfg_ceiling cfg)"
  using assms raise_component(1) [of "item_rate_per_second l"] raise_component(1) [of "batch_size l"]
    raise_component(1) [of "duty_cycle_percent l" _ 1]
  by (auto simp: raised_limits_def limits_le_def)

lemma increase_limits_inv [wf_intros]:
  assumes "controller_inv ctl" and "increase_limits imax now ctl = Some ctl'" and "ctl_recovery_at ctl = None"
  shows "controller_inv ctl'"
  using assms raised_limits_within [of "ctl_config ctl" "ctl_limits ctl"]
  by (auto simp: increase_limits_def controller_inv_def Let_def bind_eq_Some_conv intro: limits_le_trans)

lemma leave_foreground_inv [wf_intros]:
  "controller_inv ctl \<Longrightarrow> leave_foreground imax now ctl = Some ctl' \<Longrightarrow> controller_inv ctl'"
  by (cases "ctl_state ctl = Paused Foreground")
    (auto simp: leave_foreground_def controller_inv_def bind_eq_Some_conv split: controller_state.splits)

lemma end_recovery_inv [wf_intros]:
  "controller_inv ctl \<Longrightarrow> end_recovery imax now ctl = Some ctl' \<Longrightarrow>
     controller_inv ctl' \<and> \<not> is_paused (ctl_state ctl')"
  using canary_within [of "ctl_config ctl"]
  by (auto simp: end_recovery_def controller_inv_def bind_eq_Some_conv is_paused_def split: if_splits controller_state.splits)

lemma running_no_recovery:
  "controller_inv ctl \<Longrightarrow> \<not> is_paused (ctl_state ctl) \<Longrightarrow> ctl_recovery_at ctl = None \<and> ctl_hold_until ctl \<noteq> None"
  by (auto simp: controller_inv_def is_paused_def split: controller_state.splits)

lemma settle_inv [wf_intros]:
  "controller_inv ctl \<Longrightarrow> \<not> is_paused (ctl_state ctl) \<Longrightarrow> settle imax now obs ctl = Some ctl' \<Longrightarrow> controller_inv ctl'"
  using running_no_recovery [of ctl]
  by (auto simp: settle_def Let_def intro: throttle_inv increase_limits_inv split: option.splits if_splits)

lemma observe_state_inv [wf_intros]:
  assumes "controller_inv ctl" and "observe_state imax now obs ctl = Some ctl'"
  shows "controller_inv ctl'"
proof (cases "foreground_active obs")
  case True
  then show ?thesis using assms by (auto simp: observe_state_def controller_inv_def)
next
  case False
  then obtain ctl1 where ctl1: "leave_foreground imax now ctl = Some ctl1"
    using assms(2) by (auto simp: observe_state_def bind_eq_Some_conv)
  then have "controller_inv ctl1" using assms(1) by (rule leave_foreground_inv [rotated])
  then show ?thesis
    using False ctl1 assms(2)
    by (auto simp: observe_state_def bind_eq_Some_conv split: option.splits if_splits
        intro: settle_inv pause_for_inv dest: end_recovery_inv hard_reason_background)
qed

section \<open>Runs of the controller\<close>

inductive controller_step :: "instant \<Rightarrow> controller \<Rightarrow> controller \<Rightarrow> bool" for imax where
  observed: "observe imax now obs ctl = Some (d, ctl') \<Longrightarrow> controller_step imax ctl ctl'"

inductive_simps controller_step_iff: "controller_step imax ctl ctl'"

lemma observe_eq: "observe imax now obs ctl = Some (d, ctl') \<longleftrightarrow>
    observe_state imax now obs ctl = Some ctl' \<and>
    d = decision (ctl_state ctl, ctl_limits ctl, ctl_recovery_at ctl) ctl'"
  by (auto simp: observe_def bind_eq_Some_conv)

interpretation controller_system: invariant_system
  "\<lambda>ctl. \<exists>config now. controller_new imax config now = Some ctl" "controller_step imax" controller_inv
proof
  fix ctl assume "\<exists>config now. controller_new imax config now = Some ctl"
  then show "controller_inv ctl"
    using canary_within normalized_config_ok
    by (auto simp: controller_new_def controller_inv_def bind_eq_Some_conv)
next
  fix ctl ctl' assume "controller_step imax ctl ctl'" and "controller_inv ctl"
  then show "controller_inv ctl'"
    by (auto simp: controller_step_iff observe_eq intro: observe_state_inv)
qed

fun observe_all :: "instant \<Rightarrow> (instant \<times> controller_observation) list \<Rightarrow> controller \<Rightarrow> controller option" where
  "observe_all imax [] ctl = Some ctl"
| "observe_all imax ((now, obs) # rest) ctl =
     (case observe imax now obs ctl of None \<Rightarrow> None | Some (d, ctl') \<Rightarrow> observe_all imax rest ctl')"

text \<open>Healthy observations, each at least one healthy window after the previous one.\<close>

definition healthy :: "controller_config \<Rightarrow> controller_observation \<Rightarrow> bool" where
  "healthy cfg obs \<longleftrightarrow> \<not> foreground_active obs \<and> hard_reason cfg obs = None \<and> soft_reason cfg obs = None"

fun healthy_run :: "controller_config \<Rightarrow> instant \<Rightarrow> instant \<Rightarrow> (instant \<times> controller_observation) list \<Rightarrow> bool" where
  "healthy_run cfg imax hold [] = True"
| "healthy_run cfg imax hold ((now, obs) # rest) =
     (hold \<le> now \<and> now + cfg_healthy_window cfg \<le> imax \<and> healthy cfg obs \<and>
      healthy_run cfg imax (now + cfg_healthy_window cfg) rest)"

definition distance :: "controller_config \<Rightarrow> inventory_limits \<Rightarrow> nat" where
  "distance cfg l =
     max (unat (item_rate_per_second (cfg_ceiling cfg)) - unat (item_rate_per_second l))
       (max (unat (batch_size (cfg_ceiling cfg)) - unat (batch_size l))
         (unat (duty_cycle_percent (cfg_ceiling cfg)) - unat (duty_cycle_percent l)))"

lemma max_pred_mono:
  "a \<le> a' - 1 \<Longrightarrow> b \<le> b' - 1 \<Longrightarrow> c \<le> c' - 1 \<Longrightarrow> max a (max b c) \<le> max a' (max b' c') - (1::nat)"
  by linarith

lemma distance_raised:
  assumes "config_ok cfg" and "limits_le l (cfg_ceiling cfg)"
  shows "distance cfg (raised_limits cfg l) \<le> distance cfg l - 1"
proof -
  have le: "item_rate_per_second l \<le> item_rate_per_second (cfg_ceiling cfg)"
      "batch_size l \<le> batch_size (cfg_ceiling cfg)" "duty_cycle_percent l \<le> duty_cycle_percent (cfg_ceiling cfg)"
    using assms(2) by (simp_all add: limits_le_def)
  have rate: "unat (item_rate_per_second (cfg_ceiling cfg)) - unat (item_rate_per_second (raised_limits cfg l))
      \<le> unat (item_rate_per_second (cfg_ceiling cfg)) - unat (item_rate_per_second l) - 1"
  proof (cases "cfg_unlimited_item_rate cfg")
    case True
    then show ?thesis using assms(1) by (simp add: config_ok_def)
  next
    case False
    then show ?thesis
      using raise_component(2) [OF le(1), of "max (item_rate_per_second l div 10) 1"]
      by (simp add: raised_limits_def)
  qed
  have batch: "unat (batch_size (cfg_ceiling cfg)) - unat (batch_size (raised_limits cfg l))
      \<le> unat (batch_size (cfg_ceiling cfg)) - unat (batch_size l) - 1"
    using raise_component(2) [OF le(2), of "max (batch_size l div 10) 1"] by (simp add: raised_limits_def)
  have duty: "unat (duty_cycle_percent (cfg_ceiling cfg)) - unat (duty_cycle_percent (raised_limits cfg l))
      \<le> unat (duty_cycle_percent (cfg_ceiling cfg)) - unat (duty_cycle_percent l) - 1"
    using raise_component(2) [OF le(3), of 1] by (simp add: raised_limits_def)
  from rate batch duty show ?thesis
    unfolding distance_def by (rule max_pred_mono)
qed

lemma distance_zero:
  "distance cfg l = 0 \<Longrightarrow> limits_le l (cfg_ceiling cfg) \<Longrightarrow> l = cfg_ceiling cfg"
  by (rule limits_le_antisym) (auto simp: distance_def limits_le_def word_le_nat_alt)

lemma observe_healthy:
  assumes "controller_inv ctl" and "\<not> is_paused (ctl_state ctl)" and "ctl_hold_until ctl = Some hold"
    and "hold \<le> now" and "healthy (ctl_config ctl) obs"
  shows "observe_state imax now obs ctl = increase_limits imax now ctl"
  using assms
  by (auto simp: observe_state_def healthy_def leave_foreground_def end_recovery_def settle_def is_paused_def)

lemma healthy_run_converges:
  assumes "controller_inv ctl" and "\<not> is_paused (ctl_state ctl)" and "ctl_hold_until ctl = Some hold"
    and "ctl_config ctl = cfg" and "healthy_run cfg imax hold run" and "run \<noteq> []"
    and "distance cfg (ctl_limits ctl) \<le> length run"
  shows "\<exists>ctl'. observe_all imax run ctl = Some ctl' \<and> ctl_state ctl' = Steady \<and> ctl_limits ctl' = cfg_ceiling cfg"
  using assms
proof (induction run arbitrary: ctl hold)
  case (Cons nobs rest)
  obtain now obs where no: "nobs = (now, obs)" by (cases nobs)
  let ?l = "raised_limits cfg (ctl_limits ctl)"
  let ?ctl = "ctl\<lparr>ctl_limits := ?l, ctl_state := (if ?l = cfg_ceiling cfg then Steady else Ramping),
    ctl_hold_until := Some (now + cfg_healthy_window cfg), ctl_recovery_exponent := 0, ctl_last_reason := None\<rparr>"
  have step: "observe_state imax now obs ctl = Some ?ctl"
    using Cons.prems no observe_healthy [of ctl hold now obs imax]
    by (simp add: increase_limits_def Let_def instant_add_def)
  then have inv: "controller_inv ?ctl" by (rule observe_state_inv [OF Cons.prems(1)])
  have ok: "config_ok cfg" "limits_le (ctl_limits ctl) (cfg_ceiling cfg)"
    using Cons.prems(1,4) by (auto simp: controller_inv_def)
  have dist: "distance cfg ?l \<le> length rest"
    using distance_raised [OF ok] Cons.prems(7) by simp
  have obs: "\<exists>d. observe imax now obs ctl = Some (d, ?ctl)"
    using step by (simp add: observe_def)
  show ?case
  proof (cases "rest = []")
    case True
    then have "?l = cfg_ceiling cfg"
      using dist raised_limits_within(2) [OF ok] distance_zero by simp
    then show ?thesis using obs no True by auto
  next
    case False
    have "\<exists>ctl'. observe_all imax rest ?ctl = Some ctl' \<and> ctl_state ctl' = Steady \<and> ctl_limits ctl' = cfg_ceiling cfg"
      by (rule Cons.IH [OF inv]) (use Cons.prems False dist no in \<open>auto simp: is_paused_def\<close>)
    then show ?thesis using obs no by auto
  qed
qed simp

section \<open>Recovery after hard signals\<close>

lemma observe_state_config: "observe_state imax now obs ctl = Some ctl' \<Longrightarrow> ctl_config ctl' = ctl_config ctl"
  by (auto simp: observe_state_def leave_foreground_def end_recovery_def settle_def pause_for_def throttle_def
      increase_limits_def Let_def bind_eq_Some_conv split: if_splits option.splits)

lemma run_config: "(controller_step imax)\<^sup>*\<^sup>* ctl ctl' \<Longrightarrow> ctl_config ctl' = ctl_config ctl"
  by (induction rule: rtranclp_induct) (auto simp: controller_step_iff observe_eq dest: observe_state_config)

lemma recovery_duration_eq:
  assumes "cfg_maximum_recovery_delay cfg \<le> DURATION_MAX"
  shows "recovery_duration cfg e =
    min (cfg_recovery_delay cfg * 2 ^ min (unat e) 10) (cfg_maximum_recovery_delay cfg)"
proof -
  let ?k = "min (unat e) 10"
  have "unat (min e 10) = ?k" by (simp add: unat_min)
  moreover have "(2::nat) ^ ?k \<le> 2 ^ 10" by (rule power_increasing) simp_all
  then have "unat (of_nat (2 ^ ?k) :: u32) = 2 ^ ?k"
    by (simp add: unsigned_of_nat take_bit_nat_eq_self del: of_nat_power)
  then have "unat (push_bit ?k (1::u32)) = 2 ^ ?k"
    by simp
  ultimately show ?thesis
    using assms by (auto simp: recovery_duration_def checked_shl_def duration_checked_mul_def Let_def min_def)
qed

lemma recovery_duration_le: "recovery_duration cfg e \<le> cfg_maximum_recovery_delay cfg"
  by (simp add: recovery_duration_def Let_def)

lemma observe_hard:
  assumes "\<not> foreground_active obs" and "hard_reason (ctl_config ctl) obs = Some reason"
    and "config_ok (ctl_config ctl)"
    and "now + cfg_healthy_window (ctl_config ctl) \<le> imax"
    and "now + cfg_maximum_recovery_delay (ctl_config ctl) \<le> imax"
  shows "observe_state imax now obs ctl = Some (ctl\<lparr>ctl_state := Paused reason,
    ctl_limits := cfg_canary (ctl_config ctl),
    ctl_recovery_at := Some (now + recovery_duration (ctl_config ctl) (ctl_recovery_exponent ctl)),
    ctl_recovery_exponent := saturating_add (ctl_recovery_exponent ctl) 1,
    ctl_hold_until := None, ctl_last_reason := Some reason\<rparr>)"
  using assms recovery_duration_le [of "ctl_config ctl" "ctl_recovery_exponent ctl"]
  by (simp add: observe_state_def leave_foreground_def pause_for_def instant_add_def)

fun hard_run :: "controller_config \<Rightarrow> instant \<Rightarrow> (instant \<times> controller_observation) list \<Rightarrow> bool" where
  "hard_run cfg imax [] = True"
| "hard_run cfg imax ((now, obs) # rest) =
     (now + cfg_healthy_window cfg \<le> imax \<and> now + cfg_maximum_recovery_delay cfg \<le> imax \<and>
      \<not> foreground_active obs \<and> hard_reason cfg obs \<noteq> None \<and> hard_run cfg imax rest)"

lemma hard_run_backs_off:
  assumes "config_ok (ctl_config ctl)" and "cfg_maximum_recovery_delay (ctl_config ctl) \<le> DURATION_MAX"
    and "hard_run (ctl_config ctl) imax run" and "run \<noteq> []"
    and "unat (ctl_recovery_exponent ctl) + length run < 2 ^ 32"
  shows "\<exists>ctl'. observe_all imax run ctl = Some ctl' \<and>
    ctl_state ctl' = Paused (the (hard_reason (ctl_config ctl) (snd (last run)))) \<and>
    ctl_limits ctl' = cfg_canary (ctl_config ctl) \<and>
    ctl_recovery_at ctl' = Some (fst (last run) +
      min (cfg_recovery_delay (ctl_config ctl) * 2 ^ min (unat (ctl_recovery_exponent ctl) + (length run - 1)) 10)
          (cfg_maximum_recovery_delay (ctl_config ctl)))"
  using assms
proof (induction run arbitrary: ctl)
  case (Cons nobs rest)
  obtain now obs where no: "nobs = (now, obs)" by (cases nobs)
  obtain reason where reason: "hard_reason (ctl_config ctl) obs = Some reason"
    using Cons.prems(3) no by auto
  define ctl1 where "ctl1 = ctl\<lparr>ctl_state := Paused reason,
    ctl_limits := cfg_canary (ctl_config ctl),
    ctl_recovery_at := Some (now + recovery_duration (ctl_config ctl) (ctl_recovery_exponent ctl)),
    ctl_recovery_exponent := saturating_add (ctl_recovery_exponent ctl) 1,
    ctl_hold_until := None, ctl_last_reason := Some reason\<rparr>"
  have "observe_state imax now obs ctl = Some ctl1"
    unfolding ctl1_def using Cons.prems(1,3) no reason by (intro observe_hard) auto
  then have step: "observe_all imax (nobs # rest) ctl = observe_all imax rest ctl1"
    by (simp add: no observe_def)
  have e1: "unat (ctl_recovery_exponent ctl1) = Suc (unat (ctl_recovery_exponent ctl))"
    using Cons.prems(5) by (simp add: ctl1_def unat_saturating_add)
  show ?case
  proof (cases "rest = []")
    case True
    then show ?thesis
      using step no reason recovery_duration_eq [OF Cons.prems(2)] by (simp add: ctl1_def)
  next
    case False
    have cfg: "ctl_config ctl1 = ctl_config ctl" by (simp add: ctl1_def)
    obtain n where "length rest = Suc n" using False by (cases rest) auto
    then show ?thesis
      using Cons.IH [of ctl1] Cons.prems False no e1 cfg step by (simp del: observe_all.simps)
  qed
qed simp

lemma observe_defined:
  assumes "now + cfg_healthy_window (ctl_config ctl) \<le> imax"
    and "now + cfg_maximum_recovery_delay (ctl_config ctl) \<le> imax"
  shows "\<exists>d ctl'. observe imax now obs ctl = Some (d, ctl')"
  using assms recovery_duration_le [of "ctl_config ctl" "ctl_recovery_exponent ctl"]
  by (auto simp: observe_def observe_state_def leave_foreground_def pause_for_def end_recovery_def settle_def
      throttle_def increase_limits_def Let_def instant_add_def split: option.splits)

section \<open>Properties\<close>

text \<open>
  Normalisation accepts every configuration without panicking, orders floor, canary and
  ceiling, keeps the batch size within the native limit of 1000, and changes nothing when it is
  applied again.
\<close>

theorem normalized_repairs_config:
  "\<exists>c'. normalized c = Some c' \<and> config_ok c' \<and> normalized c' = Some c'"
  using normalized_exists [of c] normalized_fixed by auto

text \<open>
  C28. Whatever a controller observes and whenever, its limits stay between the floor and the
  ceiling of its normalised configuration. In particular no decision ever asks the native
  client for a batch outside 1..1000 or a duty cycle outside 1..100 percent.
\<close>

theorem controller_limits_safe:
  assumes "controller_new imax config t0 = Some ctl0" and "(controller_step imax)\<^sup>*\<^sup>* ctl0 ctl"
    and "observe imax now obs ctl = Some (d, ctl')"
  shows "\<exists>cfg. normalized config = Some cfg \<and> limits_le (cfg_floor cfg) (dec_limits d) \<and>
    limits_le (dec_limits d) (cfg_ceiling cfg) \<and>
    1 \<le> batch_size (dec_limits d) \<and> batch_size (dec_limits d) \<le> 1000 \<and>
    1 \<le> duty_cycle_percent (dec_limits d) \<and> duty_cycle_percent (dec_limits d) \<le> 100"
proof -
  have run: "(controller_step imax)\<^sup>*\<^sup>* ctl0 ctl'"
    using assms(2,3) by (meson controller_step.intros rtranclp.rtrancl_into_rtrancl)
  have inv: "controller_inv ctl'"
    using controller_system.reachable_inv [of imax ctl0 ctl'] assms(1) run by blast
  obtain cfg where cfg: "normalized config = Some cfg" "ctl_config ctl' = cfg"
    using assms(1) run_config [OF run] by (auto simp: controller_new_def bind_eq_Some_conv)
  have d: "dec_limits d = ctl_limits ctl'"
    using assms(3) by (auto simp: observe_eq decision_def)
  have le: "limits_le (cfg_floor cfg) (dec_limits d)" "limits_le (dec_limits d) (cfg_ceiling cfg)" "config_ok cfg"
    using inv cfg(2) d by (auto simp: controller_inv_def)
  then have "1 \<le> batch_size (dec_limits d) \<and> 1 \<le> duty_cycle_percent (dec_limits d)"
    unfolding limits_le_def config_ok_def by (meson order_trans)
  moreover have "batch_size (dec_limits d) \<le> 1000 \<and> duty_cycle_percent (dec_limits d) \<le> 100"
    using le unfolding limits_le_def config_ok_def by (meson order_trans)
  ultimately show ?thesis using cfg(1) le by blast
qed

text \<open>
  Every further hard signal doubles the recovery delay, up to a factor of 1024 and never
  beyond the configured maximum: after a run of hard signals the controller is paused for the
  last one's reason, at the canary limits, until exactly that delay after the last signal.
\<close>

theorem hard_signals_back_off:
  assumes "config_ok (ctl_config ctl)" and "cfg_maximum_recovery_delay (ctl_config ctl) \<le> DURATION_MAX"
    and "hard_run (ctl_config ctl) imax run" and "run \<noteq> []" and "length run < 2 ^ 32"
    and "ctl_recovery_exponent ctl = 0"
  shows "\<exists>ctl'. observe_all imax run ctl = Some ctl' \<and>
    ctl_state ctl' = Paused (the (hard_reason (ctl_config ctl) (snd (last run)))) \<and>
    ctl_limits ctl' = cfg_canary (ctl_config ctl) \<and>
    ctl_recovery_at ctl' = Some (fst (last run) +
      min (cfg_recovery_delay (ctl_config ctl) * 2 ^ min (length run - 1) 10)
          (cfg_maximum_recovery_delay (ctl_config ctl)))"
  using hard_run_backs_off [OF assms(1-4)] assms(5,6) by simp

text \<open>
  Until its recovery time a controller that a hard signal paused stays paused whatever it
  observes, foreground operations included. A foreground operation however drops the recovery
  time, so that the first healthy observation after it resumes the inventory at once, however
  much of the recovery delay was left.
\<close>

theorem foreground_cancels_recovery:
  assumes "controller_inv ctl" and "ctl_state ctl = Paused reason" and "reason \<noteq> Foreground"
    and "ctl_recovery_at ctl = Some until" and "now < until" and "observe imax now obs ctl = Some (d, ctl')"
  shows "dec_paused d \<and>
    (foreground_active obs \<longrightarrow> (\<forall>now' obs' d' ctl''.
       healthy (ctl_config ctl) obs' \<longrightarrow> observe imax now' obs' ctl' = Some (d', ctl'') \<longrightarrow>
       \<not> dec_paused d' \<and> ctl_state ctl'' = Ramping))"
proof -
  have "dec_paused d"
    using assms
    by (auto simp: observe_eq decision_def observe_state_def leave_foreground_def pause_for_def is_paused_def
        bind_eq_Some_conv split: if_splits option.splits)
  moreover have "\<not> dec_paused d' \<and> ctl_state ctl'' = Ramping"
    if "foreground_active obs" and "healthy (ctl_config ctl) obs'"
      and "observe imax now' obs' ctl' = Some (d', ctl'')" for now' obs' d' ctl''
  proof -
    have ctl': "ctl_state ctl' = Paused Foreground" "ctl_config ctl' = ctl_config ctl"
      using assms(6) that(1) by (auto simp: observe_eq observe_state_def)
    have "MILLISECOND \<le> cfg_healthy_window (ctl_config ctl)"
      using assms(1) by (simp add: controller_inv_def config_ok_def)
    then have "ctl_state ctl'' = Ramping"
      using that(2,3) ctl'
      by (auto simp: observe_eq observe_state_def leave_foreground_def healthy_def end_recovery_def settle_def
          is_paused_def bind_eq_Some_conv MILLISECOND_def)
    then show ?thesis using that(3) by (auto simp: observe_eq decision_def is_paused_def)
  qed
  ultimately show ?thesis by blast
qed

text \<open>
  C29. A healthy controller recovers its full rate: after as many healthy windows as the largest
  distance of a limit to its ceiling the controller is steady at the ceiling, and no observation
  of the run panics.
\<close>

theorem healthy_controller_reaches_ceiling:
  assumes "controller_inv ctl" and "\<not> is_paused (ctl_state ctl)" and "ctl_hold_until ctl = Some hold"
    and "healthy_run (ctl_config ctl) imax hold run" and "run \<noteq> []"
    and "distance (ctl_config ctl) (ctl_limits ctl) \<le> length run"
  shows "\<exists>ctl'. observe_all imax run ctl = Some ctl' \<and> ctl_state ctl' = Steady \<and>
    ctl_limits ctl' = cfg_ceiling (ctl_config ctl)"
  using healthy_run_converges [OF assms(1-3) refl assms(4-6)] .

text \<open>
  No observation panics while both configured delays, counted from the observation, are
  within the platform's range of instants.
\<close>

theorem observe_total:
  assumes "now + cfg_healthy_window (ctl_config ctl) \<le> imax"
    and "now + cfg_maximum_recovery_delay (ctl_config ctl) \<le> imax"
  shows "\<exists>d ctl'. observe imax now obs ctl = Some (d, ctl')"
  using assms by (rule observe_defined)

section \<open>Concrete runs\<close>

definition quiet_observation :: controller_observation where
  "quiet_observation =
     \<lparr>foreground_active = False, foreground_error = False, foreground_bad_quality = False,
      foreground_latency_ms = Some 100, baseline_latency_ms = Some 100, inventory_error = False,
      host_cpu_percent = Some (Finite 20), available_memory_percent = None, disk_active_percent = None,
      disk_queue = None, database_commit_p95_ms = None, insufficient_disk_space = False\<rparr>"

definition demo_config :: controller_config where
  "demo_config = controller_config_default
     \<lparr>cfg_canary := \<lparr>item_rate_per_second = 249, batch_size = 99, duty_cycle_percent = 19\<rparr>,
      cfg_healthy_window := 30, cfg_recovery_delay := 30, cfg_maximum_recovery_delay := 300\<rparr>"

definition demo_normal :: controller_config where
  "demo_normal = demo_config
     \<lparr>cfg_healthy_window := 1000000, cfg_recovery_delay := 1000000, cfg_maximum_recovery_delay := 1000000\<rparr>"

definition demo_imax :: instant where "demo_imax = 100000000"

definition demo_ctl :: controller where
  "demo_ctl =
     \<lparr>ctl_config = demo_normal, ctl_state = Ramping, ctl_limits = cfg_canary demo_normal,
      ctl_hold_until = Some 1000000, ctl_recovery_at = None, ctl_recovery_exponent = 0, ctl_last_reason = None\<rparr>"

lemmas demo_config_defs = demo_normal_def demo_config_def controller_config_default_def MILLISECOND_def SECOND_def

lemma demo_normalized: "normalized demo_config = Some demo_normal"
  by (simp add: normalized_def normalized_floor_def normalized_ceiling_def normalized_canary_def
      MAX_NATIVE_INVENTORY_BATCH_SIZE_def clamp_def demo_config_defs)

lemma demo_new: "controller_new demo_imax demo_config 0 = Some demo_ctl"
  using demo_normalized by (simp add: controller_new_def demo_ctl_def demo_imax_def instant_add_def)
    (simp add: demo_normal_def)

lemma demo_ctl_inv: "controller_inv demo_ctl"
  using controller_system.init_inv [of demo_imax] demo_new by blast

lemma demo_ctl_config: "ctl_config demo_ctl = demo_normal" "config_ok demo_normal"
  using demo_normalized normalized_config_ok by (simp_all add: demo_ctl_def)

lemma demo_delays: "cfg_healthy_window demo_normal = 1000000" "cfg_maximum_recovery_delay demo_normal = 1000000"
  by (simp_all add: demo_normal_def)

lemma demo_healthy: "healthy demo_normal quiet_observation"
  by (simp add: healthy_def hard_reason_def soft_reason_def quiet_observation_def demo_config_defs)

theorem controller_limits_safe_witness:
  "\<exists>d ctl'. observe demo_imax 5 quiet_observation demo_ctl = Some (d, ctl') \<and> batch_size (dec_limits d) \<le> 1000"
proof -
  obtain d ctl' where "observe demo_imax 5 quiet_observation demo_ctl = Some (d, ctl')"
    by (simp add: observe_def observe_state_def leave_foreground_def end_recovery_def settle_def is_paused_def
        quiet_observation_def demo_ctl_def demo_config_defs hard_reason_def soft_reason_def)
  with controller_limits_safe [OF demo_new _ this] show ?thesis by blast
qed

theorem hard_signals_back_off_witness:
  "\<exists>ctl'. observe_all demo_imax [(5, quiet_observation\<lparr>inventory_error := True\<rparr>)] demo_ctl = Some ctl' \<and>
     ctl_state ctl' = Paused OpcHealth \<and> ctl_recovery_at ctl' = Some 1000005"
proof -
  let ?run = "[(5, quiet_observation\<lparr>inventory_error := True\<rparr>)]"
  have h: "hard_reason demo_normal (quiet_observation\<lparr>inventory_error := True\<rparr>) = Some OpcHealth"
    by (simp add: hard_reason_def)
  have "hard_run demo_normal demo_imax ?run"
    using h demo_delays by (simp add: demo_imax_def) (simp add: quiet_observation_def)
  then show ?thesis
    using hard_signals_back_off [of demo_ctl demo_imax ?run] demo_ctl_config demo_delays h
    by (simp add: DURATION_MAX_def) (auto simp: demo_ctl_def demo_normal_def)
qed

theorem foreground_cancels_recovery_witness:
  "\<exists>d ctl' d' ctl''.
     observe demo_imax 6 (quiet_observation\<lparr>foreground_active := True\<rparr>)
       (demo_ctl\<lparr>ctl_state := Paused OpcHealth, ctl_recovery_at := Some 99, ctl_last_reason := Some OpcHealth\<rparr>) =
       Some (d, ctl') \<and>
     observe demo_imax 7 quiet_observation ctl' = Some (d', ctl'') \<and> \<not> dec_paused d'"
proof -
  let ?ctl = "demo_ctl\<lparr>ctl_state := Paused OpcHealth, ctl_recovery_at := Some 99, ctl_last_reason := Some OpcHealth\<rparr>"
  let ?obs = "quiet_observation\<lparr>foreground_active := True\<rparr>"
  have inv: "controller_inv ?ctl"
    using demo_ctl_inv by (simp add: controller_inv_def demo_ctl_def)
  obtain d ctl' where o1: "observe demo_imax 6 ?obs ?ctl = Some (d, ctl')" and cfg: "ctl_config ctl' = demo_normal"
    using demo_ctl_config(1) by (simp add: observe_def observe_state_def)
  obtain d' ctl'' where o2: "observe demo_imax 7 quiet_observation ctl' = Some (d', ctl'')"
    using observe_defined [of 7 ctl' demo_imax quiet_observation] cfg demo_delays by (auto simp: demo_imax_def)
  have "\<not> dec_paused d'"
    using foreground_cancels_recovery [OF inv _ _ _ _ o1, of OpcHealth 99] demo_healthy demo_ctl_config(1) o2
    by simp
  with o1 o2 show ?thesis by blast
qed

theorem healthy_controller_reaches_ceiling_witness:
  "\<exists>ctl'. observe_all demo_imax [(1000000, quiet_observation)] demo_ctl = Some ctl' \<and>
     ctl_state ctl' = Steady \<and> ctl_limits ctl' = cfg_ceiling demo_normal"
  using healthy_controller_reaches_ceiling [of demo_ctl 1000000 demo_imax "[(1000000, quiet_observation)]"]
    demo_ctl_inv demo_healthy demo_delays demo_ctl_config
  by (simp add: demo_imax_def distance_def) (simp add: demo_ctl_def is_paused_def demo_config_defs)

theorem observe_total_witness:
  "\<exists>d ctl'. observe demo_imax 7 quiet_observation demo_ctl = Some (d, ctl')"
  using observe_total [of 7 demo_ctl demo_imax] demo_ctl_config demo_delays by (simp add: demo_imax_def)

end
