(* ===== verification/Timing.thy ===== *)
theory Timing
  imports Controller Decimal
begin

unbundle bit_operations_syntax

text \<open>
  The clock of the index scheduler (\<open>index/scheduler.rs\<close> and the time helpers of \<open>index.rs\<close>):
  maintenance windows, the deterministic per-server jitter, the retry back-off, and the millisecond
  timestamps of the database. Durations and times are nanoseconds.
\<close>

section \<open>Maintenance windows\<close>

type_synonym u16 = "16 word"

record maintenance_window =
  mw_start_minute :: u16
  mw_end_minute :: u16

fun split_once :: "char \<Rightarrow> string \<Rightarrow> (string \<times> string) option" where
  "split_once c [] = None"
| "split_once c (x # xs) =
     (if x = c then Some ([], xs) else map_option (\<lambda>(a, b). (x # a, b)) (split_once c xs))"

definition parse_u16 :: "string \<Rightarrow> u16 option" where
  "parse_u16 value = map_option of_nat (parse_unsigned (2 ^ 16 - 1) value)"

datatype clock_error = NoClockSeparator | BadHour | BadMinute | OutsideDay | NoWindowSeparator

definition parse_clock :: "string \<Rightarrow> clock_error + u16" where
  "parse_clock value =
     (case split_once (CHR '':'') value of
        None \<Rightarrow> Inl NoClockSeparator
      | Some (hour, minute) \<Rightarrow>
          (case parse_u16 hour of
             None \<Rightarrow> Inl BadHour
           | Some h \<Rightarrow>
               (case parse_u16 minute of
                  None \<Rightarrow> Inl BadMinute
                | Some m \<Rightarrow> if h \<ge> 24 \<or> m \<ge> 60 then Inl OutsideDay else Inr (h * 60 + m))))"

definition window_parse :: "string \<Rightarrow> clock_error + maintenance_window" where
  "window_parse value =
     (case split_once (CHR ''-'') value of
        None \<Rightarrow> Inl NoWindowSeparator
      | Some (start, end') \<Rightarrow>
          (case parse_clock start of
             Inl e \<Rightarrow> Inl e
           | Inr s \<Rightarrow>
               (case parse_clock end' of
                  Inl e \<Rightarrow> Inl e
                | Inr e \<Rightarrow> Inr \<lparr>mw_start_minute = s, mw_end_minute = e\<rparr>)))"

definition window_contains :: "maintenance_window \<Rightarrow> u16 \<Rightarrow> bool" where
  "window_contains w minute =
     (if mw_start_minute w = mw_end_minute w then True
      else if mw_start_minute w < mw_end_minute w
      then mw_start_minute w \<le> minute \<and> minute < mw_end_minute w
      else minute \<ge> mw_start_minute w \<or> minute < mw_end_minute w)"

fun parse_maintenance_windows :: "string list \<Rightarrow> clock_error + maintenance_window list" where
  "parse_maintenance_windows [] = Inr []"
| "parse_maintenance_windows (value # values) =
     (case window_parse value of
        Inl e \<Rightarrow> Inl e
      | Inr w \<Rightarrow> (case parse_maintenance_windows values of Inl e \<Rightarrow> Inl e | Inr ws \<Rightarrow> Inr (w # ws)))"

text \<open>The local hour and minute are what \<open>chrono\<close> reports for the time of the call.\<close>

definition maintenance_window_active :: "maintenance_window list \<Rightarrow> u32 \<Rightarrow> u32 \<Rightarrow> bool" where
  "maintenance_window_active windows hour minute =
     (if windows = [] then False
      else let m = ucast (hour * 60 + minute) :: u16 in list_ex (\<lambda>w. window_contains w m) windows)"

definition maintenance_window_is_open :: "string list \<Rightarrow> u32 \<Rightarrow> u32 \<Rightarrow> bool" where
  "maintenance_window_is_open settings hour minute =
     (case parse_maintenance_windows settings of
        Inl _ \<Rightarrow> False
      | Inr windows \<Rightarrow> maintenance_window_active windows hour minute)"

section \<open>Jitter\<close>

definition fnv1a :: "string \<Rightarrow> u64" where
  "fnv1a server = fold (\<lambda>byte hash. (hash XOR of_char byte) * 0x100000001b3) server 0xcbf29ce484222325"

definition deterministic_jitter :: "string \<Rightarrow> u64 \<Rightarrow> duration" where
  "deterministic_jitter server maximum_seconds =
     (if maximum_seconds = 0 then 0
      else let range = saturating_add maximum_seconds 1 in unat (fnv1a server mod range) * SECOND)"

section \<open>Retry back-off\<close>

definition RETRY_INITIAL_BACKOFF :: duration where "RETRY_INITIAL_BACKOFF = 300 * SECOND"
definition RETRY_MAX_BACKOFF :: duration where "RETRY_MAX_BACKOFF = 86400 * SECOND"

definition duration_saturating_add :: "duration \<Rightarrow> duration \<Rightarrow> duration" where
  "duration_saturating_add a b = min (a + b) DURATION_MAX"

definition retry_base :: "u32 \<Rightarrow> duration" where
  "retry_base consecutive_failures =
     (let exponent = min (saturating_sub consecutive_failures 1) 8;
          multiplier = push_bit (unat exponent) 1 :: u64
      in min (case duration_checked_mul RETRY_INITIAL_BACKOFF (ucast multiplier) of
                Some d \<Rightarrow> d | None \<Rightarrow> RETRY_MAX_BACKOFF) RETRY_MAX_BACKOFF)"

definition retry_delay :: "string \<Rightarrow> u32 \<Rightarrow> bool \<Rightarrow> u64 \<Rightarrow> duration" where
  "retry_delay server consecutive_failures circuit_open circuit_open_seconds =
     (let base = retry_base consecutive_failures;
          jitter_limit = max (of_nat (base div SECOND) div 5) 1 :: u64;
          jitter = deterministic_jitter
                     (server @ '':retry:'' @ nat_to_string (unat consecutive_failures)) jitter_limit;
          exponential = min (duration_saturating_add base jitter) RETRY_MAX_BACKOFF
      in if circuit_open
         then max exponential (min (unat circuit_open_seconds * SECOND) RETRY_MAX_BACKOFF)
         else exponential)"

section \<open>Timestamps\<close>

text \<open>A \<open>SystemTime\<close> counts from the epoch up to the platform's last time \<open>tmax\<close>.\<close>

definition system_time_timestamp :: "int \<Rightarrow> string" where
  "system_time_timestamp value = (if value < 0 then [] else nat_to_string (nat value div 1000000))"

definition parse_timestamp :: "int \<Rightarrow> string \<Rightarrow> int option" where
  "parse_timestamp tmax value =
     (case parse_unsigned (2 ^ 128 - 1) value of
        None \<Rightarrow> None
      | Some millis \<Rightarrow>
          if millis < 2 ^ 64 \<and> int millis * 1000000 \<le> tmax then Some (int millis * 1000000) else None)"

section \<open>Lemmas\<close>

lemma unat_of_nat_u64: "n < 2 ^ 64 \<Longrightarrow> unat (of_nat n :: u64) = n"
  by (simp add: unat_of_nat take_bit_nat_eq_self)

lemma unat_saturating_sub: "unat (saturating_sub x y) = unat x - unat y"
  by (auto simp: saturating_sub_def unat_sub word_le_nat_alt)

lemma jitter_bound: "deterministic_jitter server maximum_seconds \<le> unat maximum_seconds * SECOND"
proof (cases "maximum_seconds = 0")
  case False
  have "saturating_add maximum_seconds 1 \<noteq> 0"
    using False saturating_add_ge [of maximum_seconds 1] by (metis word_le_0_iff)
  then have "unat (fnv1a server mod saturating_add maximum_seconds 1) < unat (saturating_add maximum_seconds 1)"
    by (simp add: unat_mod unat_gt_0)
  also have "\<dots> \<le> Suc (unat maximum_seconds)" by (simp add: unat_saturating_add)
  finally show ?thesis using False by (simp add: deterministic_jitter_def Let_def)
qed (simp add: deterministic_jitter_def)

lemma retry_multiplier: "k \<le> 8 \<Longrightarrow> unat (ucast (push_bit k 1 :: u64) :: u32) = 2 ^ k"
proof -
  assume "k \<le> 8"
  then have "k \<in> {0, 1, 2, 3, 4, 5, 6, 7, 8}" by auto
  then show ?thesis by auto
qed

lemma retry_base_eq: "retry_base failures = 300 * 2 ^ min (unat failures - 1) 8 * SECOND"
proof -
  let ?k = "min (unat failures - 1) 8"
  have k: "unat (min (saturating_sub failures 1) 8) = ?k"
    by (simp add: unat_min unat_saturating_sub)
  have "(2 :: nat) ^ ?k \<le> 2 ^ 8" by (rule power_increasing) simp_all
  then have "RETRY_INITIAL_BACKOFF * 2 ^ ?k \<le> 300 * SECOND * 2 ^ 8"
    unfolding RETRY_INITIAL_BACKOFF_def by (rule mult_left_mono) simp
  then have small: "RETRY_INITIAL_BACKOFF * 2 ^ ?k \<le> RETRY_MAX_BACKOFF" "RETRY_INITIAL_BACKOFF * 2 ^ ?k \<le> DURATION_MAX"
    by (simp_all add: RETRY_MAX_BACKOFF_def SECOND_def DURATION_MAX_def)
  have "retry_base failures = RETRY_INITIAL_BACKOFF * 2 ^ ?k"
    using small retry_multiplier [of ?k] unfolding retry_base_def Let_def k
    by (simp add: duration_checked_mul_def)
  then show ?thesis by (simp add: RETRY_INITIAL_BACKOFF_def)
qed

lemma parse_clock_bound: "parse_clock value = Inr minute \<Longrightarrow> uint minute < 1440"
proof -
  assume "parse_clock value = Inr minute"
  then obtain h m where hm: "h < 24" "m < 60" "minute = h * 60 + m"
    by (auto simp: parse_clock_def not_le split: option.splits prod.splits if_splits)
  then have h: "unat h < 24" and m: "unat m < 60" by (simp_all add: word_less_nat_alt)
  then have "unat (h * 60) = unat h * 60" by (simp add: unat_word_ariths)
  then have "unat minute = unat h * 60 + unat m" using hm h m by (simp add: unat_word_ariths)
  then have "int (unat minute) < 1440" using h m by linarith
  then show ?thesis by simp
qed

lemma cyclic_interval:
  fixes s e m :: int
  assumes "0 \<le> s" "s < 1440" "0 \<le> e" "e < 1440" "0 \<le> m" "m < 1440" "s \<noteq> e"
  shows "(m - s) mod 1440 < (e - s) mod 1440 \<longleftrightarrow> (if s < e then s \<le> m \<and> m < e else m \<ge> s \<or> m < e)"
proof -
  have wrap: "(x :: int) mod 1440 = (if x < 0 then x + 1440 else x)" if "- 1440 < x" "x < 1440" for x
  proof (cases "x < 0")
    case True
    have "x mod 1440 = (x + 1440) mod 1440" by simp
    also have "\<dots> = x + 1440" by (rule mod_pos_pos_trivial) (use that True in simp_all)
    finally show ?thesis using True by simp
  qed (use that in simp)
  from wrap [of "m - s"] wrap [of "e - s"] show ?thesis using assms by auto
qed

lemma retry_jitter_bound:
  "deterministic_jitter label (max (of_nat (retry_base failures div SECOND) div 5) 1) \<le>
     60 * 2 ^ min (unat failures - 1) 8 * SECOND"
proof -
  let ?k = "min (unat failures - 1) 8"
  let ?limit = "of_nat (300 * 2 ^ ?k) div 5 :: u64"
  have "(2 :: nat) ^ ?k \<le> 2 ^ 8" by (rule power_increasing) simp_all
  then have "unat (of_nat (300 * 2 ^ ?k) :: u64) = 300 * 2 ^ ?k" by (intro unat_of_nat_u64) simp
  then have limit: "unat ?limit = 300 * 2 ^ ?k div 5" by (simp only: unat_div) simp
  have "unat (max ?limit 1) = max (unat ?limit) 1" by (simp add: max_def word_le_nat_alt)
  also have "\<dots> = 60 * 2 ^ ?k"
  proof -
    have "300 * 2 ^ ?k div 5 = 60 * (2 :: nat) ^ ?k" "1 \<le> 60 * (2 :: nat) ^ ?k" by simp_all
    then show ?thesis unfolding limit by (simp only: max_absorb1)
  qed
  finally have "unat (max ?limit 1) = 60 * 2 ^ ?k" .
  moreover have "retry_base failures div SECOND = 300 * 2 ^ ?k" by (simp add: retry_base_eq SECOND_def)
  ultimately show ?thesis using jitter_bound [of label "max ?limit 1"] by presburger
qed

section \<open>Properties\<close>

text \<open>
  The delay before the next automatic attempt doubles with every consecutive failure from five
  minutes up, with at most a fifth of it added as jitter, never exceeds a day, and with an open
  circuit is at least the configured pause (capped at a day).
\<close>

theorem retry_delay_backoff:
  "let base = 300 * 2 ^ min (unat failures - 1) 8 * SECOND;
       delay = retry_delay server failures circuit_open circuit_open_seconds
   in base \<le> delay \<and> delay \<le> 86400 * SECOND \<and>
      delay \<le> (if circuit_open then 86400 * SECOND else base + base div 5) \<and>
      (if circuit_open then min (unat circuit_open_seconds * SECOND) (86400 * SECOND) else 0) \<le> delay"
proof -
  let ?k = "min (unat failures - 1) 8" and ?label = "server @ '':retry:'' @ nat_to_string (unat failures)"
  let ?base = "300 * 2 ^ ?k * SECOND"
  let ?jitter = "deterministic_jitter ?label (max (of_nat (retry_base failures div SECOND) div 5) 1)"
  have "(2 :: nat) ^ ?k \<le> 2 ^ 8" by (rule power_increasing) simp_all
  then have base: "?base \<le> 76800 * SECOND" "60 * 2 ^ ?k * SECOND = ?base div 5"
    by (simp_all add: SECOND_def)
  have jitter: "?jitter \<le> ?base div 5" using retry_jitter_bound [of ?label failures] unfolding base(2) .
  have "retry_delay server failures circuit_open circuit_open_seconds =
     (if circuit_open then max (min (?base + ?jitter) (86400 * SECOND)) (min (unat circuit_open_seconds * SECOND) (86400 * SECOND))
      else min (?base + ?jitter) (86400 * SECOND))"
    using base jitter unfolding retry_delay_def Let_def retry_base_eq [of failures] RETRY_MAX_BACKOFF_def
    by (simp add: duration_saturating_add_def DURATION_MAX_def SECOND_def)
  then show ?thesis using base jitter unfolding Let_def
    by (auto simp: min_def max_def SECOND_def)
qed

text \<open>
  A maintenance window that parses covers the minutes of the day from its start up to, and not
  including, its end, going around midnight when the end is before the start; a window whose ends
  coincide covers the whole day.
\<close>

theorem maintenance_window_cyclic:
  assumes "window_parse value = Inr w" and "minute < 1440"
  shows "window_contains w minute \<longleftrightarrow> mw_start_minute w = mw_end_minute w \<or>
    (uint minute - uint (mw_start_minute w)) mod 1440 < (uint (mw_end_minute w) - uint (mw_start_minute w)) mod 1440"
proof (cases "mw_start_minute w = mw_end_minute w")
  case False
  have "uint (mw_start_minute w) < 1440" "uint (mw_end_minute w) < 1440"
    using assms(1) by (auto simp: window_parse_def split: option.splits prod.splits sum.splits dest: parse_clock_bound)
  moreover have "uint (mw_start_minute w) \<noteq> uint (mw_end_minute w)" using False by (simp add: word_uint_eq_iff)
  ultimately show ?thesis
    using False assms(2) cyclic_interval [of "uint (mw_start_minute w)" "uint (mw_end_minute w)" "uint minute"]
    by (simp add: window_contains_def word_less_def word_le_def)
qed (simp add: window_contains_def)

theorem maintenance_window_cyclic_witness:
  "\<exists>w. window_parse ''22:30-06:00'' = Inr w \<and> window_contains w 1350 \<and> window_contains w 0 \<and> \<not> window_contains w 360"
proof -
  have w: "window_parse ''22:30-06:00'' = Inr \<lparr>mw_start_minute = 1350, mw_end_minute = 360\<rparr>"
    by (simp add: window_parse_def parse_clock_def parse_u16_def parse_unsigned_def parse_magnitude_def digit_value_def
        Let_def)
  from maintenance_window_cyclic [OF w, of 1350] maintenance_window_cyclic [OF w, of 0] maintenance_window_cyclic [OF w, of 360]
  show ?thesis using w by simp
qed

end
