(* ===== verification/Config.thy ===== *)
theory Config
  imports Controller
begin

text \<open>
  The index settings of the gateway (\<open>config.rs\<close>): the optional values of the configuration file,
  their defaults and bounds, and the controller configuration that a build derives from them
  (\<open>IndexManager::controller_config\<close>, \<open>initial_inventory_limits\<close> in \<open>index/traversal.rs\<close>).
  A \<open>usize\<close> is 64 bits wide. The environment variables that select the default database path are
  parameters.
\<close>

section \<open>Settings\<close>

record index_config =
  ic_database_path :: "string option"
  ic_refresh_interval_seconds :: "u64 option"
  ic_startup_grace_period_seconds :: "u64 option"
  ic_schedule_jitter_seconds :: "u64 option"
  ic_inventory_batch_size :: "u32 option"
  ic_inventory_root :: "string option"
  ic_commit_batch_size :: "u32 option"
  ic_commit_interval_ms :: "u64 option"
  ic_batch_size :: "u32 option"
  ic_item_rate_limit :: "u32 option"
  ic_burst_size :: "u32 option"
  ic_duty_cycle_percent :: "u8 option"
  ic_adaptive :: "bool option"
  ic_minimum_item_rate :: "u32 option"
  ic_minimum_batch_size :: "u32 option"
  ic_minimum_duty_cycle_percent :: "u8 option"
  ic_canary_item_rate :: "u32 option"
  ic_canary_batch_size :: "u32 option"
  ic_canary_duty_cycle_percent :: "u8 option"
  ic_adaptive_healthy_window_seconds :: "u64 option"
  ic_adaptive_recovery_delay_seconds :: "u64 option"
  ic_adaptive_max_recovery_delay_seconds :: "u64 option"
  ic_sentinel_tag :: "string option"
  ic_sentinel_probe_interval_seconds :: "u64 option"
  ic_minimum_free_space_bytes :: "u64 option"
  ic_storage_headroom_bytes :: "u64 option"
  ic_circuit_failure_threshold :: "u32 option"
  ic_circuit_open_seconds :: "u64 option"
  ic_quiet_period_seconds :: "u64 option"
  ic_health_probe_interval_seconds :: "u64 option"
  ic_health_latency_threshold_ms :: "u64 option"
  ic_adaptive_foreground_soft_latency_ms :: "u64 option"
  ic_adaptive_foreground_hard_latency_ms :: "u64 option"
  ic_operation_timeout_seconds :: "u64 option"
  ic_maintenance_windows :: "string list"
  ic_concurrency :: "u32 option"
  ic_worker_count :: "u32 option"
  ic_query_cache_capacity :: "u64 option"
  ic_max_results :: "u32 option"

record resolved_index_config =
  ri_database_path :: string
  ri_refresh_interval_seconds :: u64
  ri_startup_grace_period_seconds :: u64
  ri_schedule_jitter_seconds :: u64
  ri_inventory_batch_size :: u32
  ri_inventory_root :: "string option"
  ri_commit_batch_size :: u32
  ri_commit_interval_ms :: u64
  ri_batch_size :: u32
  ri_item_rate_limit :: u32
  ri_burst_size :: u32
  ri_duty_cycle_percent :: u8
  ri_adaptive :: bool
  ri_minimum_item_rate :: u32
  ri_minimum_batch_size :: u32
  ri_minimum_duty_cycle_percent :: u8
  ri_canary_item_rate :: u32
  ri_canary_batch_size :: u32
  ri_canary_duty_cycle_percent :: u8
  ri_adaptive_healthy_window_seconds :: u64
  ri_adaptive_recovery_delay_seconds :: u64
  ri_adaptive_max_recovery_delay_seconds :: u64
  ri_sentinel_tag :: "string option"
  ri_sentinel_probe_interval_seconds :: u64
  ri_minimum_free_space_bytes :: u64
  ri_storage_headroom_bytes :: u64
  ri_circuit_failure_threshold :: u32
  ri_circuit_open_seconds :: u64
  ri_quiet_period_seconds :: u64
  ri_health_probe_interval_seconds :: u64
  ri_health_latency_threshold_ms :: u64
  ri_adaptive_foreground_soft_latency_ms :: u64
  ri_adaptive_foreground_hard_latency_ms :: u64
  ri_operation_timeout_seconds :: u64
  ri_maintenance_windows :: "string list"
  ri_concurrency :: u32
  ri_worker_count :: u32
  ri_query_cache_capacity :: u64
  ri_max_results :: u32

definition DEFAULT_INDEX_REFRESH_INTERVAL_SECONDS :: u64 where "DEFAULT_INDEX_REFRESH_INTERVAL_SECONDS = 604800"
definition DEFAULT_INDEX_STARTUP_GRACE_PERIOD_SECONDS :: u64 where "DEFAULT_INDEX_STARTUP_GRACE_PERIOD_SECONDS = 30"
definition DEFAULT_INDEX_SCHEDULE_JITTER_SECONDS :: u64 where "DEFAULT_INDEX_SCHEDULE_JITTER_SECONDS = 21600"
definition DEFAULT_INDEX_INVENTORY_BATCH_SIZE :: u32 where "DEFAULT_INDEX_INVENTORY_BATCH_SIZE = 256"
definition DEFAULT_INDEX_COMMIT_BATCH_SIZE :: u32 where "DEFAULT_INDEX_COMMIT_BATCH_SIZE = 1024"
definition DEFAULT_INDEX_COMMIT_INTERVAL_MS :: u64 where "DEFAULT_INDEX_COMMIT_INTERVAL_MS = 1000"
definition DEFAULT_INDEX_BATCH_SIZE :: u32 where "DEFAULT_INDEX_BATCH_SIZE = 256"
definition DEFAULT_INDEX_ITEM_RATE :: u32 where "DEFAULT_INDEX_ITEM_RATE = 0"
definition DEFAULT_INDEX_BURST_SIZE :: u32 where "DEFAULT_INDEX_BURST_SIZE = 100"
definition DEFAULT_INDEX_DUTY_CYCLE_PERCENT :: u8 where "DEFAULT_INDEX_DUTY_CYCLE_PERCENT = 100"
definition DEFAULT_INDEX_ADAPTIVE :: bool where "DEFAULT_INDEX_ADAPTIVE = False"
definition DEFAULT_INDEX_MINIMUM_ITEM_RATE :: u32 where "DEFAULT_INDEX_MINIMUM_ITEM_RATE = 10"
definition DEFAULT_INDEX_MINIMUM_BATCH_SIZE :: u32 where "DEFAULT_INDEX_MINIMUM_BATCH_SIZE = 1"
definition DEFAULT_INDEX_MINIMUM_DUTY_CYCLE_PERCENT :: u8 where "DEFAULT_INDEX_MINIMUM_DUTY_CYCLE_PERCENT = 1"
definition DEFAULT_INDEX_CANARY_ITEM_RATE :: u32 where "DEFAULT_INDEX_CANARY_ITEM_RATE = 50"
definition DEFAULT_INDEX_CANARY_BATCH_SIZE :: u32 where "DEFAULT_INDEX_CANARY_BATCH_SIZE = 25"
definition DEFAULT_INDEX_CANARY_DUTY_CYCLE_PERCENT :: u8 where "DEFAULT_INDEX_CANARY_DUTY_CYCLE_PERCENT = 5"
definition DEFAULT_INDEX_ADAPTIVE_HEALTHY_WINDOW_SECONDS :: u64 where "DEFAULT_INDEX_ADAPTIVE_HEALTHY_WINDOW_SECONDS = 30"
definition DEFAULT_INDEX_ADAPTIVE_RECOVERY_DELAY_SECONDS :: u64 where "DEFAULT_INDEX_ADAPTIVE_RECOVERY_DELAY_SECONDS = 30"
definition DEFAULT_INDEX_ADAPTIVE_MAX_RECOVERY_DELAY_SECONDS :: u64 where "DEFAULT_INDEX_ADAPTIVE_MAX_RECOVERY_DELAY_SECONDS = 300"
definition DEFAULT_INDEX_SENTINEL_PROBE_INTERVAL_SECONDS :: u64 where "DEFAULT_INDEX_SENTINEL_PROBE_INTERVAL_SECONDS = 30"
definition DEFAULT_INDEX_MINIMUM_FREE_SPACE_BYTES :: u64 where "DEFAULT_INDEX_MINIMUM_FREE_SPACE_BYTES = 100 * 1024 * 1024"
definition DEFAULT_INDEX_STORAGE_HEADROOM_BYTES :: u64 where "DEFAULT_INDEX_STORAGE_HEADROOM_BYTES = 10 * 1024 * 1024"
definition DEFAULT_INDEX_CIRCUIT_FAILURE_THRESHOLD :: u32 where "DEFAULT_INDEX_CIRCUIT_FAILURE_THRESHOLD = 3"
definition DEFAULT_INDEX_CIRCUIT_OPEN_SECONDS :: u64 where "DEFAULT_INDEX_CIRCUIT_OPEN_SECONDS = 300"
definition DEFAULT_INDEX_QUIET_PERIOD_SECONDS :: u64 where "DEFAULT_INDEX_QUIET_PERIOD_SECONDS = 2"
definition DEFAULT_INDEX_HEALTH_PROBE_INTERVAL_SECONDS :: u64 where "DEFAULT_INDEX_HEALTH_PROBE_INTERVAL_SECONDS = 30"
definition DEFAULT_INDEX_HEALTH_LATENCY_THRESHOLD_MS :: u64 where "DEFAULT_INDEX_HEALTH_LATENCY_THRESHOLD_MS = 500"
definition DEFAULT_INDEX_OPERATION_TIMEOUT_SECONDS :: u64 where "DEFAULT_INDEX_OPERATION_TIMEOUT_SECONDS = 30"
definition DEFAULT_INDEX_CONCURRENCY :: u32 where "DEFAULT_INDEX_CONCURRENCY = 1"
definition DEFAULT_INDEX_WORKER_COUNT :: u32 where "DEFAULT_INDEX_WORKER_COUNT = 1"
definition MAX_INDEX_WORKER_COUNT :: u32 where "MAX_INDEX_WORKER_COUNT = 4"
definition DEFAULT_INDEX_QUERY_CACHE_CAPACITY :: u64 where "DEFAULT_INDEX_QUERY_CACHE_CAPACITY = 256"
definition DEFAULT_INDEX_MAX_RESULTS :: u32 where "DEFAULT_INDEX_MAX_RESULTS = 50"

section \<open>Resolution\<close>

definition unwrap_or :: "'a option \<Rightarrow> 'a \<Rightarrow> 'a" where
  "unwrap_or x d = (case x of Some v \<Rightarrow> v | None \<Rightarrow> d)"

definition or_else :: "'a option \<Rightarrow> 'a option \<Rightarrow> 'a option" where
  "or_else x y = (case x of Some v \<Rightarrow> Some v | None \<Rightarrow> y)"

text \<open>\<open>Ord::clamp\<close> with constant bounds in the right order.\<close>

definition clamped :: "'a::linorder \<Rightarrow> 'a \<Rightarrow> 'a \<Rightarrow> 'a" where
  "clamped lo hi x = (if x < lo then lo else if x > hi then hi else x)"

definition saturating_mul :: "'a::len word \<Rightarrow> 'a word \<Rightarrow> 'a word" where
  "saturating_mul x y = (if unat x * unat y < 2 ^ LENGTH('a) then x * y else - 1)"

text \<open>\<open>Path::join\<close> with a relative name.\<close>

definition path_join :: "bool \<Rightarrow> string \<Rightarrow> string \<Rightarrow> string" where
  "path_join is_windows dir name =
     (let sep = (if is_windows then CHR 0x5C else CHR ''/'') in
      if dir = [] \<or> last dir = CHR ''/'' \<or> is_windows \<and> last dir = sep then dir @ name
      else dir @ [sep] @ name)"

definition index_path_from :: "string option \<Rightarrow> string option \<Rightarrow> string option \<Rightarrow> bool \<Rightarrow> string option" where
  "index_path_from xdg_data_home home program_data is_windows =
     (let join = path_join is_windows in
      if is_windows then map_option (\<lambda>dir. join (join dir ''opcda-bridge'') ''index.sqlite3'') program_data
      else (case xdg_data_home of
              Some dir \<Rightarrow> Some (join (join dir ''opcda-bridge'') ''index.sqlite3'')
            | None \<Rightarrow>
                map_option (\<lambda>dir. join (join (join (join dir ''.local'') ''share'') ''opcda-bridge'') ''index.sqlite3'')
                  home))"

definition resolve_index_config ::
  "string option \<Rightarrow> string option \<Rightarrow> string option \<Rightarrow> bool \<Rightarrow> index_config \<Rightarrow> resolved_index_config" where
  "resolve_index_config xdg_data_home home program_data is_windows config =
     (let database_path =
            unwrap_or (or_else (ic_database_path config) (index_path_from xdg_data_home home program_data is_windows))
              ''opcda-bridge-index.sqlite3'';
          health_latency_threshold_ms =
            max (unwrap_or (ic_health_latency_threshold_ms config) DEFAULT_INDEX_HEALTH_LATENCY_THRESHOLD_MS) 1;
          adaptive_foreground_soft_latency_ms =
            max (unwrap_or (ic_adaptive_foreground_soft_latency_ms config)
                   (saturating_mul health_latency_threshold_ms 2)) 1;
          adaptive_foreground_hard_latency_ms =
            max (unwrap_or (ic_adaptive_foreground_hard_latency_ms config)
                   (saturating_mul health_latency_threshold_ms 4)) adaptive_foreground_soft_latency_ms
      in \<lparr>ri_database_path = database_path,
         ri_refresh_interval_seconds = unwrap_or (ic_refresh_interval_seconds config) DEFAULT_INDEX_REFRESH_INTERVAL_SECONDS,
         ri_startup_grace_period_seconds = unwrap_or (ic_startup_grace_period_seconds config) DEFAULT_INDEX_STARTUP_GRACE_PERIOD_SECONDS,
         ri_schedule_jitter_seconds = unwrap_or (ic_schedule_jitter_seconds config) DEFAULT_INDEX_SCHEDULE_JITTER_SECONDS,
         ri_inventory_batch_size = clamped 1 MAX_NATIVE_INVENTORY_BATCH_SIZE (unwrap_or (or_else (ic_inventory_batch_size config) (ic_batch_size config)) DEFAULT_INDEX_INVENTORY_BATCH_SIZE),
         ri_inventory_root = ic_inventory_root config,
         ri_commit_batch_size = max (unwrap_or (or_else (ic_commit_batch_size config) (ic_batch_size config)) DEFAULT_INDEX_COMMIT_BATCH_SIZE) 1,
         ri_commit_interval_ms = max (unwrap_or (ic_commit_interval_ms config) DEFAULT_INDEX_COMMIT_INTERVAL_MS) 1,
         ri_batch_size = clamped 1 MAX_NATIVE_INVENTORY_BATCH_SIZE (unwrap_or (ic_batch_size config) DEFAULT_INDEX_BATCH_SIZE),
         ri_item_rate_limit = unwrap_or (ic_item_rate_limit config) DEFAULT_INDEX_ITEM_RATE,
         ri_burst_size = max (unwrap_or (ic_burst_size config) DEFAULT_INDEX_BURST_SIZE) 1,
         ri_duty_cycle_percent = clamped 1 100 (unwrap_or (ic_duty_cycle_percent config) DEFAULT_INDEX_DUTY_CYCLE_PERCENT),
         ri_adaptive = unwrap_or (ic_adaptive config) DEFAULT_INDEX_ADAPTIVE,
         ri_minimum_item_rate = max (unwrap_or (ic_minimum_item_rate config) DEFAULT_INDEX_MINIMUM_ITEM_RATE) 1,
         ri_minimum_batch_size = clamped 1 MAX_NATIVE_INVENTORY_BATCH_SIZE (unwrap_or (ic_minimum_batch_size config) DEFAULT_INDEX_MINIMUM_BATCH_SIZE),
         ri_minimum_duty_cycle_percent = clamped 1 100 (unwrap_or (ic_minimum_duty_cycle_percent config) DEFAULT_INDEX_MINIMUM_DUTY_CYCLE_PERCENT),
         ri_canary_item_rate = max (unwrap_or (ic_canary_item_rate config) DEFAULT_INDEX_CANARY_ITEM_RATE) 1,
         ri_canary_batch_size = clamped 1 MAX_NATIVE_INVENTORY_BATCH_SIZE (unwrap_or (ic_canary_batch_size config) DEFAULT_INDEX_CANARY_BATCH_SIZE),
         ri_canary_duty_cycle_percent = clamped 1 100 (unwrap_or (ic_canary_duty_cycle_percent config) DEFAULT_INDEX_CANARY_DUTY_CYCLE_PERCENT),
         ri_adaptive_healthy_window_seconds = max (unwrap_or (ic_adaptive_healthy_window_seconds config) DEFAULT_INDEX_ADAPTIVE_HEALTHY_WINDOW_SECONDS) 1,
         ri_adaptive_recovery_delay_seconds = max (unwrap_or (ic_adaptive_recovery_delay_seconds config) DEFAULT_INDEX_ADAPTIVE_RECOVERY_DELAY_SECONDS) 1,
         ri_adaptive_max_recovery_delay_seconds = max (unwrap_or (ic_adaptive_max_recovery_delay_seconds config) DEFAULT_INDEX_ADAPTIVE_MAX_RECOVERY_DELAY_SECONDS) 1,
         ri_sentinel_tag = ic_sentinel_tag config,
         ri_sentinel_probe_interval_seconds = max (unwrap_or (ic_sentinel_probe_interval_seconds config) DEFAULT_INDEX_SENTINEL_PROBE_INTERVAL_SECONDS) 1,
         ri_minimum_free_space_bytes = unwrap_or (ic_minimum_free_space_bytes config) DEFAULT_INDEX_MINIMUM_FREE_SPACE_BYTES,
         ri_storage_headroom_bytes = unwrap_or (ic_storage_headroom_bytes config) DEFAULT_INDEX_STORAGE_HEADROOM_BYTES,
         ri_circuit_failure_threshold = max (unwrap_or (ic_circuit_failure_threshold config) DEFAULT_INDEX_CIRCUIT_FAILURE_THRESHOLD) 1,
         ri_circuit_open_seconds = max (unwrap_or (ic_circuit_open_seconds config) DEFAULT_INDEX_CIRCUIT_OPEN_SECONDS) 1,
         ri_quiet_period_seconds = unwrap_or (ic_quiet_period_seconds config) DEFAULT_INDEX_QUIET_PERIOD_SECONDS,
         ri_health_probe_interval_seconds = max (unwrap_or (ic_health_probe_interval_seconds config) DEFAULT_INDEX_HEALTH_PROBE_INTERVAL_SECONDS) 1,
         ri_health_latency_threshold_ms = health_latency_threshold_ms,
         ri_adaptive_foreground_soft_latency_ms = adaptive_foreground_soft_latency_ms,
         ri_adaptive_foreground_hard_latency_ms = adaptive_foreground_hard_latency_ms,
         ri_operation_timeout_seconds = max (unwrap_or (ic_operation_timeout_seconds config) DEFAULT_INDEX_OPERATION_TIMEOUT_SECONDS) 1,
         ri_maintenance_windows = ic_maintenance_windows config,
         ri_concurrency = max (unwrap_or (ic_concurrency config) DEFAULT_INDEX_CONCURRENCY) 1,
         ri_worker_count = clamped 1 MAX_INDEX_WORKER_COUNT (unwrap_or (ic_worker_count config) DEFAULT_INDEX_WORKER_COUNT),
         ri_query_cache_capacity = max (unwrap_or (ic_query_cache_capacity config) DEFAULT_INDEX_QUERY_CACHE_CAPACITY) 1,
         ri_max_results = max (unwrap_or (ic_max_results config) DEFAULT_INDEX_MAX_RESULTS) 1\<rparr>)"

section \<open>The controller of a build\<close>

definition controller_config_of :: "resolved_index_config \<Rightarrow> controller_config" where
  "controller_config_of settings =
     \<lparr>cfg_floor = \<lparr>item_rate_per_second = ri_minimum_item_rate settings, batch_size = ri_minimum_batch_size settings,
        duty_cycle_percent = ri_minimum_duty_cycle_percent settings\<rparr>,
      cfg_canary = \<lparr>item_rate_per_second = ri_canary_item_rate settings, batch_size = ri_canary_batch_size settings,
        duty_cycle_percent = ri_canary_duty_cycle_percent settings\<rparr>,
      cfg_ceiling = \<lparr>item_rate_per_second = ri_item_rate_limit settings, batch_size = ri_inventory_batch_size settings,
        duty_cycle_percent = ri_duty_cycle_percent settings\<rparr>,
      cfg_unlimited_item_rate = (ri_item_rate_limit settings = 0),
      cfg_healthy_window = unat (max (ri_adaptive_healthy_window_seconds settings) 1) * SECOND,
      cfg_recovery_delay = unat (max (ri_adaptive_recovery_delay_seconds settings) 1) * SECOND,
      cfg_maximum_recovery_delay = unat (max (ri_adaptive_max_recovery_delay_seconds settings) 1) * SECOND,
      cfg_foreground_latency_soft_ms = max (ri_adaptive_foreground_soft_latency_ms settings) 1,
      cfg_foreground_latency_hard_ms =
        max (ri_adaptive_foreground_hard_latency_ms settings) (max (ri_adaptive_foreground_soft_latency_ms settings) 1)\<rparr>"

definition initial_inventory_limits :: "instant \<Rightarrow> instant \<Rightarrow> resolved_index_config \<Rightarrow> inventory_limits option" where
  "initial_inventory_limits imax now settings =
     (if \<not> ri_adaptive settings
      then Some \<lparr>item_rate_per_second = ri_item_rate_limit settings, batch_size = ri_inventory_batch_size settings,
                 duty_cycle_percent = ri_duty_cycle_percent settings\<rparr>
      else map_option ctl_limits (controller_new imax (controller_config_of settings) now))"

section \<open>Lemmas\<close>

definition settings_ok :: "resolved_index_config \<Rightarrow> bool" where
  "settings_ok s \<longleftrightarrow>
     1 \<le> ri_inventory_batch_size s \<and> ri_inventory_batch_size s \<le> MAX_NATIVE_INVENTORY_BATCH_SIZE \<and>
     1 \<le> ri_batch_size s \<and> ri_batch_size s \<le> MAX_NATIVE_INVENTORY_BATCH_SIZE \<and>
     1 \<le> ri_commit_batch_size s \<and> 1 \<le> ri_commit_interval_ms s \<and> 1 \<le> ri_burst_size s \<and>
     1 \<le> ri_duty_cycle_percent s \<and> ri_duty_cycle_percent s \<le> 100 \<and>
     1 \<le> ri_minimum_item_rate s \<and> 1 \<le> ri_canary_item_rate s \<and>
     1 \<le> ri_circuit_failure_threshold s \<and> 1 \<le> ri_circuit_open_seconds s \<and>
     1 \<le> ri_operation_timeout_seconds s \<and> 1 \<le> ri_concurrency s \<and>
     1 \<le> ri_worker_count s \<and> ri_worker_count s \<le> MAX_INDEX_WORKER_COUNT \<and>
     1 \<le> ri_query_cache_capacity s \<and> 1 \<le> ri_max_results s \<and>
     1 \<le> ri_adaptive_foreground_soft_latency_ms s \<and>
     ri_adaptive_foreground_soft_latency_ms s \<le> ri_adaptive_foreground_hard_latency_ms s"

lemma clamped_bounds: "lo \<le> hi \<Longrightarrow> lo \<le> clamped lo hi x \<and> clamped lo hi x \<le> hi"
  by (auto simp: clamped_def)

lemma clamped_clamp: "lo \<le> hi \<Longrightarrow> clamp lo hi x = Some (clamped lo hi x)"
  by (auto simp: clamp_def clamped_def)

lemma const_ords [simp]: "(1 :: u32) \<le> MAX_NATIVE_INVENTORY_BATCH_SIZE" "(1 :: u32) \<le> MAX_INDEX_WORKER_COUNT"
  by (simp_all add: MAX_NATIVE_INVENTORY_BATCH_SIZE_def MAX_INDEX_WORKER_COUNT_def word_le_nat_alt)

lemma resolved_ok: "settings_ok (resolve_index_config xdg home program_data is_windows config)"
  by (simp add: settings_ok_def resolve_index_config_def Let_def clamped_bounds max.coboundedI2)

lemma initial_limits_ok:
  assumes ok: "settings_ok settings"
  shows "case initial_inventory_limits imax now settings of
      None \<Rightarrow> imax < now + cfg_healthy_window (controller_config_of settings)
    | Some limits \<Rightarrow> 1 \<le> batch_size limits \<and> batch_size limits \<le> 1000 \<and>
        1 \<le> duty_cycle_percent limits \<and> duty_cycle_percent limits \<le> 100"
proof -
  obtain c where c: "normalized (controller_config_of settings) = Some c" "config_ok c"
    using normalized_exists by blast
  have window: "cfg_healthy_window c = cfg_healthy_window (controller_config_of settings)"
    using c(1) by (auto simp: normalized_def controller_config_of_def MILLISECOND_def SECOND_def max_def word_le_nat_alt
        split: Option.bind_splits if_splits)
  have limits: "1 \<le> batch_size (cfg_canary c)" "batch_size (cfg_canary c) \<le> 1000"
    "1 \<le> duty_cycle_percent (cfg_canary c)" "duty_cycle_percent (cfg_canary c) \<le> 100"
    using c(2) by (auto simp: config_ok_def limits_le_def)
  show ?thesis
    using ok limits c(1) window
    by (auto simp: initial_inventory_limits_def controller_new_def instant_add_def settings_ok_def
        MAX_NATIVE_INVENTORY_BATCH_SIZE_def split: option.splits)
qed

section \<open>Properties\<close>


text \<open>
  With adaptive pacing, an item rate limit below the minimum item rate is not respected: the
  ceiling of the controller is raised to the minimum, so a build starts, and always runs, faster
  than the configured limit. With the default minimum of ten items per second this happens for
  every limit from one to nine.
\<close>

theorem minimum_overrides_item_rate_limit:
  assumes "0 < ri_item_rate_limit settings" and "ri_item_rate_limit settings < ri_minimum_item_rate settings"
    and "ri_adaptive settings" and "initial_inventory_limits imax now settings = Some limits"
  shows "item_rate_per_second limits = ri_minimum_item_rate settings"
proof -
  obtain c where c: "normalized (controller_config_of settings) = Some c" "limits = cfg_canary c"
    using assms(3,4) by (auto simp: initial_inventory_limits_def controller_new_def split: Option.bind_splits)
  have nz: "ri_item_rate_limit settings \<noteq> 0" and "max (ri_minimum_item_rate settings) 1 = ri_minimum_item_rate settings"
    using assms(1,2) by (auto simp: max_def word_less_nat_alt word_le_nat_alt)
  moreover from this have "max (ri_item_rate_limit settings) (ri_minimum_item_rate settings) = ri_minimum_item_rate settings"
    using assms(2) by (simp add: max_absorb2 less_imp_le)
  ultimately have rates: "item_rate_per_second low = ri_minimum_item_rate settings"
      "item_rate_per_second high = ri_minimum_item_rate settings"
    if "normalized_floor (controller_config_of settings) = Some low"
      "normalized_ceiling (controller_config_of settings) low = Some high" for low high
    using that nz by (auto simp: normalized_floor_def normalized_ceiling_def controller_config_of_def bind_eq_Some_conv)
  obtain low high where lh: "normalized_floor (controller_config_of settings) = Some low"
    "normalized_ceiling (controller_config_of settings) low = Some high"
    "normalized_canary (controller_config_of settings) low high = Some (cfg_canary c)"
    using c(1) by (auto simp: normalized_def bind_eq_Some_conv)
  have "clamp x x y = Some x" for x y :: u32 by (simp add: clamp_def)
  then obtain batch duty where
    "\<lparr>item_rate_per_second = ri_minimum_item_rate settings, batch_size = batch, duty_cycle_percent = duty\<rparr> = cfg_canary c"
    using lh(3) rates [OF lh(1,2)] nz
    by (auto simp: normalized_canary_def controller_config_of_def bind_eq_Some_conv)
  then show ?thesis using c(2) by (metis inventory_limits.select_convs(1))
qed

definition demo_settings :: resolved_index_config where
  "demo_settings = resolve_index_config None None None False
     \<lparr>ic_database_path = None, ic_refresh_interval_seconds = None, ic_startup_grace_period_seconds = None,
      ic_schedule_jitter_seconds = None, ic_inventory_batch_size = None, ic_inventory_root = None,
      ic_commit_batch_size = None, ic_commit_interval_ms = None, ic_batch_size = None, ic_item_rate_limit = Some 5,
      ic_burst_size = None, ic_duty_cycle_percent = None, ic_adaptive = Some True, ic_minimum_item_rate = None,
      ic_minimum_batch_size = None, ic_minimum_duty_cycle_percent = None, ic_canary_item_rate = None,
      ic_canary_batch_size = None, ic_canary_duty_cycle_percent = None, ic_adaptive_healthy_window_seconds = None,
      ic_adaptive_recovery_delay_seconds = None, ic_adaptive_max_recovery_delay_seconds = None, ic_sentinel_tag = None,
      ic_sentinel_probe_interval_seconds = None, ic_minimum_free_space_bytes = None, ic_storage_headroom_bytes = None,
      ic_circuit_failure_threshold = None, ic_circuit_open_seconds = None, ic_quiet_period_seconds = None,
      ic_health_probe_interval_seconds = None, ic_health_latency_threshold_ms = None,
      ic_adaptive_foreground_soft_latency_ms = None, ic_adaptive_foreground_hard_latency_ms = None,
      ic_operation_timeout_seconds = None, ic_maintenance_windows = [], ic_concurrency = None, ic_worker_count = None,
      ic_query_cache_capacity = None, ic_max_results = None\<rparr>"

theorem minimum_overrides_item_rate_limit_witness:
  "\<exists>limits. initial_inventory_limits (10 ^ 12) 0 demo_settings = Some limits \<and> item_rate_per_second limits = 10 \<and>
     ri_item_rate_limit demo_settings = 5"
proof -
  have s: "ri_item_rate_limit demo_settings = 5" "ri_minimum_item_rate demo_settings = 10" "ri_adaptive demo_settings"
    "ri_adaptive_healthy_window_seconds demo_settings = 30"
    by (simp_all add: demo_settings_def resolve_index_config_def Let_def unwrap_or_def max_def word_le_nat_alt
        DEFAULT_INDEX_MINIMUM_ITEM_RATE_def DEFAULT_INDEX_ADAPTIVE_HEALTHY_WINDOW_SECONDS_def)
  obtain limits where limits: "initial_inventory_limits (10 ^ 12) 0 demo_settings = Some limits"
  proof (cases "initial_inventory_limits (10 ^ 12) 0 demo_settings")
    case None
    then have "10 ^ 12 < cfg_healthy_window (controller_config_of demo_settings)"
      using initial_limits_ok [of demo_settings "10 ^ 12" 0] resolved_ok by (simp add: demo_settings_def)
    then show ?thesis using s by (simp add: controller_config_of_def SECOND_def max_def word_le_nat_alt)
  qed (rule that)
  from minimum_overrides_item_rate_limit [OF _ _ s(3) limits] s limits show ?thesis by simp
qed

end
