(* ===== verification/Foreground.thy ===== *)
theory Foreground
  imports Controller
begin

text \<open>
  The foreground metrics of \<open>index/status.rs\<close>: the sliding window of request latencies a server's
  foreground traffic leaves behind, the percentiles the adaptive controller reads from it, and the
  freshness tests of its failure marks.
\<close>

section \<open>Model\<close>

record foreground_metrics =
  fm_active_count :: u64
  fm_operations :: u64
  fm_errors :: u64
  fm_bad_quality :: u64
  fm_latency_p50_ms :: "u64 option"
  fm_latency_p95_ms :: "u64 option"
  fm_latency_max_ms :: "u64 option"
  fm_last_error :: bool
  fm_last_bad_quality :: bool

definition foreground_metrics_default :: foreground_metrics where
  "foreground_metrics_default =
     \<lparr>fm_active_count = 0, fm_operations = 0, fm_errors = 0, fm_bad_quality = 0, fm_latency_p50_ms = None,
      fm_latency_p95_ms = None, fm_latency_max_ms = None, fm_last_error = False, fm_last_bad_quality = False\<rparr>"

record foreground_metric_state =
  fs_latencies_ms :: "u64 list"
  fs_operations :: u64
  fs_errors :: u64
  fs_bad_quality :: u64
  fs_last_error :: bool
  fs_last_bad_quality :: bool
  fs_last_health_failure_at :: "instant option"
  fs_last_bad_quality_at :: "instant option"

definition foreground_metric_state_default :: foreground_metric_state where
  "foreground_metric_state_default =
     \<lparr>fs_latencies_ms = [], fs_operations = 0, fs_errors = 0, fs_bad_quality = 0, fs_last_error = False,
      fs_last_bad_quality = False, fs_last_health_failure_at = None, fs_last_bad_quality_at = None\<rparr>"

definition WINDOW :: nat where "WINDOW = 128"

definition record_health_at ::
  "instant \<Rightarrow> u64 \<Rightarrow> bool \<Rightarrow> bool \<Rightarrow> bool \<Rightarrow> foreground_metric_state \<Rightarrow> foreground_metric_state" where
  "record_health_at now latency_ms error bad_quality health_failure st =
     (let pushed = fs_latencies_ms st @ [latency_ms]
      in st\<lparr>fs_latencies_ms := (if length pushed > WINDOW then tl pushed else pushed),
            fs_operations := saturating_add (fs_operations st) 1,
            fs_errors := fs_errors st + of_bool error,
            fs_bad_quality := fs_bad_quality st + of_bool bad_quality,
            fs_last_error := error,
            fs_last_bad_quality := bad_quality,
            fs_last_health_failure_at := (if health_failure then Some now else fs_last_health_failure_at st),
            fs_last_bad_quality_at := (if bad_quality then Some now else fs_last_bad_quality_at st)\<rparr>)"

definition recent_health_failure :: "instant \<Rightarrow> duration \<Rightarrow> foreground_metric_state \<Rightarrow> bool" where
  "recent_health_failure now max_age st =
     is_some_and (fs_last_health_failure_at st) (\<lambda>recorded. now - recorded \<le> max_age)"

definition recent_bad_quality :: "instant \<Rightarrow> duration \<Rightarrow> foreground_metric_state \<Rightarrow> bool" where
  "recent_bad_quality now max_age st =
     is_some_and (fs_last_bad_quality_at st) (\<lambda>recorded. now - recorded \<le> max_age)"

definition percentile :: "'a list \<Rightarrow> nat \<Rightarrow> 'a option" where
  "percentile values percent =
     (if values = [] then None
      else let rank = max ((length values * percent + 99) div 100) 1;
               index = min (rank - 1) (length values - 1)
           in if index < length values then Some (values ! index) else None)"

definition last_opt :: "'a list \<Rightarrow> 'a option" where
  "last_opt xs = (if xs = [] then None else Some (last xs))"

definition snapshot :: "u64 \<Rightarrow> foreground_metric_state \<Rightarrow> foreground_metrics" where
  "snapshot active_count st =
     (let sorted = sort (fs_latencies_ms st)
      in \<lparr>fm_active_count = active_count, fm_operations = fs_operations st, fm_errors = fs_errors st,
          fm_bad_quality = fs_bad_quality st, fm_latency_p50_ms = percentile sorted 50,
          fm_latency_p95_ms = percentile sorted 95, fm_latency_max_ms = last_opt sorted,
          fm_last_error = fs_last_error st, fm_last_bad_quality = fs_last_bad_quality st\<rparr>)"

section \<open>Percentiles\<close>

text \<open>
  The nearest-rank definition: at least \<open>percent\<close> of a hundred values are at most \<open>v\<close>, and fewer are
  below it.
\<close>

definition nearest_rank :: "'a::linorder list \<Rightarrow> nat \<Rightarrow> 'a \<Rightarrow> bool" where
  "nearest_rank values percent v \<longleftrightarrow>
     v \<in> set values \<and> length values * percent \<le> 100 * length (filter (\<lambda>x. x \<le> v) values) \<and>
     100 * length (filter (\<lambda>x. x < v) values) < length values * percent"

lemma length_filter_le_nth:
  assumes "sorted xs" and "i < length xs"
  shows "Suc i \<le> length (filter (\<lambda>x. x \<le> xs ! i) xs)"
proof -
  have "length (filter (\<lambda>x. x \<le> xs ! i) (take (Suc i) xs)) = length (take (Suc i) xs)"
    using assms by (subst filter_True) (auto simp: in_set_conv_nth less_Suc_eq_le sorted_iff_nth_mono)
  then have "Suc i = length (filter (\<lambda>x. x \<le> xs ! i) (take (Suc i) xs))" using assms(2) by simp
  also have "\<dots> \<le> length (filter (\<lambda>x. x \<le> xs ! i) (take (Suc i) xs @ drop (Suc i) xs))"
    unfolding filter_append by simp
  finally show ?thesis by simp
qed

lemma length_filter_less_nth:
  assumes "sorted xs" and "i < length xs"
  shows "length (filter (\<lambda>x. x < xs ! i) xs) \<le> i"
proof -
  have "filter (\<lambda>x. x < xs ! i) (drop i xs) = []"
    using assms by (auto simp: filter_empty_conv in_set_conv_nth not_less sorted_iff_nth_mono)
  then have "filter (\<lambda>x. x < xs ! i) (take i xs @ drop i xs) = filter (\<lambda>x. x < xs ! i) (take i xs)"
    unfolding filter_append by simp
  then show ?thesis using length_filter_le [of "\<lambda>x. x < xs ! i" "take i xs"] assms(2) by simp
qed

lemma ceil_bounds:
  assumes "q = (m + 99) div 100" and "1 \<le> q"
  shows "m \<le> 100 * Suc (q - 1) \<and> 100 * (q - 1) < (m :: nat)"
proof -
  have "m + 99 = 100 * q + (m + 99) mod 100" "(m + 99) mod 100 < 100" using assms(1) by simp_all
  moreover obtain k where "q = Suc k" using assms(2) by (cases q) simp_all
  ultimately show ?thesis by auto
qed

lemma percentile_sort:
  fixes xs :: "'a::linorder list"
  assumes "xs \<noteq> []" and "0 < percent" and "percent \<le> 100"
  shows "\<exists>v. percentile (sort xs) percent = Some v \<and> nearest_rank xs percent v"
proof -
  let ?n = "length xs" and ?s = "sort xs"
  define i where "i = min (max ((?n * percent + 99) div 100) 1 - 1) (?n - 1)"
  have n: "0 < ?n" using assms(1) by simp
  have "?n * percent \<le> ?n * 100" using assms(3) by (intro mult_le_mono2)
  then have le: "(?n * percent + 99) div 100 \<le> ?n" by linarith
  have "0 < ?n * percent" using n assms(2) by simp
  then have ge: "1 \<le> (?n * percent + 99) div 100" by linarith
  have i: "i = (?n * percent + 99) div 100 - 1" "i < ?n"
    unfolding i_def using n le ge by linarith+
  then have bounds: "?n * percent \<le> 100 * Suc i" "100 * i < ?n * percent"
    using ceil_bounds [OF refl ge] by simp_all
  have counts: "length (filter P xs) = length (filter P ?s)" for P
    by (metis filter_sort length_sort)
  have "Suc i \<le> length (filter (\<lambda>x. x \<le> ?s ! i) xs)" "length (filter (\<lambda>x. x < ?s ! i) xs) \<le> i"
    unfolding counts using length_filter_le_nth [of ?s i] length_filter_less_nth [of ?s i] i(2) by simp_all
  then have "nearest_rank xs percent (?s ! i)"
    unfolding nearest_rank_def using bounds nth_mem [of i ?s] i(2) by auto
  moreover have "percentile ?s percent = Some (?s ! i)"
    using n i(2) by (auto simp: percentile_def Let_def i_def simp flip: length_0_conv)
  ultimately show ?thesis by blast
qed

lemma last_opt_sort:
  fixes xs :: "'a::linorder list"
  assumes "xs \<noteq> []"
  shows "last_opt (sort xs) = Some (Max (set xs))"
proof -
  have ne: "sort xs \<noteq> []" using assms by (metis set_empty set_sort)
  have "x \<le> last (sort xs)" if "x \<in> set (sort xs)" for x
    using that ne by (metis append_butlast_last_id sorted_append sorted_sort Un_iff empty_iff insert_iff
        list.set(1) list.simps(15) order_refl set_append)
  then have "last (sort xs) = Max (set (sort xs))" using ne by (intro Max_eqI [symmetric]) (auto simp del: set_sort)
  then show ?thesis using ne by (simp add: last_opt_def)
qed

section \<open>The window\<close>

lemma latencies_window:
  "fs_latencies_ms (record_health_at now l e b h st) = rev (take WINDOW (rev (fs_latencies_ms st @ [l])))"
  if "length (fs_latencies_ms st) \<le> WINDOW"
proof (cases "length (fs_latencies_ms st) = WINDOW")
  case True
  then obtain x xs where "fs_latencies_ms st = x # xs" "length xs = 127"
    unfolding WINDOW_def by (cases "fs_latencies_ms st") auto
  then show ?thesis by (simp add: record_health_at_def Let_def WINDOW_def)
qed (use that in \<open>simp add: record_health_at_def Let_def\<close>)

type_synonym foreground_operation = "instant \<times> u64 \<times> bool \<times> bool \<times> bool"

definition latency_of :: "foreground_operation \<Rightarrow> u64" where
  "latency_of op = fst (snd op)"

definition record_all :: "foreground_operation list \<Rightarrow> foreground_metric_state" where
  "record_all ops = fold (\<lambda>(now, l, e, b, h). record_health_at now l e b h) ops foreground_metric_state_default"

definition last_n :: "nat \<Rightarrow> 'a list \<Rightarrow> 'a list" where
  "last_n n xs = rev (take n (rev xs))"

lemma last_n_snoc: "last_n n (last_n n xs @ [x]) = last_n n (xs @ [x])"
  by (cases n) (simp_all add: last_n_def min_def)

lemma length_last_n: "length (last_n n xs) \<le> n"
  by (simp add: last_n_def)

lemma record_all_snoc: "record_all (ops @ [(now, l, e, b, h)]) = record_health_at now l e b h (record_all ops)"
  by (simp add: record_all_def)

lemma record_all_window:
  "fs_latencies_ms (record_all ops) = last_n WINDOW (map latency_of ops) \<and>
   unat (fs_operations (record_all ops)) = min (length ops) (2 ^ 64 - 1)"
proof (induction ops rule: rev_induct)
  case (snoc op ops)
  obtain now l e b h where op: "op = (now, l, e, b, h)" by (cases op)
  have "length (fs_latencies_ms (record_all ops)) \<le> WINDOW" using snoc.IH length_last_n by metis
  then have "fs_latencies_ms (record_all (ops @ [op])) = last_n WINDOW (map latency_of (ops @ [op]))"
    using snoc.IH last_n_snoc [of WINDOW "map latency_of ops" l]
    unfolding op record_all_snoc by (simp add: latencies_window last_n_def [of _ "_ @ _"] latency_of_def [of "(_, _)"])
  moreover have "fs_operations (record_all (ops @ [op])) = saturating_add (fs_operations (record_all ops)) 1"
    unfolding op record_all_snoc by (simp add: record_health_at_def Let_def)
  ultimately show ?case using snoc.IH by (simp add: unat_saturating_add)
qed (simp add: record_all_def foreground_metric_state_default_def last_n_def)

text \<open>
  After any sequence of foreground operations the snapshot reports, over the latencies of the
  last 128 of them, their nearest-rank median and 95th percentile and their maximum, and it reports
  nothing only before the first operation.
\<close>

theorem snapshot_recent_window:
  "let recent = last_n 128 (map latency_of ops); m = snapshot active (record_all ops)
   in if ops = [] then fm_latency_p50_ms m = None \<and> fm_latency_p95_ms m = None \<and> fm_latency_max_ms m = None
      else (\<exists>p50 p95 top. fm_latency_p50_ms m = Some p50 \<and> nearest_rank recent 50 p50 \<and>
              fm_latency_p95_ms m = Some p95 \<and> nearest_rank recent 95 p95 \<and>
              fm_latency_max_ms m = Some top \<and> top = Max (set recent))"
proof -
  let ?recent = "last_n 128 (map latency_of ops)"
  have recent: "fs_latencies_ms (record_all ops) = ?recent"
    using record_all_window [of ops] by (simp add: WINDOW_def)
  show ?thesis
  proof (cases "ops = []")
    case True
    then show ?thesis using recent by (simp add: snapshot_def percentile_def last_opt_def last_n_def)
  next
    case False
    then have ne: "?recent \<noteq> []" by (simp add: last_n_def)
    then have "last_opt (sort ?recent) = Some (Max (set ?recent))" by (rule last_opt_sort)
    then show ?thesis
      using False percentile_sort [OF ne, of 50] percentile_sort [OF ne, of 95]
      by (auto simp: Let_def snapshot_def recent)
  qed
qed

end
