(* ===== verification/Manager.thy ===== *)
theory Manager
  imports Query Timing Config Foreground
begin

text \<open>
  The runtime of the index manager (\<open>IndexManager\<close> of \<open>index.rs\<close>, with its operations in
  \<open>index/status.rs\<close>, \<open>index/enrollment.rs\<close>, \<open>index/scheduler.rs\<close> and \<open>index/traversal.rs\<close>):
  reservation of a build, its control, foreground requests and pause overlays, the end of a build with
  its retry state, operator actions and deletion.

  Each lock of the manager is a field. A panic can only happen under the runtime lock (a deadline
  that cannot be represented), so that lock alone has a poison flag; what it protects is unreachable
  from then on. The controls of running inventories belong to the native client: the model keeps the
  calls they receive.
\<close>

section \<open>State\<close>

datatype health_probe_state = HealthUnavailable | HealthHealthy | HealthUnhealthy

record host_metrics =
  hm_cpu_percent :: "f64 option"
  hm_available_memory_percent :: "f64 option"
  hm_disk_active_percent :: "f64 option"
  hm_disk_queue :: "f64 option"
  hm_process_working_set_bytes :: "u64 option"
  hm_process_private_bytes :: "u64 option"
  hm_process_read_bytes_per_second :: "u64 option"
  hm_process_write_bytes_per_second :: "u64 option"
  hm_disk_free_bytes :: "u64 option"

record storage_diagnostics =
  sd_main_bytes :: u64
  sd_wal_bytes :: u64
  sd_shm_bytes :: u64
  sd_free_bytes :: "u64 option"
  sd_last_commit_latency_ms :: "u64 option"

record scheduler_diagnostics =
  sch_next_refresh_at :: "string option"
  sch_last_attempt_at :: "string option"
  sch_last_success_at :: "string option"
  sch_last_success_duration_ms :: "u64 option"
  sch_retry_after :: "string option"
  sch_consecutive_failures :: u32
  sch_circuit_open :: bool

datatype index_state =
  IndexNotIndexed | IndexPartial | IndexReady | IndexStale | IndexRefreshing | IndexPromoting | IndexFailed
| IndexDeleting

record index_status =
  is_server :: string
  is_state :: index_state
  is_auto_refresh_enabled :: bool
  is_active_generation :: u64
  is_entry_count :: u64
  is_unique_item_count :: u64
  is_started_at :: "string option"
  is_completed_at :: "string option"
  is_last_error :: "string option"
  is_database_bytes :: u64
  is_organization :: namespace_organization
  is_source :: browse_source
  is_progress :: "inventory_progress option"
  is_effective_limits :: "inventory_limits option"
  is_controller_state :: "controller_state option"
  is_pause_reason :: "pause_reason option"
  is_recovery_deadline :: "string option"
  is_foreground_metrics :: foreground_metrics
  is_host_metrics :: host_metrics
  is_health :: health_probe_state
  is_sentinel_configured :: bool
  is_storage :: storage_diagnostics
  is_scheduler :: scheduler_diagnostics

record indexed_search =
  se_matches :: "indexed_match list"
  se_has_more :: bool
  se_status :: index_status

record runtime_build =
  rb_control :: "nat option"
  rb_progress :: "inventory_progress option"
  rb_started_at :: string
  rb_foreground_users :: u64
  rb_operator_paused :: bool
  rb_operator_cancelled_until :: "int option"
  rb_quiet_until :: "instant option"
  rb_effective_limits :: "inventory_limits option"
  rb_controller_state :: "controller_state option"
  rb_pause_reason :: "pause_reason option"
  rb_recovery_deadline :: "instant option"
  rb_last_commit_latency_ms :: "u64 option"

record runtime_state =
  rs_build :: "runtime_build option"
  rs_retry_after :: "int option"
  rs_last_error :: "string option"
  rs_consecutive_failures :: u32
  rs_circuit_open :: bool
  rs_health :: health_probe_state
  rs_sentinel_checked_at :: "instant option"

definition runtime_state_default :: runtime_state where
  "runtime_state_default =
     \<lparr>rs_build = None, rs_retry_after = None, rs_last_error = None, rs_consecutive_failures = 0,
      rs_circuit_open = False, rs_health = HealthUnavailable, rs_sentinel_checked_at = None\<rparr>"

record pause_overlay_state =
  po_maintenance :: bool
  po_health :: bool

definition pause_overlay_default :: pause_overlay_state where
  "pause_overlay_default = \<lparr>po_maintenance = False, po_health = False\<rparr>"

datatype control_call = PauseCall | ResumeCall | CancelCall

record index_manager =
  im_db :: index_db
  im_build_owners :: "string \<Rightarrow> nat option"
  im_build_locks :: "string set"
  im_active_builds :: "string set"
  im_runtime :: "string \<Rightarrow> runtime_state option"
  im_runtime_poisoned :: bool
  im_pending_cancels :: "string set"
  im_promoting :: "string set"
  im_deleting :: "string set"
  im_deletion_errors :: "string \<Rightarrow> string option"
  im_foreground_users :: "string \<Rightarrow> u64 option"
  im_pause_overlays :: "string \<Rightarrow> pause_overlay_state option"
  im_foreground_metrics :: "string \<Rightarrow> foreground_metric_state option"
  im_commit_latency_recorded_at :: "string \<Rightarrow> instant option"
  im_cache :: "indexed_search query_cache"
  im_cleanup_requested :: "string set"
  im_shutting_down :: bool
  im_next_owner :: nat
  im_calls :: "(nat \<times> control_call) list"

text \<open>
  The circumstances of a call: the clocks and their last representable times, the failures of
  the database reads and of the statements of each write, the free space, the outcome of taking the build file lock, the text
  of a database error, whether the caller runs on the \<open>tokio\<close> runtime, and the local time of day.
\<close>

record call_env =
  ce_imax :: instant
  ce_tmax :: int
  ce_instant :: instant
  ce_system :: int
  ce_read_error :: "nat \<Rightarrow> db_error option"
  ce_faults :: "nat \<Rightarrow> faults"
  ce_free_bytes :: "u64 option"
  ce_lock_error :: "string option"
  ce_error_text :: "db_error \<Rightarrow> string"
  ce_in_runtime :: bool
  ce_local_hour :: u32
  ce_local_minute :: u32

datatype manager_error = DatabaseError db_error | ManagerError string

type_synonym 'a manager_result = "(manager_error + 'a) \<times> index_manager"

definition manager_new :: "u64 \<Rightarrow> index_db \<Rightarrow> index_manager" where
  "manager_new query_cache_capacity db =
     \<lparr>im_db = db, im_build_owners = Map.empty, im_build_locks = {}, im_active_builds = {},
      im_runtime = Map.empty, im_runtime_poisoned = False, im_pending_cancels = {}, im_promoting = {},
      im_deleting = {}, im_deletion_errors = Map.empty, im_foreground_users = Map.empty,
      im_pause_overlays = Map.empty, im_foreground_metrics = Map.empty,
      im_commit_latency_recorded_at = Map.empty,
      im_cache = \<lparr>qc_values = [], qc_order = [], qc_capacity = unat (max query_cache_capacity 1)\<rparr>,
      im_cleanup_requested = {}, im_shutting_down = False, im_next_owner = 0, im_calls = []\<rparr>"

section \<open>Access to the runtime\<close>

definition build_of :: "string \<Rightarrow> index_manager \<Rightarrow> runtime_build option" where
  "build_of server m = Option.bind (im_runtime m server) rs_build"

definition entry_or_default :: "string \<Rightarrow> index_manager \<Rightarrow> runtime_state" where
  "entry_or_default server m = (case im_runtime m server of None \<Rightarrow> runtime_state_default | Some st \<Rightarrow> st)"

definition put_state :: "string \<Rightarrow> runtime_state \<Rightarrow> index_manager \<Rightarrow> index_manager" where
  "put_state server st m = m\<lparr>im_runtime := (im_runtime m)(server := Some st)\<rparr>"

definition update_state :: "string \<Rightarrow> (runtime_state \<Rightarrow> runtime_state) \<Rightarrow> index_manager \<Rightarrow> index_manager" where
  "update_state server f m =
     m\<lparr>im_runtime := (im_runtime m)(server := map_option f (im_runtime m server))\<rparr>"

definition update_build :: "string \<Rightarrow> (runtime_build \<Rightarrow> runtime_build) \<Rightarrow> index_manager \<Rightarrow> index_manager" where
  "update_build server f = update_state server (\<lambda>st. st\<lparr>rs_build := map_option f (rs_build st)\<rparr>)"

definition call_control :: "nat \<Rightarrow> control_call \<Rightarrow> index_manager \<Rightarrow> index_manager" where
  "call_control control call m = m\<lparr>im_calls := (control, call) # im_calls m\<rparr>"

definition schedule_cleanup :: "call_env \<Rightarrow> string \<Rightarrow> index_manager \<Rightarrow> index_manager" where
  "schedule_cleanup env server m =
     (if ce_in_runtime env then m\<lparr>im_cleanup_requested := insert server (im_cleanup_requested m)\<rparr> else m)"

section \<open>Foreground requests and pauses\<close>

definition record_foreground_operation_with_health ::
  "call_env \<Rightarrow> string \<Rightarrow> duration \<Rightarrow> bool \<Rightarrow> bool \<Rightarrow> bool \<Rightarrow> index_manager \<Rightarrow> index_manager" where
  "record_foreground_operation_with_health env server elapsed error bad_quality health_failure m =
     (let st = (case im_foreground_metrics m server of
                  None \<Rightarrow> foreground_metric_state_default | Some st \<Rightarrow> st);
          millis = elapsed div MILLISECOND;
          latency_ms = (if millis < 2 ^ 64 then of_nat millis else - 1)
      in m\<lparr>im_foreground_metrics := (im_foreground_metrics m)(server \<mapsto>
             record_health_at (ce_instant env) latency_ms error bad_quality health_failure st)\<rparr>)"

definition record_foreground_operation ::
  "call_env \<Rightarrow> string \<Rightarrow> duration \<Rightarrow> bool \<Rightarrow> bool \<Rightarrow> index_manager \<Rightarrow> index_manager" where
  "record_foreground_operation env server elapsed error bad_quality =
     record_foreground_operation_with_health env server elapsed error bad_quality error"

definition pause_reason_of :: "call_env \<Rightarrow> pause_overlay_state \<Rightarrow> runtime_build \<Rightarrow> pause_reason option" where
  "pause_reason_of env overlay build =
     (let foreground = rb_foreground_users build > 0 \<or>
            is_some_and (rb_quiet_until build) (\<lambda>deadline. deadline > ce_instant env)
      in if rb_operator_paused build then Some Operator
         else if foreground then Some Foreground
         else if po_maintenance overlay then Some Maintenance
         else if po_health overlay then Some OpcHealth
         else (case rb_controller_state build of Some (Paused reason) \<Rightarrow> Some reason | _ \<Rightarrow> None))"

definition overlay_of :: "string \<Rightarrow> index_manager \<Rightarrow> pause_overlay_state" where
  "overlay_of server m = (case im_pause_overlays m server of None \<Rightarrow> pause_overlay_default | Some o' \<Rightarrow> o')"

definition reconcile_pause_state :: "call_env \<Rightarrow> string \<Rightarrow> index_manager \<Rightarrow> index_manager" where
  "reconcile_pause_state env server m =
     (if im_runtime_poisoned m then m
      else case build_of server m of
        None \<Rightarrow> m
      | Some build \<Rightarrow>
          let reason = pause_reason_of env (overlay_of server m) build;
              m' = update_build server (rb_pause_reason_update (\<lambda>_. reason)) m
          in (case rb_control build of
                None \<Rightarrow> m'
              | Some control \<Rightarrow> call_control control (if reason \<noteq> None then PauseCall else ResumeCall) m'))"

definition set_pause_overlay ::
  "call_env \<Rightarrow> string \<Rightarrow> bool option \<Rightarrow> bool option \<Rightarrow> index_manager \<Rightarrow> index_manager" where
  "set_pause_overlay env server maintenance health m =
     (let st = overlay_of server m;
          st' = \<lparr>po_maintenance = (case maintenance of None \<Rightarrow> po_maintenance st | Some v \<Rightarrow> v),
                 po_health = (case health of None \<Rightarrow> po_health st | Some v \<Rightarrow> v)\<rparr>;
          kept = (if \<not> po_maintenance st' \<and> \<not> po_health st' then None else Some st')
      in reconcile_pause_state env server (m\<lparr>im_pause_overlays := (im_pause_overlays m)(server := kept)\<rparr>))"

definition clear_pause_overlays :: "string \<Rightarrow> index_manager \<Rightarrow> index_manager" where
  "clear_pause_overlays server m = m\<lparr>im_pause_overlays := (im_pause_overlays m)(server := None)\<rparr>"

definition users_of :: "string \<Rightarrow> index_manager \<Rightarrow> u64" where
  "users_of server m = (case im_foreground_users m server of None \<Rightarrow> 0 | Some n \<Rightarrow> n)"

definition foreground_guard :: "call_env \<Rightarrow> string \<Rightarrow> index_manager \<Rightarrow> index_manager" where
  "foreground_guard env server m =
     (let foreground_users = saturating_add (users_of server m) 1;
          m1 = m\<lparr>im_foreground_users := (im_foreground_users m)(server \<mapsto> foreground_users)\<rparr>;
          m2 = (if im_runtime_poisoned m1 then m1
                else update_build server
                  (\<lambda>b. b\<lparr>rb_foreground_users := foreground_users, rb_quiet_until := None\<rparr>) m1)
      in reconcile_pause_state env server m2)"

definition decrement_foreground_users :: "string \<Rightarrow> index_manager \<Rightarrow> index_manager" where
  "decrement_foreground_users server m =
     (let remaining = saturating_sub (users_of server m) 1
      in m\<lparr>im_foreground_users := (im_foreground_users m)(server := if remaining = 0 then None else Some remaining)\<rparr>)"

definition update_runtime_after_foreground_end ::
  "call_env \<Rightarrow> string \<Rightarrow> duration \<Rightarrow> index_manager \<Rightarrow> index_manager" where
  "update_runtime_after_foreground_end env server quiet_period m =
     (if im_runtime_poisoned m then m
      else case build_of server m of
        None \<Rightarrow> m
      | Some _ \<Rightarrow>
          let m1 = update_build server (rb_foreground_users_update (\<lambda>_. users_of server m)) m
          in if users_of server m = 0
             then (case instant_add (ce_imax env) (ce_instant env) quiet_period of
                     None \<Rightarrow> m1\<lparr>im_runtime_poisoned := True\<rparr>
                   | Some deadline \<Rightarrow> update_build server (rb_quiet_until_update (\<lambda>_. Some deadline)) m1)
             else m1)"

definition quiet_expired :: "call_env \<Rightarrow> string \<Rightarrow> index_manager \<Rightarrow> bool" where
  "quiet_expired env server m \<longleftrightarrow>
     \<not> im_runtime_poisoned m \<and>
     is_some_and (build_of server m) (\<lambda>build. rb_foreground_users build = 0 \<and>
       is_some_and (rb_quiet_until build) (\<lambda>deadline. deadline \<le> ce_instant env))"

definition clear_expired_foreground_quiet_period :: "call_env \<Rightarrow> string \<Rightarrow> index_manager \<Rightarrow> bool \<times> index_manager" where
  "clear_expired_foreground_quiet_period env server m =
     (if quiet_expired env server m then (True, update_build server (rb_quiet_until_update (\<lambda>_. None)) m)
      else (False, m))"

definition foreground_end :: "resolved_index_config \<Rightarrow> call_env \<Rightarrow> string \<Rightarrow> index_manager \<Rightarrow> index_manager" where
  "foreground_end cfg env server m =
     (let quiet_period = unat (ri_quiet_period_seconds cfg) * SECOND;
          m1 = decrement_foreground_users server m;
          m2 = update_runtime_after_foreground_end env server quiet_period m1;
          m3 = reconcile_pause_state env server m2
      in if ce_in_runtime env then m3
         else reconcile_pause_state env server (snd (clear_expired_foreground_quiet_period env server m3)))"

text \<open>The task spawned by \<open>foreground_end\<close>, after its sleep.\<close>

definition quiet_timer :: "call_env \<Rightarrow> string \<Rightarrow> index_manager \<Rightarrow> index_manager" where
  "quiet_timer env server m =
     (case clear_expired_foreground_quiet_period env server m of
        (True, m') \<Rightarrow> reconcile_pause_state env server m'
      | (False, m') \<Rightarrow> m')"

section \<open>Reserving a build\<close>

definition persist_time :: "int option \<Rightarrow> int option \<Rightarrow> int option" where
  "persist_time a b = (case (a, b) of (None, y) \<Rightarrow> y | (x, None) \<Rightarrow> x | (Some x, Some y) \<Rightarrow> Some (max x y))"

definition runtime_lock_error :: manager_error where
  "runtime_lock_error = ManagerError ''index runtime lock poisoned''"

definition database_read :: "call_env \<Rightarrow> nat \<Rightarrow> (index_db \<Rightarrow> 'a db_result) \<Rightarrow> index_manager \<Rightarrow> manager_error + 'a" where
  "database_read env k operation m =
     (case ce_read_error env k of
        Some e \<Rightarrow> Inl (DatabaseError e)
      | None \<Rightarrow> (case operation (im_db m) of Inl e \<Rightarrow> Inl (DatabaseError e) | Inr x \<Rightarrow> Inr x))"

definition database_write :: "(index_db \<Rightarrow> 'a db_result \<times> index_db) \<Rightarrow> index_manager \<Rightarrow> 'a manager_result" where
  "database_write operation m =
     (case operation (im_db m) of
        (Inl e, db) \<Rightarrow> (Inl (DatabaseError e), m\<lparr>im_db := db\<rparr>)
      | (Inr x, db) \<Rightarrow> (Inr x, m\<lparr>im_db := db\<rparr>))"

definition load_persisted_retry_state :: "call_env \<Rightarrow> nat \<Rightarrow> string \<Rightarrow> index_manager \<Rightarrow> unit manager_result" where
  "load_persisted_retry_state env k server m =
     (case database_read env k (retry_state (ce_tmax env) server) m of
        Inl e \<Rightarrow> (Inl e, m)
      | Inr (retry_after, failures, circuit_open) \<Rightarrow>
          if im_runtime_poisoned m then (Inl runtime_lock_error, m)
          else
            let st = entry_or_default server m
            in if rs_build st = None
               then let after = persist_time (rs_retry_after st) retry_after
                    in (Inr (), put_state server
                          (st\<lparr>rs_retry_after := after, rs_consecutive_failures := failures,
                              rs_circuit_open := circuit_open \<and> is_some_and after (\<lambda>retry. ce_system env < retry)\<rparr>) m)
               else (Inr (), put_state server st m))"

definition persist_retry_state :: "call_env \<Rightarrow> string \<Rightarrow> index_manager \<Rightarrow> unit manager_result" where
  "persist_retry_state env server m =
     (if im_runtime_poisoned m then (Inl runtime_lock_error, m)
      else
        let (retry_after, failures, circuit_open) =
              (case im_runtime m server of
                 None \<Rightarrow> (None, 0, False)
               | Some st \<Rightarrow> (rs_retry_after st, rs_consecutive_failures st, rs_circuit_open st))
        in database_write (set_retry_state (ce_faults env 1) server retry_after failures circuit_open) m)"

definition insufficient_space :: "resolved_index_config \<Rightarrow> u64 option \<Rightarrow> bool" where
  "insufficient_space cfg free_bytes =
     is_some_and free_bytes
       (\<lambda>free. free < saturating_add (ri_minimum_free_space_bytes cfg) (ri_storage_headroom_bytes cfg))"

definition insufficient_space_text :: "resolved_index_config \<Rightarrow> u64 option \<Rightarrow> string" where
  "insufficient_space_text cfg free_bytes =
     ''insufficient free space for namespace index ('' @
     nat_to_string (unat (case free_bytes of None \<Rightarrow> 0 | Some free \<Rightarrow> free)) @ '' bytes available, '' @
     nat_to_string (unat (saturating_add (ri_minimum_free_space_bytes cfg) (ri_storage_headroom_bytes cfg))) @
     '' required)''"

text \<open>
  \<open>reserve_refresh_build\<close> up to its read of the foreground users, which it returns (\<open>None\<close> when the
  build is not wanted).
\<close>

definition reserve_checks ::
  "resolved_index_config \<Rightarrow> call_env \<Rightarrow> string \<Rightarrow> bool \<Rightarrow> index_manager \<Rightarrow> u64 option manager_result" where
  "reserve_checks cfg env server automatic m =
     (if im_shutting_down m then (Inr None, m)
      else case database_read env 0 (\<lambda>db. Inr (enrollment server db)) m of
        Inl e \<Rightarrow> (Inl e, m)
      | Inr enrolled \<Rightarrow>
          if server \<in> im_deleting m \<or> enrolled = None \<or> automatic \<and> enrolled = Some False then (Inr None, m)
          else (case database_read env 1 (\<lambda>_. Inr ()) m of
            Inl e \<Rightarrow> (Inl e, m)
          | Inr _ \<Rightarrow>
              if insufficient_space cfg (ce_free_bytes env)
              then (Inl (ManagerError (insufficient_space_text cfg (ce_free_bytes env))), m)
              else (case load_persisted_retry_state env 2 server m of
                (Inl e, m1) \<Rightarrow> (Inl e, m1)
              | (Inr _, m1) \<Rightarrow> (Inr (Some (users_of server m1)), m1))))"

definition new_build :: "call_env \<Rightarrow> u64 \<Rightarrow> runtime_build" where
  "new_build env foreground_users =
     \<lparr>rb_control = None, rb_progress = None, rb_started_at = system_time_timestamp (max 0 (ce_system env)),
      rb_foreground_users = foreground_users, rb_operator_paused = False, rb_operator_cancelled_until = None,
      rb_quiet_until = None, rb_effective_limits = None, rb_controller_state = None, rb_pause_reason = None,
      rb_recovery_deadline = None, rb_last_commit_latency_ms = None\<rparr>"

definition concurrency_reached :: "resolved_index_config \<Rightarrow> index_manager \<Rightarrow> bool" where
  "concurrency_reached cfg m \<longleftrightarrow> unat (max (ri_concurrency cfg) 1) \<le> card (im_active_builds m)"

text \<open>
  The rest of \<open>reserve_refresh_build\<close>, under the runtime lock. Its second look at the number of active
  builds sees what the first one saw, as the managers of other processes have registries of their own.
\<close>

definition reserve_commit ::
  "resolved_index_config \<Rightarrow> call_env \<Rightarrow> string \<Rightarrow> bool \<Rightarrow> u64 \<Rightarrow> index_manager \<Rightarrow> nat option manager_result" where
  "reserve_commit cfg env server force foreground_users m0 =
     (if im_runtime_poisoned m0 then (Inl runtime_lock_error, m0)
      else
        let st = entry_or_default server m0;
            m = put_state server st m0;
            backing_off = (\<not> force \<and> is_some_and (rs_retry_after st) (\<lambda>retry. ce_system env < retry));
            circuit_open = (\<not> force \<and> rs_circuit_open st)
        in if rs_build st \<noteq> None \<or> backing_off \<or> circuit_open then (Inr None, m)
           else if concurrency_reached cfg m
           then (Inl (ManagerError ''namespace index build concurrency limit reached''), m)
           else if server \<in> im_build_locks m
           then (Inl (ManagerError (''namespace index build lock is already held in this process for server '' @ server)), m)
           else (case ce_lock_error env of
             Some e \<Rightarrow> (Inl (ManagerError e), m)
           | None \<Rightarrow>
               if im_build_owners m server \<noteq> None
               then (Inl (ManagerError (''index build owner is already registered in this process for server '' @ server)), m)
               else
                 let ownership = im_next_owner m
                 in (Inr (Some ownership),
                     put_state server (st\<lparr>rs_build := Some (new_build env foreground_users), rs_last_error := None\<rparr>)
                       (m\<lparr>im_next_owner := ownership + 1,
                          im_build_owners := (im_build_owners m)(server \<mapsto> ownership),
                          im_active_builds := insert server (im_active_builds m),
                          im_build_locks := insert server (im_build_locks m),
                          im_commit_latency_recorded_at := (im_commit_latency_recorded_at m)(server := None)\<rparr>))))"

definition reserve_refresh_build ::
  "resolved_index_config \<Rightarrow> call_env \<Rightarrow> string \<Rightarrow> bool \<Rightarrow> bool \<Rightarrow> index_manager \<Rightarrow> nat option manager_result" where
  "reserve_refresh_build cfg env server force automatic m =
     (case reserve_checks cfg env server automatic m of
        (Inl e, m1) \<Rightarrow> (Inl e, m1)
      | (Inr None, m1) \<Rightarrow> (Inr None, m1)
      | (Inr (Some foreground_users), m1) \<Rightarrow> reserve_commit cfg env server force foreground_users m1)"

section \<open>The end of a build\<close>

text \<open>The deadline is \<open>None\<close> where \<open>SystemTime\<close> cannot represent it: the addition panics.\<close>

definition retry_deadline :: "resolved_index_config \<Rightarrow> call_env \<Rightarrow> string \<Rightarrow> runtime_state \<Rightarrow> int option" where
  "retry_deadline cfg env server st =
     (let retry = ce_system env + int (retry_delay server (rs_consecutive_failures st) (rs_circuit_open st)
                                         (ri_circuit_open_seconds cfg))
      in if retry \<le> ce_tmax env then Some retry else None)"

definition update_runtime_after_build ::
  "resolved_index_config \<Rightarrow> call_env \<Rightarrow> string \<Rightarrow> string option \<Rightarrow> index_manager \<Rightarrow> index_manager" where
  "update_runtime_after_build cfg env server error m =
     (case im_runtime m server of
        None \<Rightarrow> m
      | Some st \<Rightarrow>
          let cancellation_deadline = Option.bind (rs_build st) rb_operator_cancelled_until;
              st1 = st\<lparr>rs_last_error := error\<rparr>
          in if error \<noteq> None
             then let failures = saturating_add (rs_consecutive_failures st1) 1;
                      st2 = st1\<lparr>rs_consecutive_failures := failures,
                                rs_circuit_open := failures \<ge> ri_circuit_failure_threshold cfg\<rparr>
                  in (case retry_deadline cfg env server st2 of
                        None \<Rightarrow> m\<lparr>im_runtime_poisoned := True\<rparr>
                      | Some retry \<Rightarrow>
                          put_state server (st2\<lparr>rs_retry_after := persist_time (Some retry) cancellation_deadline\<rparr>) m)
             else (case cancellation_deadline of
                     Some deadline \<Rightarrow> put_state server (st1\<lparr>rs_retry_after := Some deadline\<rparr>) m
                   | None \<Rightarrow> put_state server
                       (st1\<lparr>rs_retry_after := None, rs_consecutive_failures := 0, rs_circuit_open := False\<rparr>) m))"

definition build_completion_is_current ::
  "string \<Rightarrow> nat option \<Rightarrow> nat option \<Rightarrow> index_manager \<Rightarrow> bool" where
  "build_completion_is_current server control ownership m =
     (case ownership of
        Some token \<Rightarrow>
          im_build_owners m server = Some token \<and>
          (case control of
             Some c \<Rightarrow> (case build_of server m of None \<Rightarrow> True | Some build \<Rightarrow> rb_control build = Some c)
           | None \<Rightarrow> True)
      | None \<Rightarrow>
          (case control of
             Some c \<Rightarrow> Option.bind (build_of server m) rb_control = Some c
           | None \<Rightarrow> build_of server m \<noteq> None))"

definition remove_build_owner :: "string \<Rightarrow> nat option \<Rightarrow> index_manager \<Rightarrow> index_manager" where
  "remove_build_owner server ownership m =
     (if ownership = None \<or> im_build_owners m server = ownership
      then m\<lparr>im_build_owners := (im_build_owners m)(server := None)\<rparr> else m)"

definition clear_active_build :: "string \<Rightarrow> index_manager \<Rightarrow> index_manager" where
  "clear_active_build server m = m\<lparr>im_active_builds := im_active_builds m - {server}\<rparr>"

definition clear_build_lock :: "string \<Rightarrow> index_manager \<Rightarrow> index_manager" where
  "clear_build_lock server m = m\<lparr>im_build_locks := im_build_locks m - {server}\<rparr>"

definition clear_pending_cancel :: "string \<Rightarrow> index_manager \<Rightarrow> index_manager" where
  "clear_pending_cancel server m = m\<lparr>im_pending_cancels := im_pending_cancels m - {server}\<rparr>"

definition take_build :: "string \<Rightarrow> index_manager \<Rightarrow> index_manager" where
  "take_build server m =
     (if im_runtime_poisoned m then m else update_state server (rs_build_update (\<lambda>_. None)) m)"

definition persistence_failure :: "call_env \<Rightarrow> manager_error \<Rightarrow> string" where
  "persistence_failure env e = ''unable to persist index scheduling deadline: '' @
     (case e of DatabaseError d \<Rightarrow> ce_error_text env d | ManagerError s \<Rightarrow> s)"

definition finalize_owned_build :: "call_env \<Rightarrow> string \<Rightarrow> nat option \<Rightarrow> index_manager \<Rightarrow> index_manager" where
  "finalize_owned_build env server ownership m =
     (let m1 = (case persist_retry_state env server m of
                  (Inl e, m') \<Rightarrow>
                    if im_runtime_poisoned m' then m'
                    else update_state server (rs_last_error_update (\<lambda>_. Some (persistence_failure env e))) m'
                | (Inr _, m') \<Rightarrow> m');
          m2 = clear_pause_overlays server m1;
          m3 = remove_build_owner server ownership m2;
          m4 = clear_build_lock server (clear_active_build server m3);
          m5 = take_build server m4
      in clear_pending_cancel server (schedule_cleanup env server m5))"

definition finish_build_inner_with_retry_policy ::
  "resolved_index_config \<Rightarrow> call_env \<Rightarrow> string \<Rightarrow> nat option \<Rightarrow> nat option \<Rightarrow> string option \<Rightarrow> bool \<Rightarrow>
     index_manager \<Rightarrow> index_manager" where
  "finish_build_inner_with_retry_policy cfg env server control ownership error preserve_retry_state m =
     (if im_runtime_poisoned m then m
      else if build_completion_is_current server control ownership m
      then let m1 = (if preserve_retry_state then update_state server (rs_last_error_update (\<lambda>_. error)) m
                     else update_runtime_after_build cfg env server error m)
           in if im_runtime_poisoned m1 then m1 else finalize_owned_build env server ownership m1
      else m)"

definition finish_build_inner ::
  "resolved_index_config \<Rightarrow> call_env \<Rightarrow> string \<Rightarrow> nat option \<Rightarrow> nat option \<Rightarrow> string option \<Rightarrow> index_manager \<Rightarrow> index_manager" where
  "finish_build_inner cfg env server control ownership error =
     finish_build_inner_with_retry_policy cfg env server control ownership error False"

definition finish_build_owned ::
  "resolved_index_config \<Rightarrow> call_env \<Rightarrow> string \<Rightarrow> nat \<Rightarrow> string option \<Rightarrow> index_manager \<Rightarrow> index_manager" where
  "finish_build_owned cfg env server ownership error =
     finish_build_inner cfg env server None (Some ownership) error"

definition finish_build_for_control_owned ::
  "resolved_index_config \<Rightarrow> call_env \<Rightarrow> string \<Rightarrow> nat \<Rightarrow> nat \<Rightarrow> string option \<Rightarrow> index_manager \<Rightarrow> index_manager" where
  "finish_build_for_control_owned cfg env server control ownership error =
     finish_build_inner cfg env server (Some control) (Some ownership) error"

definition finish_build_for_control_owned_interrupted ::
  "resolved_index_config \<Rightarrow> call_env \<Rightarrow> string \<Rightarrow> nat \<Rightarrow> nat \<Rightarrow> string \<Rightarrow> index_manager \<Rightarrow> index_manager" where
  "finish_build_for_control_owned_interrupted cfg env server control ownership error =
     finish_build_inner_with_retry_policy cfg env server (Some control) (Some ownership) (Some error) True"

definition record_start_failure ::
  "resolved_index_config \<Rightarrow> call_env \<Rightarrow> string \<Rightarrow> nat \<Rightarrow> string \<Rightarrow> index_manager \<Rightarrow> unit manager_result" where
  "record_start_failure cfg env server ownership error m =
     (let (persisted, m1) = database_write (record_failed_attempt (ce_faults env 0) server error
            (system_time_timestamp (max 0 (ce_system env)))) m
      in (persisted, finish_build_owned cfg env server ownership (Some error) m1))"

section \<open>Starting a build\<close>

definition take_pending_cancel :: "string \<Rightarrow> index_manager \<Rightarrow> bool \<times> index_manager" where
  "take_pending_cancel server m =
     (server \<in> im_pending_cancels m, m\<lparr>im_pending_cancels := im_pending_cancels m - {server}\<rparr>)"

text \<open>
  What the control of a new inventory answers: whether it was cancelled before and after its pacing
  was set, and the error of setting it.
\<close>

record control_answers =
  ca_cancelled_before :: bool
  ca_pacing_error :: "string option"
  ca_cancelled_after :: bool

definition abandon_attach ::
  "resolved_index_config \<Rightarrow> call_env \<Rightarrow> string \<Rightarrow> nat \<Rightarrow> nat \<Rightarrow> control_answers \<Rightarrow> index_manager \<Rightarrow> bool \<times> index_manager" where
  "abandon_attach cfg env server ownership control answers m =
     (let (pending, m1) = take_pending_cancel server m;
          cancelled = (pending \<or> \<not> ca_cancelled_before answers \<and> ca_cancelled_after answers);
          m2 = call_control control CancelCall m1
      in (cancelled, if cancelled then finish_build_owned cfg env server ownership None m2 else m2))"

definition attach_refresh_control ::
  "resolved_index_config \<Rightarrow> call_env \<Rightarrow> string \<Rightarrow> nat \<Rightarrow> nat \<Rightarrow> control_answers \<Rightarrow> index_manager \<Rightarrow> bool option manager_result" where
  "attach_refresh_control cfg env server ownership control answers m =
     (case ca_pacing_error answers of
        Some error \<Rightarrow>
          let message = ''unable to apply initial inventory pacing: '' @ error;
              (cancelled, m1) = abandon_attach cfg env server ownership control answers m
          in if cancelled then (Inr None, m1)
             else (case record_start_failure cfg env server ownership message m1 of
               (Inl e, m2) \<Rightarrow> (Inl e, m2)
             | (Inr _, m2) \<Rightarrow> (Inl (ManagerError message), m2))
      | None \<Rightarrow>
          if im_runtime_poisoned m \<or> build_of server m = None
          then let error = (if im_runtime_poisoned m then ''index runtime lock poisoned''
                            else ''index build disappeared before start'');
                   (cancelled, m1) = abandon_attach cfg env server ownership control answers m
               in if cancelled then (Inr None, m1)
                  else (Inl (ManagerError error), finish_build_owned cfg env server ownership (Some error) m1)
          else let (pending, m1) = take_pending_cancel server
                     (update_build server (rb_control_update (\<lambda>_. Some control)) m)
               in if pending
                  then (Inr None, finish_build_for_control_owned cfg env server control ownership None
                          (call_control control CancelCall m1))
                  else (Inr (Some (ca_cancelled_before answers)), m1))"

section \<open>Progress of a build\<close>

definition update_runtime_controller ::
  "call_env \<Rightarrow> string \<Rightarrow> inventory_limits \<Rightarrow> controller_state \<Rightarrow> instant option \<Rightarrow> index_manager \<Rightarrow> index_manager" where
  "update_runtime_controller env server limits st recovery_deadline m =
     (if im_runtime_poisoned m \<or> build_of server m = None then m
      else reconcile_pause_state env server
        (update_build server (\<lambda>b. b\<lparr>rb_effective_limits := Some limits, rb_controller_state := Some st,
            rb_recovery_deadline := recovery_deadline\<rparr>) m))"

definition update_runtime_progress :: "string \<Rightarrow> inventory_progress \<Rightarrow> index_manager \<Rightarrow> index_manager" where
  "update_runtime_progress server progress m =
     (if im_runtime_poisoned m then m else update_build server (rb_progress_update (\<lambda>_. Some progress)) m)"

definition update_health_state :: "call_env \<Rightarrow> string \<Rightarrow> health_probe_state \<Rightarrow> index_manager \<Rightarrow> index_manager" where
  "update_health_state env server health m =
     (if im_runtime_poisoned m then m
      else update_state server
        (\<lambda>st. st\<lparr>rs_health := health, rs_sentinel_checked_at := Some (ce_instant env)\<rparr>) m)"

definition build_can_resume :: "call_env \<Rightarrow> runtime_build \<Rightarrow> pause_overlay_state \<Rightarrow> bool" where
  "build_can_resume env build overlays \<longleftrightarrow>
     rb_foreground_users build = 0 \<and> \<not> rb_operator_paused build \<and>
     (case rb_quiet_until build of None \<Rightarrow> True | Some deadline \<Rightarrow> deadline \<le> ce_instant env) \<and>
     \<not> po_maintenance overlays \<and> \<not> po_health overlays \<and>
     (case rb_controller_state build of Some (Paused _) \<Rightarrow> False | _ \<Rightarrow> True)"

section \<open>Operator actions\<close>

datatype index_control_action = ActPause | ActResume | ActCancel | ActEnableAutoRefresh | ActDisableAutoRefresh | ActDelete

datatype index_operation_error =
  UnknownServer string | NotEnrolled string | Deleting string | Internal manager_error

definition resume_build :: "call_env \<Rightarrow> runtime_build \<Rightarrow> runtime_build" where
  "resume_build env build =
     (let b = build\<lparr>rb_operator_paused := False\<rparr>
      in if rb_foreground_users b = 0 \<and> is_some_and (rb_quiet_until b) (\<lambda>deadline. deadline \<le> ce_instant env)
         then b\<lparr>rb_quiet_until := None\<rparr> else b)"

definition cancel_build :: "string \<Rightarrow> runtime_build \<Rightarrow> index_manager \<Rightarrow> index_manager" where
  "cancel_build server build m =
     (case rb_control build of
        Some control \<Rightarrow> call_control control CancelCall m
      | None \<Rightarrow> m\<lparr>im_pending_cancels := insert server (im_pending_cancels m)\<rparr>)"

definition refresh_period :: "resolved_index_config \<Rightarrow> string \<Rightarrow> duration" where
  "refresh_period cfg server =
     duration_saturating_add (unat (max (ri_refresh_interval_seconds cfg) 1) * SECOND)
       (deterministic_jitter server (ri_schedule_jitter_seconds cfg))"

definition cancellation_deadline :: "resolved_index_config \<Rightarrow> call_env \<Rightarrow> string \<Rightarrow> runtime_build \<Rightarrow> int option" where
  "cancellation_deadline cfg env server build =
     (case rb_operator_cancelled_until build of
        Some deadline \<Rightarrow> Some deadline
      | None \<Rightarrow> let deadline = ce_system env + int (refresh_period cfg server)
                in if deadline \<le> ce_tmax env then Some deadline else None)"

definition apply_control_action ::
  "resolved_index_config \<Rightarrow> call_env \<Rightarrow> string \<Rightarrow> index_control_action \<Rightarrow> index_manager \<Rightarrow> unit manager_result" where
  "apply_control_action cfg env server action m =
     (if im_runtime_poisoned m then (Inl runtime_lock_error, m)
      else case im_runtime m server of
        None \<Rightarrow> (Inr (), m)
      | Some st \<Rightarrow>
          (case rs_build st of
             None \<Rightarrow> (Inr (), m)
           | Some build \<Rightarrow>
               (case action of
                  ActPause \<Rightarrow> (Inr (), update_build server (rb_operator_paused_update (\<lambda>_. True)) m)
                | ActResume \<Rightarrow> (Inr (), update_build server (resume_build env) m)
                | ActCancel \<Rightarrow>
                    (case cancellation_deadline cfg env server build of
                       None \<Rightarrow> (Inl (ManagerError ''operator cancellation deadline overflow''), m)
                     | Some deadline \<Rightarrow>
                         let st' = st\<lparr>rs_build := Some (build\<lparr>rb_operator_cancelled_until := Some deadline\<rparr>),
                                     rs_retry_after := persist_time (rs_retry_after st) (Some deadline)\<rparr>
                         in database_write (set_retry_state (ce_faults env 0) server (rs_retry_after st')
                              (rs_consecutive_failures st') (rs_circuit_open st'))
                              (put_state server st' (cancel_build server build m)))
                | _ \<Rightarrow> (Inr (), m))))"

definition reject_if_deleting :: "string \<Rightarrow> index_manager \<Rightarrow> index_operation_error + unit" where
  "reject_if_deleting server m = (if server \<in> im_deleting m then Inl (Deleting server) else Inr ())"

definition require_enrollment :: "call_env \<Rightarrow> string \<Rightarrow> index_manager \<Rightarrow> index_operation_error + unit" where
  "require_enrollment env server m =
     (case reject_if_deleting server m of
        Inl e \<Rightarrow> Inl e
      | Inr _ \<Rightarrow>
          (case database_read env 0 (\<lambda>db. Inr (is_enrolled server db)) m of
             Inl e \<Rightarrow> Inl (Internal e)
           | Inr enrolled \<Rightarrow> if enrolled then Inr () else Inl (NotEnrolled server)))"

definition change_auto_refresh ::
  "call_env \<Rightarrow> string \<Rightarrow> bool \<Rightarrow> index_manager \<Rightarrow> (index_operation_error + unit) \<times> index_manager" where
  "change_auto_refresh env server enabled m =
     (case reject_if_deleting server m of
        Inl e \<Rightarrow> (Inl e, m)
      | Inr _ \<Rightarrow>
          (case database_write (set_auto_refresh (ce_faults env 0) server enabled
                  (system_time_timestamp (max 0 (ce_system env)))) m of
             (Inl e, m1) \<Rightarrow> (Inl (Internal e), m1)
           | (Inr changed, m1) \<Rightarrow> (if changed then Inr () else Inl (NotEnrolled server), m1)))"

section \<open>Deletion\<close>

text \<open>
  \<open>delete_index\<close> reserves the deletion and starts a task. The task cancels the build, waits until it
  is no longer active, takes the build file lock (\<open>delete_lock_error\<close> when it cannot), deletes the
  rows, and ends the reservation.
\<close>

definition delete_index_request ::
  "call_env \<Rightarrow> string \<Rightarrow> index_manager \<Rightarrow> (index_operation_error + bool) \<times> index_manager" where
  "delete_index_request env server m =
     (case reject_if_deleting server m of
        Inl e \<Rightarrow> (Inl e, m)
      | Inr _ \<Rightarrow>
          (case database_read env 0 (\<lambda>db. Inr (is_enrolled server db)) m of
             Inl e \<Rightarrow> (Inl (Internal e), m)
           | Inr enrolled \<Rightarrow>
               if \<not> enrolled then (Inr False, m)
               else if im_shutting_down m
               then (Inl (Internal (ManagerError ''gateway is shutting down'')),
                     m\<lparr>im_deletion_errors := (im_deletion_errors m)(server := None)\<rparr>)
               else (Inr True, m\<lparr>im_deleting := insert server (im_deleting m),
                                 im_deletion_errors := (im_deletion_errors m)(server := None)\<rparr>)))"

definition cancel_active_build :: "string \<Rightarrow> index_manager \<Rightarrow> unit manager_result" where
  "cancel_active_build server m =
     (if im_runtime_poisoned m then (Inl runtime_lock_error, m)
      else case build_of server m of
        None \<Rightarrow> (Inr (), m)
      | Some build \<Rightarrow> (Inr (), cancel_build server build m))"

definition delete_rows :: "call_env \<Rightarrow> string \<Rightarrow> index_manager \<Rightarrow> unit manager_result" where
  "delete_rows env server m =
     (case database_write (delete_index (ce_faults env 0) server) m of
        (Inl e, m1) \<Rightarrow> (Inl e, m1)
      | (Inr _, m1) \<Rightarrow>
          let m2 = m1\<lparr>im_cache := cache_clear_server server (im_cache m1)\<rparr>;
              m3 = (if im_runtime_poisoned m2 then m2 else m2\<lparr>im_runtime := (im_runtime m2)(server := None)\<rparr>)
          in (Inr (), clear_pending_cancel server m3))"

definition end_deletion :: "call_env \<Rightarrow> string \<Rightarrow> manager_error + unit \<Rightarrow> index_manager \<Rightarrow> index_manager" where
  "end_deletion env server result m =
     (let m1 = (case result of
                  Inl e \<Rightarrow> m\<lparr>im_deletion_errors := (im_deletion_errors m)(server \<mapsto>
                     (case e of DatabaseError d \<Rightarrow> ce_error_text env d | ManagerError s \<Rightarrow> s))\<rparr>
                | Inr _ \<Rightarrow> m)
      in m1\<lparr>im_deleting := im_deleting m1 - {server}\<rparr>)"

definition control_operation ::
  "resolved_index_config \<Rightarrow> call_env \<Rightarrow> string \<Rightarrow> index_control_action \<Rightarrow> index_manager \<Rightarrow>
     (index_operation_error + unit) \<times> index_manager" where
  "control_operation cfg env server action m =
     (case action of
        ActEnableAutoRefresh \<Rightarrow> change_auto_refresh env server True m
      | ActDisableAutoRefresh \<Rightarrow> change_auto_refresh env server False m
      | ActDelete \<Rightarrow> (case delete_index_request env server m of
                       (Inl e, m1) \<Rightarrow> (Inl e, m1) | (Inr _, m1) \<Rightarrow> (Inr (), m1))
      | _ \<Rightarrow>
          (case reject_if_deleting server m of
             Inl e \<Rightarrow> (Inl e, m)
           | Inr _ \<Rightarrow>
               (case require_enrollment env server m of
                  Inl e \<Rightarrow> (Inl e, m)
                | Inr _ \<Rightarrow>
                    (case apply_control_action cfg env server action m of
                       (Inl e, m1) \<Rightarrow> (Inl (Internal e), m1)
                     | (Inr _, m1) \<Rightarrow>
                         (Inr (), if action = ActCancel then m1 else reconcile_pause_state env server m1)))))"

definition request_shutdown :: "index_manager \<Rightarrow> index_manager" where
  "request_shutdown m = m\<lparr>im_shutting_down := True\<rparr>"

end
