(* ===== verification/ManagerProofs.thy ===== *)
theory ManagerProofs
  imports Manager
begin

text \<open>
  The invariant of the manager under every sequence of its operations: one build per server, at most
  the configured number of builds, registries in step with the runtime, and no build running while
  its server has foreground requests.
\<close>

named_theorems manager_simps \<open>what an operation leaves of the registries, the builds and the calls\<close>

section \<open>What the invariant reads\<close>

definition attached :: "string \<Rightarrow> index_manager \<Rightarrow> (nat option \<times> u64) option" where
  "attached s m = map_option (\<lambda>b. (rb_control b, rb_foreground_users b)) (build_of s m)"

text \<open>Whether the control was last told to pause or to resume.\<close>

fun latest_call :: "nat \<Rightarrow> (nat \<times> control_call) list \<Rightarrow> control_call option" where
  "latest_call c [] = None"
| "latest_call c ((c', call) # calls) =
     (if c' = c \<and> call \<noteq> CancelCall then Some call else latest_call c calls)"

definition same_registries :: "index_manager \<Rightarrow> index_manager \<Rightarrow> bool" where
  "same_registries m m' \<longleftrightarrow>
     im_active_builds m' = im_active_builds m \<and> im_build_owners m' = im_build_owners m \<and>
     im_build_locks m' = im_build_locks m \<and> im_next_owner m' = im_next_owner m"

lemma attached_None: "attached s m = None \<longleftrightarrow> build_of s m = None"
  by (simp add: attached_def)

lemma build_of_update_build [manager_simps]:
  "build_of s (update_build srv f m) = (if s = srv then map_option f (build_of s m) else build_of s m)"
  by (cases "im_runtime m srv") (simp_all add: build_of_def update_build_def update_state_def)

lemma attached_update_build [manager_simps]:
  "(\<And>b. rb_control (f b) = rb_control b \<and> rb_foreground_users (f b) = rb_foreground_users b) \<Longrightarrow>
   attached s (update_build srv f m) = attached s m"
  by (simp add: attached_def manager_simps option.map_comp comp_def)

lemma attached_update_state [manager_simps]:
  "(\<And>st. rs_build (f st) = rs_build st) \<Longrightarrow> attached s (update_state srv f m) = attached s m"
  by (cases "im_runtime m srv") (simp_all add: attached_def build_of_def update_state_def)

lemma attached_put_state [manager_simps]:
  "attached s (put_state srv st m) =
     (if s = srv then map_option (\<lambda>b. (rb_control b, rb_foreground_users b)) (rs_build st) else attached s m)"
  by (simp add: attached_def build_of_def put_state_def)

lemma entry_build: "rs_build (entry_or_default s m) = build_of s m"
  by (simp add: entry_or_default_def build_of_def runtime_state_default_def split: option.split)

lemma update_state_fields [manager_simps]:
  "im_active_builds (update_state srv f m) = im_active_builds m" "im_build_owners (update_state srv f m) = im_build_owners m"
  "im_build_locks (update_state srv f m) = im_build_locks m" "im_next_owner (update_state srv f m) = im_next_owner m"
  "im_foreground_users (update_state srv f m) = im_foreground_users m" "im_calls (update_state srv f m) = im_calls m"
  "im_runtime_poisoned (update_state srv f m) = im_runtime_poisoned m"
  by (simp_all add: update_state_def)

lemma update_build_fields [manager_simps]:
  "im_active_builds (update_build srv f m) = im_active_builds m" "im_build_owners (update_build srv f m) = im_build_owners m"
  "im_build_locks (update_build srv f m) = im_build_locks m" "im_next_owner (update_build srv f m) = im_next_owner m"
  "im_foreground_users (update_build srv f m) = im_foreground_users m" "im_calls (update_build srv f m) = im_calls m"
  "im_runtime_poisoned (update_build srv f m) = im_runtime_poisoned m"
  by (simp_all add: update_build_def manager_simps)

lemma put_state_fields [manager_simps]:
  "im_active_builds (put_state srv st m) = im_active_builds m" "im_build_owners (put_state srv st m) = im_build_owners m"
  "im_build_locks (put_state srv st m) = im_build_locks m" "im_next_owner (put_state srv st m) = im_next_owner m"
  "im_foreground_users (put_state srv st m) = im_foreground_users m" "im_calls (put_state srv st m) = im_calls m"
  "im_runtime_poisoned (put_state srv st m) = im_runtime_poisoned m"
  by (simp_all add: put_state_def)

lemma users_of_cong: "im_foreground_users m' = im_foreground_users m \<Longrightarrow> users_of s m' = users_of s m"
  by (simp add: users_of_def)

text \<open>Fields the invariant does not read.\<close>

lemma attached_other_fields [manager_simps]:
  "attached s (m\<lparr>im_db := x1\<rparr>) = attached s m" "attached s (m\<lparr>im_build_owners := x2\<rparr>) = attached s m"
  "attached s (m\<lparr>im_build_locks := x3\<rparr>) = attached s m" "attached s (m\<lparr>im_active_builds := x4\<rparr>) = attached s m"
  "attached s (m\<lparr>im_runtime_poisoned := x5\<rparr>) = attached s m" "attached s (m\<lparr>im_pending_cancels := x6\<rparr>) = attached s m"
  "attached s (m\<lparr>im_deleting := x7\<rparr>) = attached s m" "attached s (m\<lparr>im_deletion_errors := x8\<rparr>) = attached s m"
  "attached s (m\<lparr>im_foreground_users := x9\<rparr>) = attached s m" "attached s (m\<lparr>im_pause_overlays := x10\<rparr>) = attached s m"
  "attached s (m\<lparr>im_foreground_metrics := x11\<rparr>) = attached s m"
  "attached s (m\<lparr>im_commit_latency_recorded_at := x12\<rparr>) = attached s m" "attached s (m\<lparr>im_cache := x13\<rparr>) = attached s m"
  "attached s (m\<lparr>im_cleanup_requested := x14\<rparr>) = attached s m" "attached s (m\<lparr>im_shutting_down := x15\<rparr>) = attached s m"
  "attached s (m\<lparr>im_next_owner := x16\<rparr>) = attached s m" "attached s (m\<lparr>im_calls := x17\<rparr>) = attached s m"
  by (simp_all add: attached_def build_of_def)

section \<open>The invariant\<close>

definition build_limit :: "resolved_index_config \<Rightarrow> nat" where
  "build_limit cfg = unat (max (ri_concurrency cfg) 1)"

definition bounded :: "resolved_index_config \<Rightarrow> index_manager \<Rightarrow> bool" where
  "bounded cfg m \<longleftrightarrow> finite (im_active_builds m) \<and> card (im_active_builds m) \<le> build_limit cfg"

definition registered :: "index_manager \<Rightarrow> bool" where
  "registered m \<longleftrightarrow>
     (\<forall>s. (s \<in> im_active_builds m \<longleftrightarrow> attached s m \<noteq> None) \<and> (s \<in> im_build_locks m \<longleftrightarrow> attached s m \<noteq> None) \<and>
          (im_build_owners m s \<noteq> None \<longleftrightarrow> attached s m \<noteq> None)) \<and>
     (\<forall>s t. im_build_owners m s = Some t \<longrightarrow> t < im_next_owner m) \<and>
     (\<forall>s s' t. im_build_owners m s = Some t \<longrightarrow> im_build_owners m s' = Some t \<longrightarrow> s' = s)"

definition counted :: "index_manager \<Rightarrow> bool" where
  "counted m \<longleftrightarrow> (\<forall>s c n. attached s m = Some (c, n) \<longrightarrow> n = users_of s m)"

definition controls_apart :: "index_manager \<Rightarrow> bool" where
  "controls_apart m \<longleftrightarrow>
     (\<forall>s s' c n n'. attached s m = Some (Some c, n) \<longrightarrow> attached s' m = Some (Some c, n') \<longrightarrow> s' = s)"

text \<open>Builds of servers outside \<open>S\<close> do not run while there are foreground requests.\<close>

definition held :: "string set \<Rightarrow> index_manager \<Rightarrow> bool" where
  "held S m \<longleftrightarrow>
     (\<forall>s c n. s \<notin> S \<longrightarrow> attached s m = Some (Some c, n) \<longrightarrow> n > 0 \<longrightarrow> latest_call c (im_calls m) \<noteq> Some ResumeCall)"

definition manager_inv_except :: "resolved_index_config \<Rightarrow> string set \<Rightarrow> index_manager \<Rightarrow> bool" where
  "manager_inv_except cfg S m \<longleftrightarrow>
     bounded cfg m \<and>
     (im_runtime_poisoned m \<or> registered m \<and> counted m \<and> controls_apart m \<and> held S m)"

abbreviation manager_inv :: "resolved_index_config \<Rightarrow> index_manager \<Rightarrow> bool" where
  "manager_inv cfg \<equiv> manager_inv_except cfg {}"

text \<open>The invariant only reads the builds, the registries, the users and the calls.\<close>

lemma manager_inv_cong:
  assumes "manager_inv_except cfg S m" and "same_registries m m'" and "im_foreground_users m' = im_foreground_users m"
    and "\<And>s. attached s m' = attached s m"
    and "\<And>c. latest_call c (im_calls m') = latest_call c (im_calls m)"
    and "im_runtime_poisoned m \<Longrightarrow> im_runtime_poisoned m'"
  shows "manager_inv_except cfg S m'"
  using assms(1,2,6) unfolding manager_inv_except_def bounded_def registered_def counted_def controls_apart_def held_def
    same_registries_def
  by (auto simp: assms(4,5) users_of_cong [OF assms(3)])

lemma manager_inv_weaken: "manager_inv_except cfg S m \<Longrightarrow> S \<subseteq> T \<Longrightarrow> manager_inv_except cfg T m"
  unfolding manager_inv_except_def held_def by blast

section \<open>Pauses\<close>

lemma latest_cancel [simp]: "latest_call c ((c', CancelCall) # calls) = latest_call c calls"
  by simp

lemma reconcile_view:
  "same_registries m (reconcile_pause_state env server m)"
  "im_foreground_users (reconcile_pause_state env server m) = im_foreground_users m"
  "attached s (reconcile_pause_state env server m) = attached s m"
  "im_runtime_poisoned (reconcile_pause_state env server m) = im_runtime_poisoned m"
  by (simp_all add: reconcile_pause_state_def Let_def call_control_def same_registries_def manager_simps
      split: option.split)

lemma reconcile_calls:
  "im_calls (reconcile_pause_state env server m) = im_calls m \<and>
     (im_runtime_poisoned m \<or> (\<nexists>c n. attached server m = Some (Some c, n))) \<or>
   (\<exists>c n call. attached server m = Some (Some c, n) \<and> (n > 0 \<longrightarrow> call = PauseCall) \<and>
      im_calls (reconcile_pause_state env server m) = (c, call) # im_calls m)"
proof (cases "im_runtime_poisoned m")
  case False
  show ?thesis
  proof (cases "build_of server m")
    case (Some build)
    have "pause_reason_of env overlay build \<noteq> None" if "rb_foreground_users build > 0" for overlay
      using that by (simp add: pause_reason_of_def Let_def)
    then show ?thesis using False Some
      by (cases "rb_control build")
        (auto simp: reconcile_pause_state_def Let_def attached_def call_control_def manager_simps)
  qed (simp add: reconcile_pause_state_def attached_def)
qed (simp add: reconcile_pause_state_def)

lemma reconcile_inv:
  assumes "manager_inv_except cfg (insert server S) m"
  shows "manager_inv_except cfg S (reconcile_pause_state env server m)"
proof (cases "im_runtime_poisoned m")
  case True
  then show ?thesis using assms by (simp add: manager_inv_except_def reconcile_pause_state_def)
next
  case False
  let ?m = "reconcile_pause_state env server m"
  have old: "bounded cfg m" "registered m" "counted m" "controls_apart m" "held (insert server S) m"
    using assms False by (simp_all add: manager_inv_except_def)
  have "latest_call c (im_calls ?m) \<noteq> Some ResumeCall"
    if at: "s \<notin> S" "attached s m = Some (Some c, n)" "n > 0" for s c n
  proof (cases "s = server")
    case True
    then obtain call where "im_calls ?m = (c, call) # im_calls m" "call = PauseCall"
      using reconcile_calls [of env server m] at False by auto
    then show ?thesis by simp
  next
    case s: False
    then have held: "latest_call c (im_calls m) \<noteq> Some ResumeCall" using old(5) at unfolding held_def by blast
    have "c' \<noteq> c" if "attached server m = Some (Some c', n')" for c' n'
      using s at(2) that old(4) unfolding controls_apart_def by blast
    then show ?thesis using reconcile_calls [of env server m] held by auto
  qed
  then have "held S ?m" unfolding held_def reconcile_view by blast
  moreover have "bounded cfg ?m" "registered ?m" "counted ?m" "controls_apart ?m"
    using old reconcile_view(1) [of m env server] unfolding same_registries_def bounded_def registered_def counted_def
      controls_apart_def by (simp_all add: reconcile_view(2,3) users_of_cong [OF reconcile_view(2)])
  ultimately show ?thesis by (simp add: manager_inv_except_def)
qed

lemma same_registries_simps [simp]:
  "same_registries m m" "same_registries m (update_build srv f m') = same_registries m m'"
  "same_registries m (update_state srv g m') = same_registries m m'" "same_registries m (put_state srv st m') = same_registries m m'"
  by (simp_all add: same_registries_def manager_simps)

lemma update_build_inv:
  assumes "manager_inv_except cfg S m"
    and "\<And>b. rb_control (f b) = rb_control b \<and> rb_foreground_users (f b) = rb_foreground_users b"
  shows "manager_inv_except cfg S (update_build server f m)"
  using assms(1) by (rule manager_inv_cong) (simp_all add: manager_simps assms(2))

lemma update_state_inv:
  "manager_inv_except cfg S m \<Longrightarrow> (\<And>st. rs_build (f st) = rs_build st) \<Longrightarrow>
   manager_inv_except cfg S (update_state server f m)"
  by (erule manager_inv_cong) (simp_all add: manager_simps)

text \<open>
  The number of foreground users of a server changes, in the registry and in its build; the pause is
  still to be reconciled.
\<close>

lemma set_users_inv:
  assumes "manager_inv cfg m"
    and "same_registries m m'" and "users_of server m' = n" and "\<And>s. s \<noteq> server \<Longrightarrow> users_of s m' = users_of s m"
    and "\<And>s. s \<noteq> server \<Longrightarrow> attached s m' = attached s m"
    and "attached server m' = map_option (\<lambda>(c, _). (c, n)) (attached server m)"
    and "im_calls m' = im_calls m" and "im_runtime_poisoned m' = im_runtime_poisoned m"
  shows "manager_inv_except cfg {server} m'"
proof (cases "im_runtime_poisoned m")
  case False
  have at: "attached s m' = (if s = server then map_option (\<lambda>(c, _). (c, n)) (attached s m) else attached s m)" for s
    using assms(5,6) by simp
  have old: "bounded cfg m" "registered m" "counted m" "controls_apart m" "held {} m"
    using assms(1) False by (simp_all add: manager_inv_except_def)
  have "registered m'" using old(2) assms(2) unfolding registered_def same_registries_def at by simp
  moreover have "counted m'" using old(3) assms(3,4) unfolding counted_def at by auto
  moreover have "controls_apart m'" using old(4) unfolding controls_apart_def at by (auto split: if_splits)
  moreover have "held {server} m'" using old(5) unfolding held_def at assms(7) by auto
  ultimately show ?thesis using old(1) assms(2) by (simp add: manager_inv_except_def bounded_def same_registries_def)
qed (use assms in \<open>simp add: manager_inv_except_def bounded_def same_registries_def\<close>)

lemma users_of_upd:
  "users_of s (m\<lparr>im_foreground_users := (im_foreground_users m)(server := v)\<rparr>) =
     (if s = server then (case v of None \<Rightarrow> 0 | Some n \<Rightarrow> n) else users_of s m)"
  by (simp add: users_of_def)

lemma users_of_update_build [manager_simps]: "users_of s (update_build srv f m) = users_of s m"
  by (simp add: users_of_def manager_simps)

lemma attached_set_users:
  "attached s (update_build server f m) =
     (if s = server then map_option (\<lambda>(c, _). (c, n)) (attached s m) else attached s m)"
  if "\<And>b. rb_control (f b) = rb_control b \<and> rb_foreground_users (f b) = n"
  using that by (auto simp: attached_def manager_simps option.map_comp comp_def)

lemma foreground_guard_inv:
  assumes "manager_inv cfg m"
  shows "manager_inv cfg (foreground_guard env server m)"
proof -
  let ?n = "saturating_add (users_of server m) 1"
  let ?m1 = "m\<lparr>im_foreground_users := (im_foreground_users m)(server \<mapsto> ?n)\<rparr>"
  let ?m2 = "if im_runtime_poisoned ?m1 then ?m1
    else update_build server (\<lambda>b. b\<lparr>rb_foreground_users := ?n, rb_quiet_until := None\<rparr>) ?m1"
  have at: "attached s (update_build server (\<lambda>b. b\<lparr>rb_foreground_users := ?n, rb_quiet_until := None\<rparr>) ?m1) =
      (if s = server then map_option (\<lambda>(c, _). (c, ?n)) (attached s m) else attached s m)" for s
    by (subst attached_set_users [where n = ?n]) (simp_all add: manager_simps)
  have "manager_inv_except cfg {server} ?m2"
  proof (cases "im_runtime_poisoned m")
    case False
    then show ?thesis
      by (simp, intro set_users_inv [OF assms, where n = ?n])
        (simp_all add: at manager_simps users_of_upd same_registries_def)
  qed (use assms in \<open>simp add: manager_inv_except_def bounded_def\<close>)
  then show ?thesis by (simp add: foreground_guard_def Let_def reconcile_inv)
qed

lemma decrement_view:
  "same_registries m (decrement_foreground_users server m)"
  "users_of s (decrement_foreground_users server m) = (if s = server then saturating_sub (users_of s m) 1 else users_of s m)"
  "attached s (decrement_foreground_users server m) = attached s m"
  "im_calls (decrement_foreground_users server m) = im_calls m"
  "im_runtime_poisoned (decrement_foreground_users server m) = im_runtime_poisoned m"
  by (simp_all add: decrement_foreground_users_def Let_def same_registries_def manager_simps users_of_upd)

lemma foreground_end_update_inv:
  assumes "manager_inv cfg m"
  shows "manager_inv_except cfg {server}
    (update_runtime_after_foreground_end env server quiet (decrement_foreground_users server m))"
proof -
  let ?m1 = "decrement_foreground_users server m"
  let ?n = "saturating_sub (users_of server m) 1"
  let ?set = "update_build server (rb_foreground_users_update (\<lambda>_. users_of server ?m1)) ?m1"
  have set: "manager_inv_except cfg {server} ?set"
    by (intro set_users_inv [OF assms, where n = ?n])
      (simp_all add: decrement_view manager_simps attached_set_users [where n = ?n])
  then have quiet: "manager_inv_except cfg {server} (update_build server (rb_quiet_until_update (\<lambda>_. Some d)) ?set)" for d
    by (rule update_build_inv) simp
  have stuck: "manager_inv_except cfg {server} (?set\<lparr>im_runtime_poisoned := True\<rparr>)"
    using set by (simp add: manager_inv_except_def bounded_def)
  have gone: "manager_inv_except cfg {server} ?m1" if "im_runtime_poisoned m \<or> build_of server ?m1 = None"
  proof (cases "im_runtime_poisoned m")
    case True
    then show ?thesis
      using assms decrement_view(1) [of m server] by (simp add: manager_inv_except_def bounded_def decrement_view same_registries_def)
  next
    case False
    then have "attached server m = None" using that by (simp flip: attached_None add: decrement_view)
    then show ?thesis by (intro set_users_inv [OF assms, where n = ?n]) (simp_all add: decrement_view)
  qed
  show ?thesis
    using set quiet stuck gone
    by (auto simp: update_runtime_after_foreground_end_def Let_def decrement_view split: option.split)
qed

lemma clear_expired_inv:
  "manager_inv_except cfg S m \<Longrightarrow> manager_inv_except cfg S (snd (clear_expired_foreground_quiet_period env server m))"
  by (simp add: clear_expired_foreground_quiet_period_def update_build_inv)

lemma reconcile_inv_any: "manager_inv cfg m \<Longrightarrow> manager_inv cfg (reconcile_pause_state env server m)"
  by (rule reconcile_inv) (erule manager_inv_weaken, simp)

lemma foreground_end_inv: "manager_inv cfg m \<Longrightarrow> manager_inv cfg (foreground_end cfg' env server m)"
  unfolding foreground_end_def Let_def
  by (auto intro!: reconcile_inv_any clear_expired_inv reconcile_inv foreground_end_update_inv)

lemma quiet_timer_inv: "manager_inv cfg m \<Longrightarrow> manager_inv cfg (quiet_timer env server m)"
  using clear_expired_inv [of cfg "{}" m env server]
  by (auto simp: quiet_timer_def reconcile_inv_any split: prod.split bool.split)

lemma set_pause_overlay_inv: "manager_inv cfg m \<Longrightarrow> manager_inv cfg (set_pause_overlay env server maintenance health m)"
  unfolding set_pause_overlay_def Let_def
  by (rule reconcile_inv_any) (erule manager_inv_cong, simp_all add: same_registries_def manager_simps)

lemma update_runtime_controller_inv:
  "manager_inv cfg m \<Longrightarrow> manager_inv cfg (update_runtime_controller env server limits st deadline m)"
  by (simp add: update_runtime_controller_def reconcile_inv_any update_build_inv)

section \<open>The life of a build\<close>

text \<open>Changes the invariant does not see.\<close>

definition unseen :: "index_manager \<Rightarrow> index_manager \<Rightarrow> bool" where
  "unseen m m' \<longleftrightarrow> same_registries m m' \<and> im_foreground_users m' = im_foreground_users m \<and>
     (\<forall>s. attached s m' = attached s m) \<and> (\<forall>c. latest_call c (im_calls m') = latest_call c (im_calls m)) \<and>
     (im_runtime_poisoned m \<longrightarrow> im_runtime_poisoned m')"

lemma unseen_inv: "manager_inv_except cfg S m \<Longrightarrow> unseen m m' \<Longrightarrow> manager_inv_except cfg S m'"
  unfolding unseen_def by (erule manager_inv_cong) blast+

lemma unseen_refl [simp]: "unseen m m"
  by (simp add: unseen_def)

lemma unseen_trans: "unseen m m' \<Longrightarrow> unseen m' m'' \<Longrightarrow> unseen m m''"
  by (auto simp: unseen_def same_registries_def)

lemma unseen_fields:
  "unseen m (m\<lparr>im_db := x1\<rparr>)" "unseen m (m\<lparr>im_pending_cancels := x2\<rparr>)" "unseen m (m\<lparr>im_deleting := x3\<rparr>)"
  "unseen m (m\<lparr>im_deletion_errors := x4\<rparr>)" "unseen m (m\<lparr>im_pause_overlays := x5\<rparr>)" "unseen m (m\<lparr>im_cache := x6\<rparr>)"
  "unseen m (m\<lparr>im_foreground_metrics := x7\<rparr>)" "unseen m (m\<lparr>im_cleanup_requested := x8\<rparr>)"
  "unseen m (m\<lparr>im_shutting_down := x9\<rparr>)" "unseen m (m\<lparr>im_runtime_poisoned := True\<rparr>)"
  "unseen m (call_control c CancelCall m)"
  by (simp_all add: unseen_def same_registries_def manager_simps call_control_def)

lemma unseen_put_state: "rs_build st = build_of server m \<Longrightarrow> unseen m (put_state server st m)"
  by (simp add: unseen_def manager_simps) (simp add: attached_def)

lemma unseen_update_state: "(\<And>st. rs_build (f st) = rs_build st) \<Longrightarrow> unseen m (update_state server f m)"
  by (simp add: unseen_def manager_simps)

lemma unseen_database_write: "unseen m (snd (database_write operation m))"
  by (auto simp: database_write_def unseen_fields split: prod.split sum.split)

lemma unseen_load: "unseen m (snd (load_persisted_retry_state env k server m))"
  by (auto simp: load_persisted_retry_state_def Let_def entry_build unseen_put_state split: sum.split)

lemma unseen_persist: "unseen m (snd (persist_retry_state env server m))"
  by (auto simp: persist_retry_state_def Let_def unseen_database_write split: prod.split)

lemma unseen_after_build: "unseen m (update_runtime_after_build cfg env server error m)"
  by (auto simp: update_runtime_after_build_def Let_def build_of_def unseen_fields intro!: unseen_put_state
      split: option.split)

lemma persist_write_poisoned [simp]:
  "im_runtime_poisoned (snd (persist_retry_state env server m)) = im_runtime_poisoned m"
  by (auto simp: persist_retry_state_def database_write_def Let_def split: prod.split sum.split)

definition release_build :: "string \<Rightarrow> index_manager \<Rightarrow> index_manager" where
  "release_build server m =
     take_build server (clear_build_lock server (clear_active_build server
       (m\<lparr>im_build_owners := (im_build_owners m)(server := None)\<rparr>)))"

lemma release_inv:
  assumes "manager_inv cfg m" and "\<not> im_runtime_poisoned m"
  shows "manager_inv cfg (release_build server m)"
proof -
  let ?m = "release_build server m"
  have old: "finite (im_active_builds m)" "card (im_active_builds m) \<le> build_limit cfg" "registered m" "counted m"
    "controls_apart m" "held {} m"
    using assms by (simp_all add: manager_inv_except_def bounded_def)
  have at: "attached s ?m = (if s = server then None else attached s m)" for s
    using assms(2) by (cases "im_runtime m server") (simp_all add: release_build_def take_build_def clear_build_lock_def
        clear_active_build_def attached_def build_of_def update_state_def)
  have view: "im_active_builds ?m = im_active_builds m - {server}" "im_build_locks ?m = im_build_locks m - {server}"
    "im_build_owners ?m = (im_build_owners m)(server := None)" "im_next_owner ?m = im_next_owner m"
    "im_foreground_users ?m = im_foreground_users m" "im_calls ?m = im_calls m"
    using assms(2) by (simp_all add: release_build_def take_build_def clear_build_lock_def clear_active_build_def manager_simps)
  have "card (im_active_builds m - {server}) \<le> card (im_active_builds m)" using old(1) by (rule card_mono) auto
  then have "bounded cfg ?m" using old(1,2) by (simp add: bounded_def view)
  moreover have "registered ?m" using old(3) unfolding registered_def at view by (auto split: if_splits)
  moreover have "counted ?m" "controls_apart ?m" "held {} ?m"
    using old(4,5,6) unfolding counted_def controls_apart_def held_def at view users_of_cong [OF view(5)]
    by (auto split: if_splits)
  ultimately show ?thesis by (simp add: manager_inv_except_def)
qed

lemma unseen_cleanup: "unseen m (clear_pending_cancel server (schedule_cleanup env server m))"
proof -
  have "unseen m (schedule_cleanup env server m)" by (simp add: schedule_cleanup_def unseen_fields)
  then show ?thesis unfolding clear_pending_cancel_def by (rule unseen_trans) (rule unseen_fields)
qed

text \<open>The end of a build: changes the invariant does not see, and the release.\<close>

lemma finalize_view:
  assumes "\<not> im_runtime_poisoned m" and "im_build_owners m server = ownership"
  obtains m1 where "unseen m m1" and "\<not> im_runtime_poisoned m1"
    and "finalize_owned_build env server ownership m =
      clear_pending_cancel server (schedule_cleanup env server (release_build server m1))"
proof -
  let ?m1 = "case persist_retry_state env server m of
      (Inl e, m') \<Rightarrow> if im_runtime_poisoned m' then m'
        else update_state server (rs_last_error_update (\<lambda>_. Some (persistence_failure env e))) m'
    | (Inr _, m') \<Rightarrow> m'"
  have step: "unseen (snd (persist_retry_state env server m)) ?m1"
    by (auto simp: unseen_update_state split: prod.split sum.split)
  then have "unseen m ?m1" by (rule unseen_trans [OF unseen_persist])
  then have u: "unseen m (clear_pause_overlays server ?m1)"
    unfolding clear_pause_overlays_def by (rule unseen_trans) (rule unseen_fields)
  have alive: "\<not> im_runtime_poisoned (clear_pause_overlays server ?m1)"
    using assms(1) persist_write_poisoned [of env server m]
    by (cases "persist_retry_state env server m") (auto simp: manager_simps clear_pause_overlays_def split: sum.split)
  have owner: "im_build_owners (clear_pause_overlays server ?m1) server = ownership"
    using u assms(2) by (simp add: unseen_def same_registries_def)
  have "finalize_owned_build env server ownership m =
      clear_pending_cancel server (schedule_cleanup env server (release_build server (clear_pause_overlays server ?m1)))"
    unfolding finalize_owned_build_def Let_def release_build_def remove_build_owner_def using owner by simp
  with that u alive show thesis by blast
qed

lemma finalize_inv:
  assumes "manager_inv cfg m" and "\<not> im_runtime_poisoned m" and "im_build_owners m server = ownership"
  shows "manager_inv cfg (finalize_owned_build env server ownership m)"
  using finalize_view [OF assms(2,3)] unseen_inv [OF assms(1)] release_inv unseen_inv [OF _ unseen_cleanup] by metis

lemma finish_inv:
  assumes "manager_inv cfg m"
  shows "manager_inv cfg (finish_build_inner_with_retry_policy cfg' env server control (Some token) error preserve m)"
proof -
  let ?m1 = "if preserve then update_state server (rs_last_error_update (\<lambda>_. error)) m
    else update_runtime_after_build cfg' env server error m"
  have u: "unseen m ?m1" by (simp add: unseen_after_build unseen_update_state)
  then have inv: "manager_inv cfg ?m1" by (rule unseen_inv [OF assms])
  have "im_build_owners ?m1 server = Some token" if "build_completion_is_current server control (Some token) m"
    using that u by (simp add: build_completion_is_current_def unseen_def same_registries_def)
  then show ?thesis
    using assms inv finalize_inv [OF inv]
    unfolding finish_build_inner_with_retry_policy_def Let_def by (auto split: if_split_asm)
qed

lemma reserve_commit_inv:
  assumes "manager_inv cfg m" and "n = users_of server m"
  shows "manager_inv cfg (snd (reserve_commit cfg env server force n m))"
proof -
  let ?st = "entry_or_default server m"
  let ?m = "put_state server ?st m"
  let ?new = "put_state server (?st\<lparr>rs_build := Some (new_build env n), rs_last_error := None\<rparr>)
    (?m\<lparr>im_next_owner := im_next_owner ?m + 1, im_build_owners := (im_build_owners ?m)(server \<mapsto> im_next_owner ?m),
        im_active_builds := insert server (im_active_builds ?m), im_build_locks := insert server (im_build_locks ?m),
        im_commit_latency_recorded_at := (im_commit_latency_recorded_at ?m)(server := None)\<rparr>)"
  have same: "manager_inv cfg ?m" using assms(1) by (rule unseen_inv) (simp add: unseen_put_state entry_build)
  have new: "manager_inv cfg ?new"
    if c: "\<not> im_runtime_poisoned m" "rs_build ?st = None" "\<not> concurrency_reached cfg ?m"
  proof -
    have old: "finite (im_active_builds m)" "registered m" "counted m" "controls_apart m" "held {} m"
      using assms(1) c(1) by (simp_all add: manager_inv_except_def bounded_def)
    have none: "attached server m = None" using c(2) by (simp add: attached_None entry_build)
    have at: "attached s ?new = (if s = server then Some (None, n) else attached s m)" for s
      using none by (simp add: manager_simps new_build_def entry_build)
    have view: "im_active_builds ?new = insert server (im_active_builds m)" "im_build_locks ?new = insert server (im_build_locks m)"
      "im_build_owners ?new = (im_build_owners m)(server \<mapsto> im_next_owner m)" "im_next_owner ?new = im_next_owner m + 1"
      "im_foreground_users ?new = im_foreground_users m" "im_calls ?new = im_calls m"
      by (simp_all add: manager_simps)
    have "card (insert server (im_active_builds m)) \<le> build_limit cfg"
      using c(3) old(1) by (simp add: concurrency_reached_def build_limit_def card_insert_if manager_simps)
    then have "bounded cfg ?new" using old(1) by (simp only: bounded_def view finite_insert simp_thms)
    moreover have "registered ?new" using old(2) none unfolding registered_def at view by (auto simp: less_Suc_eq)
    moreover have "counted ?new" "controls_apart ?new" "held {} ?new"
      using old(3,4,5) assms(2) unfolding counted_def controls_apart_def held_def at view users_of_cong [OF view(5)]
      by (auto split: if_splits)
    ultimately show ?thesis by (simp add: manager_inv_except_def)
  qed
  show ?thesis
  proof (cases "im_runtime_poisoned m")
    case False
    then show ?thesis using same new
      unfolding reserve_commit_def Let_def by (auto split: option.split)
  qed (use assms(1) in \<open>simp add: reserve_commit_def\<close>)
qed

lemma reserve_checks_unseen: "unseen m (snd (reserve_checks cfg env server automatic m))"
  using unseen_load [of m env 2 server]
  by (auto simp: reserve_checks_def split: sum.split prod.split)

lemma reserve_checks_users:
  "reserve_checks cfg env server automatic m = (Inr (Some n), m1) \<Longrightarrow> n = users_of server m1"
  by (auto simp: reserve_checks_def split: if_splits sum.splits prod.splits)

lemma reserve_inv:
  assumes "manager_inv cfg m"
  shows "manager_inv cfg (snd (reserve_refresh_build cfg env server force automatic m))"
proof -
  obtain r m1 where r: "reserve_checks cfg env server automatic m = (r, m1)" by (cases "reserve_checks cfg env server automatic m")
  then have m1: "manager_inv cfg m1" using unseen_inv [OF assms reserve_checks_unseen] by (metis snd_conv)
  then have "manager_inv cfg (snd (reserve_commit cfg env server force n m1))" if "r = Inr (Some n)" for n
    using reserve_commit_inv [of cfg m1 n server] reserve_checks_users [of cfg env server automatic m n m1] r that
    by simp
  then show ?thesis using r m1 by (auto simp: reserve_refresh_build_def split: sum.split option.split)
qed

lemma record_start_failure_inv:
  assumes "manager_inv cfg m"
  shows "manager_inv cfg (snd (record_start_failure cfg' env server token error m))"
  using finish_inv [OF unseen_inv [OF assms unseen_database_write]]
  by (simp add: record_start_failure_def Let_def split_def finish_build_owned_def finish_build_inner_def)

lemma take_pending_view [simp]:
  "snd (take_pending_cancel server m) = m\<lparr>im_pending_cancels := im_pending_cancels m - {server}\<rparr>"
  by (simp add: take_pending_cancel_def)

lemma abandon_attach_inv:
  assumes "manager_inv cfg m"
  shows "manager_inv cfg (snd (abandon_attach cfg' env server token control answers m))"
proof -
  let ?m = "call_control control CancelCall (m\<lparr>im_pending_cancels := im_pending_cancels m - {server}\<rparr>)"
  have "manager_inv cfg ?m" using unseen_inv [OF unseen_inv [OF assms unseen_fields(2)] unseen_fields(11)] .
  then show ?thesis
    by (simp add: abandon_attach_def Let_def split_def finish_build_owned_def finish_build_inner_def finish_inv)
qed

text \<open>The control of a new inventory is new: no build has it, and it has not been called.\<close>

definition fresh_control :: "nat \<Rightarrow> index_manager \<Rightarrow> bool" where
  "fresh_control c m \<longleftrightarrow> c \<notin> fst ` set (im_calls m) \<and> (\<forall>s n. attached s m \<noteq> Some (Some c, n))"

lemma latest_call_fresh: "c \<notin> fst ` set calls \<Longrightarrow> latest_call c calls = None"
  by (induction calls) auto

lemma attach_update_inv:
  assumes "manager_inv cfg m" and "fresh_control c m"
  shows "manager_inv cfg (update_build server (rb_control_update (\<lambda>_. Some c)) m)"
proof (cases "im_runtime_poisoned m")
  case False
  let ?m = "update_build server (rb_control_update (\<lambda>_. Some c)) m"
  have at: "attached s ?m = (if s = server then map_option (\<lambda>(_, n). (Some c, n)) (attached s m) else attached s m)" for s
    by (simp add: attached_def manager_simps option.map_comp comp_def)
  have old: "bounded cfg m" "registered m" "counted m" "controls_apart m" "held {} m"
    using assms False by (simp_all add: manager_inv_except_def)
  have "registered ?m" using old(2) unfolding registered_def at by (auto simp: manager_simps)
  moreover have "counted ?m" using old(3) unfolding counted_def at by (auto simp: manager_simps)
  moreover have "controls_apart ?m"
    using old(4) assms(2) unfolding controls_apart_def fresh_control_def at by (auto split: if_splits)
  moreover have "held {} ?m"
    using old(5) assms(2) latest_call_fresh unfolding held_def fresh_control_def at
    by (auto simp: manager_simps split: if_splits)
  ultimately show ?thesis using old(1) by (simp add: manager_inv_except_def bounded_def manager_simps)
qed (use assms in \<open>simp add: manager_inv_except_def bounded_def manager_simps\<close>)

lemma attach_inv:
  assumes "manager_inv cfg m" and "fresh_control c m"
  shows "manager_inv cfg (snd (attach_refresh_control cfg' env server token c answers m))"
proof -
  let ?up = "update_build server (rb_control_update (\<lambda>_. Some c)) m"
  let ?taken = "?up\<lparr>im_pending_cancels := im_pending_cancels ?up - {server}\<rparr>"
  have taken: "manager_inv cfg ?taken" by (rule unseen_inv [OF attach_update_inv [OF assms]]) (rule unseen_fields)
  have cancelled: "manager_inv cfg (finish_build_for_control_owned cfg' env server c token None (call_control c CancelCall ?taken))"
    unfolding finish_build_for_control_owned_def finish_build_inner_def
    by (intro finish_inv unseen_inv [OF taken] unseen_fields)
  obtain b m1 where b: "abandon_attach cfg' env server token c answers m = (b, m1)"
    by (cases "abandon_attach cfg' env server token c answers m")
  then have m1: "manager_inv cfg m1" using abandon_attach_inv [OF assms(1)] by (metis snd_conv)
  have failed: "manager_inv cfg (finish_build_owned cfg' env server token e m1)" for e
    unfolding finish_build_owned_def finish_build_inner_def using m1 by (rule finish_inv)
  have recorded: "manager_inv cfg m2" if "record_start_failure cfg' env server token e m1 = (r, m2)" for e r m2
    using record_start_failure_inv [OF m1, of cfg' env server token e] that by simp
  show ?thesis
    unfolding attach_refresh_control_def b Let_def take_pending_cancel_def
    using m1 failed taken cancelled
    by (auto simp: recorded split: option.split sum.split prod.split)
qed

section \<open>Every operation\<close>

lemma cancel_build_unseen: "unseen m (cancel_build server build m)"
  by (simp add: cancel_build_def unseen_fields split: option.split)

lemma apply_control_action_inv:
  assumes "manager_inv cfg m"
  shows "manager_inv cfg (snd (apply_control_action cfg' env server action m))"
proof -
  have pause: "manager_inv cfg (update_build server (rb_operator_paused_update (\<lambda>_. True)) m)"
    using assms by (rule update_build_inv) simp
  have resume: "manager_inv cfg (update_build server (resume_build env) m)"
    using assms by (rule update_build_inv) (simp add: resume_build_def Let_def)
  have cancel: "manager_inv cfg (put_state server
      (st\<lparr>rs_build := Some (build\<lparr>rb_operator_cancelled_until := d\<rparr>), rs_retry_after := r\<rparr>) (cancel_build server build m))"
    if "im_runtime m server = Some st" "rs_build st = Some build" for st build d r
  proof -
    have "attached server (cancel_build server build m) = Some (rb_control build, rb_foreground_users build)"
      using that cancel_build_unseen [of m server build] by (simp add: unseen_def attached_def build_of_def)
    then have "unseen (cancel_build server build m) (put_state server
        (st\<lparr>rs_build := Some (build\<lparr>rb_operator_cancelled_until := d\<rparr>), rs_retry_after := r\<rparr>) (cancel_build server build m))"
      by (simp add: unseen_def manager_simps)
    then show ?thesis using unseen_inv [OF assms cancel_build_unseen] by (rule unseen_inv [rotated])
  qed
  show ?thesis
  proof (cases action)
    case ActCancel
    then show ?thesis
      using assms cancel
      by (auto simp: apply_control_action_def Let_def intro!: unseen_inv [OF _ unseen_database_write] split: option.split)
  qed (use assms pause resume in \<open>auto simp: apply_control_action_def split: option.split\<close>)
qed

lemma control_operation_inv:
  assumes "manager_inv cfg m"
  shows "manager_inv cfg (snd (control_operation cfg' env server action m))"
proof -
  have auto: "manager_inv cfg (snd (change_auto_refresh env server enabled m))" for enabled
    using assms unseen_inv [OF assms unseen_database_write [of m "set_auto_refresh (ce_faults env 0) server enabled
      (system_time_timestamp (max 0 (ce_system env)))"]]
    by (auto simp: change_auto_refresh_def split: sum.split prod.split)
  have delete: "manager_inv cfg (snd (delete_index_request env server m))"
    using assms unseen_inv [OF assms unseen_fields(4)] unseen_inv [OF unseen_inv [OF assms unseen_fields(3)] unseen_fields(4)]
    by (auto simp: delete_index_request_def split: sum.split)
  have act: "manager_inv cfg m1" if "apply_control_action cfg' env server a m = (r, m1)" for a r m1
    using apply_control_action_inv [OF assms, of cfg' env server a] that by simp
  show ?thesis
    using assms auto delete
    by (cases action) (auto simp: control_operation_def act reconcile_inv_any split: sum.split prod.split)
qed

lemma delete_rows_inv:
  assumes "manager_inv cfg m" and "server \<notin> im_active_builds m"
  shows "manager_inv cfg (snd (delete_rows env server m))"
proof -
  obtain r m1 where m1: "database_write (delete_index (ce_faults env 0) server) m = (r, m1)"
    by (cases "database_write (delete_index (ce_faults env 0) server) m")
  then have u: "unseen m m1" using unseen_database_write by (metis snd_conv)
  let ?m2 = "m1\<lparr>im_cache := cache_clear_server server (im_cache m1)\<rparr>"
  let ?m3 = "if im_runtime_poisoned ?m2 then ?m2 else ?m2\<lparr>im_runtime := (im_runtime ?m2)(server := None)\<rparr>"
  have inv1: "manager_inv cfg m1" and inv2: "manager_inv cfg ?m2"
    using unseen_inv [OF assms(1) u] unseen_inv [OF unseen_inv [OF assms(1) u] unseen_fields(6)] by auto
  have "unseen ?m2 ?m3"
  proof (cases "im_runtime_poisoned m1")
    case False
    then have "registered m1" using inv1 by (simp add: manager_inv_except_def)
    moreover have "server \<notin> im_active_builds m1" using u assms(2) by (simp add: unseen_def same_registries_def)
    ultimately have "attached server m1 = None" unfolding registered_def by blast
    then show ?thesis using False by (simp add: unseen_def same_registries_def attached_def build_of_def)
  qed simp
  then have inv3: "manager_inv cfg (clear_pending_cancel server ?m3)"
    unfolding clear_pending_cancel_def by (intro unseen_inv [OF inv2] unseen_trans [OF _ unseen_fields(2)])
  show ?thesis using inv1 inv3 by (simp add: delete_rows_def m1 Let_def split: sum.split)
qed

text \<open>
  One operation of the manager. The parameters of an operation are arbitrary, but a control that is
  attached is new, a deletion removes rows only after the build has ended, and a build's own writes to
  the database are any change of it.
\<close>

inductive index_step :: "resolved_index_config \<Rightarrow> index_manager \<Rightarrow> index_manager \<Rightarrow> bool" for cfg where
  step_guard: "index_step cfg m (foreground_guard env server m)"
| step_end: "index_step cfg m (foreground_end cfg env server m)"
| step_timer: "index_step cfg m (quiet_timer env server m)"
| step_metrics: "index_step cfg m (record_foreground_operation_with_health env server elapsed error bad failure m)"
| step_overlay: "index_step cfg m (set_pause_overlay env server maintenance health m)"
| step_reserve: "index_step cfg m (snd (reserve_refresh_build cfg env server force automatic m))"
| step_attach: "fresh_control c m \<Longrightarrow>
    index_step cfg m (snd (attach_refresh_control cfg env server token c answers m))"
| step_launch: "index_step cfg m (reconcile_pause_state env server m)"
| step_controller: "index_step cfg m (update_runtime_controller env server limits st deadline m)"
| step_progress: "index_step cfg m (update_runtime_progress server progress m)"
| step_health: "index_step cfg m (update_health_state env server health m)"
| step_finish: "index_step cfg m
    (finish_build_inner_with_retry_policy cfg env server control (Some token) error preserve m)"
| step_start_failure: "index_step cfg m (snd (record_start_failure cfg env server token message m))"
| step_control: "index_step cfg m (snd (control_operation cfg env server action m))"
| step_cancel: "server \<in> im_deleting m \<Longrightarrow> index_step cfg m (snd (cancel_active_build server m))"
| step_delete: "server \<in> im_deleting m \<Longrightarrow> server \<notin> im_active_builds m \<Longrightarrow>
    index_step cfg m (snd (delete_rows env server m))"
| step_deleted: "server \<in> im_deleting m \<Longrightarrow> index_step cfg m (end_deletion env server result m)"
| step_load: "index_step cfg m (snd (load_persisted_retry_state env k server m))"
| step_database: "index_step cfg m (m\<lparr>im_db := db\<rparr>)"
| step_shutdown: "index_step cfg m (request_shutdown m)"

lemma manager_new_inv: "manager_inv cfg (manager_new capacity db)"
  by (simp add: manager_new_def manager_inv_except_def bounded_def registered_def counted_def controls_apart_def held_def
      attached_def build_of_def)

lemma index_step_inv:
  assumes "index_step cfg m m'" and "manager_inv cfg m"
  shows "manager_inv cfg m'"
  using assms
proof (induction rule: index_step.induct)
  case (step_metrics m env server elapsed error bad failure)
  then show ?case
    unfolding record_foreground_operation_with_health_def Let_def by (rule unseen_inv) (rule unseen_fields)
next
  case (step_progress m server progress)
  then show ?case by (simp add: update_runtime_progress_def update_build_inv)
next
  case (step_health m env server health)
  then show ?case by (simp add: update_health_state_def update_state_inv)
next
  case (step_cancel server m)
  have "unseen m (snd (cancel_active_build server m))"
    by (simp add: cancel_active_build_def cancel_build_unseen split: option.split)
  then show ?case using step_cancel by (simp add: unseen_inv)
next
  case (step_deleted server m env result)
  have "unseen m (case result of Inl e \<Rightarrow> m\<lparr>im_deletion_errors := f e\<rparr> | Inr _ \<Rightarrow> m)" for f
    by (simp add: unseen_fields split: sum.split)
  then have "unseen m (end_deletion env server result m)"
    unfolding end_deletion_def Let_def by (rule unseen_trans) (rule unseen_fields)
  then show ?case using step_deleted by (simp add: unseen_inv)
next
  case (step_shutdown m)
  then show ?case unfolding request_shutdown_def by (rule unseen_inv) (rule unseen_fields)
qed (auto intro: foreground_guard_inv foreground_end_inv quiet_timer_inv set_pause_overlay_inv reserve_inv attach_inv
    reconcile_inv_any update_runtime_controller_inv finish_inv record_start_failure_inv control_operation_inv
    delete_rows_inv unseen_inv [OF _ unseen_load] unseen_inv [OF _ unseen_fields(1)])

interpretation index_system: invariant_system "\<lambda>m. \<exists>capacity db. m = manager_new capacity db" "index_step cfg"
  "manager_inv cfg" for cfg
  by unfold_locales (auto intro: manager_new_inv index_step_inv)

definition manager_reachable :: "resolved_index_config \<Rightarrow> index_manager \<Rightarrow> bool" where
  "manager_reachable cfg m \<longleftrightarrow> (\<exists>capacity db. (index_step cfg)\<^sup>*\<^sup>* (manager_new capacity db) m)"

lemma manager_reachable_new: "manager_reachable cfg (manager_new capacity db)"
  unfolding manager_reachable_def by blast

lemma manager_reachable_step: "manager_reachable cfg m \<Longrightarrow> index_step cfg m m' \<Longrightarrow> manager_reachable cfg m'"
  unfolding manager_reachable_def by (blast intro: rtranclp.rtrancl_into_rtrancl)

lemma manager_reachable_inv: "manager_reachable cfg m \<Longrightarrow> manager_inv cfg m"
  unfolding manager_reachable_def using index_system.reachable_inv by blast

section \<open>A poisoned runtime\<close>

lemma database_write_poisoned [simp]:
  "im_runtime_poisoned (snd (database_write operation m)) = im_runtime_poisoned m"
  by (simp add: database_write_def split: prod.split sum.split)

lemma finish_poisoned [simp]:
  "im_runtime_poisoned m \<Longrightarrow> finish_build_inner_with_retry_policy cfg env server control token error preserve m = m"
  by (simp add: finish_build_inner_with_retry_policy_def)

lemma load_poisoned [simp]:
  "im_runtime_poisoned (snd (load_persisted_retry_state env k server m)) = im_runtime_poisoned m"
  by (auto simp: load_persisted_retry_state_def Let_def manager_simps split: sum.split)

lemma reserve_poisoned:
  assumes "im_runtime_poisoned m"
  shows "snd (reserve_refresh_build cfg env server force automatic m) = m"
    and "fst (reserve_refresh_build cfg env server force automatic m) \<noteq> Inr (Some token)"
proof -
  have "snd (load_persisted_retry_state env 2 server m) = m" "isl (fst (load_persisted_retry_state env 2 server m))"
    using assms by (auto simp: load_persisted_retry_state_def split: sum.split)
  then have "reserve_checks cfg env server automatic m = (r, m1) \<Longrightarrow> m1 = m \<and> (\<forall>n. r \<noteq> Inr (Some n))" for r m1
    by (auto simp: reserve_checks_def split: sum.splits prod.splits if_splits)
  then show "snd (reserve_refresh_build cfg env server force automatic m) = m"
    "fst (reserve_refresh_build cfg env server force automatic m) \<noteq> Inr (Some token)"
    by (auto simp: reserve_refresh_build_def split: sum.split prod.split option.split)
qed

lemma reconcile_poisoned [simp]: "im_runtime_poisoned m \<Longrightarrow> reconcile_pause_state env server m = m"
  by (simp add: reconcile_pause_state_def)

lemma clear_expired_poisoned [simp]:
  "im_runtime_poisoned m \<Longrightarrow> clear_expired_foreground_quiet_period env server m = (False, m)"
  by (simp add: clear_expired_foreground_quiet_period_def quiet_expired_def)

lemma attach_poisoned:
  "im_runtime_poisoned m \<Longrightarrow> im_runtime_poisoned (snd (attach_refresh_control cfg env server token c answers m))"
  by (auto simp: attach_refresh_control_def abandon_attach_def take_pending_cancel_def call_control_def Let_def
      record_start_failure_def finish_build_owned_def finish_build_inner_def split_def database_write_def
      split: option.split sum.split prod.split)

lemma control_poisoned:
  "im_runtime_poisoned m \<Longrightarrow> im_runtime_poisoned (snd (control_operation cfg env server action m))"
  by (cases action) (auto simp: control_operation_def change_auto_refresh_def delete_index_request_def
      apply_control_action_def reconcile_pause_state_def database_write_def split: sum.split prod.split)

lemma poisoned_stays:
  assumes "index_step cfg m m'" and "im_runtime_poisoned m"
  shows "im_runtime_poisoned m'"
  using assms
proof (cases rule: index_step.cases)
  case (step_end env server)
  moreover have "im_runtime_poisoned (decrement_foreground_users server m)" using assms(2) by (simp add: decrement_view)
  ultimately show ?thesis
    by (simp add: foreground_end_def update_runtime_after_foreground_end_def Let_def)
next
  case (step_timer env server)
  then show ?thesis using assms(2)
    by (simp add: quiet_timer_def)
next
  case (step_start_failure env server token message)
  then show ?thesis using assms(2)
    by (simp add: record_start_failure_def finish_build_owned_def finish_build_inner_def split_def Let_def)
next
  case (step_delete server env)
  then show ?thesis using assms(2)
    by (simp add: delete_rows_def Let_def clear_pending_cancel_def database_write_def split: prod.split sum.split)
qed (auto simp: foreground_guard_def record_foreground_operation_with_health_def set_pause_overlay_def Let_def
    reconcile_pause_state_def reserve_poisoned attach_poisoned control_poisoned update_runtime_controller_def
    update_runtime_progress_def update_health_state_def cancel_active_build_def end_deletion_def request_shutdown_def
    split: sum.split)

interpretation poisoned_system: invariant_system im_runtime_poisoned "index_step cfg" im_runtime_poisoned for cfg
  by unfold_locales (auto intro: poisoned_stays)

section \<open>Properties\<close>



definition demo_call :: call_env where
  "demo_call = \<lparr>ce_imax = 10 ^ 15, ce_tmax = 10 ^ 20, ce_instant = 0, ce_system = 0, ce_read_error = (\<lambda>_. None),
     ce_faults = (\<lambda>_ _. False), ce_free_bytes = None, ce_lock_error = None, ce_error_text = (\<lambda>_. []),
     ce_in_runtime = True, ce_local_hour = 0, ce_local_minute = 0\<rparr>"

definition demo_enrolled :: index_db where
  "demo_enrolled = \<lparr>db_meta = [], db_enrolled = [(''S'', \<lparr>en_auto_refresh_enabled = True, en_enrolled_at = ''0'',
     en_updated_at = ''0''\<rparr>)], db_generations = [], db_entries = [], db_fts = []\<rparr>"

definition demo_answers :: control_answers where
  "demo_answers = \<lparr>ca_cancelled_before = False, ca_pacing_error = None, ca_cancelled_after = False\<rparr>"

definition demo_manager :: index_manager where
  "demo_manager = manager_new 1 demo_enrolled"

definition demo_reserved :: index_manager where
  "demo_reserved = snd (reserve_refresh_build demo_settings demo_call ''S'' False False demo_manager)"

definition demo_attached :: index_manager where
  "demo_attached = snd (attach_refresh_control demo_settings demo_call ''S'' 0 7 demo_answers demo_reserved)"

definition demo_guarded :: index_manager where
  "demo_guarded = foreground_guard demo_call ''S'' demo_attached"

lemmas demo_defs = demo_call_def demo_enrolled_def demo_answers_def demo_manager_def manager_new_def

lemma demo_concurrency: "ri_concurrency demo_settings = 1"
  by (simp add: demo_settings_def resolve_index_config_def Let_def unwrap_or_def max_def word_le_nat_alt
      DEFAULT_INDEX_CONCURRENCY_def)

lemma demo_checks: "reserve_checks demo_settings demo_call ''S'' automatic demo_manager =
    (Inr (Some 0), put_state ''S'' runtime_state_default demo_manager)"
  by (simp add: reserve_checks_def demo_defs database_read_def enrollment_def insufficient_space_def
      load_persisted_retry_state_def retry_state_def failures_key_def circuit_key_def retry_after_key_def
      entry_or_default_def runtime_state_default_def persist_time_def users_of_def put_state_def)

lemma demo_reserve:
  "reserve_commit demo_settings demo_call ''S'' force n
     (m\<lparr>im_runtime := [''S'' \<mapsto> runtime_state_default]\<rparr>) =
   (Inr (Some (im_next_owner m)),
    m\<lparr>im_runtime := [''S'' \<mapsto> runtime_state_default\<lparr>rs_build := Some (new_build demo_call n)\<rparr>],
      im_next_owner := im_next_owner m + 1, im_build_owners := (im_build_owners m)(''S'' \<mapsto> im_next_owner m),
      im_active_builds := insert ''S'' (im_active_builds m), im_build_locks := insert ''S'' (im_build_locks m),
      im_commit_latency_recorded_at := (im_commit_latency_recorded_at m)(''S'' := None)\<rparr>)"
  if "\<not> im_runtime_poisoned m" "im_active_builds m = {}" "im_build_locks m = {}" "im_build_owners m = Map.empty"
  using that by (simp add: reserve_commit_def entry_or_default_def put_state_def runtime_state_default_def
      concurrency_reached_def demo_concurrency demo_call_def Let_def)

lemma demo_reserved_eq:
  "demo_reserved = demo_manager\<lparr>im_runtime := [''S'' \<mapsto> runtime_state_default\<lparr>rs_build := Some (new_build demo_call 0)\<rparr>],
     im_next_owner := 1, im_build_owners := [''S'' \<mapsto> 0], im_active_builds := {''S''}, im_build_locks := {''S''}\<rparr>"
  using demo_reserve [of demo_manager False 0]
  by (simp add: demo_reserved_def reserve_refresh_build_def demo_checks)
    (simp add: put_state_def demo_manager_def manager_new_def)

lemma demo_attach:
  "attach_refresh_control demo_settings demo_call ''S'' token 7 demo_answers m =
     (Inr (Some False), (update_build ''S'' (rb_control_update (\<lambda>_. Some 7)) m)\<lparr>im_pending_cancels := {}\<rparr>)"
  if "\<not> im_runtime_poisoned m" "build_of ''S'' m \<noteq> None" "im_pending_cancels m = {}"
  using that by (auto simp: attach_refresh_control_def demo_answers_def take_pending_cancel_def update_build_def update_state_def)

lemma demo_attached_eq:
  "demo_attached = demo_reserved\<lparr>im_runtime := [''S'' \<mapsto> runtime_state_default\<lparr>rs_build := Some (new_build demo_call 0\<lparr>rb_control := Some 7\<rparr>)\<rparr>]\<rparr>"
  using demo_attach [of demo_reserved 0]
  by (simp add: demo_attached_def demo_reserved_eq build_of_def update_build_def update_state_def demo_manager_def manager_new_def)

lemma demo_guarded_view:
  "build_of ''S'' demo_guarded = Some (new_build demo_call 1\<lparr>rb_control := Some 7, rb_pause_reason := Some Foreground\<rparr>)"
  "users_of ''S'' demo_guarded = 1" "im_calls demo_guarded = [(7, PauseCall)]" "\<not> im_runtime_poisoned demo_guarded"
  by (simp_all add: demo_guarded_def demo_attached_eq demo_reserved_eq foreground_guard_def Let_def
      reconcile_pause_state_def build_of_def users_of_def update_build_def update_state_def new_build_def
      pause_reason_of_def call_control_def demo_manager_def manager_new_def saturating_add_def)

lemma demo_reachable: "manager_reachable demo_settings demo_reserved" "manager_reachable demo_settings demo_attached"
  "manager_reachable demo_settings demo_guarded"
proof -
  have "manager_reachable demo_settings demo_manager" unfolding demo_manager_def by (rule manager_reachable_new)
  then show r: "manager_reachable demo_settings demo_reserved"
    unfolding demo_reserved_def by (rule manager_reachable_step) (rule step_reserve)
  have "fresh_control 7 demo_reserved"
    by (simp add: fresh_control_def demo_reserved_eq demo_manager_def manager_new_def attached_def build_of_def new_build_def)
  then show a: "manager_reachable demo_settings demo_attached"
    unfolding demo_attached_def by (intro manager_reachable_step [OF r] step_attach)
  show "manager_reachable demo_settings demo_guarded"
    unfolding demo_guarded_def by (rule manager_reachable_step [OF a step_guard])
qed



section \<open>The operator's cancellation\<close>

definition deferred :: "string \<Rightarrow> int \<Rightarrow> index_manager \<Rightarrow> bool" where
  "deferred server d m \<longleftrightarrow>
     (case im_runtime m server of
        None \<Rightarrow> False
      | Some st \<Rightarrow> (case rs_retry_after st of None \<Rightarrow> False | Some r \<Rightarrow> d \<le> r))"

lemma deferred_cong: "im_runtime m' server = im_runtime m server \<Longrightarrow> deferred server d m' = deferred server d m"
  by (simp add: deferred_def)

lemma deferred_fields:
  "deferred server d (m\<lparr>im_pending_cancels := x1\<rparr>) = deferred server d m"
  "deferred server d (m\<lparr>im_cleanup_requested := x2\<rparr>) = deferred server d m"
  "deferred server d (m\<lparr>im_build_locks := x3\<rparr>) = deferred server d m"
  "deferred server d (m\<lparr>im_active_builds := x4\<rparr>) = deferred server d m"
  "deferred server d (m\<lparr>im_build_owners := x5\<rparr>) = deferred server d m"
  "deferred server d (m\<lparr>im_pause_overlays := x6\<rparr>) = deferred server d m"
  by (simp_all add: deferred_def)

lemma deferred_update_state:
  "(\<And>st. rs_retry_after (f st) = rs_retry_after st) \<Longrightarrow> deferred server d (update_state server' f m) = deferred server d m"
  by (cases "im_runtime m server'") (simp_all add: deferred_def update_state_def)

lemma persist_time_ge: "d \<le> r \<Longrightarrow> \<exists>r'. persist_time (Some r) x = Some r' \<and> d \<le> r'"
  by (cases x) (auto simp: persist_time_def)

lemma deferred_put_state: "rs_retry_after st = Some r \<Longrightarrow> deferred server d (put_state server st m) \<longleftrightarrow> d \<le> r"
  by (simp add: deferred_def put_state_def)

lemma deferred_write: "deferred server d (snd (database_write operation m)) = deferred server d m"
  by (rule deferred_cong) (simp add: database_write_def split: prod.split sum.split)

lemma deferred_load:
  assumes "deferred server d m"
  shows "deferred server d (snd (load_persisted_retry_state env k server m))"
proof -
  obtain st r where st: "im_runtime m server = Some st" "rs_retry_after st = Some r" "d \<le> r"
    using assms by (auto simp: deferred_def split: option.splits)
  have "deferred server d (put_state server (st\<lparr>rs_retry_after := persist_time (Some r) x,
      rs_consecutive_failures := f, rs_circuit_open := o'\<rparr>) m)" for x f o'
    using persist_time_ge [OF st(3), of x] by (auto simp: deferred_put_state)
  moreover have "deferred server d (put_state server st m)" using st by (simp add: deferred_put_state)
  ultimately show ?thesis using assms st
    by (auto simp: load_persisted_retry_state_def entry_or_default_def Let_def split: sum.split)
qed

lemma deferred_reserve:
  assumes "deferred server d m" and "ce_system env < d"
  shows "fst (reserve_refresh_build cfg env server False automatic m) \<noteq> Inr (Some token)"
proof -
  have commit: "fst (reserve_commit cfg env server False n m1) \<noteq> Inr (Some token)" if "deferred server d m1" for n m1
    using that assms(2) by (auto simp: deferred_def reserve_commit_def entry_or_default_def Let_def is_some_and_def
        split: option.splits)
  have "deferred server d m1" if "reserve_checks cfg env server automatic m = (Inr (Some n), m1)" for n m1
    using that deferred_load [OF assms(1), of env 2]
    by (auto simp: reserve_checks_def split: if_splits sum.splits prod.splits)
  then show ?thesis using commit by (auto simp: reserve_refresh_build_def split: sum.split prod.split option.split)
qed

lemma deferred_finalize:
  assumes "deferred server d m"
  shows "deferred server d (finalize_owned_build env server ownership m)"
proof -
  have persist: "deferred server d (snd (persist_retry_state env server m))"
    using assms by (auto simp: persist_retry_state_def Let_def deferred_write split: prod.split)
  have "deferred server d (case persist_retry_state env server m of
      (Inl e, m') \<Rightarrow> if im_runtime_poisoned m' then m'
        else update_state server (rs_last_error_update (\<lambda>_. Some (persistence_failure env e))) m'
    | (Inr _, m') \<Rightarrow> m')"
    using persist by (cases "persist_retry_state env server m") (auto simp: deferred_update_state split: sum.split)
  then show ?thesis
    unfolding finalize_owned_build_def Let_def
    by (simp add: clear_pending_cancel_def schedule_cleanup_def take_build_def clear_build_lock_def clear_active_build_def
        remove_build_owner_def clear_pause_overlays_def deferred_update_state deferred_fields)
qed

lemma deferred_after_build:
  assumes "im_runtime m server = Some st" and "rs_build st = Some b" and "rb_operator_cancelled_until b = Some d"
    and "\<not> im_runtime_poisoned (update_runtime_after_build cfg env server error m)"
  shows "deferred server d (update_runtime_after_build cfg env server error m)"
proof -
  have put: "deferred server d (put_state server (s\<lparr>rs_retry_after := persist_time (Some r) (Some d)\<rparr>) m)"
    "deferred server d (put_state server (s\<lparr>rs_retry_after := Some d\<rparr>) m)" for s r
    by (simp_all add: deferred_def put_state_def persist_time_def)
  show ?thesis
  proof (cases error)
    case None
    then show ?thesis using assms(1-3) put(2) by (simp add: update_runtime_after_build_def Let_def)
  next
    case (Some e)
    let ?f = "saturating_add (rs_consecutive_failures st) 1"
    obtain r where "retry_deadline cfg env server (st\<lparr>rs_last_error := error, rs_consecutive_failures := ?f,
        rs_circuit_open := ri_circuit_failure_threshold cfg \<le> ?f\<rparr>) = Some r"
      using assms Some by (simp add: update_runtime_after_build_def Let_def split: option.splits)
    then show ?thesis using assms(1-3) put(1) Some by (simp add: update_runtime_after_build_def Let_def)
  qed
qed

text \<open>
  C30. A build that the operator cancelled holds off the next automatic build: however the cancelled
  build ends - with or without an error, or interrupted - no build is reserved before the refresh
  interval with its jitter has passed since the cancellation, unless it is forced.
\<close>

theorem operator_cancel_defers_refresh:
  assumes "apply_control_action cfg env server ActCancel m = (Inr (), m1)"
    and "build_of server m = Some b" and "rb_operator_cancelled_until b = None"
    and "\<not> im_runtime_poisoned (finish_build_inner_with_retry_policy cfg env1 server control (Some token) error preserve m1)"
    and "ce_system env2 < ce_system env + int (refresh_period cfg server)"
  shows "fst (reserve_refresh_build cfg env2 server False automatic
    (finish_build_inner_with_retry_policy cfg env1 server control (Some token) error preserve m1)) \<noteq> Inr (Some token')"
proof -
  let ?d = "ce_system env + int (refresh_period cfg server)"
  let ?m2 = "finish_build_inner_with_retry_policy cfg env1 server control (Some token) error preserve m1"
  obtain st where st: "im_runtime m server = Some st" "rs_build st = Some b"
    using assms(2) by (auto simp: build_of_def bind_eq_Some_conv)
  let ?st = "st\<lparr>rs_build := Some (b\<lparr>rb_operator_cancelled_until := Some ?d\<rparr>),
    rs_retry_after := persist_time (rs_retry_after st) (Some ?d)\<rparr>"
  have "m1 = snd (database_write (set_retry_state (ce_faults env 0) server (rs_retry_after ?st)
      (rs_consecutive_failures ?st) (rs_circuit_open ?st)) (put_state server ?st (cancel_build server b m)))"
    using assms(1,3) st
    by (auto simp: apply_control_action_def cancellation_deadline_def Let_def split: if_splits option.splits)
  then have m1: "im_runtime m1 server = Some ?st"
    by (simp add: database_write_def put_state_def split: prod.split sum.split)
  have "\<exists>r. persist_time (rs_retry_after st) (Some ?d) = Some r \<and> ?d \<le> r"
    by (cases "rs_retry_after st") (simp_all add: persist_time_def)
  then have d1: "deferred server ?d m1" using m1 by (auto simp: deferred_def)
  have "deferred server ?d (update_runtime_after_build cfg env1 server error m1)"
    if "\<not> im_runtime_poisoned (update_runtime_after_build cfg env1 server error m1)"
    using deferred_after_build [OF m1 _ _ that] by simp
  then have "deferred server ?d ?m2"
    using d1 assms(4)
    by (auto simp: finish_build_inner_with_retry_policy_def Let_def deferred_finalize deferred_update_state split: if_splits)
  then show ?thesis using assms(5) by (rule deferred_reserve)
qed

lemma demo_intervals: "ri_refresh_interval_seconds demo_settings = 604800" "ri_schedule_jitter_seconds demo_settings = 21600"
  "ri_quiet_period_seconds demo_settings = 2"
  by (simp_all add: demo_settings_def resolve_index_config_def Let_def unwrap_or_def max_def word_le_nat_alt
      DEFAULT_INDEX_REFRESH_INTERVAL_SECONDS_def DEFAULT_INDEX_SCHEDULE_JITTER_SECONDS_def
      DEFAULT_INDEX_QUIET_PERIOD_SECONDS_def)

lemma demo_period: "SECOND \<le> refresh_period demo_settings server" "refresh_period demo_settings server \<le> 10 ^ 18"
  using jitter_bound [of server 21600]
  by (simp_all add: refresh_period_def demo_intervals duration_saturating_add_def max_def word_le_nat_alt SECOND_def
      DURATION_MAX_def)

definition demo_cancelled :: index_manager where
  "demo_cancelled = snd (apply_control_action demo_settings demo_call ''S'' ActCancel demo_attached)"

lemma demo_attached_build:
  "build_of ''S'' demo_attached = Some (new_build demo_call 0\<lparr>rb_control := Some 7\<rparr>)" "\<not> im_runtime_poisoned demo_attached"
  by (simp_all add: demo_attached_eq demo_reserved_eq build_of_def demo_manager_def manager_new_def)

lemma demo_cancel: "apply_control_action demo_settings demo_call ''S'' ActCancel demo_attached = (Inr (), demo_cancelled)"
proof -
  have "cancellation_deadline demo_settings demo_call ''S'' (new_build demo_call 0\<lparr>rb_control := Some 7\<rparr>) =
      Some (int (refresh_period demo_settings ''S''))"
    using demo_period(2) [of "''S''"] by (simp add: cancellation_deadline_def new_build_def demo_call_def Let_def)
  then have "fst (apply_control_action demo_settings demo_call ''S'' ActCancel demo_attached) = Inr ()"
    by (simp add: apply_control_action_def demo_attached_eq demo_reserved_eq demo_manager_def manager_new_def
        set_retry_state_def database_write_def demo_call_def Let_def)
  then show ?thesis by (simp add: demo_cancelled_def prod_eq_iff)
qed

theorem operator_cancel_defers_refresh_witness:
  "fst (reserve_refresh_build demo_settings (demo_call\<lparr>ce_system := 5\<rparr>) ''S'' False True
     (finish_build_inner_with_retry_policy demo_settings demo_call ''S'' (Some 7) (Some 0) None False demo_cancelled)) \<noteq> Inr (Some 1)"
proof -
  let ?m2 = "finish_build_inner_with_retry_policy demo_settings demo_call ''S'' (Some 7) (Some 0) None False demo_cancelled"
  have "im_runtime_poisoned demo_cancelled = False"
    using demo_attached_build(2) by (simp add: demo_cancelled_def apply_control_action_def database_write_def cancel_build_def
        call_control_def manager_simps Let_def split: option.split prod.split sum.split)
  then have alive: "\<not> im_runtime_poisoned (update_runtime_after_build demo_settings demo_call ''S'' None demo_cancelled)"
    by (simp add: update_runtime_after_build_def Let_def manager_simps split: option.split)
  have "im_runtime_poisoned (finalize_owned_build env s o' m) = im_runtime_poisoned m" for env s o' m
    by (simp add: finalize_owned_build_def Let_def clear_pending_cancel_def schedule_cleanup_def take_build_def
        clear_build_lock_def clear_active_build_def remove_build_owner_def clear_pause_overlays_def manager_simps
        database_write_def persist_retry_state_def split: prod.split sum.split)
  then have "\<not> im_runtime_poisoned ?m2"
    using alive \<open>im_runtime_poisoned demo_cancelled = False\<close>
    by (simp add: finish_build_inner_with_retry_policy_def)
  moreover have "ce_system (demo_call\<lparr>ce_system := 5\<rparr>) < ce_system demo_call + int (refresh_period demo_settings ''S'')"
    using demo_period(1) [of "''S''"] by (simp add: demo_call_def SECOND_def)
  ultimately show ?thesis
    using operator_cancel_defers_refresh [OF demo_cancel demo_attached_build(1)] by (simp add: new_build_def)
qed

section \<open>Findings\<close>

text \<open>
  C40. The number of foreground users is read before the runtime lock is taken. A foreground request
  that arrives in between is not seen by the new build: once its control is attached and the pauses
  are reconciled, the build is told to run although the request is still being served.
\<close>

theorem reservation_misses_foreground:
  assumes "reserve_checks cfg env server automatic m = (Inr (Some n), m1)" and "n = 0"
    and "reserve_commit cfg env1 server force n (foreground_guard env2 server m1) = (Inr (Some token), m2)"
    and "attach_refresh_control cfg env3 server token c answers m2 = (Inr (Some cancelled), m3)"
    and "im_pause_overlays m3 server = None"
  shows "users_of server (reconcile_pause_state env4 server m3) > 0 \<and>
    latest_call c (im_calls (reconcile_pause_state env4 server m3)) = Some ResumeCall"
proof -
  let ?g = "foreground_guard env2 server m1"
  have "users_of server ?g = saturating_add (users_of server m1) 1"
    by (simp add: foreground_guard_def Let_def reconcile_pause_state_def call_control_def users_of_def manager_simps
        split: option.split)
  then have g: "users_of server ?g > 0"
    by (simp add: word_less_nat_alt unat_saturating_add)
  have m2: "build_of server m2 = Some (new_build env1 0)" "im_foreground_users m2 = im_foreground_users ?g"
    "\<not> im_runtime_poisoned m2"
    using assms(2,3)
    by (auto simp: reserve_commit_def Let_def manager_simps build_of_def put_state_def split: if_splits option.splits)
  have m3: "build_of server m3 = Some (new_build env1 0\<lparr>rb_control := Some c\<rparr>)"
    "im_foreground_users m3 = im_foreground_users m2" "\<not> im_runtime_poisoned m3"
    using assms(4) m2
    by (auto simp: attach_refresh_control_def take_pending_cancel_def Let_def manager_simps split: option.splits if_splits
        prod.splits sum.splits)
  have "pause_reason_of env4 (overlay_of server m3) (new_build env1 0\<lparr>rb_control := Some c\<rparr>) = None"
    using assms(5) by (simp add: pause_reason_of_def new_build_def overlay_of_def pause_overlay_default_def is_some_and_def)
  then have "latest_call c (im_calls (reconcile_pause_state env4 server m3)) = Some ResumeCall"
    using m3 by (simp add: reconcile_pause_state_def call_control_def Let_def)
  moreover have "users_of server (reconcile_pause_state env4 server m3) = users_of server ?g"
    using m2(2) m3(2) by (simp add: users_of_def reconcile_view)
  ultimately show ?thesis using g by simp
qed

text \<open>
  A quiet period that leads past the last representable instant (\<open>quiet_period_seconds\<close> is not
  bounded by the configuration) makes the end of the last foreground request during a build panic
  under the runtime lock. From then on no build can be reserved, whatever else happens.
\<close>

theorem long_quiet_period_stops_indexing:
  assumes "build_of server m = Some b" and "\<not> im_runtime_poisoned m" and "users_of server m = 1"
    and "ce_imax env < ce_instant env + unat (ri_quiet_period_seconds cfg) * SECOND"
    and "(index_step cfg)\<^sup>*\<^sup>* (foreground_end cfg env server m) m'"
  shows "fst (reserve_refresh_build cfg env' server' force automatic m') \<noteq> Inr (Some token)"
proof -
  let ?m1 = "decrement_foreground_users server m"
  have "build_of server ?m1 = build_of server m" by (simp add: decrement_foreground_users_def Let_def build_of_def)
  moreover have "users_of server ?m1 = 0" using assms(3) by (simp add: decrement_view saturating_sub_def)
  moreover have "instant_add (ce_imax env) (ce_instant env) (unat (ri_quiet_period_seconds cfg) * SECOND) = None"
    using assms(4) by (simp add: instant_add_def)
  ultimately have "im_runtime_poisoned (update_runtime_after_foreground_end env server
      (unat (ri_quiet_period_seconds cfg) * SECOND) ?m1)"
    using assms(1,2) by (simp add: update_runtime_after_foreground_end_def decrement_view Let_def)
  then have "im_runtime_poisoned (foreground_end cfg env server m)" by (simp add: foreground_end_def Let_def)
  then have "im_runtime_poisoned m'" using assms(5) by (rule poisoned_system.run_inv)
  then show ?thesis by (rule reserve_poisoned)
qed

theorem long_quiet_period_stops_indexing_witness:
  "fst (reserve_refresh_build demo_settings demo_call ''T'' True False
     (foreground_end demo_settings (demo_call\<lparr>ce_instant := 10 ^ 15\<rparr>) ''S'' demo_guarded)) \<noteq> Inr (Some 1)"
proof -
  have "ce_imax (demo_call\<lparr>ce_instant := 10 ^ 15\<rparr>) < ce_instant (demo_call\<lparr>ce_instant := 10 ^ 15\<rparr>) +
      unat (ri_quiet_period_seconds demo_settings) * SECOND"
    by (simp add: demo_call_def demo_intervals SECOND_def)
  then show ?thesis
    using long_quiet_period_stops_indexing [OF demo_guarded_view(1,4,2)] by blast
qed

definition demo_late_guard :: index_manager where
  "demo_late_guard = foreground_guard demo_call ''S'' (put_state ''S'' runtime_state_default demo_manager)"

lemma demo_late_guard_eq:
  "demo_late_guard = demo_manager\<lparr>im_runtime := [''S'' \<mapsto> runtime_state_default], im_foreground_users := [''S'' \<mapsto> 1]\<rparr>"
  by (simp add: demo_late_guard_def foreground_guard_def Let_def put_state_def update_build_def update_state_def users_of_def
      reconcile_pause_state_def build_of_def runtime_state_default_def demo_manager_def manager_new_def saturating_add_def)

theorem reservation_misses_foreground_witness:
  "\<exists>m2 m3. reserve_commit demo_settings demo_call ''S'' False 0 demo_late_guard = (Inr (Some 0), m2) \<and>
     attach_refresh_control demo_settings demo_call ''S'' 0 7 demo_answers m2 = (Inr (Some False), m3) \<and>
     users_of ''S'' (reconcile_pause_state demo_call ''S'' m3) > 0 \<and>
     latest_call 7 (im_calls (reconcile_pause_state demo_call ''S'' m3)) = Some ResumeCall"
proof -
  obtain m2 where m2: "reserve_commit demo_settings demo_call ''S'' False 0 demo_late_guard = (Inr (Some 0), m2)"
    "im_runtime m2 ''S'' = Some (runtime_state_default\<lparr>rs_build := Some (new_build demo_call 0)\<rparr>)"
    "\<not> im_runtime_poisoned m2" "im_pending_cancels m2 = {}" "im_pause_overlays m2 = Map.empty"
    using demo_reserve [of "demo_manager\<lparr>im_foreground_users := [''S'' \<mapsto> 1]\<rparr>" False 0]
    by (simp add: demo_late_guard_eq demo_manager_def manager_new_def)
  then have m3: "attach_refresh_control demo_settings demo_call ''S'' 0 7 demo_answers m2 =
      (Inr (Some False), (update_build ''S'' (rb_control_update (\<lambda>_. Some 7)) m2)\<lparr>im_pending_cancels := {}\<rparr>)"
    (is "_ = (_, ?m3)") by (intro demo_attach) (simp_all add: build_of_def)
  have "im_pause_overlays ?m3 ''S'' = None" using m2(5) by (simp add: update_build_def update_state_def)
  then have "users_of ''S'' (reconcile_pause_state demo_call ''S'' ?m3) > 0 \<and>
      latest_call 7 (im_calls (reconcile_pause_state demo_call ''S'' ?m3)) = Some ResumeCall"
    using reservation_misses_foreground [OF demo_checks refl _ m3] m2(1) unfolding demo_late_guard_def by blast
  then show ?thesis using m2(1) m3 by blast
qed

end
