(* ===== verification/Status.thy ===== *)
theory Status
  imports ManagerProofs
begin

text \<open>
  The status of an index and what is decided from it: \<open>IndexManager::status\<close> and its parts
  (\<open>index/status.rs\<close>), the refresh decisions of the background task (\<open>index/scheduler.rs\<close>), and
  \<open>IndexManager::search\<close> (\<open>index/query.rs\<close>).
\<close>

section \<open>Parts of a status\<close>

definition host_metrics_default :: host_metrics where
  "host_metrics_default = \<lparr>hm_cpu_percent = None, hm_available_memory_percent = None, hm_disk_active_percent = None,
     hm_disk_queue = None, hm_process_working_set_bytes = None, hm_process_private_bytes = None,
     hm_process_read_bytes_per_second = None, hm_process_write_bytes_per_second = None, hm_disk_free_bytes = None\<rparr>"

definition storage_diagnostics_default :: storage_diagnostics where
  "storage_diagnostics_default = \<lparr>sd_main_bytes = 0, sd_wal_bytes = 0, sd_shm_bytes = 0, sd_free_bytes = None,
     sd_last_commit_latency_ms = None\<rparr>"

definition scheduler_diagnostics_default :: scheduler_diagnostics where
  "scheduler_diagnostics_default = \<lparr>sch_next_refresh_at = None, sch_last_attempt_at = None, sch_last_success_at = None,
     sch_last_success_duration_ms = None, sch_retry_after = None, sch_consecutive_failures = 0, sch_circuit_open = False\<rparr>"

definition empty_status :: "string \<Rightarrow> index_state \<Rightarrow> index_status" where
  "empty_status server state =
     \<lparr>is_server = server, is_state = state, is_auto_refresh_enabled = False, is_active_generation = 0,
      is_entry_count = 0, is_unique_item_count = 0, is_started_at = None, is_completed_at = None,
      is_last_error = None, is_database_bytes = 0, is_organization = OrgUnspecified, is_source = SrcUnspecified,
      is_progress = None, is_effective_limits = None, is_controller_state = None, is_pause_reason = None,
      is_recovery_deadline = None, is_foreground_metrics = foreground_metrics_default,
      is_host_metrics = host_metrics_default, is_health = HealthUnavailable, is_sentinel_configured = False,
      is_storage = storage_diagnostics_default, is_scheduler = scheduler_diagnostics_default\<rparr>"

definition status_from_row ::
  "string \<Rightarrow> db_status \<Rightarrow> index_state \<Rightarrow> inventory_progress option \<Rightarrow> u64 \<Rightarrow> index_status" where
  "status_from_row server row state progress database_bytes =
     \<lparr>is_server = server, is_state = state, is_auto_refresh_enabled = False,
      is_active_generation = (if ds_state row = Active then ds_generation row else 0),
      is_entry_count = ds_entry_count row, is_unique_item_count = ds_unique_item_count row,
      is_started_at = Some (ds_started_at row), is_completed_at = ds_completed_at row,
      is_last_error = ds_last_error row, is_database_bytes = database_bytes,
      is_organization = ds_organization row, is_source = ds_source row, is_progress = progress,
      is_effective_limits = None, is_controller_state = None, is_pause_reason = None, is_recovery_deadline = None,
      is_foreground_metrics = foreground_metrics_default, is_host_metrics = host_metrics_default,
      is_health = HealthUnavailable, is_sentinel_configured = False, is_storage = storage_diagnostics_default,
      is_scheduler = scheduler_diagnostics_default\<rparr>"

text \<open>
  \<open>SystemTime::duration_since\<close> is the difference where it is not negative. A recovery deadline is at
  most the controller's maximal delay away.
\<close>

definition instant_timestamp :: "call_env \<Rightarrow> instant \<Rightarrow> string" where
  "instant_timestamp env deadline = system_time_timestamp (ce_system env + int (deadline - ce_instant env))"

definition status_duration_ms :: "int \<Rightarrow> db_status \<Rightarrow> u64 option" where
  "status_duration_ms tmax row =
     (case Option.bind (ds_completed_at row) (parse_timestamp tmax) of
        None \<Rightarrow> None
      | Some completed \<Rightarrow>
          (case parse_timestamp tmax (ds_started_at row) of
             None \<Rightarrow> None
           | Some started \<Rightarrow>
               if started \<le> completed
               then let millis = nat (completed - started) div 1000000
                    in Some (if millis < 2 ^ 64 then of_nat millis else - 1)
               else None))"

section \<open>The state of an index\<close>

definition status_from_runtime_build ::
  "call_env \<Rightarrow> string \<Rightarrow> runtime_build \<Rightarrow> bool \<Rightarrow> u64 \<Rightarrow> index_status" where
  "status_from_runtime_build env server build is_promoting database_bytes =
     (empty_status server (if is_promoting then IndexPromoting else IndexPartial))
       \<lparr>is_entry_count := (case rb_progress build of None \<Rightarrow> 0 | Some p \<Rightarrow> ip_entries_seen p),
        is_unique_item_count := (case rb_progress build of None \<Rightarrow> 0 | Some p \<Rightarrow> ip_unique_items p),
        is_started_at := Some (rb_started_at build), is_database_bytes := database_bytes,
        is_progress := rb_progress build, is_effective_limits := rb_effective_limits build,
        is_controller_state := rb_controller_state build, is_pause_reason := rb_pause_reason build,
        is_recovery_deadline := map_option (instant_timestamp env) (rb_recovery_deadline build)\<rparr>"

definition status_during_build ::
  "call_env \<Rightarrow> string \<Rightarrow> status_summary \<Rightarrow> runtime_build \<Rightarrow> bool \<Rightarrow> u64 \<Rightarrow> index_status" where
  "status_during_build env server rows build is_promoting database_bytes =
     (case or_else (sr_active rows) (or_else (sr_staging rows) (sr_failed rows)) of
        Some row \<Rightarrow>
          let state = (if is_promoting then IndexPromoting
                       else if sr_active rows \<noteq> None then IndexRefreshing
                       else if sr_staging rows \<noteq> None then IndexPartial else IndexFailed)
          in (status_from_row server row state (rb_progress build) database_bytes)
               \<lparr>is_started_at := Some (rb_started_at build)\<rparr>
      | None \<Rightarrow> status_from_runtime_build env server build is_promoting database_bytes)"

definition index_is_stale :: "resolved_index_config \<Rightarrow> call_env \<Rightarrow> db_status \<Rightarrow> bool" where
  "index_is_stale cfg env row =
     is_some_and (Option.bind (ds_completed_at row) (parse_timestamp (ce_tmax env)))
       (\<lambda>completed. nat (ce_system env - completed) > unat (ri_refresh_interval_seconds cfg) * SECOND)"

definition status_from_active_row ::
  "resolved_index_config \<Rightarrow> call_env \<Rightarrow> string \<Rightarrow> status_summary \<Rightarrow> db_status \<Rightarrow> u64 \<Rightarrow> index_status" where
  "status_from_active_row cfg env server rows row database_bytes =
     (let state = (if sr_failed_after_active rows \<noteq> None then IndexFailed
                   else if index_is_stale cfg env row then IndexStale else IndexReady);
          status = status_from_row server row state None database_bytes
      in case sr_failed_after_active rows of
           None \<Rightarrow> status
         | Some failed \<Rightarrow> status\<lparr>is_last_error := ds_last_error failed\<rparr>)"

definition status_without_build ::
  "resolved_index_config \<Rightarrow> call_env \<Rightarrow> string \<Rightarrow> status_summary \<Rightarrow> u64 \<Rightarrow> bool \<Rightarrow> index_status" where
  "status_without_build cfg env server rows database_bytes sentinel_configured =
     (case (sr_active rows, sr_staging rows, sr_failed rows) of
        (Some row, _, _) \<Rightarrow> status_from_active_row cfg env server rows row database_bytes
      | (None, Some row, _) \<Rightarrow> status_from_row server row IndexPartial None database_bytes
      | (None, None, Some row) \<Rightarrow> status_from_row server row IndexFailed None database_bytes
      | (None, None, None) \<Rightarrow> (empty_status server IndexNotIndexed)
          \<lparr>is_database_bytes := database_bytes, is_sentinel_configured := sentinel_configured\<rparr>)"

definition base_status ::
  "resolved_index_config \<Rightarrow> call_env \<Rightarrow> string \<Rightarrow> status_summary \<Rightarrow> runtime_build option \<Rightarrow> bool \<Rightarrow> u64 \<Rightarrow> bool \<Rightarrow> index_status" where
  "base_status cfg env server rows build is_promoting database_bytes sentinel_configured =
     (case build of
        Some b \<Rightarrow> status_during_build env server rows b is_promoting database_bytes
      | None \<Rightarrow> status_without_build cfg env server rows database_bytes sentinel_configured)"

definition apply_status_errors ::
  "bool \<Rightarrow> string option \<Rightarrow> string option \<Rightarrow> index_status \<Rightarrow> index_status" where
  "apply_status_errors build_active runtime_error promotion_read_error status =
     (let status1 = (if \<not> build_active \<and> runtime_error \<noteq> None
                     then status\<lparr>is_state := IndexFailed, is_last_error := runtime_error\<rparr> else status)
      in if promotion_read_error \<noteq> None then status1\<lparr>is_last_error := promotion_read_error\<rparr> else status1)"

definition foreground_metrics_snapshot :: "string \<Rightarrow> index_manager \<Rightarrow> foreground_metrics" where
  "foreground_metrics_snapshot server m =
     (case im_foreground_metrics m server of
        Some st \<Rightarrow> snapshot (users_of server m) st
      | None \<Rightarrow> foreground_metrics_default\<lparr>fm_active_count := users_of server m\<rparr>)"

definition apply_runtime_status :: "call_env \<Rightarrow> runtime_state \<Rightarrow> index_status \<Rightarrow> index_status" where
  "apply_runtime_status env runtime status =
     (let status1 = status\<lparr>is_health := rs_health runtime\<rparr>
      in case rs_build runtime of
           None \<Rightarrow> status1
         | Some build \<Rightarrow>
             status1\<lparr>is_effective_limits := rb_effective_limits build, is_controller_state := rb_controller_state build,
               is_pause_reason := rb_pause_reason build,
               is_recovery_deadline := map_option (instant_timestamp env) (rb_recovery_deadline build),
               is_storage := (is_storage status1)\<lparr>sd_last_commit_latency_ms := rb_last_commit_latency_ms build\<rparr>\<rparr>)"

section \<open>The schedule\<close>

definition next_refresh_at :: "resolved_index_config \<Rightarrow> int \<Rightarrow> string \<Rightarrow> string option \<Rightarrow> string option" where
  "next_refresh_at cfg tmax server completed =
     (case Option.bind completed (parse_timestamp tmax) of
        None \<Rightarrow> None
      | Some completed_at \<Rightarrow>
          let next = completed_at + int (refresh_period cfg server)
          in if next \<le> tmax then Some (system_time_timestamp next) else None)"

definition scheduler_diagnostics_of ::
  "resolved_index_config \<Rightarrow> int \<Rightarrow> string \<Rightarrow> status_summary \<Rightarrow> runtime_state \<Rightarrow> bool \<Rightarrow> scheduler_diagnostics" where
  "scheduler_diagnostics_of cfg tmax server rows runtime usable_index =
     (let last_success_at = Option.bind (sr_active rows) ds_completed_at
      in \<lparr>sch_next_refresh_at =
            (if usable_index
             then map_option (\<lambda>next. system_time_timestamp
                    (case rs_retry_after runtime of None \<Rightarrow> next | Some retry \<Rightarrow> max retry next))
                    (Option.bind (next_refresh_at cfg tmax server last_success_at) (parse_timestamp tmax))
             else None),
          sch_last_attempt_at =
            or_else (map_option rb_started_at (rs_build runtime))
              (or_else (map_option ds_started_at (sr_failed rows)) (map_option ds_started_at (sr_active rows))),
          sch_last_success_at = last_success_at,
          sch_last_success_duration_ms = Option.bind (sr_active rows) (status_duration_ms tmax),
          sch_retry_after = map_option system_time_timestamp (rs_retry_after runtime),
          sch_consecutive_failures = rs_consecutive_failures runtime,
          sch_circuit_open = rs_circuit_open runtime\<rparr>)"

section \<open>\<open>IndexManager::status\<close>\<close>

definition deletion_failed_text :: "string \<Rightarrow> string" where
  "deletion_failed_text error = ''namespace index deletion failed: '' @ error"

definition error_text :: "call_env \<Rightarrow> manager_error \<Rightarrow> string" where
  "error_text env e = (case e of DatabaseError d \<Rightarrow> ce_error_text env d | ManagerError s \<Rightarrow> s)"

text \<open>
  While a promotion holds the database, its file is read through a connection of its own, and a
  failure of that is reported in the status.
\<close>

definition reads_aside :: "resolved_index_config \<Rightarrow> string \<Rightarrow> index_manager \<Rightarrow> bool" where
  "reads_aside cfg server m \<longleftrightarrow> server \<in> im_promoting m \<and> ri_database_path cfg \<noteq> '':memory:''"

definition load_enrollment ::
  "resolved_index_config \<Rightarrow> call_env \<Rightarrow> string \<Rightarrow> index_manager \<Rightarrow> manager_error + (bool option \<times> string option)" where
  "load_enrollment cfg env server m =
     (case database_read env 0 (\<lambda>db. Inr (enrollment server db)) m of
        Inl e \<Rightarrow> if reads_aside cfg server m then Inr (Some False, Some (error_text env e)) else Inl e
      | Inr enrolled \<Rightarrow> Inr (enrolled, None))"

definition load_status_rows ::
  "resolved_index_config \<Rightarrow> call_env \<Rightarrow> string \<Rightarrow> index_manager \<Rightarrow> manager_error + (db_status list \<times> string option)" where
  "load_status_rows cfg env server m =
     (case database_read env 1 (\<lambda>db. Inr (status_rows server db)) m of
        Inl e \<Rightarrow> if reads_aside cfg server m then Inr ([], Some (error_text env e)) else Inl e
      | Inr rows \<Rightarrow> Inr (rows, None))"

definition total_bytes :: "storage_diagnostics \<Rightarrow> u64" where
  "total_bytes storage =
     saturating_add (saturating_add (sd_main_bytes storage) (sd_wal_bytes storage)) (sd_shm_bytes storage)"

definition enrolled_status ::
  "resolved_index_config \<Rightarrow> call_env \<Rightarrow> host_metrics \<Rightarrow> storage_diagnostics \<Rightarrow> string \<Rightarrow> bool \<Rightarrow> status_summary \<Rightarrow>
     string option \<Rightarrow> string option \<Rightarrow> index_manager \<Rightarrow> index_status" where
  "enrolled_status cfg env host storage server auto_refresh rows promotion_read_error deletion_error m =
     (let runtime = entry_or_default server m;
          sentinel_configured = (ri_sentinel_tag cfg \<noteq> None);
          status1 = (base_status cfg env server rows (rs_build runtime) (server \<in> im_promoting m) (total_bytes storage)
             sentinel_configured)
             \<lparr>is_sentinel_configured := sentinel_configured, is_auto_refresh_enabled := auto_refresh\<rparr>;
          status2 = apply_status_errors (rs_build runtime \<noteq> None) (rs_last_error runtime) promotion_read_error status1;
          status3 = (case deletion_error of
                       None \<Rightarrow> status2
                     | Some e \<Rightarrow> status2\<lparr>is_state := IndexFailed, is_last_error := Some (deletion_failed_text e)\<rparr>);
          status4 = status3\<lparr>is_foreground_metrics := foreground_metrics_snapshot server m,
                            is_host_metrics := host, is_storage := storage\<rparr>;
          status5 = apply_runtime_status env runtime status4
      in status5\<lparr>is_scheduler := scheduler_diagnostics_of cfg (ce_tmax env) server rows runtime
           (auto_refresh \<and> is_active_generation status5 > 0 \<and> promotion_read_error = None \<and> deletion_error = None)\<rparr>)"

definition index_status_of ::
  "resolved_index_config \<Rightarrow> call_env \<Rightarrow> host_metrics \<Rightarrow> storage_diagnostics \<Rightarrow> string \<Rightarrow> index_manager \<Rightarrow> index_status manager_result" where
  "index_status_of cfg env host storage server m =
     (let deletion_error = im_deletion_errors m server;
          sentinel_configured = (ri_sentinel_tag cfg \<noteq> None)
      in if server \<in> im_deleting m
         then (Inr ((empty_status server IndexDeleting)
                 \<lparr>is_sentinel_configured := sentinel_configured, is_database_bytes := total_bytes storage\<rparr>), m)
         else (case load_enrollment cfg env server m of
           Inl e \<Rightarrow> (Inl e, m)
         | Inr (None, _) \<Rightarrow>
             (let status = (empty_status server IndexNotIndexed)\<lparr>is_sentinel_configured := sentinel_configured\<rparr>
              in (Inr (case deletion_error of
                         None \<Rightarrow> status
                       | Some e \<Rightarrow> status\<lparr>is_state := IndexFailed, is_last_error := Some (deletion_failed_text e)\<rparr>), m))
         | Inr (Some auto_refresh, enrollment_error) \<Rightarrow>
             (case load_status_rows cfg env server m of
                Inl e \<Rightarrow> (Inl e, m)
              | Inr (rows, rows_error) \<Rightarrow>
                  (case (if server \<in> im_promoting m then (Inr (), m) else load_persisted_retry_state env 2 server m) of
                     (Inl e, m1) \<Rightarrow> (Inl e, m1)
                   | (Inr _, m1) \<Rightarrow>
                       if im_runtime_poisoned m1 then (Inl runtime_lock_error, m1)
                       else (Inr (enrolled_status cfg env host storage server auto_refresh (from_rows rows)
                               (or_else rows_error enrollment_error) deletion_error m1), m1)))))"

section \<open>Refresh decisions\<close>

definition automatic_refresh_allowed :: "resolved_index_config \<Rightarrow> call_env \<Rightarrow> index_status \<Rightarrow> bool" where
  "automatic_refresh_allowed cfg env status \<longleftrightarrow>
     is_auto_refresh_enabled status \<and> is_active_generation status > 0 \<and>
     sch_next_refresh_at (is_scheduler status) \<noteq> None \<and>
     is_state status \<in> {IndexReady, IndexStale, IndexFailed} \<and>
     (case Option.bind (sch_retry_after (is_scheduler status)) (parse_timestamp (ce_tmax env)) of
        None \<Rightarrow> True | Some deadline \<Rightarrow> ce_system env \<ge> deadline) \<and>
     (ri_maintenance_windows cfg = [] \<or>
      maintenance_window_is_open (ri_maintenance_windows cfg) (ce_local_hour env) (ce_local_minute env))"

text \<open>The condition under which \<open>refresh_active_generation_if_due\<close> starts a build.\<close>

definition active_generation_due :: "resolved_index_config \<Rightarrow> call_env \<Rightarrow> index_status \<Rightarrow> bool" where
  "active_generation_due cfg env status \<longleftrightarrow>
     is_state status \<in> {IndexStale, IndexFailed, IndexNotIndexed} \<and> automatic_refresh_allowed cfg env status"

text \<open>
  \<open>active_profile_changed\<close> with the capabilities the OPC server reports: the stored profile is not
  available (\<open>False\<close>), or the call fails, or the profiles are compared.
\<close>

definition active_profile_changed ::
  "call_env \<Rightarrow> string \<Rightarrow> manager_error + (namespace_organization \<times> browse_source) \<Rightarrow> index_manager \<Rightarrow> manager_error + bool" where
  "active_profile_changed env server capabilities m =
     (case database_read env 3 (\<lambda>db. Inr (active_profile server db)) m of
        Inl _ \<Rightarrow> Inr False
      | Inr None \<Rightarrow> Inr False
      | Inr (Some stored) \<Rightarrow>
          (case capabilities of
             Inl e \<Rightarrow> Inl e
           | Inr (organization, source) \<Rightarrow>
               Inr (\<not> index_profile_is_compatible (sp_organization stored) (sp_source stored)
                      (sp_compatibility_fallback stored) organization source)))"

datatype refresh_action = NoRefresh | RefreshAfterProfileChange | RefreshActiveGeneration

text \<open>
  \<open>refresh_if_due\<close> from the status it reads, the outcome of the profile check and the status it reads
  again: which of the two refresh routines runs.
\<close>

definition refresh_existing_index_if_due ::
  "resolved_index_config \<Rightarrow> call_env \<Rightarrow> call_env \<Rightarrow> index_status \<Rightarrow> manager_error + bool \<Rightarrow> manager_error + index_status \<Rightarrow>
     refresh_action" where
  "refresh_existing_index_if_due cfg env env' status profile_changed latest =
     (if \<not> automatic_refresh_allowed cfg env status then NoRefresh
      else case profile_changed of
        Inl _ \<Rightarrow> NoRefresh
      | Inr changed \<Rightarrow>
          (case latest of
             Inl _ \<Rightarrow> NoRefresh
           | Inr now \<Rightarrow>
               if is_active_generation now \<noteq> is_active_generation status \<or>
                  sch_last_success_at (is_scheduler now) \<noteq> sch_last_success_at (is_scheduler status) \<or>
                  \<not> automatic_refresh_allowed cfg env' now
               then NoRefresh
               else if changed then RefreshAfterProfileChange else RefreshActiveGeneration))"

definition refresh_if_due ::
  "resolved_index_config \<Rightarrow> call_env \<Rightarrow> call_env \<Rightarrow> manager_error + index_status \<Rightarrow> manager_error + bool \<Rightarrow>
     manager_error + index_status \<Rightarrow> refresh_action" where
  "refresh_if_due cfg env env' first profile_changed latest =
     (case first of
        Inl _ \<Rightarrow> NoRefresh
      | Inr status \<Rightarrow>
          if is_active_generation status > 0 \<and> is_state status \<noteq> IndexRefreshing
          then refresh_existing_index_if_due cfg env env' status profile_changed latest else NoRefresh)"

definition persisted_refresh_retry_delay :: "call_env \<Rightarrow> string \<Rightarrow> index_manager \<Rightarrow> duration option" where
  "persisted_refresh_retry_delay env server m =
     (if im_runtime_poisoned m then None
      else case Option.bind (im_runtime m server) rs_retry_after of
        None \<Rightarrow> None
      | Some retry_after \<Rightarrow>
          if ce_system env \<le> retry_after then Some (max (nat (retry_after - ce_system env)) SECOND) else None)"

definition ready_refresh_delay :: "resolved_index_config \<Rightarrow> call_env \<Rightarrow> string \<Rightarrow> index_status \<Rightarrow> duration" where
  "ready_refresh_delay cfg env server status =
     (if is_state status = IndexStale \<and>
         \<not> maintenance_window_is_open (ri_maintenance_windows cfg) (ce_local_hour env) (ce_local_minute env)
      then (if ri_maintenance_windows cfg = [] then SECOND else 60 * SECOND)
      else case Option.bind (is_completed_at status) (parse_timestamp (ce_tmax env)) of
        None \<Rightarrow> SECOND
      | Some completed \<Rightarrow>
          if completed \<le> ce_system env then refresh_period cfg server - nat (ce_system env - completed) else SECOND)"

definition refresh_delay_for_status :: "resolved_index_config \<Rightarrow> call_env \<Rightarrow> string \<Rightarrow> index_status \<Rightarrow> duration" where
  "refresh_delay_for_status cfg env server status =
     (case is_state status of
        IndexReady \<Rightarrow> ready_refresh_delay cfg env server status
      | IndexStale \<Rightarrow> ready_refresh_delay cfg env server status
      | IndexRefreshing \<Rightarrow> 30 * SECOND
      | IndexPartial \<Rightarrow> 30 * SECOND
      | IndexPromoting \<Rightarrow> SECOND
      | IndexFailed \<Rightarrow> retry_delay server 1 False (ri_circuit_open_seconds cfg)
      | IndexNotIndexed \<Rightarrow> 3600 * SECOND
      | IndexDeleting \<Rightarrow> 30 * SECOND)"

definition background_refresh_delay ::
  "resolved_index_config \<Rightarrow> call_env \<Rightarrow> string \<Rightarrow> manager_error + index_status \<Rightarrow> index_manager \<Rightarrow> duration" where
  "background_refresh_delay cfg env server status m =
     (case persisted_refresh_retry_delay env server m of
        Some delay \<Rightarrow> delay
      | None \<Rightarrow>
          (case status of
             Inr st \<Rightarrow> refresh_delay_for_status cfg env server st
           | Inl _ \<Rightarrow> retry_delay server 1 False (ri_circuit_open_seconds cfg)))"

section \<open>\<open>IndexManager::search\<close>\<close>

text \<open>
  A search reads the status and the cache, searches the database without a lock of the manager, and
  then stores its result. The two parts are the definitions \<open>search_begin\<close> and \<open>search_end\<close>; other
  operations can run in between.
\<close>

record search_request =
  sq_server :: string
  sq_query :: ustring
  sq_mode :: int
  sq_limit :: u32

datatype search_progress =
  SearchDone indexed_search
| SearchPending index_status cache_key "indexed_match list"

record search_env =
  sv_cfg :: resolved_index_config
  sv_text :: text_env
  sv_fts :: "ustring \<Rightarrow> fts_row \<Rightarrow> bool"
  sv_host :: host_metrics
  sv_storage :: storage_diagnostics

definition no_matches :: "index_status \<Rightarrow> indexed_search" where
  "no_matches status = \<lparr>se_matches = [], se_has_more = False, se_status = status\<rparr>"

definition effective_limit :: "resolved_index_config \<Rightarrow> u32 \<Rightarrow> u32" where
  "effective_limit cfg limit = min (max limit 1) (ri_max_results cfg)"

definition search_generation_of ::
  "call_env \<Rightarrow> string \<Rightarrow> index_status \<Rightarrow> index_manager \<Rightarrow> manager_error + u64 option" where
  "search_generation_of env server status m =
     (if is_active_generation status > 0 then Inr (Some (is_active_generation status))
      else if is_state status = IndexPromoting then Inr None
      else database_read env 4 (\<lambda>db. Inr (search_generation server db)) m)"

definition search_begin :: "search_env \<Rightarrow> call_env \<Rightarrow> search_request \<Rightarrow> index_manager \<Rightarrow> search_progress manager_result" where
  "search_begin sv env q m =
     (let server = sq_server q;
          query = normalize (sv_text sv) (sq_query q);
          limit = effective_limit (sv_cfg sv) (sq_limit q)
      in if query = [] then (Inl (ManagerError ''search query must not be empty''), m)
         else (case index_status_of (sv_cfg sv) env (sv_host sv) (sv_storage sv) server m of
           (Inl e, m1) \<Rightarrow> (Inl e, m1)
         | (Inr status, m1) \<Rightarrow>
             if is_state status = IndexDeleting then (Inr (SearchDone (no_matches status)), m1)
             else (case search_generation_of env server status m1 of
               Inl e \<Rightarrow> (Inl e, m1)
             | Inr None \<Rightarrow> (Inr (SearchDone (no_matches status)), m1)
             | Inr (Some generation) \<Rightarrow>
                 let key = \<lparr>ck_server = server, ck_generation = generation, ck_query = query, ck_mode = sq_mode q,
                            ck_limit = limit\<rparr>;
                     (cached, cache) = (if is_active_generation status = generation
                                        then cache_get key (im_cache m1) else (None, im_cache m1));
                     m2 = m1\<lparr>im_cache := cache\<rparr>
                 in (case cached of
                       Some value \<Rightarrow> (Inr (SearchDone (value\<lparr>se_status := status\<rparr>)), m2)
                     | None \<Rightarrow>
                         (case database_read env 5 (db_search (sv_text sv) (sv_fts sv) server generation (sq_query q)
                                 (sq_mode q) limit) m2 of
                            Inl e \<Rightarrow> (Inl e, m2)
                          | Inr matches \<Rightarrow> (Inr (SearchPending status key matches), m2))))))"

definition search_end ::
  "search_env \<Rightarrow> call_env \<Rightarrow> search_progress \<Rightarrow> index_manager \<Rightarrow> indexed_search manager_result" where
  "search_end sv env progress m =
     (case progress of
        SearchDone value \<Rightarrow> (Inr value, m)
      | SearchPending status key matches \<Rightarrow>
          if ck_server key \<in> im_deleting m
          then (case index_status_of (sv_cfg sv) env (sv_host sv) (sv_storage sv) (ck_server key) m of
                  (Inl e, m1) \<Rightarrow> (Inl e, m1)
                | (Inr status', m1) \<Rightarrow> (Inr (no_matches status'), m1))
          else
            let limit = unat (ck_limit key);
                value = \<lparr>se_matches = take limit matches, se_has_more = length matches > limit, se_status = status\<rparr>
            in (Inr value,
                if is_active_generation status = ck_generation key
                then m\<lparr>im_cache := cache_insert key value (im_cache m)\<rparr> else m))"

definition search :: "search_env \<Rightarrow> call_env \<Rightarrow> search_request \<Rightarrow> index_manager \<Rightarrow> indexed_search manager_result" where
  "search sv env q m =
     (case search_begin sv env q m of
        (Inl e, m1) \<Rightarrow> (Inl e, m1)
      | (Inr progress, m1) \<Rightarrow> search_end sv env progress m1)"

section \<open>Searches and the cache\<close>

definition set_cache :: "indexed_search query_cache \<Rightarrow> index_manager \<Rightarrow> index_manager" where
  "set_cache c m = m\<lparr>im_cache := c\<rparr>"

lemma set_cache_fields:
  "im_db (set_cache c m) = im_db m" "im_runtime (set_cache c m) = im_runtime m"
  "im_runtime_poisoned (set_cache c m) = im_runtime_poisoned m" "im_promoting (set_cache c m) = im_promoting m"
  "im_deleting (set_cache c m) = im_deleting m" "im_deletion_errors (set_cache c m) = im_deletion_errors m"
  "im_foreground_users (set_cache c m) = im_foreground_users m"
  "im_foreground_metrics (set_cache c m) = im_foreground_metrics m" "im_cache (set_cache c m) = c"
  by (simp_all add: set_cache_def)

lemma set_cache_reads:
  "database_read env k f (set_cache c m) = database_read env k f m"
  "entry_or_default server (set_cache c m) = entry_or_default server m"
  "users_of server (set_cache c m) = users_of server m"
  unfolding database_read_def entry_or_default_def users_of_def set_cache_fields by (rule refl)+

lemma load_set_cache:
  "load_persisted_retry_state env k server (set_cache c m) =
     (fst (load_persisted_retry_state env k server m), set_cache c (snd (load_persisted_retry_state env k server m)))"
proof -
  have "put_state server st (set_cache c m) = set_cache c (put_state server st m)" for st
    by (simp add: put_state_def set_cache_def)
  then show ?thesis
    by (auto simp: load_persisted_retry_state_def set_cache_reads set_cache_fields Let_def split: sum.split)
qed

lemma load_fields:
  "im_cache (snd (load_persisted_retry_state env k server m)) = im_cache m"
  "im_db (snd (load_persisted_retry_state env k server m)) = im_db m"
  "im_deleting (snd (load_persisted_retry_state env k server m)) = im_deleting m"
  "im_promoting (snd (load_persisted_retry_state env k server m)) = im_promoting m"
  by (simp_all add: load_persisted_retry_state_def put_state_def Let_def split: sum.split)

lemma status_loaded:
  "snd (index_status_of cfg env host storage server m) \<in> {m, snd (load_persisted_retry_state env 2 server m)}"
  by (auto simp: index_status_of_def Let_def split: sum.split prod.split option.split)

lemma status_fields:
  "im_cache (snd (index_status_of cfg env host storage server m)) = im_cache m"
  "im_db (snd (index_status_of cfg env host storage server m)) = im_db m"
  "im_deleting (snd (index_status_of cfg env host storage server m)) = im_deleting m"
  using status_loaded [of cfg env host storage server m] by (auto simp: load_fields)

lemma status_set_cache:
  "index_status_of cfg env host storage server (set_cache c m) =
     (fst (index_status_of cfg env host storage server m), set_cache c (snd (index_status_of cfg env host storage server m)))"
proof -
  have reads: "load_enrollment cfg env server (set_cache c m) = load_enrollment cfg env server m"
    "load_status_rows cfg env server (set_cache c m) = load_status_rows cfg env server m"
    unfolding load_enrollment_def load_status_rows_def reads_aside_def set_cache_reads set_cache_fields by (rule refl)+
  have enrolled: "enrolled_status cfg env host storage server a rows p d (set_cache c n) =
      enrolled_status cfg env host storage server a rows p d n" for a rows p d n
    unfolding enrolled_status_def foreground_metrics_snapshot_def set_cache_reads set_cache_fields by (rule refl)
  show ?thesis
    by (simp add: index_status_of_def reads set_cache_fields enrolled load_set_cache Let_def split_def split: sum.split option.split)
qed

text \<open>What the database answers to a cache key, and the cache agreeing with it.\<close>

definition answers :: "search_env \<Rightarrow> index_db \<Rightarrow> cache_key \<Rightarrow> indexed_search \<Rightarrow> bool" where
  "answers sv db key v \<longleftrightarrow>
     (\<forall>q. normalize (sv_text sv) q = ck_query key \<longrightarrow>
        (\<exists>found. db_search (sv_text sv) (sv_fts sv) (ck_server key) (ck_generation key) q (ck_mode key) (ck_limit key) db = Inr found \<and>
           se_matches v = take (unat (ck_limit key)) found \<and> se_has_more v = (length found > unat (ck_limit key))))"

definition cache_coherent :: "search_env \<Rightarrow> index_manager \<Rightarrow> bool" where
  "cache_coherent sv m \<longleftrightarrow> cache_wf (im_cache m) \<and>
     (\<forall>key v. map_of (qc_values (im_cache m)) key = Some v \<longrightarrow> answers sv (im_db m) key v)"

lemma db_search_normalized:
  "normalize te q = normalize te q' \<Longrightarrow> db_search te fts server g q mode limit db = db_search te fts server g q' mode limit db"
  by (simp add: db_search_def Let_def)

lemma cache_insert_subset:
  assumes "cache_wf c" and "map_of (qc_values (cache_insert k v c)) k' = Some x"
  shows "k' = k \<and> x = v \<or> map_of (qc_values c) k' = Some x"
proof -
  have "k' \<in> hm_keys (qc_values (cache_insert k v c))" using assms(2) by (rule map_of_Some_key)
  then have "k' \<in> set (qc_order (cache_insert k v c))" using cache_insert_wf [OF assms(1)] by (simp add: cache_wf_def)
  then show ?thesis using cache_insert_lookup [OF assms(1)] assms(2) by (auto split: if_splits)
qed

lemma coherent_insert:
  "cache_coherent sv m \<Longrightarrow> answers sv (im_db m) key v \<Longrightarrow> cache_coherent sv (m\<lparr>im_cache := cache_insert key v (im_cache m)\<rparr>)"
  unfolding cache_coherent_def by (auto simp: cache_insert_wf dest: cache_insert_subset)

lemma coherent_get:
  "cache_coherent sv m \<Longrightarrow> cache_coherent sv (m\<lparr>im_cache := snd (cache_get key (im_cache m))\<rparr>)"
  by (simp add: cache_coherent_def cache_get_wf)

lemma coherent_cong: "im_cache m' = im_cache m \<Longrightarrow> im_db m' = im_db m \<Longrightarrow> cache_coherent sv m' = cache_coherent sv m"
  by (simp add: cache_coherent_def)

definition request_key :: "search_env \<Rightarrow> search_request \<Rightarrow> u64 \<Rightarrow> cache_key" where
  "request_key sv q generation = \<lparr>ck_server = sq_server q, ck_generation = generation,
     ck_query = normalize (sv_text sv) (sq_query q), ck_mode = sq_mode q,
     ck_limit = effective_limit (sv_cfg sv) (sq_limit q)\<rparr>"

definition search_value :: "index_status \<Rightarrow> cache_key \<Rightarrow> indexed_match list \<Rightarrow> indexed_search" where
  "search_value status key found = \<lparr>se_matches = take (unat (ck_limit key)) found,
     se_has_more = length found > unat (ck_limit key), se_status = status\<rparr>"

abbreviation status_for :: "search_env \<Rightarrow> call_env \<Rightarrow> search_request \<Rightarrow> index_manager \<Rightarrow> index_status manager_result" where
  "status_for sv env q \<equiv> index_status_of (sv_cfg sv) env (sv_host sv) (sv_storage sv) (sq_server q)"

abbreviation search_database :: "search_env \<Rightarrow> call_env \<Rightarrow> search_request \<Rightarrow> u64 \<Rightarrow> index_manager \<Rightarrow> manager_error + indexed_match list" where
  "search_database sv env q generation \<equiv> database_read env 5 (db_search (sv_text sv) (sv_fts sv) (sq_server q) generation
     (sq_query q) (sq_mode q) (effective_limit (sv_cfg sv) (sq_limit q)))"

lemma status_deleting: "server \<in> im_deleting m \<Longrightarrow>
    \<exists>st. fst (index_status_of cfg env host storage server m) = Inr st \<and> is_state st = IndexDeleting"
  by (simp add: index_status_of_def Let_def empty_status_def)

lemma search_done:
  assumes "status_for sv env q m = (Inr st, m1)" and "normalize (sv_text sv) (sq_query q) \<noteq> []"
    and "is_state st = IndexDeleting \<or> search_generation_of env (sq_server q) st m1 = Inr None"
  shows "search sv env q m = (Inr (no_matches st), m1)"
  using assms(3)
proof (rule disjE)
  assume "is_state st = IndexDeleting"
  then show ?thesis using assms(1,2) by (simp add: search_def search_begin_def search_end_def)
next
  assume "search_generation_of env (sq_server q) st m1 = Inr None"
  then show ?thesis using assms(1,2) by (simp add: search_def search_begin_def search_end_def Let_def)
qed

text \<open>The course of a search once its status and its generation are known.\<close>

lemma search_course:
  assumes "status_for sv env q m = (Inr st, m1)" and "normalize (sv_text sv) (sq_query q) \<noteq> []"
    and "is_state st \<noteq> IndexDeleting" and "search_generation_of env (sq_server q) st m1 = Inr (Some g)"
  defines "key \<equiv> request_key sv q g"
  shows "search sv env q m =
    (case (if is_active_generation st = g then map_of (qc_values (im_cache m)) key else None) of
       Some v \<Rightarrow> (Inr (v\<lparr>se_status := st\<rparr>), m1\<lparr>im_cache := snd (cache_get key (im_cache m))\<rparr>)
     | None \<Rightarrow>
         (case search_database sv env q g m of
            Inl e \<Rightarrow> (Inl e, m1)
          | Inr found \<Rightarrow>
              (Inr (search_value st key found),
               if is_active_generation st = g then m1\<lparr>im_cache := cache_insert key (search_value st key found) (im_cache m)\<rparr>
               else m1)))"
proof -
  have fields: "im_cache m1 = im_cache m" "im_db m1 = im_db m" "im_deleting m1 = im_deleting m"
    using status_fields [of "sv_cfg sv" env "sv_host sv" "sv_storage sv" "sq_server q" m] assms(1) by simp_all
  have db: "search_database sv env q g m1 = search_database sv env q g m"
    unfolding database_read_def fields by (rule refl)
  have alive: "sq_server q \<notin> im_deleting m1"
    using status_deleting [of "sq_server q" m "sv_cfg sv" env "sv_host sv" "sv_storage sv"] assms(1,3) fields by auto
  have key: "ck_server key = sq_server q" "ck_generation key = g" by (simp_all add: key_def request_key_def)
  show ?thesis
  proof (cases "(if is_active_generation st = g then map_of (qc_values (im_cache m)) key else None)")
    case (Some v)
    then show ?thesis using assms(1-4) fields
      by (simp add: search_def search_begin_def search_end_def Let_def key_def request_key_def cache_get_def split: if_splits)
  next
    case None
    then have cached: "cache_get (request_key sv q g) (im_cache m1) = (None, im_cache m1)" if "is_active_generation st = g"
      using fields that by (simp add: cache_get_def key_def)
    have first: "search_begin sv env q m =
        (case search_database sv env q g m of Inl e \<Rightarrow> (Inl e, m1) | Inr found \<Rightarrow> (Inr (SearchPending st key found), m1))"
      using assms(1-4) cached db
      unfolding search_begin_def Let_def request_key_def [symmetric] key_def by (simp split: sum.split)
    show ?thesis using None alive
      by (simp add: search_def first search_end_def key search_value_def fields Let_def split: sum.split)
  qed
qed

lemma search_answers:
  assumes "db_search (sv_text sv) (sv_fts sv) (ck_server (request_key sv q g)) (ck_generation (request_key sv q g))
    (sq_query q) (ck_mode (request_key sv q g)) (ck_limit (request_key sv q g)) db = Inr found"
  shows "answers sv db (request_key sv q g) (search_value st (request_key sv q g) found)"
  unfolding answers_def
proof (intro allI impI)
  fix q' assume "normalize (sv_text sv) q' = ck_query (request_key sv q g)"
  then have "normalize (sv_text sv) q' = normalize (sv_text sv) (sq_query q)" by (simp add: request_key_def)
  note same = db_search_normalized [OF this]
  show "\<exists>found'. db_search (sv_text sv) (sv_fts sv) (ck_server (request_key sv q g)) (ck_generation (request_key sv q g)) q'
      (ck_mode (request_key sv q g)) (ck_limit (request_key sv q g)) db = Inr found' \<and>
    se_matches (search_value st (request_key sv q g) found) = take (unat (ck_limit (request_key sv q g))) found' \<and>
    se_has_more (search_value st (request_key sv q g) found) = (length found' > unat (ck_limit (request_key sv q g)))"
    by (rule exI [of _ found]) (simp add: same assms search_value_def)
qed

text \<open>A search that goes to a generation returns what the database finds, from the cache or not.\<close>

lemma search_found:
  assumes "cache_coherent sv m" and "status_for sv env q m = (Inr st, m1)" and "normalize (sv_text sv) (sq_query q) \<noteq> []"
    and "is_state st \<noteq> IndexDeleting" and "search_generation_of env (sq_server q) st m1 = Inr (Some g)"
    and found: "search_database sv env q g m = Inr found" and run: "search sv env q m = (Inr result, m')"
  defines "key \<equiv> request_key sv q g"
  shows "se_matches result = take (unat (ck_limit key)) found \<and>
    se_has_more result = (length found > unat (ck_limit key)) \<and> cache_coherent sv m'"
proof -
  have fields: "im_cache m1 = im_cache m" "im_db m1 = im_db m"
    using status_fields [of "sv_cfg sv" env "sv_host sv" "sv_storage sv" "sq_server q" m] assms(2) by simp_all
  then have coherent1: "cache_coherent sv m1" using assms(1) coherent_cong by metis
  note course = search_course [OF assms(2-5), folded key_def]
  have db: "db_search (sv_text sv) (sv_fts sv) (ck_server key) (ck_generation key) (sq_query q) (ck_mode key)
      (ck_limit key) (im_db m) = Inr found"
    using found by (simp add: database_read_def key_def request_key_def split: option.splits sum.splits)
  show ?thesis
  proof (cases "if is_active_generation st = g then map_of (qc_values (im_cache m)) key else None")
    case None
    then have "result = search_value st key found" "m' = m1 \<or> m' = m1\<lparr>im_cache := cache_insert key (search_value st key found) (im_cache m1)\<rparr>"
      using run unfolding course None found option.case sum.case fields by (auto split: if_splits)
    moreover have "answers sv (im_db m) key (search_value st key found)" using db unfolding key_def by (rule search_answers)
    ultimately show ?thesis
      using coherent1 coherent_insert [OF coherent1, unfolded fields(2)] by (auto simp: search_value_def)
  next
    case (Some v)
    then have "answers sv (im_db m) key v" using assms(1) by (simp add: cache_coherent_def split: if_splits)
    then have "se_matches v = take (unat (ck_limit key)) found" "se_has_more v = (length found > unat (ck_limit key))"
      using db unfolding answers_def by (auto simp: key_def request_key_def)
    moreover have "result = v\<lparr>se_status := st\<rparr>" "m' = m1\<lparr>im_cache := snd (cache_get key (im_cache m1))\<rparr>"
      using run unfolding course Some option.case fields by simp_all
    ultimately show ?thesis using coherent_get [OF coherent1] by simp
  qed
qed

definition emptied :: "'v query_cache \<Rightarrow> 'v query_cache" where
  "emptied c = c\<lparr>qc_values := [], qc_order := []\<rparr>"

text \<open>
  C22. Searching through the cache is as good as searching the database: where the cached results agree
  with the database, a search returns the matches and the \<open>has_more\<close> flag that the same search returns
  with an empty cache, never more than the configured maximum, and the cache still agrees with the
  database afterwards.
\<close>

theorem cached_search_is_fresh:
  assumes "cache_coherent sv m" and "search sv env q m = (Inr result, m')"
    and "search sv env q (m\<lparr>im_cache := emptied (im_cache m)\<rparr>) = (Inr fresh, m'')"
  shows "se_matches result = se_matches fresh \<and> se_has_more result = se_has_more fresh \<and>
    length (se_matches result) \<le> unat (ri_max_results (sv_cfg sv)) \<and> cache_coherent sv m'"
proof -
  let ?e = "set_cache (emptied (im_cache m)) m"
  have fresh: "search sv env q ?e = (Inr fresh, m'')" using assms(3) by (simp add: set_cache_def)
  have nonempty: "normalize (sv_text sv) (sq_query q) \<noteq> []"
    using assms(2) by (auto simp: search_def search_begin_def Let_def)
  obtain r m1 where m1: "status_for sv env q m = (r, m1)" by (cases "status_for sv env q m")
  then obtain st where st: "r = Inr st"
    using assms(2) nonempty by (cases r) (auto simp: search_def search_begin_def Let_def)
  have e1: "status_for sv env q ?e = (Inr st, set_cache (emptied (im_cache m)) m1)"
    using m1 st by (simp add: status_set_cache)
  have gen: "search_generation_of env (sq_server q) st (set_cache c m1) = search_generation_of env (sq_server q) st m1" for c
    unfolding search_generation_of_def set_cache_reads by (rule refl)
  have coherent1: "cache_coherent sv m1"
    using assms(1) status_fields [of "sv_cfg sv" env "sv_host sv" "sv_storage sv" "sq_server q" m] m1
      coherent_cong [of m1 m sv] by simp
  show ?thesis
  proof (cases "is_state st = IndexDeleting \<or> search_generation_of env (sq_server q) st m1 = Inr None")
    case True
    then have "result = no_matches st" "fresh = no_matches st" "m' = m1"
      using assms(2) fresh search_done [OF m1 [unfolded st] nonempty] search_done [OF e1 nonempty] gen by auto
    then show ?thesis using coherent1 by (simp add: no_matches_def)
  next
    case False
    then obtain g where g: "search_generation_of env (sq_server q) st m1 = Inr (Some g)"
      using assms(2) m1 st nonempty
      by (cases "search_generation_of env (sq_server q) st m1") (auto simp: search_def search_begin_def Let_def)
    let ?key = "request_key sv q g"
    have none: "(if is_active_generation st = g then map_of (qc_values (im_cache ?e)) ?key else None) = None"
      by (simp add: set_cache_fields emptied_def)
    obtain found where found: "search_database sv env q g m = Inr found" "fresh = search_value st ?key found"
      using fresh False search_course [OF e1 nonempty, unfolded gen, OF _ g] unfolding none set_cache_reads
      by (auto split: sum.splits)
    have "unat (ck_limit ?key) \<le> unat (ri_max_results (sv_cfg sv))"
      by (simp add: request_key_def effective_limit_def flip: word_le_nat_alt)
    then show ?thesis
      using search_found [OF assms(1) m1 [unfolded st] nonempty _ g found(1) assms(2)] False found(2)
      by (simp add: search_value_def)
  qed
qed

section \<open>The generation a status reports\<close>

lemma find_rows:
  "find (\<lambda>row. ds_state row = st) (map db_status_of gens) = map_option db_status_of (find (\<lambda>g. g_state g = st) gens)"
  by (induction gens) (simp_all add: db_status_of_def)

lemma find_SomeD: "find P xs = Some x \<Longrightarrow> x \<in> set xs \<and> P x"
  by (auto simp: find_Some_iff)

lemma active_rows_ConsD:
  assumes "active_rows server db = g # gs"
  shows "g \<in> set (db_generations db)" "g_server g = server" "g_state g = Active"
proof -
  have "g \<in> set (active_rows server db)" using assms by simp
  then show "g \<in> set (db_generations db)" "g_server g = server" "g_state g = Active" by (simp_all add: active_rows_def)
qed

lemma from_rows_active:
  assumes "generations_wf (db_generations db)"
  shows "sr_active (from_rows (status_rows server db)) =
    (case active_rows server db of [] \<Rightarrow> None | g # _ \<Rightarrow> Some (db_status_of g))"
proof -
  let ?sorted = "sort_key (\<lambda>g. (state_rank (g_state g), - g_generation g))
    (filter (\<lambda>g. g_server g = server \<and> g_state g \<in> {Active, Staging, Failed}) (db_generations db))"
  have eq: "sr_active (from_rows (status_rows server db)) = map_option db_status_of (find (\<lambda>g. g_state g = Active) ?sorted)"
    by (simp add: from_rows_def status_rows_def Let_def find_rows)
  show ?thesis
  proof (cases "active_rows server db")
    case Nil
    then have "find (\<lambda>g. g_state g = Active) ?sorted = None"
      by (auto simp: find_None_iff active_rows_def filter_empty_conv)
    then show ?thesis using eq Nil by simp
  next
    case (Cons g gs)
    then have g: "g \<in> set (db_generations db)" "g_server g = server" "g_state g = Active" by (simp_all add: active_rows_ConsD)
    then have "find (\<lambda>g. g_state g = Active) ?sorted \<noteq> None" by (auto simp: find_None_iff)
    then obtain h where h: "find (\<lambda>g. g_state g = Active) ?sorted = Some h" by auto
    then have "h \<in> set (db_generations db)" "g_server h = server" "g_state h = Active"
      using find_SomeD [OF h] by auto
    then have "h = g" using assms g unfolding generations_wf_def by blast
    then show ?thesis using eq h Cons by simp
  qed
qed

lemma from_rows_other:
  "sr_staging (from_rows rows) = Some row \<Longrightarrow> ds_state row = Staging"
  "sr_failed (from_rows rows) = Some row \<Longrightarrow> ds_state row = Failed"
  by (auto simp: from_rows_def Let_def dest: find_SomeD)

definition summary_generation :: "status_summary \<Rightarrow> u64" where
  "summary_generation rows = (case sr_active rows of None \<Rightarrow> 0 | Some row \<Rightarrow> if ds_state row = Active then ds_generation row else 0)"

lemma base_generation:
  assumes "\<And>row. sr_staging rows = Some row \<Longrightarrow> ds_state row \<noteq> Active" "\<And>row. sr_failed rows = Some row \<Longrightarrow> ds_state row \<noteq> Active"
  shows "is_active_generation (base_status cfg env server rows build promoting bytes sentinel) = summary_generation rows"
proof (cases build)
  case None
  then show ?thesis using assms
    by (auto simp: base_status_def status_without_build_def status_from_active_row_def status_from_row_def
        empty_status_def summary_generation_def Let_def split: option.split)
next
  case (Some b)
  then show ?thesis using assms
    by (auto simp: base_status_def status_during_build_def status_from_row_def status_from_runtime_build_def or_else_def
        empty_status_def summary_generation_def Let_def split: option.split)
qed

lemma enrolled_generation:
  assumes "rows = from_rows r"
  shows "is_active_generation (enrolled_status cfg env host storage server auto rows p d m) = summary_generation rows"
proof -
  have base: "is_active_generation (base_status cfg env server rows b promoting bytes s) = summary_generation rows" for b promoting bytes s
    by (rule base_generation) (auto simp: assms dest: from_rows_other)
  have "is_active_generation (apply_status_errors a e p' st) = is_active_generation st" for a e p' st
    by (simp add: apply_status_errors_def Let_def)
  moreover have "is_active_generation (apply_runtime_status env rt st) = is_active_generation st" for rt st
    by (simp add: apply_runtime_status_def Let_def split: option.split)
  ultimately show ?thesis by (simp add: enrolled_status_def Let_def base split: option.split)
qed

text \<open>
  C31. The status of an enrolled server reports the generation of its active index, whatever else is
  going on - a build or its promotion in progress, a failed build, retries, a failed deletion - as long
  as the database can be read; it is zero exactly when there is no active index.
\<close>

theorem status_reports_active_index:
  assumes "db_wf (im_db m)" and "server \<notin> im_deleting m" and "is_enrolled server (im_db m)"
    and "ce_read_error env = (\<lambda>_. None)" and "index_status_of cfg env host storage server m = (Inr status, m')"
  shows "is_active_generation status =
      (case active_rows server (im_db m) of [] \<Rightarrow> 0 | g # _ \<Rightarrow> word_of_int (g_generation g)) \<and>
    (is_active_generation status = 0 \<longleftrightarrow> active_rows server (im_db m) = [])"
proof -
  have wf: "generations_wf (db_generations (im_db m))" using assms(1) by (simp add: db_wf_def)
  let ?rows = "from_rows (status_rows server (im_db m))"
  obtain auto where auto: "enrollment server (im_db m) = Some auto" using assms(3) by (auto simp: is_enrolled_def)
  have "load_enrollment cfg env server m = Inr (Some auto, None)"
    using assms(4) auto by (simp add: load_enrollment_def database_read_def)
  moreover have "load_status_rows cfg env server m = Inr (status_rows server (im_db m), None)"
    using assms(4) by (simp add: load_status_rows_def database_read_def)
  ultimately obtain p d m1 where "status = enrolled_status cfg env host storage server auto ?rows p d m1"
    using assms(2,5) by (auto simp: index_status_of_def Let_def split: if_splits prod.splits sum.splits)
  then have st: "is_active_generation status = summary_generation ?rows" by (simp add: enrolled_generation [OF refl])
  show ?thesis
  proof (cases "active_rows server (im_db m)")
    case Nil
    then show ?thesis using st from_rows_active [OF wf, of server] by (simp add: summary_generation_def)
  next
    case (Cons g gs)
    then have g: "g \<in> set (db_generations (im_db m))" "g_state g = Active" by (simp_all add: active_rows_ConsD)
    then have "1 \<le> g_generation g" "g_generation g < 2 ^ 63" using wf by (auto simp: generations_wf_def)
    then have "(word_of_int (g_generation g) :: u64) \<noteq> 0" by (simp add: word_of_int_eq_0_iff zdvd_not_zless)
    then show ?thesis using st from_rows_active [OF wf, of server] Cons g(2)
      by (simp add: summary_generation_def db_status_of_def)
  qed
qed

section \<open>Findings\<close>


section \<open>A concrete index\<close>

definition demo_live :: "entry_row list \<Rightarrow> index_db" where
  "demo_live entries = \<lparr>db_meta = [], db_enrolled = [(''S'', \<lparr>en_auto_refresh_enabled = True, en_enrolled_at = ''0'',
     en_updated_at = ''0''\<rparr>)],
     db_generations = [\<lparr>g_server = ''S'', g_generation = 1, g_state = Active, g_organization = ''flat'', g_source = ''da2'',
       g_started_at = ''0'', g_completed_at = Some ''0'', g_entry_count = 0, g_unique_item_count = 0,
       g_last_error = None, g_compatibility_fallback = False\<rparr>], db_entries = entries, db_fts = []\<rparr>"

definition demo_search :: search_env where
  "demo_search = \<lparr>sv_cfg = demo_settings, sv_text = demo_text, sv_fts = (\<lambda>_ _. False), sv_host = host_metrics_default,
     sv_storage = storage_diagnostics_default\<rparr>"

definition demo_query :: search_request where
  "demo_query = \<lparr>sq_server = ''S'', sq_query = ascii ''pump'', sq_mode = 1, sq_limit = 1\<rparr>"

lemma demo_reads:
  "load_enrollment demo_settings demo_call ''S'' (manager_new n (demo_live es)\<lparr>im_cache := c\<rparr>) = Inr (Some True, None)"
  "load_status_rows demo_settings demo_call ''S'' (manager_new n (demo_live es)\<lparr>im_cache := c\<rparr>) =
     Inr (status_rows ''S'' (demo_live es), None)"
  by (simp_all add: load_enrollment_def load_status_rows_def database_read_def demo_call_def manager_new_def demo_live_def
      enrollment_def)

lemma demo_live_rows:
  "status_rows ''S'' (demo_live es) =
     [\<lparr>ds_generation = 1, ds_state = Active, ds_organization = parse_namespace ''flat'', ds_source = parse_source ''da2'',
       ds_started_at = ''0'', ds_completed_at = Some ''0'', ds_entry_count = 0, ds_unique_item_count = 0, ds_last_error = None\<rparr>]"
  by (simp add: status_rows_def demo_live_def db_status_of_def)

lemma demo_load:
  "load_persisted_retry_state demo_call 2 ''S'' (manager_new n (demo_live es)\<lparr>im_cache := c\<rparr>) =
     (Inr (), put_state ''S'' runtime_state_default (manager_new n (demo_live es)\<lparr>im_cache := c\<rparr>))"
  by (simp add: load_persisted_retry_state_def database_read_def demo_call_def manager_new_def demo_live_def retry_state_def
      failures_key_def circuit_key_def retry_after_key_def entry_or_default_def runtime_state_default_def persist_time_def)

lemma demo_status_ok:
  "\<exists>st. index_status_of demo_settings demo_call host storage ''S'' (manager_new n (demo_live es)\<lparr>im_cache := c\<rparr>) =
     (Inr st, put_state ''S'' runtime_state_default (manager_new n (demo_live es)\<lparr>im_cache := c\<rparr>)) \<and>
     is_active_generation st = 1 \<and> is_state st \<noteq> IndexDeleting"
proof -
  let ?m = "manager_new n (demo_live es)\<lparr>im_cache := c\<rparr>"
  let ?m1 = "put_state ''S'' runtime_state_default ?m"
  let ?st = "enrolled_status demo_settings demo_call host storage ''S'' True (from_rows (status_rows ''S'' (demo_live es)))
    None None ?m1"
  have "index_status_of demo_settings demo_call host storage ''S'' ?m = (Inr ?st, ?m1)"
    by (simp add: index_status_of_def demo_reads demo_load Let_def or_else_def)
      (simp add: manager_new_def put_state_def)
  moreover have "is_active_generation ?st = 1"
    by (simp only: enrolled_generation [OF refl]) (simp add: demo_live_rows from_rows_def summary_generation_def)
  moreover have "is_state ?st \<noteq> IndexDeleting"
    by (simp add: enrolled_status_def demo_live_rows from_rows_def base_status_def status_without_build_def
        status_from_active_row_def status_from_row_def apply_status_errors_def apply_runtime_status_def entry_or_default_def
        put_state_def runtime_state_default_def Let_def)
  ultimately show ?thesis by blast
qed

lemma demo_limit: "effective_limit demo_settings 1 = 1"
  by (simp add: effective_limit_def demo_settings_def resolve_index_config_def unwrap_or_def max_def min_def word_le_nat_alt
      DEFAULT_INDEX_MAX_RESULTS_def Let_def)

lemma demo_answer:
  "db_search demo_text fts ''S'' 1 (ascii ''pump'') 1 1 (demo_live [demo_row ''a.p'' ''pump'' 1]) =
     Inr [demo_found ''a.p'' ''pump'' InvItem]"
  "db_search demo_text fts ''S'' 1 (ascii ''pump'') 1 1 (demo_live []) = Inr []"
  by (simp_all add: db_search_def demo_normalize search_exact_def i64_try_from_def generation_entries_def demo_live_def
      exact_query1_def exact_query2_def row_mapper_def best_candidates_def Let_def)
    (simp add: demo_eval exact_query2_def best_candidates_def)

lemma demo_search_run:
  assumes "db_search demo_text (\<lambda>_ _. False) ''S'' 1 (ascii ''pump'') 1 1 (demo_live es) = Inr found"
  shows "\<exists>st. search_begin demo_search demo_call demo_query (manager_new 1 (demo_live es)) =
      (Inr (SearchPending st (request_key demo_search demo_query 1) found),
       put_state ''S'' runtime_state_default (manager_new 1 (demo_live es))) \<and> is_active_generation st = 1"
proof -
  have m: "(manager_new 1 (demo_live es))\<lparr>im_cache := im_cache (manager_new 1 (demo_live es))\<rparr> = manager_new 1 (demo_live es)"
    by (simp add: manager_new_def)
  from demo_status_ok [where host = "sv_host demo_search" and storage = "sv_storage demo_search" and n = 1 and es = es
    and c = "im_cache (manager_new 1 (demo_live es))", unfolded m]
  obtain st where st: "index_status_of demo_settings demo_call (sv_host demo_search) (sv_storage demo_search) ''S''
      (manager_new 1 (demo_live es)) = (Inr st, put_state ''S'' runtime_state_default (manager_new 1 (demo_live es)))"
    "is_active_generation st = 1" "is_state st \<noteq> IndexDeleting" by blast
  let ?m1 = "put_state ''S'' runtime_state_default (manager_new 1 (demo_live es))"
  have "im_db ?m1 = demo_live es" "im_cache ?m1 = \<lparr>qc_values = [], qc_order = [], qc_capacity = 1\<rparr>"
    by (simp_all add: put_state_def manager_new_def)
  then have m1: "database_read demo_call 5 (db_search demo_text (\<lambda>_ _. False) ''S'' 1 (ascii ''pump'') 1 1) ?m1 = Inr found"
    "cache_get key (im_cache ?m1) = (None, im_cache ?m1)" for key
    using assms by (simp_all add: database_read_def demo_call_def cache_get_def)
  have "search_generation_of demo_call ''S'' st ?m1 = Inr (Some 1)" using st(2) by (simp add: search_generation_of_def)
  moreover have "ascii ''pump'' \<noteq> []" by (simp add: ascii_def)
  ultimately have "search_begin demo_search demo_call demo_query (manager_new 1 (demo_live es)) =
      (Inr (SearchPending st (request_key demo_search demo_query 1) found), ?m1)"
    using st m1 unfolding search_begin_def request_key_def
    by (simp add: demo_search_def demo_query_def demo_normalize demo_limit Let_def)
  then show ?thesis using st(2) by blast
qed

theorem status_reports_active_index_witness:
  "\<exists>st m'. index_status_of demo_settings demo_call host_metrics_default storage_diagnostics_default ''S''
     (manager_new 1 (demo_live [])) = (Inr st, m') \<and> is_active_generation st = 1"
proof -
  let ?m = "manager_new 1 (demo_live [])"
  have m: "?m\<lparr>im_cache := im_cache ?m\<rparr> = ?m" by (simp add: manager_new_def)
  obtain st m' where st: "index_status_of demo_settings demo_call host_metrics_default storage_diagnostics_default ''S'' ?m = (Inr st, m')"
    using demo_status_ok [where host = host_metrics_default and storage = storage_diagnostics_default and n = 1 and es = "[]"
      and c = "im_cache ?m", unfolded m] by blast
  have "db_wf (im_db ?m)" "''S'' \<notin> im_deleting ?m" "is_enrolled ''S'' (im_db ?m)" "ce_read_error demo_call = (\<lambda>_. None)"
    by (simp_all add: manager_new_def demo_live_def db_wf_def generations_wf_def entries_wf_def is_enrolled_def enrollment_def
        demo_call_def generation_key_def)
  from status_reports_active_index [OF this st] have "is_active_generation st = 1"
    by (simp add: manager_new_def demo_live_def active_rows_def)
  then show ?thesis using st by blast
qed


theorem cached_search_is_fresh_witness:
  "\<exists>result m'. search demo_search demo_call demo_query (manager_new 1 (demo_live [demo_row ''a.p'' ''pump'' 1])) = (Inr result, m') \<and>
     length (se_matches result) \<le> 50 \<and> cache_coherent demo_search m'"
proof -
  let ?m = "manager_new 1 (demo_live [demo_row ''a.p'' ''pump'' 1])"
  obtain st m1 where "search_begin demo_search demo_call demo_query ?m =
      (Inr (SearchPending st (request_key demo_search demo_query 1) [demo_found ''a.p'' ''pump'' InvItem]), m1)"
    "sq_server demo_query \<notin> im_deleting m1"
    using demo_search_run [OF demo_answer(1)] by (auto simp: manager_new_def put_state_def)
  then obtain result m' where run: "search demo_search demo_call demo_query ?m = (Inr result, m')"
    by (simp add: search_def search_end_def request_key_def Let_def)
  have "cache_coherent demo_search ?m" by (simp add: cache_coherent_def manager_new_def cache_wf_def)
  moreover have "?m\<lparr>im_cache := emptied (im_cache ?m)\<rparr> = ?m" by (simp add: manager_new_def emptied_def)
  moreover have "unat (ri_max_results (sv_cfg demo_search)) = 50"
    by (simp add: demo_search_def demo_settings_def resolve_index_config_def unwrap_or_def max_def word_le_nat_alt
        DEFAULT_INDEX_MAX_RESULTS_def Let_def)
  ultimately show ?thesis using cached_search_is_fresh [of demo_search ?m demo_call demo_query result m' result m'] run by auto
qed

section \<open>Jitter\<close>

lemma timestamp_roundtrip:
  assumes "0 \<le> x" and "x \<le> tmax" and "x div 1000000 < 2 ^ 64"
  shows "parse_timestamp tmax (system_time_timestamp x) = Some (x div 1000000 * 1000000)"
proof -
  have n: "int (nat x div 1000000) = x div 1000000" using assms(1) by (simp add: zdiv_int)
  have small: "nat x div 1000000 < 2 ^ 64" using assms(3) n by simp
  then have "parse_unsigned (2 ^ 128 - 1) (nat_to_string (nat x div 1000000)) = Some (nat x div 1000000)"
    by (intro parse_unsigned_to_string) simp
  moreover have "x div 1000000 * 1000000 \<le> tmax" using assms(2) by linarith
  ultimately show ?thesis using assms(1) small n by (simp add: parse_timestamp_def system_time_timestamp_def)
qed

lemma parse_timestamp_nonneg: "parse_timestamp tmax s = Some t \<Longrightarrow> 0 \<le> t"
  by (auto simp: parse_timestamp_def split: option.splits if_splits)

lemma next_refresh_parsed:
  assumes "Option.bind completed (parse_timestamp tmax) = Some t" and "t + int (refresh_period cfg server) \<le> tmax"
    and "tmax div 1000000 < 2 ^ 64"
  defines "due \<equiv> (t + int (refresh_period cfg server)) div 1000000 * 1000000"
  shows "Option.bind (next_refresh_at cfg tmax server completed) (parse_timestamp tmax) = Some due"
    and "parse_timestamp tmax (system_time_timestamp due) = Some due"
proof -
  let ?next = "t + int (refresh_period cfg server)"
  have "0 \<le> t" using assms(1) by (auto simp: bind_eq_Some_conv dest: parse_timestamp_nonneg)
  then have nxt: "0 \<le> ?next" by simp
  have "?next div 1000000 < 2 ^ 64" using assms(2,3) zdiv_mono1 [of ?next tmax 1000000] by linarith
  then show "Option.bind (next_refresh_at cfg tmax server completed) (parse_timestamp tmax) = Some due"
    using assms(1,2) nxt by (simp add: next_refresh_at_def Let_def timestamp_roundtrip due_def)
  have "0 \<le> due" "due \<le> tmax" "due div 1000000 = ?next div 1000000" using nxt assms(2) by (simp_all add: due_def)
  then show "parse_timestamp tmax (system_time_timestamp due) = Some due"
    using \<open>?next div 1000000 < 2 ^ 64\<close> by (simp add: timestamp_roundtrip) (simp add: due_def)
qed

text \<open>
  The reported time of the next refresh contains the per-server jitter, but an index counts as stale
  as soon as the bare refresh interval has passed, and a stale index is refreshed at once: between the
  two the background task starts a build although the reported time is still to come.
\<close>

theorem stale_index_refreshes_before_schedule:
  assumes m: "server \<notin> im_deleting m" "server \<notin> im_promoting m" "im_deletion_errors m server = None"
      "im_runtime m server = None" "\<not> im_runtime_poisoned m"
    and db: "ce_read_error env = (\<lambda>_. None)" "enrollment server (im_db m) = Some True"
      "retry_state (ce_tmax env) server (im_db m) = Inr (None, 0, False)"
    and row: "sr_active (from_rows (status_rows server (im_db m))) = Some row" "ds_state row = Active" "0 < ds_generation row"
      "sr_failed_after_active (from_rows (status_rows server (im_db m))) = None"
      "Option.bind (ds_completed_at row) (parse_timestamp (ce_tmax env)) = Some t"
    and clock: "int (unat (ri_refresh_interval_seconds cfg) * SECOND) < ce_system env - t"
      "ce_system env + 1000000 \<le> t + int (refresh_period cfg server)"
      "t + int (refresh_period cfg server) \<le> ce_tmax env" "ce_tmax env div 1000000 < 2 ^ 64"
    and windows: "ri_maintenance_windows cfg = []"
  shows "\<exists>status m' due. index_status_of cfg env host storage server m = (Inr status, m') \<and> active_generation_due cfg env status \<and>
    Option.bind (sch_next_refresh_at (is_scheduler status)) (parse_timestamp (ce_tmax env)) = Some due \<and> ce_system env < due"
proof -
  let ?rows = "from_rows (status_rows server (im_db m))"
  let ?m = "put_state server runtime_state_default m"
  let ?st = "enrolled_status cfg env host storage server True ?rows None None ?m"
  let ?due = "(t + int (refresh_period cfg server)) div 1000000 * 1000000"
  have load: "load_persisted_retry_state env 2 server m = (Inr (), ?m)"
    using m db by (simp add: load_persisted_retry_state_def database_read_def entry_or_default_def runtime_state_default_def
        persist_time_def)
  have run: "index_status_of cfg env host storage server m = (Inr ?st, ?m)"
    using m db load by (simp add: index_status_of_def load_enrollment_def load_status_rows_def database_read_def or_else_def
        manager_simps Let_def)
  have late: "nat (ce_system env - t) > unat (ri_refresh_interval_seconds cfg) * SECOND" using clock(1) by linarith
  have stale: "is_state ?st = IndexStale" "is_auto_refresh_enabled ?st" "is_active_generation ?st = ds_generation row"
    using row late m
    by (simp_all add: enrolled_status_def base_status_def status_without_build_def status_from_active_row_def
        index_is_stale_def is_some_and_def status_from_row_def apply_status_errors_def apply_runtime_status_def
        entry_or_default_def put_state_def runtime_state_default_def Let_def)
  have nxt: "Option.bind (next_refresh_at cfg (ce_tmax env) server (Option.bind (sr_active ?rows) ds_completed_at))
      (parse_timestamp (ce_tmax env)) = Some ?due"
    using row(1,5) by (intro next_refresh_parsed clock(3,4)) simp
  have sched: "sch_next_refresh_at (is_scheduler ?st) = Some (system_time_timestamp ?due)" "sch_retry_after (is_scheduler ?st) = None"
    using nxt stale(3) row(3)
    by (simp_all add: enrolled_status_def scheduler_diagnostics_of_def entry_or_default_def put_state_def
        runtime_state_default_def Let_def)
  then have "Option.bind (sch_next_refresh_at (is_scheduler ?st)) (parse_timestamp (ce_tmax env)) = Some ?due"
    using next_refresh_parsed(2) [OF row(5) clock(3,4)] by simp
  moreover have "ce_system env < ?due" using clock(2) by linarith
  moreover have "active_generation_due cfg env ?st"
    using stale row(3) sched windows by (simp add: active_generation_due_def automatic_refresh_allowed_def)
  ultimately show ?thesis using run by blast
qed

end
