(* ===== verification/Cleanup.thy ===== *)
theory Cleanup
  imports Store
begin

text \<open>
  Removal of obsolete generations (\<open>index/scheduler.rs\<close>): superseded generations, and failed ones
  of a server that has an active generation, are deleted in batches of 10,000 rows. A batch reads
  its candidates without the writer gate and deletes them, rechecked, under the gate. The tables
  carry the row numbers that the statements use; \<open>plain_db\<close> forgets them.
\<close>

section \<open>Tables with row numbers\<close>

record rowid_db =
  rd_meta :: "(string, string) hmap"
  rd_enrolled :: "(string, enrolled_row) hmap"
  rd_generations :: "(int \<times> generation_row) list"
  rd_entries :: "(int \<times> entry_row) list"
  rd_fts :: "(int \<times> fts_row) list"

definition plain_db :: "rowid_db \<Rightarrow> index_db" where
  "plain_db rd = \<lparr>db_meta = rd_meta rd, db_enrolled = rd_enrolled rd, db_generations = map snd (rd_generations rd),
     db_entries = map snd (rd_entries rd), db_fts = map snd (rd_fts rd)\<rparr>"

definition obsolete_generation :: "index_db \<Rightarrow> string \<Rightarrow> int \<Rightarrow> bool" where
  "obsolete_generation db server generation \<longleftrightarrow>
     (\<exists>g \<in> set (db_generations db). g_server g = server \<and> g_generation g = generation \<and> is_obsolete db g)"

section \<open>One batch\<close>

definition CLEANUP_BATCH_SIZE :: nat where
  "CLEANUP_BATCH_SIZE = 10000"

record cleanup_candidate =
  cc_rowid :: int
  cc_generation :: int

record cleanup_batch =
  cb_entries :: u64
  cb_fts_entries :: u64
  cb_generations :: u64

datatype cleanup_batch_result = Shutdown | Deferred | NoObsoleteGenerations | Deleted cleanup_batch

definition cleanup_fts_candidates :: "string \<Rightarrow> int \<Rightarrow> rowid_db \<Rightarrow> cleanup_candidate list" where
  "cleanup_fts_candidates server after_rowid rd =
     map (\<lambda>(rowid, f). \<lparr>cc_rowid = rowid, cc_generation = f_generation f\<rparr>)
       (take CLEANUP_BATCH_SIZE (sort_key fst
         (filter (\<lambda>(rowid, f). rowid > after_rowid \<and> f_server f = server \<and>
            obsolete_generation (plain_db rd) (f_server f) (f_generation f)) (rd_fts rd))))"

definition has_entries :: "rowid_db \<Rightarrow> generation_row \<Rightarrow> bool" where
  "has_entries rd g \<longleftrightarrow> (\<exists>(_, e) \<in> set (rd_entries rd). e_server e = g_server g \<and> e_generation e = g_generation g)"

definition has_fts_rows :: "rowid_db \<Rightarrow> generation_row \<Rightarrow> bool" where
  "has_fts_rows rd g \<longleftrightarrow> (\<exists>(_, f) \<in> set (rd_fts rd). f_server f = g_server g \<and> f_generation f = g_generation g)"

definition cleanup_generation_candidates :: "string \<Rightarrow> rowid_db \<Rightarrow> cleanup_candidate list" where
  "cleanup_generation_candidates server rd =
     map (\<lambda>(rowid, g). \<lparr>cc_rowid = rowid, cc_generation = g_generation g\<rparr>)
       (take CLEANUP_BATCH_SIZE (sort_key fst
         (filter (\<lambda>(rowid, g). g_server g = server \<and> is_obsolete (plain_db rd) g \<and>
            \<not> has_entries rd g \<and> \<not> has_fts_rows rd g) (rd_generations rd))))"

text \<open>The three kinds of deletion; every statement yields the number of rows it deleted.\<close>

definition fts_hit :: "index_db \<Rightarrow> string \<Rightarrow> cleanup_candidate \<Rightarrow> int \<times> fts_row \<Rightarrow> bool" where
  "fts_hit db server candidate row \<longleftrightarrow>
     fst row = cc_rowid candidate \<and> f_server (snd row) = server \<and> f_generation (snd row) = cc_generation candidate \<and>
     obsolete_generation db (f_server (snd row)) (f_generation (snd row))"

fun delete_fts_rows ::
  "faults \<Rightarrow> string \<Rightarrow> cleanup_candidate list \<Rightarrow> nat \<Rightarrow> u64 \<Rightarrow> rowid_db \<Rightarrow> (nat \<times> u64 \<times> rowid_db) db_result" where
  "delete_fts_rows faults server [] n deleted rd = Inr (n, deleted, rd)"
| "delete_fts_rows faults server (candidate # candidates) n deleted rd =
     (if faults n then Inl SqlError
      else
        let hit = fts_hit (plain_db rd) server candidate
        in delete_fts_rows faults server candidates (Suc n)
             (saturating_add deleted (of_nat (length (filter hit (rd_fts rd)))))
             (rd\<lparr>rd_fts := filter (\<lambda>row. \<not> hit row) (rd_fts rd)\<rparr>))"

text \<open>\<open>LIMIT\<close> without \<open>ORDER BY\<close>: which row numbers the subquery yields is up to SQLite (\<open>pick\<close>).\<close>

definition obsolete_entry :: "index_db \<Rightarrow> string \<Rightarrow> int \<times> entry_row \<Rightarrow> bool" where
  "obsolete_entry db server row \<longleftrightarrow>
     e_server (snd row) = server \<and> obsolete_generation db (e_server (snd row)) (e_generation (snd row))"

definition picked_rows :: "(nat \<Rightarrow> int list \<Rightarrow> int list) \<Rightarrow> string \<Rightarrow> rowid_db \<Rightarrow> int list" where
  "picked_rows pick server rd =
     pick CLEANUP_BATCH_SIZE (map fst (filter (obsolete_entry (plain_db rd) server) (rd_entries rd)))"

definition delete_entry_rows :: "(nat \<Rightarrow> int list \<Rightarrow> int list) \<Rightarrow> string \<Rightarrow> rowid_db \<Rightarrow> u64 \<times> rowid_db" where
  "delete_entry_rows pick server rd =
     (let rowids = set (picked_rows pick server rd)
      in (of_nat (length (filter (\<lambda>row. fst row \<in> rowids) (rd_entries rd))),
          rd\<lparr>rd_entries := filter (\<lambda>row. fst row \<notin> rowids) (rd_entries rd)\<rparr>))"

definition generation_hit :: "rowid_db \<Rightarrow> string \<Rightarrow> cleanup_candidate \<Rightarrow> int \<times> generation_row \<Rightarrow> bool" where
  "generation_hit rd server candidate row \<longleftrightarrow>
     fst row = cc_rowid candidate \<and> g_server (snd row) = server \<and> g_generation (snd row) = cc_generation candidate \<and>
     is_obsolete (plain_db rd) (snd row) \<and> \<not> has_entries rd (snd row)"

fun delete_generation_rows ::
  "faults \<Rightarrow> string \<Rightarrow> cleanup_candidate list \<Rightarrow> nat \<Rightarrow> u64 \<Rightarrow> rowid_db \<Rightarrow> (nat \<times> u64 \<times> rowid_db) db_result" where
  "delete_generation_rows faults server [] n deleted rd = Inr (n, deleted, rd)"
| "delete_generation_rows faults server (candidate # candidates) n deleted rd =
     (if faults n then Inl SqlError
      else
        let hit = generation_hit rd server candidate
        in delete_generation_rows faults server candidates (Suc n)
             (saturating_add deleted (of_nat (length (filter hit (rd_generations rd)))))
             (rd\<lparr>rd_generations := filter (\<lambda>row. \<not> hit row) (rd_generations rd)\<rparr>))"

definition delete_cleanup_batch ::
  "faults \<Rightarrow> (nat \<Rightarrow> int list \<Rightarrow> int list) \<Rightarrow> string \<Rightarrow> cleanup_candidate list \<Rightarrow> cleanup_candidate list \<Rightarrow> nat \<Rightarrow>
     rowid_db \<Rightarrow> (nat \<times> cleanup_batch \<times> rowid_db) db_result" where
  "delete_cleanup_batch faults pick server fts_candidates generation_candidates n rd =
     (case delete_fts_rows faults server fts_candidates n 0 rd of
        Inl e \<Rightarrow> Inl e
      | Inr (n1, fts_entries, rd1) \<Rightarrow>
          if faults n1 then Inl SqlError
          else (case delete_entry_rows pick server rd1 of
            (entries, rd2) \<Rightarrow>
              (case delete_generation_rows faults server generation_candidates (Suc n1) 0 rd2 of
                 Inl e \<Rightarrow> Inl e
               | Inr (n2, generations, rd3) \<Rightarrow>
                   Inr (n2, \<lparr>cb_entries = entries, cb_fts_entries = fts_entries, cb_generations = generations\<rparr>, rd3))))"

text \<open>
  What happens around a batch: the two readings of the set of active builds, the state of the
  locks, the writes of other connections while the worker waits for the gate (\<open>bv_others\<close>) and
  while it sleeps after the batch (\<open>bv_pause\<close>), and the statements that fail.
\<close>

record batch_env =
  bv_shutting_down :: bool
  bv_build_active :: bool
  bv_gate_poisoned :: bool
  bv_build_active_gated :: bool
  bv_others :: "rowid_db \<Rightarrow> rowid_db"
  bv_pause :: "rowid_db \<Rightarrow> rowid_db"
  bv_pick :: "nat \<Rightarrow> int list \<Rightarrow> int list"
  bv_faults :: faults

definition batch_candidates ::
  "batch_env \<Rightarrow> string \<Rightarrow> int \<Rightarrow> rowid_db \<Rightarrow> (cleanup_candidate list \<times> cleanup_candidate list) db_result" where
  "batch_candidates env server after_rowid rd =
     (let fts_candidates = cleanup_fts_candidates server after_rowid rd
      in if bv_faults env 1 then Inl SqlError
         else if fts_candidates \<noteq> [] then Inr (fts_candidates, [])
         else if bv_faults env 2 then Inl SqlError
         else Inr ([], cleanup_generation_candidates server rd))"

definition batch_gated ::
  "batch_env \<Rightarrow> bool \<Rightarrow> string \<Rightarrow> int \<Rightarrow> cleanup_candidate list \<Rightarrow> cleanup_candidate list \<Rightarrow> rowid_db \<Rightarrow>
     cleanup_batch_result db_result \<times> int \<times> rowid_db" where
  "batch_gated env has_connection server after_rowid fts_candidates generation_candidates rd =
     (if bv_gate_poisoned env then (Inl (Bail ''index writer gate poisoned''), after_rowid, rd)
      else if bv_build_active_gated env then (Inr Deferred, after_rowid, rd)
      else if bv_faults env 3 then (Inl SqlError, after_rowid, rd)
      else if \<not> has_obsolete_generations server (plain_db rd) then (Inr NoObsoleteGenerations, after_rowid, rd)
      else if \<not> has_connection \<and> bv_faults env 4 then (Inl SqlError, after_rowid, rd)
      else if bv_faults env 5 then (Inl SqlError, after_rowid, rd)
      else
        (case delete_cleanup_batch (bv_faults env) (bv_pick env) server fts_candidates generation_candidates 6 rd of
           Inl e \<Rightarrow> (Inl e, after_rowid, rd)
         | Inr (n, batch, rd') \<Rightarrow>
             if bv_faults env n then (Inl SqlError, after_rowid, rd)
             else (Inr (Deleted batch),
                   (if fts_candidates = [] then after_rowid else cc_rowid (last fts_candidates)), rd')))"

definition cleanup_one_batch ::
  "batch_env \<Rightarrow> bool \<Rightarrow> string \<Rightarrow> int \<Rightarrow> rowid_db \<Rightarrow> cleanup_batch_result db_result \<times> int \<times> rowid_db" where
  "cleanup_one_batch env has_connection server after_rowid rd =
     (if bv_shutting_down env then (Inr Shutdown, after_rowid, rd)
      else if bv_build_active env then (Inr Deferred, after_rowid, rd)
      else if bv_faults env 0 then (Inl SqlError, after_rowid, rd)
      else if \<not> has_obsolete_generations server (plain_db rd) then (Inr NoObsoleteGenerations, after_rowid, rd)
      else
        (case batch_candidates env server after_rowid rd of
           Inl e \<Rightarrow> (Inl e, after_rowid, rd)
         | Inr (fts_candidates, generation_candidates) \<Rightarrow>
             batch_gated env has_connection server after_rowid fts_candidates generation_candidates (bv_others env rd)))"

section \<open>The loop\<close>

record cleanup_stats =
  cs_batches :: u64
  cs_entries :: u64
  cs_fts_entries :: u64
  cs_generations :: u64
  cs_stopped_for_shutdown :: bool
  cs_deferred_for_build :: bool

definition stats_default :: cleanup_stats where
  "stats_default = \<lparr>cs_batches = 0, cs_entries = 0, cs_fts_entries = 0, cs_generations = 0,
     cs_stopped_for_shutdown = False, cs_deferred_for_build = False\<rparr>"

definition add_batch :: "cleanup_batch \<Rightarrow> cleanup_stats \<Rightarrow> cleanup_stats" where
  "add_batch batch stats =
     stats\<lparr>cs_batches := saturating_add (cs_batches stats) 1,
           cs_fts_entries := saturating_add (cs_fts_entries stats) (cb_fts_entries batch),
           cs_entries := saturating_add (cs_entries stats) (cb_entries batch),
           cs_generations := saturating_add (cs_generations stats) (cb_generations batch)\<rparr>"

text \<open>
  \<open>envs k\<close> is what surrounds the \<open>k\<close>-th batch. While other connections keep writing the loop need
  not end, so not ending is \<open>None\<close>.
\<close>

partial_function (option) cleanup_batches ::
  "(nat \<Rightarrow> batch_env) \<Rightarrow> string \<Rightarrow> nat \<Rightarrow> int \<Rightarrow> cleanup_stats \<Rightarrow> rowid_db \<Rightarrow>
     (cleanup_stats db_result \<times> rowid_db) option" where
  "cleanup_batches envs server k after_rowid stats rd =
     (case cleanup_one_batch (envs k) (k > 0) server after_rowid rd of
        (Inl e, _, rd') \<Rightarrow> Some (Inl e, rd')
      | (Inr result, after_rowid', rd') \<Rightarrow>
          (case result of
             Shutdown \<Rightarrow> Some (Inr (stats\<lparr>cs_stopped_for_shutdown := True\<rparr>), rd')
           | Deferred \<Rightarrow> Some (Inr (stats\<lparr>cs_deferred_for_build := True\<rparr>), rd')
           | NoObsoleteGenerations \<Rightarrow> Some (Inr stats, rd')
           | Deleted batch \<Rightarrow>
               if cb_fts_entries batch = 0 \<and> cb_entries batch = 0 \<and> cb_generations batch = 0
               then Some (Inr (add_batch batch stats), rd')
               else cleanup_batches envs server (Suc k) after_rowid' (add_batch batch stats)
                      (bv_pause (envs k) rd')))"

text \<open>
  The passive checkpoint after the loop moves pages from the write-ahead log to the database file
  and leaves the tables as they are.
\<close>

definition cleanup_obsolete_generations_coordinated ::
  "(nat \<Rightarrow> batch_env) \<Rightarrow> bool \<Rightarrow> bool \<Rightarrow> string \<Rightarrow> rowid_db \<Rightarrow> (cleanup_stats db_result \<times> rowid_db) option" where
  "cleanup_obsolete_generations_coordinated envs open_fault read_fault server rd =
     (if open_fault \<or> read_fault then Some (Inl SqlError, rd)
      else if \<not> has_obsolete_generations server (plain_db rd) then Some (Inr stats_default, rd)
      else cleanup_batches envs server 0 0 stats_default rd)"

section \<open>What a batch deletes\<close>

text \<open>A generation of the server that is obsolete, and the rows that belong to one.\<close>

definition doomed_generation :: "index_db \<Rightarrow> string \<Rightarrow> generation_row \<Rightarrow> bool" where
  "doomed_generation db server g \<longleftrightarrow> g_server g = server \<and> is_obsolete db g"

definition doomed_entry :: "index_db \<Rightarrow> string \<Rightarrow> entry_row \<Rightarrow> bool" where
  "doomed_entry db server e \<longleftrightarrow> e_server e = server \<and> obsolete_generation db server (e_generation e)"

definition doomed_fts :: "index_db \<Rightarrow> string \<Rightarrow> fts_row \<Rightarrow> bool" where
  "doomed_fts db server f \<longleftrightarrow> f_server f = server \<and> obsolete_generation db server (f_generation f)"

lemmas doomed_defs = doomed_generation_def doomed_entry_def doomed_fts_def

text \<open>The specification of cleanup: the database without them.\<close>

definition purge :: "string \<Rightarrow> index_db \<Rightarrow> index_db" where
  "purge server db =
     db\<lparr>db_generations := filter (\<lambda>g. \<not> doomed_generation db server g) (db_generations db),
        db_entries := filter (\<lambda>e. \<not> doomed_entry db server e) (db_entries db),
        db_fts := filter (\<lambda>f. \<not> doomed_fts db server f) (db_fts db)\<rparr>"

lemma plain_db_simps [simp]:
  "db_meta (plain_db rd) = rd_meta rd" "db_enrolled (plain_db rd) = rd_enrolled rd"
  "db_generations (plain_db rd) = map snd (rd_generations rd)" "db_entries (plain_db rd) = map snd (rd_entries rd)"
  "db_fts (plain_db rd) = map snd (rd_fts rd)"
  by (simp_all add: plain_db_def)

lemma obsolete_cong: "(\<And>s. has_state s Active db' = has_state s Active db) \<Longrightarrow> is_obsolete db' = is_obsolete db"
  by (auto simp: is_obsolete_def fun_eq_iff)

lemma obsolete_generation_cong:
  "db_generations db' = db_generations db \<Longrightarrow> obsolete_generation db' = obsolete_generation db"
  by (auto simp: obsolete_generation_def is_obsolete_def has_state_def fun_eq_iff)

lemma obsolete_not_active: "is_obsolete db g \<Longrightarrow> g_state g \<noteq> Active"
  by (auto simp: is_obsolete_def)

text \<open>Deleting rows that are not active leaves the notion of an obsolete generation as it is.\<close>

lemma has_active_filter:
  assumes "\<And>row. row \<in> set (rd_generations rd) \<Longrightarrow> g_state (snd row) = Active \<Longrightarrow> P row"
  shows "has_state s Active (plain_db (rd\<lparr>rd_generations := filter P (rd_generations rd)\<rparr>)) =
    has_state s Active (plain_db rd)"
  using assms by (force simp: has_state_def)

lemma obsolete_filter:
  assumes "\<And>row. row \<in> set (rd_generations rd) \<Longrightarrow> g_state (snd row) = Active \<Longrightarrow> P row"
  shows "is_obsolete (plain_db (rd\<lparr>rd_generations := filter P (rd_generations rd)\<rparr>)) = is_obsolete (plain_db rd)"
  by (rule obsolete_cong) (rule has_active_filter [OF assms])

lemma delete_fts_rows_result:
  "delete_fts_rows faults server cs n d rd = Inr (n', d', rd') \<Longrightarrow>
     rd' = rd\<lparr>rd_fts := filter (\<lambda>row. \<not> (\<exists>c \<in> set cs. fts_hit (plain_db rd) server c row)) (rd_fts rd)\<rparr> \<and>
     (unat d + length (rd_fts rd) < 2 ^ 64 \<longrightarrow> unat d' + length (rd_fts rd') = unat d + length (rd_fts rd))"
proof (induction faults server cs n d rd rule: delete_fts_rows.induct)
  case (2 faults server c cs n d rd)
  let ?hit = "fts_hit (plain_db rd) server c"
  let ?rd = "rd\<lparr>rd_fts := filter (\<lambda>row. \<not> ?hit row) (rd_fts rd)\<rparr>"
  have same: "fts_hit (plain_db ?rd) = fts_hit (plain_db rd)"
    using obsolete_generation_cong [of "plain_db ?rd" "plain_db rd"] by (simp add: fts_hit_def fun_eq_iff)
  have "length (filter ?hit (rd_fts rd)) + length (rd_fts ?rd) = length (rd_fts rd)"
    by (simp add: sum_length_filter_compl)
  then have bound: "unat (saturating_add d (of_nat (length (filter ?hit (rd_fts rd))))) + length (rd_fts ?rd)
      = unat d + length (rd_fts rd)" if "unat d + length (rd_fts rd) < 2 ^ 64"
    using that by (simp add: unat_saturating_add unat_of_nat)
  have ih: "rd' = ?rd\<lparr>rd_fts := filter (\<lambda>row. \<not> (\<exists>c \<in> set cs. fts_hit (plain_db ?rd) server c row)) (rd_fts ?rd)\<rparr> \<and>
      (unat (saturating_add d (of_nat (length (filter ?hit (rd_fts rd))))) + length (rd_fts ?rd) < 2 ^ 64 \<longrightarrow>
       unat d' + length (rd_fts rd') =
         unat (saturating_add d (of_nat (length (filter ?hit (rd_fts rd))))) + length (rd_fts ?rd))"
    using "2.prems" by (intro "2.IH") (auto simp: Let_def split: if_splits)
  have "rd' = rd\<lparr>rd_fts := filter (\<lambda>row. \<not> (\<exists>c \<in> set (c # cs). fts_hit (plain_db rd) server c row)) (rd_fts rd)\<rparr>"
    using ih same by (simp add: conj_commute)
  then show ?case using ih bound by auto
qed simp

lemma delete_generation_rows_result:
  "delete_generation_rows faults server cs n d rd = Inr (n', d', rd') \<Longrightarrow>
     rd' = rd\<lparr>rd_generations := filter (\<lambda>row. \<not> (\<exists>c \<in> set cs. generation_hit rd server c row)) (rd_generations rd)\<rparr> \<and>
     (unat d + length (rd_generations rd) < 2 ^ 64 \<longrightarrow>
      unat d' + length (rd_generations rd') = unat d + length (rd_generations rd))"
proof (induction faults server cs n d rd rule: delete_generation_rows.induct)
  case (2 faults server c cs n d rd)
  let ?hit = "generation_hit rd server c"
  let ?rd = "rd\<lparr>rd_generations := filter (\<lambda>row. \<not> ?hit row) (rd_generations rd)\<rparr>"
  let ?d = "saturating_add d (of_nat (length (filter ?hit (rd_generations rd))))"
  have "is_obsolete (plain_db ?rd) = is_obsolete (plain_db rd)"
    by (rule obsolete_filter) (auto simp: generation_hit_def dest: obsolete_not_active)
  then have same: "generation_hit ?rd = generation_hit rd"
    by (auto simp: generation_hit_def has_entries_def fun_eq_iff)
  have "length (filter ?hit (rd_generations rd)) + length (rd_generations ?rd) = length (rd_generations rd)"
    by (simp add: sum_length_filter_compl)
  then have bound: "unat ?d + length (rd_generations ?rd) = unat d + length (rd_generations rd)"
    if "unat d + length (rd_generations rd) < 2 ^ 64"
    using that by (simp add: unat_saturating_add unat_of_nat)
  have ih: "rd' = ?rd\<lparr>rd_generations := filter (\<lambda>row. \<not> (\<exists>c \<in> set cs. generation_hit ?rd server c row)) (rd_generations ?rd)\<rparr> \<and>
      (unat ?d + length (rd_generations ?rd) < 2 ^ 64 \<longrightarrow>
       unat d' + length (rd_generations rd') = unat ?d + length (rd_generations ?rd))"
    using "2.prems" by (intro "2.IH") (auto simp: Let_def split: if_splits)
  have "rd' = rd\<lparr>rd_generations := filter (\<lambda>row. \<not> (\<exists>c \<in> set (c # cs). generation_hit rd server c row)) (rd_generations rd)\<rparr>"
    using ih same by (simp add: conj_commute)
  then show ?case using ih bound by auto
qed simp

lemma delete_fts_rows_ok: "(\<And>k. \<not> faults k) \<Longrightarrow> \<exists>r. delete_fts_rows faults server cs n d rd = Inr r"
  by (induction cs arbitrary: n d rd) (auto simp: Let_def)

lemma delete_generation_rows_ok: "(\<And>k. \<not> faults k) \<Longrightarrow> \<exists>r. delete_generation_rows faults server cs n d rd = Inr r"
  by (induction cs arbitrary: n d rd) (auto simp: Let_def)

definition rowids_wf :: "(int \<times> 'a) list \<Rightarrow> bool" where
  "rowids_wf rows \<longleftrightarrow> distinct (map fst rows) \<and> (\<forall>(rowid, _) \<in> set rows. 0 < rowid \<and> rowid < 2 ^ 63)"

definition rowid_db_wf :: "rowid_db \<Rightarrow> bool" where
  "rowid_db_wf rd \<longleftrightarrow> rowids_wf (rd_generations rd) \<and> rowids_wf (rd_entries rd) \<and> rowids_wf (rd_fts rd)"

text \<open>What SQLite promises of a subquery with a limit and no order.\<close>

definition limit_law :: "(nat \<Rightarrow> int list \<Rightarrow> int list) \<Rightarrow> bool" where
  "limit_law pick \<longleftrightarrow> (\<forall>n rowids. distinct rowids \<longrightarrow>
     distinct (pick n rowids) \<and> set (pick n rowids) \<subseteq> set rowids \<and> length (pick n rowids) = min n (length rowids))"

lemma limit_law_nonempty:
  assumes "limit_law pick" and "distinct rowids" and "rowids \<noteq> []" and "0 < n"
  shows "pick n rowids \<noteq> [] \<and> set (pick n rowids) \<subseteq> set rowids"
proof -
  have "set (pick n rowids) \<subseteq> set rowids" "length (pick n rowids) = min n (length rowids)"
    using assms(1,2) unfolding limit_law_def by blast+
  then show ?thesis using assms(3,4) by (metis length_greater_0_conv min_less_iff_conj)
qed

lemma rowids_filter: "rowids_wf rows \<Longrightarrow> rowids_wf (filter P rows)"
  by (auto simp: rowids_wf_def distinct_map_filter)

lemma rowids_length: assumes "rowids_wf rows" shows "length rows < 2 ^ 64"
proof -
  have "length rows = card (fst ` set rows)"
    using assms by (simp add: rowids_wf_def length_hm)
  also have "\<dots> \<le> card {0..<2 ^ 63 :: int}"
    by (rule card_mono) (use assms in \<open>force simp: rowids_wf_def\<close>)+
  finally show ?thesis by simp
qed

lemma rowids_inj: "rowids_wf rows \<Longrightarrow> (k, x) \<in> set rows \<Longrightarrow> (k, y) \<in> set rows \<Longrightarrow> x = y"
  by (auto simp: rowids_wf_def dest: eq_key_imp_eq_value)

definition kept_fts :: "cleanup_candidate list \<Rightarrow> string \<Rightarrow> rowid_db \<Rightarrow> (int \<times> fts_row) list" where
  "kept_fts cs server rd = filter (\<lambda>row. \<not> (\<exists>c \<in> set cs. fts_hit (plain_db rd) server c row)) (rd_fts rd)"

definition kept_entries :: "(nat \<Rightarrow> int list \<Rightarrow> int list) \<Rightarrow> string \<Rightarrow> rowid_db \<Rightarrow> (int \<times> entry_row) list" where
  "kept_entries pick server rd = filter (\<lambda>row. fst row \<notin> set (picked_rows pick server rd)) (rd_entries rd)"

definition kept_generations :: "cleanup_candidate list \<Rightarrow> string \<Rightarrow> rowid_db \<Rightarrow> (int \<times> generation_row) list" where
  "kept_generations cs server rd =
     filter (\<lambda>row. \<not> (\<exists>c \<in> set cs. generation_hit rd server c row)) (rd_generations rd)"

lemmas kept_defs = kept_fts_def kept_entries_def kept_generations_def

lemma picked_rows_cong: "rd_generations rd' = rd_generations rd \<Longrightarrow> rd_entries rd' = rd_entries rd \<Longrightarrow>
    picked_rows pick server rd' = picked_rows pick server rd"
  using obsolete_generation_cong [of "plain_db rd'" "plain_db rd"]
  by (simp add: picked_rows_def obsolete_entry_def [abs_def])

lemma delete_cleanup_batch_result:
  assumes "delete_cleanup_batch faults pick server fc gc n rd = Inr (n', b, rd')" and "rowid_db_wf rd"
  defines "rd2 \<equiv> rd\<lparr>rd_fts := kept_fts fc server rd, rd_entries := kept_entries pick server rd\<rparr>"
  shows "rd' = rd2\<lparr>rd_generations := kept_generations gc server rd2\<rparr>"
    and "unat (cb_fts_entries b) + length (rd_fts rd') = length (rd_fts rd)"
    and "unat (cb_entries b) + length (rd_entries rd') = length (rd_entries rd)"
    and "unat (cb_generations b) + length (rd_generations rd') = length (rd_generations rd)"
proof -
  obtain n1 d1 rd1 where fts: "delete_fts_rows faults server fc n 0 rd = Inr (n1, d1, rd1)"
    and eb: "cb_fts_entries b = d1" "cb_entries b = fst (delete_entry_rows pick server rd1)"
    and gens: "delete_generation_rows faults server gc (Suc n1) 0 (snd (delete_entry_rows pick server rd1)) =
      Inr (n', cb_generations b, rd')"
    using assms(1) unfolding delete_cleanup_batch_def by (auto split: sum.splits prod.splits if_splits)
  note len = rowids_length assms(2) [unfolded rowid_db_wf_def]
  have rd1: "rd1 = rd\<lparr>rd_fts := kept_fts fc server rd\<rparr>"
    and c1: "unat d1 + length (rd_fts rd1) = length (rd_fts rd)"
    using delete_fts_rows_result [OF fts] len by (auto simp: kept_fts_def)
  have picked: "picked_rows pick server rd1 = picked_rows pick server rd"
    by (rule picked_rows_cong) (simp_all add: rd1)
  have rd2: "snd (delete_entry_rows pick server rd1) = rd2"
    unfolding delete_entry_rows_def Let_def picked by (simp add: rd1 rd2_def kept_entries_def)
  have c2: "unat (cb_entries b) + length (kept_entries pick server rd) = length (rd_entries rd)"
  proof -
    have "length (filter (\<lambda>row. fst row \<in> set (picked_rows pick server rd)) (rd_entries rd)) +
        length (kept_entries pick server rd) = length (rd_entries rd)"
      unfolding kept_entries_def by (rule sum_length_filter_compl)
    then show ?thesis
      unfolding eb(2) delete_entry_rows_def Let_def picked
      using rowids_length [of "rd_entries rd"] assms(2) by (simp add: rd1 unat_of_nat rowid_db_wf_def)
  qed
  have g: "rd' = rd2\<lparr>rd_generations := kept_generations gc server rd2\<rparr>"
    and c3: "unat (cb_generations b) + length (rd_generations rd') = length (rd_generations rd2)"
    using delete_generation_rows_result [OF gens [unfolded rd2]] rowids_length [of "rd_generations rd"] assms(2)
    by (auto simp: kept_generations_def rowid_db_wf_def rd2_def)
  show "rd' = rd2\<lparr>rd_generations := kept_generations gc server rd2\<rparr>" by (rule g)
  show "unat (cb_fts_entries b) + length (rd_fts rd') = length (rd_fts rd)"
    using c1 eb(1) by (simp add: g rd1 rd2_def)
  show "unat (cb_entries b) + length (rd_entries rd') = length (rd_entries rd)"
    using c2 by (simp add: g rd2_def)
  show "unat (cb_generations b) + length (rd_generations rd') = length (rd_generations rd)"
    using c3 by (simp add: g rd2_def)
qed

lemma picked_obsolete:
  assumes "rowids_wf (rd_entries rd)" and "limit_law pick"
    and "row \<in> set (rd_entries rd)" and "fst row \<in> set (picked_rows pick server rd)"
  shows "doomed_entry (plain_db rd) server (snd row)"
proof -
  have "distinct (map fst (filter (obsolete_entry (plain_db rd) server) (rd_entries rd)))"
    using assms(1) by (simp add: rowids_wf_def distinct_map_filter)
  then have "fst row \<in> fst ` set (filter (obsolete_entry (plain_db rd) server) (rd_entries rd))"
    using assms(2,4) unfolding limit_law_def picked_rows_def by (metis list.set_map subsetD)
  then obtain e where "(fst row, e) \<in> set (rd_entries rd)" "obsolete_entry (plain_db rd) server (fst row, e)" by auto
  moreover have "e = snd row"
    using rowids_inj [OF assms(1) calculation(1)] assms(3) by (cases row) auto
  ultimately show ?thesis by (auto simp: obsolete_entry_def doomed_entry_def)
qed

lemma fts_hit_doomed: "fts_hit db server c row \<Longrightarrow> doomed_fts db server (snd row)"
  by (auto simp: fts_hit_def doomed_fts_def)

lemma generation_hit_doomed:
  "generation_hit rd server c row \<Longrightarrow> doomed_generation (plain_db rd) server (snd row) \<and> \<not> has_entries rd (snd row)"
  by (auto simp: generation_hit_def doomed_generation_def)

lemma doomed_generation_same:
  "rd_generations rd' = rd_generations rd \<Longrightarrow> doomed_generation (plain_db rd') = doomed_generation (plain_db rd)"
  by (auto simp: doomed_generation_def is_obsolete_def has_state_def fun_eq_iff)

lemma filter_keeps:
  "(\<And>x. x \<in> set xs \<Longrightarrow> Q x \<Longrightarrow> P x) \<Longrightarrow> filter Q (filter P xs) = filter Q xs"
  by (induction xs) auto

text \<open>
  The rows that a batch keeps: every row that is not doomed stays, in its place, and a generation
  goes only when no entry of it is left.
\<close>

lemma batch_gated_cases:
  assumes "batch_gated env has_connection server after_rowid fc gc rd = (r, after', rd')"
  obtains (stopped) "rd' = rd" "\<nexists>batch. r = Inr (Deleted batch)" "after' = after_rowid"
  | (ran) n batch where "r = Inr (Deleted batch)"
      "delete_cleanup_batch (bv_faults env) (bv_pick env) server fc gc 6 rd = Inr (n, batch, rd')"
      "after' = (if fc = [] then after_rowid else cc_rowid (last fc))"
  using assms unfolding batch_gated_def by (auto split: if_splits sum.splits)

lemma batch_gated_frame:
  assumes "batch_gated env has_connection server after_rowid fc gc rd = (r, after', rd')"
    and "rowid_db_wf rd" and "limit_law (bv_pick env)"
  defines "db \<equiv> plain_db rd"
  shows "rd_meta rd' = rd_meta rd \<and> rd_enrolled rd' = rd_enrolled rd \<and>
    subseq (rd_generations rd') (rd_generations rd) \<and> subseq (rd_entries rd') (rd_entries rd) \<and>
    subseq (rd_fts rd') (rd_fts rd)"
    and "filter (\<lambda>(_, g). \<not> doomed_generation db server g) (rd_generations rd') =
      filter (\<lambda>(_, g). \<not> doomed_generation db server g) (rd_generations rd)"
    and "filter (\<lambda>(_, e). \<not> doomed_entry db server e) (rd_entries rd') =
      filter (\<lambda>(_, e). \<not> doomed_entry db server e) (rd_entries rd)"
    and "filter (\<lambda>(_, f). \<not> doomed_fts db server f) (rd_fts rd') =
      filter (\<lambda>(_, f). \<not> doomed_fts db server f) (rd_fts rd)"
    and "(k, g) \<in> set (rd_generations rd) \<Longrightarrow> has_entries rd' g \<Longrightarrow> (k, g) \<in> set (rd_generations rd')"
proof -
  consider "rd' = rd" | n batch where
    "delete_cleanup_batch (bv_faults env) (bv_pick env) server fc gc 6 rd = Inr (n, batch, rd')"
    using assms(1) by (rule batch_gated_cases) auto
  then have *: "(rd_meta rd' = rd_meta rd \<and> rd_enrolled rd' = rd_enrolled rd \<and>
      subseq (rd_generations rd') (rd_generations rd) \<and> subseq (rd_entries rd') (rd_entries rd) \<and>
      subseq (rd_fts rd') (rd_fts rd)) \<and>
    filter (\<lambda>(_, g). \<not> doomed_generation db server g) (rd_generations rd') =
      filter (\<lambda>(_, g). \<not> doomed_generation db server g) (rd_generations rd) \<and>
    filter (\<lambda>(_, e). \<not> doomed_entry db server e) (rd_entries rd') =
      filter (\<lambda>(_, e). \<not> doomed_entry db server e) (rd_entries rd) \<and>
    filter (\<lambda>(_, f). \<not> doomed_fts db server f) (rd_fts rd') =
      filter (\<lambda>(_, f). \<not> doomed_fts db server f) (rd_fts rd) \<and>
    ((k, g) \<in> set (rd_generations rd) \<longrightarrow> has_entries rd' g \<longrightarrow> (k, g) \<in> set (rd_generations rd'))"
  proof cases
    case 2
    note res = delete_cleanup_batch_result(1) [OF 2 assms(2)]
    let ?rd2 = "rd\<lparr>rd_fts := kept_fts fc server rd, rd_entries := kept_entries (bv_pick env) server rd\<rparr>"
    have same: "doomed_generation (plain_db ?rd2) = doomed_generation (plain_db rd)"
      by (rule doomed_generation_same) simp
    have g: "filter (\<lambda>(_, g). \<not> doomed_generation db server g) (kept_generations gc server ?rd2) =
        filter (\<lambda>(_, g). \<not> doomed_generation db server g) (rd_generations rd)"
      unfolding kept_generations_def
      by (subst filter_keeps) (use same in \<open>auto simp: db_def dest!: generation_hit_doomed\<close>)
    have e: "filter (\<lambda>(_, e). \<not> doomed_entry db server e) (kept_entries (bv_pick env) server rd) =
        filter (\<lambda>(_, e). \<not> doomed_entry db server e) (rd_entries rd)"
      unfolding kept_entries_def
      by (rule filter_keeps)
        (use picked_obsolete [of rd "bv_pick env" _ server] assms(2,3) in \<open>auto simp: db_def rowid_db_wf_def\<close>)
    have f: "filter (\<lambda>(_, f). \<not> doomed_fts db server f) (kept_fts fc server rd) =
        filter (\<lambda>(_, f). \<not> doomed_fts db server f) (rd_fts rd)"
      unfolding kept_fts_def
      by (rule filter_keeps) (auto simp: db_def dest: fts_hit_doomed)
    have "has_entries rd' = has_entries ?rd2" by (simp add: res has_entries_def fun_eq_iff)
    then have x: "(k, g) \<in> set (rd_generations rd) \<longrightarrow> has_entries rd' g \<longrightarrow> (k, g) \<in> set (rd_generations rd')"
      by (auto simp: res kept_generations_def dest!: generation_hit_doomed)
    have "subseq (kept_generations gc server ?rd2) (rd_generations rd)"
      "subseq (kept_entries (bv_pick env) server rd) (rd_entries rd)" "subseq (kept_fts fc server rd) (rd_fts rd)"
      by (simp_all add: kept_defs)
    with g e f x show ?thesis by (simp add: res)
  qed simp
  then show "rd_meta rd' = rd_meta rd \<and> rd_enrolled rd' = rd_enrolled rd \<and>
      subseq (rd_generations rd') (rd_generations rd) \<and> subseq (rd_entries rd') (rd_entries rd) \<and>
      subseq (rd_fts rd') (rd_fts rd)" by (rule conjunct1)
  show "filter (\<lambda>(_, g). \<not> doomed_generation db server g) (rd_generations rd') =
      filter (\<lambda>(_, g). \<not> doomed_generation db server g) (rd_generations rd)" using * by blast
  show "filter (\<lambda>(_, e). \<not> doomed_entry db server e) (rd_entries rd') =
      filter (\<lambda>(_, e). \<not> doomed_entry db server e) (rd_entries rd)" using * by blast
  show "filter (\<lambda>(_, f). \<not> doomed_fts db server f) (rd_fts rd') =
      filter (\<lambda>(_, f). \<not> doomed_fts db server f) (rd_fts rd)" using * by blast
  show "(k, g) \<in> set (rd_generations rd) \<Longrightarrow> has_entries rd' g \<Longrightarrow> (k, g) \<in> set (rd_generations rd')"
    using * by blast
qed

text \<open>An active generation and its entries are never doomed.\<close>

lemma active_not_doomed:
  assumes "db_wf db"
  shows "g \<in> set (active_rows s db) \<Longrightarrow> \<not> doomed_generation db server g"
    and "e \<in> set (active_entries s db) \<Longrightarrow> \<not> doomed_entry db server e"
proof -
  have uniq: "g = h" if "g \<in> set (db_generations db)" "h \<in> set (db_generations db)"
    "g_server g = g_server h" "g_generation g = g_generation h" for g h
  proof -
    have "inj_on generation_key (set (db_generations db))"
      using assms by (simp add: db_wf_def generations_wf_def distinct_map)
    then show ?thesis using that by (auto simp: inj_on_def generation_key_def)
  qed
  show "g \<in> set (active_rows s db) \<Longrightarrow> \<not> doomed_generation db server g"
    by (auto simp: active_rows_def doomed_generation_def is_obsolete_def)
  assume "e \<in> set (active_entries s db)"
  then obtain g where g: "g \<in> set (db_generations db)" "g_server g = e_server e" "g_generation g = e_generation e"
    "g_state g = Active"
    by (auto simp: active_entries_def active_rows_def)
  show "\<not> doomed_entry db server e"
  proof
    assume "doomed_entry db server e"
    then obtain h where "h \<in> set (db_generations db)" "g_server h = e_server e" "g_generation h = e_generation e"
      "is_obsolete db h" by (auto simp: doomed_entry_def obsolete_generation_def)
    with uniq [of g h] g show False by (simp add: is_obsolete_def)
  qed
qed

lemma filter_imp_eq:
  assumes "filter Q xs = filter Q ys" and "\<And>x. P x \<Longrightarrow> Q x"
  shows "filter P xs = filter P ys"
proof -
  have "filter P zs = filter P (filter Q zs)" for zs using assms(2) by (induction zs) auto
  then show ?thesis using assms(1) by metis
qed

lemma filter_map_snd: "filter P (map snd rows) = map snd (filter (\<lambda>(_, x). P x) rows)"
  by (induction rows) auto

section \<open>Cleanup of a quiet database\<close>

definition quiet_env :: "batch_env \<Rightarrow> bool" where
  "quiet_env env \<longleftrightarrow> \<not> bv_shutting_down env \<and> \<not> bv_build_active env \<and> \<not> bv_gate_poisoned env \<and>
     \<not> bv_build_active_gated env \<and> (\<forall>rd. bv_others env rd = rd) \<and> (\<forall>rd. bv_pause env rd = rd) \<and>
     limit_law (bv_pick env) \<and> (\<forall>k. \<not> bv_faults env k)"

text \<open>No obsolete full-text row is behind the cursor.\<close>

definition cursor_inv :: "string \<Rightarrow> int \<Rightarrow> rowid_db \<Rightarrow> bool" where
  "cursor_inv server after_rowid rd \<longleftrightarrow>
     (\<forall>(rowid, f) \<in> set (rd_fts rd). doomed_fts (plain_db rd) server f \<longrightarrow> after_rowid < rowid)"

lemma purge_step:
  assumes meta: "db_meta db' = db_meta db" "db_enrolled db' = db_enrolled db"
    and gens: "filter (\<lambda>g. \<not> doomed_generation db server g) (db_generations db') =
      filter (\<lambda>g. \<not> doomed_generation db server g) (db_generations db)"
    and entries: "filter (\<lambda>e. \<not> doomed_entry db server e) (db_entries db') =
      filter (\<lambda>e. \<not> doomed_entry db server e) (db_entries db)"
    and fts: "filter (\<lambda>f. \<not> doomed_fts db server f) (db_fts db') = filter (\<lambda>f. \<not> doomed_fts db server f) (db_fts db)"
    and sub: "set (db_generations db') \<subseteq> set (db_generations db)"
    and entry_home: "\<And>e g. e \<in> set (db_entries db') \<Longrightarrow> g \<in> set (db_generations db) \<Longrightarrow>
      g_server g = e_server e \<Longrightarrow> g_generation g = e_generation e \<Longrightarrow> g \<in> set (db_generations db')"
    and fts_home: "\<And>f g. f \<in> set (db_fts db') \<Longrightarrow> g \<in> set (db_generations db) \<Longrightarrow>
      g_server g = f_server f \<Longrightarrow> g_generation g = f_generation f \<Longrightarrow> g \<in> set (db_generations db')"
  shows "purge server db' = purge server db"
    and "f \<in> set (db_fts db') \<Longrightarrow> doomed_fts db' server f = doomed_fts db server f"
proof -
  have "has_state s Active db' = has_state s Active db" for s
  proof -
    have "g \<in> set (db_generations db')" if "g \<in> set (db_generations db)" "g_state g = Active" for g
    proof -
      have "g \<in> set (filter (\<lambda>g. \<not> doomed_generation db server g) (db_generations db))"
        using that by (simp add: doomed_generation_def is_obsolete_def)
      then show ?thesis unfolding gens [symmetric] by simp
    qed
    then show ?thesis using sub by (auto simp: has_state_def)
  qed
  then have obs: "is_obsolete db' = is_obsolete db" by (rule obsolete_cong)
  then have g: "doomed_generation db' = doomed_generation db" by (simp add: doomed_generation_def fun_eq_iff)
  have e: "doomed_entry db' server e = doomed_entry db server e" if "e \<in> set (db_entries db')" for e
    using sub entry_home [OF that] obs by (auto simp: doomed_entry_def obsolete_generation_def)
  have f: "doomed_fts db' server f = doomed_fts db server f" if "f \<in> set (db_fts db')" for f
    using sub fts_home [OF that] obs by (auto simp: doomed_fts_def obsolete_generation_def)
  have "filter (\<lambda>e. \<not> doomed_entry db' server e) (db_entries db') = filter (\<lambda>e. \<not> doomed_entry db server e) (db_entries db')"
    "filter (\<lambda>f. \<not> doomed_fts db' server f) (db_fts db') = filter (\<lambda>f. \<not> doomed_fts db server f) (db_fts db')"
    using e f by (auto intro: filter_cong)
  then show "purge server db' = purge server db"
    using gens entries fts meta by (simp add: purge_def g)
  show "f \<in> set (db_fts db') \<Longrightarrow> doomed_fts db' server f = doomed_fts db server f" by (rule f)
qed

lemma fts_candidates_rows:
  "cleanup_fts_candidates server after_rowid rd =
     map (\<lambda>(rowid, f). \<lparr>cc_rowid = rowid, cc_generation = f_generation f\<rparr>)
       (take CLEANUP_BATCH_SIZE (sort_key fst (filter (\<lambda>(rowid, f). after_rowid < rowid \<and>
          doomed_fts (plain_db rd) server f) (rd_fts rd))))"
  unfolding cleanup_fts_candidates_def doomed_fts_def
  by (rule arg_cong [of _ _ "\<lambda>rows. map _ (take _ (sort_key fst (filter rows _)))"]) (auto simp: fun_eq_iff)

lemma generation_candidates_rows:
  "cleanup_generation_candidates server rd =
     map (\<lambda>(rowid, g). \<lparr>cc_rowid = rowid, cc_generation = g_generation g\<rparr>)
       (take CLEANUP_BATCH_SIZE (sort_key fst (filter (\<lambda>(rowid, g). doomed_generation (plain_db rd) server g \<and>
          \<not> has_entries rd g \<and> \<not> has_fts_rows rd g) (rd_generations rd))))"
  unfolding cleanup_generation_candidates_def doomed_generation_def by simp

lemma sort_key_Nil: "sort_key f xs = [] \<longleftrightarrow> xs = []"
  by (metis length_0_conv length_sort)

lemma candidate_origin:
  assumes "c \<in> set (map h (take n (sort_key k (filter P rows))))"
  obtains row where "row \<in> set rows" "P row" "c = h row"
  using assms by (auto dest!: in_set_takeD)

text \<open>The first batch in row order takes everything up to its last row.\<close>

lemma sort_key_take_last:
  assumes "rowids_wf rows" and "take n (sort_key fst rows) \<noteq> []" and "row \<in> set rows"
    and "row \<notin> set (take n (sort_key fst rows))"
  shows "fst (last (take n (sort_key fst rows))) < fst row"
proof -
  let ?s = "sort_key fst rows"
  have sorted: "sorted (map fst (take n ?s @ drop n ?s))" and dist: "distinct (map fst ?s)"
    using assms(1) by (simp_all add: rowids_wf_def distinct_map)
  have "row \<in> set (drop n ?s)"
    using assms(3,4) by (metis Un_iff append_take_drop_id set_append set_sort)
  moreover have "last (take n ?s) \<in> set (take n ?s)" using assms(2) by (rule last_in_set)
  ultimately have "fst (last (take n ?s)) \<le> fst row"
    using sorted unfolding map_append sorted_append by auto
  moreover have "fst (last (take n ?s)) \<noteq> fst row"
  proof
    assume "fst (last (take n ?s)) = fst row"
    moreover have "last (take n ?s) \<in> set rows"
      using \<open>last (take n ?s) \<in> set (take n ?s)\<close> by (metis in_set_takeD set_sort)
    ultimately have "last (take n ?s) = row"
      using rowids_inj [OF assms(1)] assms(3) by (metis prod.collapse)
    then show False using assms(4) \<open>last (take n ?s) \<in> set (take n ?s)\<close> by simp
  qed
  ultimately show ?thesis by simp
qed

lemma quiet_batch_gated:
  assumes "quiet_env env" and "has_obsolete_generations server (plain_db rd)"
  shows "\<exists>n batch rd'. delete_cleanup_batch (bv_faults env) (bv_pick env) server fc gc 6 rd = Inr (n, batch, rd') \<and>
    batch_gated env has_connection server after_rowid fc gc rd =
      (Inr (Deleted batch), if fc = [] then after_rowid else cc_rowid (last fc), rd')"
proof -
  have ok: "\<And>k. \<not> bv_faults env k" using assms(1) by (simp add: quiet_env_def)
  obtain n1 d1 rd1 where fts: "delete_fts_rows (bv_faults env) server fc 6 0 rd = Inr (n1, d1, rd1)"
    using delete_fts_rows_ok [of "bv_faults env" server fc 6 0 rd] ok by (metis prod_cases3)
  obtain en rd2 where entries: "delete_entry_rows (bv_pick env) server rd1 = (en, rd2)" by (cases "delete_entry_rows (bv_pick env) server rd1")
  obtain n3 d3 rd3 where gens: "delete_generation_rows (bv_faults env) server gc (Suc n1) 0 rd2 = Inr (n3, d3, rd3)"
    using delete_generation_rows_ok [of "bv_faults env" server gc "Suc n1" 0 rd2] ok by (metis prod_cases3)
  show ?thesis
    using assms by (auto simp: batch_gated_def delete_cleanup_batch_def fts entries gens quiet_env_def)
qed

lemma doomed_fts_kept:
  assumes "rowids_wf (rd_fts rd)" and "cursor_inv server after_rowid rd"
    and "fc = cleanup_fts_candidates server after_rowid rd" and "row \<in> set (kept_fts fc server rd)"
    and "doomed_fts (plain_db rd) server (snd row)"
  shows "fc \<noteq> [] \<and> cc_rowid (last fc) < fst row"
proof -
  let ?rows = "filter (\<lambda>(rowid, f). after_rowid < rowid \<and> doomed_fts (plain_db rd) server f) (rd_fts rd)"
  let ?taken = "take CLEANUP_BATCH_SIZE (sort_key fst ?rows)"
  have row: "row \<in> set ?rows"
    using assms(2,4,5) by (auto simp: kept_fts_def cursor_inv_def)
  have "row \<notin> set ?taken"
  proof
    assume "row \<in> set ?taken"
    then have "\<lparr>cc_rowid = fst row, cc_generation = f_generation (snd row)\<rparr> \<in> set fc"
      unfolding assms(3) fts_candidates_rows set_map by (rule rev_image_eqI) (simp add: split_beta)
    moreover have "fts_hit (plain_db rd) server \<lparr>cc_rowid = fst row, cc_generation = f_generation (snd row)\<rparr> row"
      using assms(5) by (simp add: fts_hit_def doomed_fts_def)
    ultimately show False using assms(4) unfolding kept_fts_def by auto
  qed
  moreover have "?rows \<noteq> []" using row by (metis empty_iff empty_set)
  then have "?taken \<noteq> []" by (simp add: CLEANUP_BATCH_SIZE_def sort_key_Nil)
  ultimately have "fst (last ?taken) < fst row"
    using row rowids_filter [OF assms(1)] by (intro sort_key_take_last)
  moreover have "cc_rowid (last fc) = fst (last ?taken)"
    unfolding assms(3) fts_candidates_rows using \<open>?taken \<noteq> []\<close> by (simp add: last_map split: prod.splits)
  ultimately show ?thesis using \<open>?taken \<noteq> []\<close> unfolding assms(3) fts_candidates_rows by simp
qed

lemma generation_candidate_row:
  assumes "rowids_wf (rd_generations rd)" and "c \<in> set (cleanup_generation_candidates server rd)"
    and "row \<in> set (rd_generations rd)" and "fst row = cc_rowid c"
  shows "\<not> has_fts_rows rd (snd row)"
proof -
  obtain row' where "row' \<in> set (rd_generations rd)" "\<not> has_fts_rows rd (snd row')" "cc_rowid c = fst row'"
    using assms(2) unfolding generation_candidates_rows by (rule candidate_origin) (auto simp: split_beta)
  then show ?thesis
    using rowids_inj [OF assms(1), of "fst row" "snd row" "snd row'"] assms(3,4) by (cases row; cases row') auto
qed

text \<open>
  A batch that nothing disturbs keeps what cleanup is to leave (\<open>purge\<close>), counts what it deletes,
  and deletes at least one row.
\<close>

lemma quiet_batch_state:
  assumes quiet: "quiet_env env" and wf: "rowid_db_wf rd" and cursor: "cursor_inv server after_rowid rd"
    and fc: "fc = cleanup_fts_candidates server after_rowid rd"
    and gc: "gc = (if fc = [] then cleanup_generation_candidates server rd else [])"
    and run: "batch_gated env has_connection server after_rowid fc gc rd = (r, after', rd')"
    and del: "delete_cleanup_batch (bv_faults env) (bv_pick env) server fc gc 6 rd = Inr (n, batch, rd')"
    and after': "after' = (if fc = [] then after_rowid else cc_rowid (last fc))"
  shows "purge server (plain_db rd') = purge server (plain_db rd)" and "cursor_inv server after' rd'"
    and "rowid_db_wf rd'"
proof -
  have law: "limit_law (bv_pick env)" using quiet by (simp add: quiet_env_def)
  note frame = batch_gated_frame [OF run wf law]
  note state = delete_cleanup_batch_result(1) [OF del wf]
  have plain: "filter (\<lambda>x. \<not> Q x) (map snd rows') = filter (\<lambda>x. \<not> Q x) (map snd rows)"
    if "filter (\<lambda>(_, x). \<not> Q x) rows' = filter (\<lambda>(_, x). \<not> Q x) rows" for Q and rows rows' :: "(int \<times> 'a) list"
    using that by (simp add: filter_map_snd)
  have fts_home: "(k, g) \<in> set (rd_generations rd')"
    if "(k, g) \<in> set (rd_generations rd)" "has_fts_rows rd g" for k g
  proof (cases "fc = []")
    case True
    then show ?thesis
      using that generation_candidate_row [of rd _ server "(k, g)"] wf gc
      by (auto simp: state kept_generations_def generation_hit_def rowid_db_wf_def)
  qed (use that gc in \<open>simp add: state kept_generations_def\<close>)
  have sub: "set (rd_fts rd') \<subseteq> set (rd_fts rd)" "set (rd_generations rd') \<subseteq> set (rd_generations rd)"
    by (auto simp: state kept_defs)
  have p1: "db_meta (plain_db rd') = db_meta (plain_db rd)" "db_enrolled (plain_db rd') = db_enrolled (plain_db rd)"
    using frame(1) by simp_all
  have p2: "set (db_generations (plain_db rd')) \<subseteq> set (db_generations (plain_db rd))" using sub(2) by auto
  have p3: "g \<in> set (db_generations (plain_db rd'))" if "e \<in> set (db_entries (plain_db rd'))"
    "g \<in> set (db_generations (plain_db rd))" "g_server g = e_server e" "g_generation g = e_generation e" for e g
    using that frame(5) by (force simp: has_entries_def)
  have p4: "g \<in> set (db_generations (plain_db rd'))" if "f \<in> set (db_fts (plain_db rd'))"
    "g \<in> set (db_generations (plain_db rd))" "g_server g = f_server f" "g_generation g = f_generation f" for f g
    using that fts_home sub(1) by (force simp: has_fts_rows_def)
  note purged = purge_step [OF p1 plain [OF frame(2), folded plain_db_simps] plain [OF frame(3), folded plain_db_simps]
    plain [OF frame(4), folded plain_db_simps] p2 p3 p4]
  show "purge server (plain_db rd') = purge server (plain_db rd)" by (rule purged(1))
  show "cursor_inv server after' rd'"
    unfolding cursor_inv_def
  proof safe
    fix k f
    assume row: "(k, f) \<in> set (rd_fts rd')" and "doomed_fts (plain_db rd') server f"
    then have doomed: "doomed_fts (plain_db rd) server f" using purged(2) [where f = f] by (force simp: image_iff)
    have "(k, f) \<in> set (kept_fts fc server rd)" using row by (simp add: state)
    then show "after' < k"
      using doomed_fts_kept [OF _ cursor fc, of "(k, f)"] doomed wf by (simp add: after' rowid_db_wf_def)
  qed
  show "rowid_db_wf rd'" using wf by (simp add: rowid_db_wf_def state kept_defs rowids_filter)
qed

lemma filter_full: "length xs \<le> length (filter P xs) \<Longrightarrow> x \<in> set xs \<Longrightarrow> P x"
  using length_filter_less [of x xs P] by (auto simp: not_le [symmetric])

lemma quiet_batch_progress:
  assumes quiet: "quiet_env env" and wf: "rowid_db_wf rd" and cursor: "cursor_inv server after_rowid rd"
    and obsolete: "has_obsolete_generations server (plain_db rd)"
    and fc: "fc = cleanup_fts_candidates server after_rowid rd"
    and gc: "gc = (if fc = [] then cleanup_generation_candidates server rd else [])"
    and del: "delete_cleanup_batch (bv_faults env) (bv_pick env) server fc gc 6 rd = Inr (n, batch, rd')"
  shows "length (rd_fts rd') < length (rd_fts rd) \<or> length (rd_entries rd') < length (rd_entries rd) \<or>
    length (rd_generations rd') < length (rd_generations rd)"
proof (rule ccontr)
  assume "\<not> ?thesis"
  then have len: "length (rd_fts rd) \<le> length (rd_fts rd')" "length (rd_entries rd) \<le> length (rd_entries rd')"
    "length (rd_generations rd) \<le> length (rd_generations rd')" by auto
  note state = delete_cleanup_batch_result(1) [OF del wf]
  let ?rd2 = "rd\<lparr>rd_fts := kept_fts fc server rd, rd_entries := kept_entries (bv_pick env) server rd\<rparr>"
  have f: "\<not> fts_hit (plain_db rd) server c row" if "row \<in> set (rd_fts rd)" "c \<in> set fc" for row c
    using filter_full [OF len(1) [unfolded state, simplified, unfolded kept_fts_def] that(1)] that(2) by blast
  have e: "fst row \<notin> set (picked_rows (bv_pick env) server rd)" if "row \<in> set (rd_entries rd)" for row
    using filter_full [OF len(2) [unfolded state, simplified, unfolded kept_entries_def] that] by blast
  then have rd2: "rd_entries ?rd2 = rd_entries rd" by (simp add: kept_entries_def)
  have g: "\<not> generation_hit ?rd2 server c row" if "row \<in> set (rd_generations rd)" "c \<in> set gc" for row c
    using filter_full [OF len(3) [unfolded state, simplified, unfolded kept_generations_def, simplified] that(1)] that(2) by blast
  have "fc = []"
  proof (rule ccontr)
    assume "fc \<noteq> []"
    then have "hd fc \<in> set fc" by simp
    then have "hd fc \<in> set (cleanup_fts_candidates server after_rowid rd)" by (simp only: fc)
    then obtain row where "row \<in> set (rd_fts rd)" "doomed_fts (plain_db rd) server (snd row)"
      "hd fc = \<lparr>cc_rowid = fst row, cc_generation = f_generation (snd row)\<rparr>"
      unfolding fts_candidates_rows by (rule candidate_origin) (auto simp: split_beta)
    then show False using f [of row "hd fc"] \<open>hd fc \<in> set fc\<close> by (simp add: fts_hit_def doomed_fts_def)
  qed
  have no_fts: "\<not> doomed_fts (plain_db rd) server (snd row)" if "row \<in> set (rd_fts rd)" for row
    using doomed_fts_kept [OF _ cursor fc, of row] that \<open>fc = []\<close> wf by (auto simp: kept_fts_def rowid_db_wf_def)
  have "map fst (filter (obsolete_entry (plain_db rd) server) (rd_entries rd)) = []"
  proof (rule ccontr)
    let ?rowids = "map fst (filter (obsolete_entry (plain_db rd) server) (rd_entries rd))"
    assume "?rowids \<noteq> []"
    moreover have "distinct ?rowids" using wf by (simp add: rowid_db_wf_def rowids_wf_def distinct_map_filter)
    ultimately have "picked_rows (bv_pick env) server rd \<noteq> []" "set (picked_rows (bv_pick env) server rd) \<subseteq> set ?rowids"
      using limit_law_nonempty [of "bv_pick env" ?rowids CLEANUP_BATCH_SIZE] quiet
      by (simp_all add: quiet_env_def picked_rows_def CLEANUP_BATCH_SIZE_def)
    then obtain k where "k \<in> set (picked_rows (bv_pick env) server rd)" "k \<in> set ?rowids"
      by (metis last_in_set subsetD)
    then show False using e by auto
  qed
  then have no_entries: "\<not> doomed_entry (plain_db rd) server (snd row)" if "row \<in> set (rd_entries rd)" for row
    using that by (auto simp: filter_empty_conv obsolete_entry_def doomed_entry_def)
  obtain row where row: "row \<in> set (rd_generations rd)" "doomed_generation (plain_db rd) server (snd row)"
    using obsolete by (auto simp: has_obsolete_generations_def doomed_generation_def)
  have "\<not> has_entries rd (snd row) \<and> \<not> has_fts_rows rd (snd row)"
    using row no_entries no_fts
    by (fastforce simp: has_entries_def has_fts_rows_def doomed_defs obsolete_generation_def)
  then have "filter (\<lambda>(rowid, g). doomed_generation (plain_db rd) server g \<and>
      \<not> has_entries rd g \<and> \<not> has_fts_rows rd g) (rd_generations rd) \<noteq> []"
    using row by (auto simp: filter_empty_conv split_beta)
  then have "gc \<noteq> []"
    using gc \<open>fc = []\<close> by (simp add: generation_candidates_rows CLEANUP_BATCH_SIZE_def sort_key_Nil)
  then have "hd gc \<in> set gc" by simp
  then have "hd gc \<in> set (cleanup_generation_candidates server rd)" using gc \<open>fc = []\<close> by simp
  then obtain row where "row \<in> set (rd_generations rd)" "doomed_generation (plain_db rd) server (snd row)"
    "\<not> has_entries rd (snd row)" "hd gc = \<lparr>cc_rowid = fst row, cc_generation = g_generation (snd row)\<rparr>"
    unfolding generation_candidates_rows by (rule candidate_origin) (auto simp: split_beta)
  then have "generation_hit ?rd2 server (hd gc) row"
    using doomed_generation_same [of ?rd2 rd] rd2
    by (auto simp: generation_hit_def doomed_generation_def has_entries_def fun_eq_iff)
  then show False using g \<open>row \<in> set (rd_generations rd)\<close> \<open>hd gc \<in> set gc\<close> by blast
qed

lemma not_doomed:
  "\<not> has_obsolete_generations server db \<Longrightarrow> g \<in> set (db_generations db) \<Longrightarrow> \<not> doomed_generation db server g"
  "\<not> has_obsolete_generations server db \<Longrightarrow> \<not> doomed_entry db server e"
  "\<not> has_obsolete_generations server db \<Longrightarrow> \<not> doomed_fts db server f"
  by (auto simp: doomed_defs obsolete_generation_def has_obsolete_generations_def)

lemma purge_clean: "\<not> has_obsolete_generations server db \<Longrightarrow> purge server db = db"
  by (simp add: purge_def not_doomed)

lemma add_batch_counts:
  assumes "unat (cb_fts_entries batch) + f' = f" "unat (cb_entries batch) + e' = e" "unat (cb_generations batch) + g' = g"
    and "unat (cs_fts_entries stats) + f < 2 ^ 64" "unat (cs_entries stats) + e < 2 ^ 64"
      "unat (cs_generations stats) + g < 2 ^ 64"
  shows "unat (cs_fts_entries (add_batch batch stats)) + f' = unat (cs_fts_entries stats) + f"
    "unat (cs_entries (add_batch batch stats)) + e' = unat (cs_entries stats) + e"
    "unat (cs_generations (add_batch batch stats)) + g' = unat (cs_generations stats) + g"
  using assms by (simp_all add: add_batch_def unat_saturating_add)

definition table_rows :: "rowid_db \<Rightarrow> nat" where
  "table_rows rd = length (rd_fts rd) + length (rd_entries rd) + length (rd_generations rd)"

definition stats_account :: "cleanup_stats \<Rightarrow> rowid_db \<Rightarrow> nat \<times> nat \<times> nat" where
  "stats_account stats rd =
     (unat (cs_fts_entries stats) + length (rd_fts rd), unat (cs_entries stats) + length (rd_entries rd),
      unat (cs_generations stats) + length (rd_generations rd))"

definition account_fits :: "nat \<times> nat \<times> nat \<Rightarrow> bool" where
  "account_fits = (\<lambda>(f, e, g). f < 2 ^ 64 \<and> e < 2 ^ 64 \<and> g < 2 ^ 64)"

lemma quiet_batch:
  assumes quiet: "quiet_env env" and wf: "rowid_db_wf rd" and cursor: "cursor_inv server after_rowid rd"
    and obsolete: "has_obsolete_generations server (plain_db rd)"
  obtains batch after' rd' where
    "cleanup_one_batch env has_connection server after_rowid rd = (Inr (Deleted batch), after', rd')"
    "purge server (plain_db rd') = purge server (plain_db rd)" "rowid_db_wf rd'" "cursor_inv server after' rd'"
    "table_rows rd' < table_rows rd" "\<not> (cb_fts_entries batch = 0 \<and> cb_entries batch = 0 \<and> cb_generations batch = 0)"
    "\<And>stats. account_fits (stats_account stats rd) \<Longrightarrow>
       stats_account (add_batch batch stats) rd' = stats_account stats rd"
proof -
  define fc where "fc = cleanup_fts_candidates server after_rowid rd"
  define gc where "gc = (if fc = [] then cleanup_generation_candidates server rd else [])"
  obtain n batch rd' where del: "delete_cleanup_batch (bv_faults env) (bv_pick env) server fc gc 6 rd = Inr (n, batch, rd')"
    and run: "batch_gated env has_connection server after_rowid fc gc rd =
      (Inr (Deleted batch), if fc = [] then after_rowid else cc_rowid (last fc), rd')"
    using quiet_batch_gated [OF quiet obsolete] by blast
  have "batch_candidates env server after_rowid rd = Inr (fc, gc)"
    using quiet by (auto simp: batch_candidates_def quiet_env_def fc_def gc_def Let_def)
  then have one: "cleanup_one_batch env has_connection server after_rowid rd =
      (Inr (Deleted batch), if fc = [] then after_rowid else cc_rowid (last fc), rd')"
    using run quiet obsolete by (simp add: cleanup_one_batch_def quiet_env_def)
  note counts = delete_cleanup_batch_result(2-4) [OF del wf]
  have progress: "length (rd_fts rd') < length (rd_fts rd) \<or> length (rd_entries rd') < length (rd_entries rd) \<or>
      length (rd_generations rd') < length (rd_generations rd)"
    by (rule quiet_batch_progress [OF quiet wf cursor obsolete fc_def gc_def del])
  show thesis
  proof (rule that [OF one])
    show "purge server (plain_db rd') = purge server (plain_db rd)" "rowid_db_wf rd'"
      "cursor_inv server (if fc = [] then after_rowid else cc_rowid (last fc)) rd'"
      using quiet_batch_state [OF quiet wf cursor fc_def gc_def run del] by simp_all
    show "table_rows rd' < table_rows rd" using progress counts by (auto simp: table_rows_def)
    show "\<not> (cb_fts_entries batch = 0 \<and> cb_entries batch = 0 \<and> cb_generations batch = 0)"
      using progress counts by auto
    fix stats assume "account_fits (stats_account stats rd)"
    then show "stats_account (add_batch batch stats) rd' = stats_account stats rd"
      unfolding stats_account_def account_fits_def by (auto intro!: add_batch_counts counts)
  qed
qed

lemma quiet_loop:
  assumes "\<And>k. quiet_env (envs k)"
  shows "rowid_db_wf rd \<Longrightarrow> cursor_inv server after_rowid rd \<Longrightarrow> account_fits (stats_account stats rd) \<Longrightarrow>
    \<exists>stats' rd'. cleanup_batches envs server k after_rowid stats rd = Some (Inr stats', rd') \<and>
      plain_db rd' = purge server (plain_db rd) \<and> \<not> has_obsolete_generations server (plain_db rd') \<and>
      stats_account stats' rd' = stats_account stats rd \<and>
      cs_stopped_for_shutdown stats' = cs_stopped_for_shutdown stats \<and>
      cs_deferred_for_build stats' = cs_deferred_for_build stats"
proof (induction "table_rows rd" arbitrary: rd k after_rowid stats rule: less_induct)
  case less
  show ?case
  proof (cases "has_obsolete_generations server (plain_db rd)")
    case False
    then show ?thesis
      using assms [of k] by (subst cleanup_batches.simps) (simp add: cleanup_one_batch_def quiet_env_def purge_clean)
  next
    case True
    obtain batch after' rd' where one:
      "cleanup_one_batch (envs k) (k > 0) server after_rowid rd = (Inr (Deleted batch), after', rd')"
      and purge: "purge server (plain_db rd') = purge server (plain_db rd)"
      and wf: "rowid_db_wf rd'" and cursor: "cursor_inv server after' rd'" and rows: "table_rows rd' < table_rows rd"
      and some: "\<not> (cb_fts_entries batch = 0 \<and> cb_entries batch = 0 \<and> cb_generations batch = 0)"
      and account: "stats_account (add_batch batch stats) rd' = stats_account stats rd"
      using quiet_batch [OF assms less.prems(1,2) True] less.prems(3) by metis
    have "bv_pause (envs k) rd' = rd'" using assms [of k] by (simp add: quiet_env_def)
    then have "cleanup_batches envs server k after_rowid stats rd =
        cleanup_batches envs server (Suc k) after' (add_batch batch stats) rd'"
      using some by (subst cleanup_batches.simps) (auto simp: one)
    then show ?thesis
      using less.hyps [OF rows wf cursor, of "add_batch batch stats" "Suc k"] less.prems(3) account purge
      by (simp add: add_batch_def)
  qed
qed

lemma purge_wf:
  assumes "db_wf db"
  shows "db_wf (purge server db)"
proof -
  have keep: "\<not> doomed_generation db server g" if "\<not> doomed_entry db server e"
    "g \<in> set (db_generations db)" "g_server g = e_server e" "g_generation g = e_generation e" for e g
    using that by (auto simp: doomed_defs obsolete_generation_def)
  have "doomed_fts db server f = doomed_entry db server e" if "fts_doc f = entry_doc e" for e f
    using that by (simp add: fts_doc_def entry_doc_def doomed_defs)
  then have "map fts_doc (filter (\<lambda>f. \<not> doomed_fts db server f) fs) =
      map entry_doc (filter (\<lambda>e. \<not> doomed_entry db server e) es)" if "map fts_doc fs = map entry_doc es" for fs es
    using that
  proof (induction es arbitrary: fs)
    case (Cons e es)
    then show ?case by (cases fs) auto
  qed simp
  with assms keep show ?thesis
    by (fastforce simp: db_wf_defs purge_def distinct_map_filter generation_exists_def)
qed

text \<open>
  C13. Cleanup of the obsolete generations of a server, when no build runs and nobody else writes,
  returns, leaves exactly the database without them, keeps the store consistent and reports the
  numbers of rows it deleted.
\<close>

theorem cleanup_removes_obsolete:
  assumes "\<And>k. quiet_env (envs k)" and "rowid_db_wf rd" and "db_wf (plain_db rd)"
  shows "\<exists>stats rd'. cleanup_obsolete_generations_coordinated envs False False server rd = Some (Inr stats, rd') \<and>
    plain_db rd' = purge server (plain_db rd) \<and> db_wf (plain_db rd') \<and>
    \<not> has_obsolete_generations server (plain_db rd') \<and>
    unat (cs_entries stats) = length (rd_entries rd) - length (rd_entries rd') \<and>
    unat (cs_fts_entries stats) = length (rd_fts rd) - length (rd_fts rd') \<and>
    unat (cs_generations stats) = length (rd_generations rd) - length (rd_generations rd') \<and>
    \<not> cs_stopped_for_shutdown stats \<and> \<not> cs_deferred_for_build stats"
proof (cases "has_obsolete_generations server (plain_db rd)")
  case False
  then show ?thesis
    using assms(3)
    by (simp add: cleanup_obsolete_generations_coordinated_def purge_clean stats_default_def)
next
  case True
  have "cursor_inv server 0 rd"
    using assms(2) by (auto simp: cursor_inv_def rowid_db_wf_def rowids_wf_def)
  moreover have "account_fits (stats_account stats_default rd)"
    using assms(2) rowids_length [of "rd_fts rd"] rowids_length [of "rd_entries rd"] rowids_length [of "rd_generations rd"]
    by (simp add: account_fits_def stats_account_def stats_default_def rowid_db_wf_def)
  ultimately obtain stats rd' where
    loop: "cleanup_batches envs server 0 0 stats_default rd = Some (Inr stats, rd')"
    and "plain_db rd' = purge server (plain_db rd)" "\<not> has_obsolete_generations server (plain_db rd')"
    and "stats_account stats rd' = stats_account stats_default rd"
    and "cs_stopped_for_shutdown stats = cs_stopped_for_shutdown stats_default"
      "cs_deferred_for_build stats = cs_deferred_for_build stats_default"
    using quiet_loop [where envs = envs, OF assms(1,2), where server = server and after_rowid = 0 and stats = stats_default and k = 0] by blast
  moreover have "cleanup_obsolete_generations_coordinated envs False False server rd = Some (Inr stats, rd')"
    using True loop by (simp add: cleanup_obsolete_generations_coordinated_def)
  ultimately show ?thesis
    using purge_wf [OF assms(3), of server] by (fastforce simp: stats_account_def stats_default_def)
qed

text \<open>
  C14. Whatever the candidates read before the gate were and whatever happened since: a batch deletes
  only rows of the server whose generation is obsolete at that moment, never touches the active
  generation or its entries, leaves no entry without its generation, and deletes nothing at all
  when a build is active, the gate is poisoned or a statement fails.
\<close>

theorem cleanup_batch_only_obsolete:
  assumes "batch_gated env has_connection server after_rowid fc gc rd = (r, after', rd')"
    and "rowid_db_wf rd" and "limit_law (bv_pick env)" and "db_wf (plain_db rd)"
  shows "filter (\<lambda>g. \<not> doomed_generation (plain_db rd) server g) (db_generations (plain_db rd')) =
      filter (\<lambda>g. \<not> doomed_generation (plain_db rd) server g) (db_generations (plain_db rd)) \<and>
    filter (\<lambda>e. \<not> doomed_entry (plain_db rd) server e) (db_entries (plain_db rd')) =
      filter (\<lambda>e. \<not> doomed_entry (plain_db rd) server e) (db_entries (plain_db rd)) \<and>
    filter (\<lambda>f. \<not> doomed_fts (plain_db rd) server f) (db_fts (plain_db rd')) =
      filter (\<lambda>f. \<not> doomed_fts (plain_db rd) server f) (db_fts (plain_db rd)) \<and>
    active_rows s (plain_db rd') = active_rows s (plain_db rd) \<and>
    active_entries s (plain_db rd') = active_entries s (plain_db rd) \<and>
    (\<forall>e \<in> set (db_entries (plain_db rd')). generation_exists (e_server e) (e_generation e) (plain_db rd')) \<and>
    ((\<exists>batch. r = Inr (Deleted batch)) \<or> rd' = rd)"
proof -
  note frame = batch_gated_frame [OF assms(1-3)]
  let ?db = "plain_db rd" and ?db' = "plain_db rd'"
  have gens: "filter (\<lambda>g. \<not> doomed_generation ?db server g) (db_generations ?db') =
      filter (\<lambda>g. \<not> doomed_generation ?db server g) (db_generations ?db)"
    and entries: "filter (\<lambda>e. \<not> doomed_entry ?db server e) (db_entries ?db') =
      filter (\<lambda>e. \<not> doomed_entry ?db server e) (db_entries ?db)"
    and fts: "filter (\<lambda>f. \<not> doomed_fts ?db server f) (db_fts ?db') = filter (\<lambda>f. \<not> doomed_fts ?db server f) (db_fts ?db)"
    using frame(2-4) by (simp_all add: filter_map_snd)
  have active: "active_rows s ?db' = active_rows s ?db"
    unfolding active_rows_def by (rule filter_imp_eq [OF gens]) (auto simp: doomed_generation_def is_obsolete_def)
  have sub: "set (db_entries ?db') \<subseteq> set (db_entries ?db)"
    using frame(1) by (auto dest: list_emb_set)
  have "filter (\<lambda>e. e \<in> set (active_entries s ?db)) (db_entries ?db') =
      filter (\<lambda>e. e \<in> set (active_entries s ?db)) (db_entries ?db)"
    by (rule filter_imp_eq [OF entries]) (rule active_not_doomed(2) [OF assms(4)])
  moreover have "filter (\<lambda>e. e \<in> set (active_entries s ?db)) es =
      filter (\<lambda>e. e_server e = s \<and> e_generation e \<in> g_generation ` set (active_rows s ?db)) es"
    if "set es \<subseteq> set (db_entries ?db)" for es
    using that by (intro filter_cong) (auto simp: active_entries_def)
  ultimately have "active_entries s ?db' = active_entries s ?db"
    using sub by (simp add: active_entries_def active)
  moreover have "generation_exists (e_server e) (e_generation e) ?db'" if "e \<in> set (db_entries ?db')" for e
  proof -
    have "generation_exists (e_server e) (e_generation e) ?db"
      using assms(4) that sub unfolding db_wf_def entries_wf_def by blast
    then obtain k g where "(k, g) \<in> set (rd_generations rd)" "g_server g = e_server e" "g_generation g = e_generation e"
      by (auto simp: generation_exists_def)
    then show ?thesis using frame(5) [of k g] that by (force simp: generation_exists_def has_entries_def)
  qed
  moreover have "(\<exists>batch. r = Inr (Deleted batch)) \<or> rd' = rd"
    using assms(1) by (rule batch_gated_cases) auto
  ultimately show ?thesis using gens entries fts active by blast
qed

definition sample_generation :: "int \<Rightarrow> generation_state \<Rightarrow> generation_row" where
  "sample_generation n state = \<lparr>g_server = ''s'', g_generation = n, g_state = state, g_organization = ''hierarchical'',
     g_source = ''da3'', g_started_at = '''', g_completed_at = None, g_entry_count = 1, g_unique_item_count = 1,
     g_last_error = None, g_compatibility_fallback = False\<rparr>"

definition sample_entry :: "int \<Rightarrow> entry_row" where
  "sample_entry n = \<lparr>e_server = ''s'', e_generation = n, e_item_id = [], e_item_id_norm = [], e_display_name = [],
     e_display_name_norm = [], e_kind = 0, e_breadcrumbs = []\<rparr>"

definition sample_fts :: "int \<Rightarrow> fts_row" where
  "sample_fts n = \<lparr>f_server = ''s'', f_generation = n, f_item_id = [], f_display_name = [], f_breadcrumbs = []\<rparr>"

definition sample_rd :: rowid_db where
  "sample_rd = \<lparr>rd_meta = [], rd_enrolled = [],
     rd_generations = [(1, sample_generation 1 Superseded), (2, sample_generation 2 Active)],
     rd_entries = [(1, sample_entry 1), (2, sample_entry 2)], rd_fts = [(1, sample_fts 1), (2, sample_fts 2)]\<rparr>"

definition sample_batch_env :: batch_env where
  "sample_batch_env = \<lparr>bv_shutting_down = False, bv_build_active = False, bv_gate_poisoned = False,
     bv_build_active_gated = False, bv_others = id, bv_pause = id, bv_pick = take, bv_faults = (\<lambda>_. False)\<rparr>"

lemma sample_quiet: "quiet_env sample_batch_env"
  by (auto simp: quiet_env_def sample_batch_env_def limit_law_def min_def dest: in_set_takeD)

lemma sample_rd_wf: "rowid_db_wf sample_rd" "db_wf (plain_db sample_rd)"
  by (auto simp: rowid_db_wf_def rowids_wf_def sample_rd_def db_wf_defs plain_db_def sample_generation_def
      sample_entry_def sample_fts_def generation_key_def entry_key_def fts_doc_def entry_doc_def generation_exists_def)

lemma sample_purge:
  "db_generations (purge ''s'' (plain_db sample_rd)) = [sample_generation 2 Active]"
  "db_entries (purge ''s'' (plain_db sample_rd)) = [sample_entry 2]"
  by (simp_all add: purge_def doomed_defs obsolete_generation_def is_obsolete_def sample_rd_def plain_db_def
      sample_generation_def sample_entry_def sample_fts_def has_state_def)

theorem cleanup_removes_obsolete_witness:
  "quiet_env sample_batch_env \<and> rowid_db_wf sample_rd \<and> db_wf (plain_db sample_rd) \<and>
   (\<exists>stats rd'. cleanup_obsolete_generations_coordinated (\<lambda>_. sample_batch_env) False False ''s'' sample_rd =
        Some (Inr stats, rd') \<and>
      db_generations (plain_db rd') = [sample_generation 2 Active] \<and> db_entries (plain_db rd') = [sample_entry 2] \<and>
      unat (cs_entries stats) = 1)"
proof -
  obtain stats rd' where run: "cleanup_obsolete_generations_coordinated (\<lambda>_. sample_batch_env) False False ''s'' sample_rd =
      Some (Inr stats, rd')" and state: "plain_db rd' = purge ''s'' (plain_db sample_rd)"
    and count: "unat (cs_entries stats) = length (rd_entries sample_rd) - length (rd_entries rd')"
    using cleanup_removes_obsolete [of "\<lambda>_. sample_batch_env" sample_rd "''s''"] sample_quiet sample_rd_wf by blast
  have "map snd (rd_entries rd') = [sample_entry 2]"
    using sample_purge(2) state by (metis plain_db_simps(4))
  then have "length (rd_entries rd') = 1" by (metis length_Cons length_map list.size(3) One_nat_def)
  then have "unat (cs_entries stats) = 1" using count by (simp add: sample_rd_def)
  then show ?thesis using run sample_purge [folded state] sample_quiet sample_rd_wf by blast
qed

definition stale_candidate :: cleanup_candidate where
  "stale_candidate = \<lparr>cc_rowid = 2, cc_generation = 2\<rparr>"

theorem cleanup_batch_only_obsolete_witness:
  "rowid_db_wf sample_rd \<and> limit_law (bv_pick sample_batch_env) \<and> db_wf (plain_db sample_rd) \<and>
   (\<exists>r after' rd'. batch_gated sample_batch_env False ''s'' 0 [stale_candidate] [stale_candidate] sample_rd = (r, after', rd') \<and>
      active_entries ''s'' (plain_db rd') = active_entries ''s'' (plain_db sample_rd))"
proof -
  obtain r after' rd' where run:
    "batch_gated sample_batch_env False ''s'' 0 [stale_candidate] [stale_candidate] sample_rd = (r, after', rd')"
    by (metis prod_cases3)
  have law: "limit_law (bv_pick sample_batch_env)" using sample_quiet by (simp add: quiet_env_def)
  show ?thesis
    using cleanup_batch_only_obsolete [OF run sample_rd_wf(1) law sample_rd_wf(2), of "''s''"] run law sample_rd_wf
    by blast
qed

end
