(* ===== verification/CleanupTasks.thy ===== *)
theory CleanupTasks
  imports Prelude "HOL-Library.Multiset"
begin

text \<open>
  Who runs the cleanup of obsolete generations (\<open>index/scheduler.rs\<close>): the registry of requested
  and running cleanups, the flag that admits one worker, and the threads that work on them. Every
  step is one critical section of the registry lock or one access to the atomic flag, so the step
  relation covers every interleaving of requests, spawns and workers.
\<close>

section \<open>State\<close>

record cleanup_task =
  ct_running :: bool
  ct_requested :: bool

definition task_default :: cleanup_task where
  "task_default = \<lparr>ct_running = False, ct_requested = False\<rparr>"

text \<open>
  Where a thread is: in \<open>spawn_cleanup_worker_if_idle\<close> (before \<open>active.swap\<close>, before the registry
  lock, before it gives the flag back, before it spawns the worker) or in the worker of a server
  (\<open>run_scheduled_cleanup\<close>, with its consecutive failures) down to the drop of its guard.
\<close>

datatype cleanup_thread =
    SpawnSwap | SpawnPick | SpawnRelease | SpawnStart string
  | WorkerCheck string u32 | WorkerRemove string | WorkerAttempt string u32 | WorkerWait string u32
  | WorkerClear string | WorkerDrop

record cleanup_registry =
  cr_tasks :: "string \<Rightarrow> cleanup_task option"
  cr_active :: bool
  cr_shutting_down :: bool
  cr_threads :: "cleanup_thread multiset"

definition registry_init :: cleanup_registry where
  "registry_init = \<lparr>cr_tasks = Map.empty, cr_active = False, cr_shutting_down = False, cr_threads = {#}\<rparr>"

section \<open>Critical sections\<close>

text \<open>\<open>schedule_cleanup\<close>: note the request; a thread goes on to spawn a worker unless one runs for the server.\<close>

definition schedule_cleanup_task :: "string \<Rightarrow> cleanup_registry \<Rightarrow> cleanup_registry" where
  "schedule_cleanup_task server r =
     (let task = (case cr_tasks r server of None \<Rightarrow> task_default | Some task \<Rightarrow> task);
          r' = r\<lparr>cr_tasks := (cr_tasks r)(server \<mapsto> task\<lparr>ct_requested := True\<rparr>)\<rparr>
      in if ct_running task \<or> cr_shutting_down r then r'
         else r'\<lparr>cr_threads := add_mset SpawnSwap (cr_threads r)\<rparr>)"

definition is_requested :: "string \<Rightarrow> cleanup_registry \<Rightarrow> bool" where
  "is_requested server r \<longleftrightarrow> is_some_and (cr_tasks r server) ct_requested"

definition is_running :: "string \<Rightarrow> cleanup_registry \<Rightarrow> bool" where
  "is_running server r \<longleftrightarrow> is_some_and (cr_tasks r server) ct_running"

definition set_running :: "string \<Rightarrow> cleanup_registry \<Rightarrow> cleanup_registry" where
  "set_running server r =
     r\<lparr>cr_tasks := (cr_tasks r)(server := map_option (\<lambda>task. task\<lparr>ct_running := True\<rparr>) (cr_tasks r server))\<rparr>"

definition retain_idle :: "cleanup_registry \<Rightarrow> cleanup_registry" where
  "retain_idle r =
     r\<lparr>cr_tasks := (\<lambda>server. if is_some_and (cr_tasks r server) ct_running then None else cr_tasks r server)\<rparr>"

definition remove_task :: "string \<Rightarrow> cleanup_registry \<Rightarrow> cleanup_registry" where
  "remove_task server r = r\<lparr>cr_tasks := (cr_tasks r)(server := None)\<rparr>"

definition cleanup_task_should_run :: "string \<Rightarrow> cleanup_registry \<Rightarrow> bool \<times> cleanup_registry" where
  "cleanup_task_should_run server r =
     (let task = (case cr_tasks r server of None \<Rightarrow> task_default | Some task \<Rightarrow> task)
      in (\<not> cr_shutting_down r, r\<lparr>cr_tasks := (cr_tasks r)(server \<mapsto> task\<lparr>ct_requested := False\<rparr>)\<rparr>))"

definition clear_finished_cleanup_task :: "string \<Rightarrow> cleanup_registry \<Rightarrow> bool \<times> cleanup_registry" where
  "clear_finished_cleanup_task server r =
     (let rerun = (is_requested server r \<and> \<not> cr_shutting_down r)
      in (rerun, if rerun then r else remove_task server r))"

definition request_deferred :: "string \<Rightarrow> cleanup_registry \<Rightarrow> cleanup_registry" where
  "request_deferred server r =
     r\<lparr>cr_tasks := (cr_tasks r)(server := map_option (\<lambda>task. task\<lparr>ct_requested := True\<rparr>) (cr_tasks r server))\<rparr>"

definition CLEANUP_RETRY_LIMIT :: u32 where
  "CLEANUP_RETRY_LIMIT = 3"

definition retry_cleanup_after_failure :: "bool \<Rightarrow> u32 \<Rightarrow> bool \<times> u32" where
  "retry_cleanup_after_failure shutting_down consecutive_failures =
     (let consecutive_failures = saturating_add consecutive_failures 1
      in (consecutive_failures \<le> CLEANUP_RETRY_LIMIT \<and> \<not> shutting_down, consecutive_failures))"

section \<open>Steps\<close>

text \<open>A thread moves from one place to the next, or ends.\<close>

definition move :: "cleanup_thread \<Rightarrow> cleanup_thread multiset \<Rightarrow> cleanup_registry \<Rightarrow> cleanup_registry" where
  "move t ts r = r\<lparr>cr_threads := cr_threads r - {#t#} + ts\<rparr>"

inductive cleanup_step :: "cleanup_registry \<Rightarrow> cleanup_registry \<Rightarrow> bool" where
  request: "cleanup_step r (schedule_cleanup_task server r)"
| shutdown: "cleanup_step r (r\<lparr>cr_shutting_down := True\<rparr>)"
| swap_busy: "SpawnSwap \<in># cr_threads r \<Longrightarrow> cr_active r \<Longrightarrow> cleanup_step r (move SpawnSwap {#} r)"
| swap_idle: "SpawnSwap \<in># cr_threads r \<Longrightarrow> \<not> cr_active r \<Longrightarrow>
    cleanup_step r (move SpawnSwap {#SpawnPick#} (r\<lparr>cr_active := True\<rparr>))"
| pick: "SpawnPick \<in># cr_threads r \<Longrightarrow> is_requested server r \<Longrightarrow>
    cleanup_step r (move SpawnPick {#SpawnStart server#} (set_running server r))"
| pick_none: "SpawnPick \<in># cr_threads r \<Longrightarrow> (\<And>server. \<not> is_requested server r) \<Longrightarrow>
    cleanup_step r (move SpawnPick {#SpawnRelease#} r)"
| release: "SpawnRelease \<in># cr_threads r \<Longrightarrow> cleanup_step r (move SpawnRelease {#} (r\<lparr>cr_active := False\<rparr>))"
| start: "SpawnStart server \<in># cr_threads r \<Longrightarrow> \<not> cr_shutting_down r \<Longrightarrow>
    cleanup_step r (move (SpawnStart server) {#WorkerCheck server 0#} r)"
| start_rejected: "SpawnStart server \<in># cr_threads r \<Longrightarrow> cr_shutting_down r \<Longrightarrow>
    cleanup_step r (move (SpawnStart server) {#} ((retain_idle r)\<lparr>cr_active := False\<rparr>))"
| check: "WorkerCheck server failures \<in># cr_threads r \<Longrightarrow> cleanup_task_should_run server r = (run, r') \<Longrightarrow>
    cleanup_step r (move (WorkerCheck server failures)
      {#if run then WorkerAttempt server failures else WorkerRemove server#} r')"
| remove: "WorkerRemove server \<in># cr_threads r \<Longrightarrow>
    cleanup_step r (move (WorkerRemove server) {#WorkerDrop#} (remove_task server r))"
| attempt_done: "WorkerAttempt server failures \<in># cr_threads r \<Longrightarrow>
    cleanup_step r (move (WorkerAttempt server failures) {#WorkerClear server#} r)"
| attempt_failed: "WorkerAttempt server failures \<in># cr_threads r \<Longrightarrow>
    retry_cleanup_after_failure (cr_shutting_down r) failures = (retry, failures') \<Longrightarrow>
    cleanup_step r (move (WorkerAttempt server failures)
      {#if retry then WorkerCheck server failures' else WorkerClear server#} r)"
| attempt_deferred: "WorkerAttempt server failures \<in># cr_threads r \<Longrightarrow>
    cleanup_step r (move (WorkerAttempt server failures) {#WorkerWait server failures#} (request_deferred server r))"
| build_changed: "WorkerWait server failures \<in># cr_threads r \<Longrightarrow>
    cleanup_step r (move (WorkerWait server failures) {#WorkerCheck server failures#} r)"
| wait_shutdown: "WorkerWait server failures \<in># cr_threads r \<Longrightarrow> cr_shutting_down r \<Longrightarrow>
    cleanup_step r (move (WorkerWait server failures) {#WorkerDrop#} r)"
| clear: "WorkerClear server \<in># cr_threads r \<Longrightarrow> clear_finished_cleanup_task server r = (rerun, r') \<Longrightarrow>
    cleanup_step r (move (WorkerClear server) {#if rerun then WorkerCheck server 0 else WorkerDrop#} r')"
| drop_guard: "WorkerDrop \<in># cr_threads r \<Longrightarrow>
    cleanup_step r (move WorkerDrop {#SpawnSwap#} (r\<lparr>cr_active := False\<rparr>))"

section \<open>One worker at a time\<close>

text \<open>The threads that own the flag, and the server a worker is for.\<close>

definition owns_flag :: "cleanup_thread \<Rightarrow> bool" where
  "owns_flag t \<longleftrightarrow> t \<noteq> SpawnSwap"

fun server_of :: "cleanup_thread \<Rightarrow> string option" where
  "server_of (SpawnStart server) = Some server"
| "server_of (WorkerCheck server _) = Some server"
| "server_of (WorkerRemove server) = Some server"
| "server_of (WorkerAttempt server _) = Some server"
| "server_of (WorkerWait server _) = Some server"
| "server_of (WorkerClear server) = Some server"
| "server_of _ = None"

definition running_servers :: "cleanup_registry \<Rightarrow> string set" where
  "running_servers r = {server. is_running server r}"

text \<open>
  At most one thread is past \<open>active.swap\<close>, the flag says whether there is one, and the servers
  marked as running are the server it works for (until a shutdown abandons the registry).
\<close>

definition owned_by :: "cleanup_thread option \<Rightarrow> cleanup_registry \<Rightarrow> bool" where
  "owned_by owner r \<longleftrightarrow> (cr_active r \<longleftrightarrow> owner \<noteq> None) \<and>
     (\<exists>n. cr_threads r = mset_set (set_option owner) + replicate_mset n SpawnSwap) \<and>
     (\<forall>t. owner = Some t \<longrightarrow> owns_flag t) \<and>
     (cr_shutting_down r \<or> running_servers r = set_option (Option.bind owner server_of))"

definition registry_inv :: "cleanup_registry \<Rightarrow> bool" where
  "registry_inv r \<longleftrightarrow> (\<exists>owner. owned_by owner r)"

lemma owner_unique:
  assumes "registry_inv r" and "t \<in># cr_threads r" and "owns_flag t"
  shows "owned_by (Some t) r"
proof -
  obtain owner n where o: "owned_by owner r" "cr_threads r = mset_set (set_option owner) + replicate_mset n SpawnSwap"
    using assms(1) by (auto simp: registry_inv_def owned_by_def)
  have "owner = Some t"
    using assms(2,3) o(2) by (cases owner) (auto simp: owns_flag_def split: if_splits)
  then show ?thesis using o(1) by simp
qed

lemma owner_moves:
  assumes "registry_inv r" and "t \<in># cr_threads r" and "owns_flag t" and "cr_threads r' = cr_threads r"
    and "cr_active r' = cr_active r" and "cr_shutting_down r' = cr_shutting_down r" and "owns_flag t'"
    and "\<not> cr_shutting_down r \<Longrightarrow> running_servers r = set_option (server_of t) \<Longrightarrow>
      running_servers r' = set_option (server_of t')"
  shows "registry_inv (move t {#t'#} r')"
proof -
  have "owned_by (Some t) r" using assms(1-3) by (rule owner_unique)
  moreover have "running_servers (move t {#t'#} r') = running_servers r'"
    by (simp add: running_servers_def is_running_def move_def)
  ultimately have "owned_by (Some t') (move t {#t'#} r')"
    using assms(4-) by (auto simp: owned_by_def move_def)
  then show ?thesis by (auto simp: registry_inv_def)
qed

lemma owner_leaves:
  assumes "registry_inv r" and "t \<in># cr_threads r" and "owns_flag t" and "cr_threads r' = cr_threads r"
    and "cr_shutting_down r' = cr_shutting_down r" and "ts \<in> {{#}, {#SpawnSwap#}}"
    and "\<not> cr_shutting_down r \<Longrightarrow> running_servers r = set_option (server_of t) \<Longrightarrow> running_servers r' = {}"
  shows "registry_inv (move t ts (r'\<lparr>cr_active := False\<rparr>))"
proof -
  let ?r = "move t ts (r'\<lparr>cr_active := False\<rparr>)"
  have owner: "owned_by (Some t) r" using assms(1-3) by (rule owner_unique)
  then obtain n where "cr_threads r = add_mset t (replicate_mset n SpawnSwap)" by (auto simp: owned_by_def)
  then have "cr_threads ?r = replicate_mset n SpawnSwap + ts" using assms(4) by (simp add: move_def)
  then have "\<exists>n. cr_threads ?r = replicate_mset n SpawnSwap"
    using assms(6) by (auto intro: exI [of _ "Suc n"])
  moreover have "running_servers ?r = running_servers r'"
    by (simp add: running_servers_def is_running_def move_def)
  ultimately have "owned_by None ?r"
    using assms(5,7) owner by (auto simp: owned_by_def move_def)
  then show ?thesis by (auto simp: registry_inv_def)
qed

lemma spawn_added:
  assumes "registry_inv r" and "cr_threads r' \<in> {cr_threads r, add_mset SpawnSwap (cr_threads r)}"
    and "cr_active r' = cr_active r" and "cr_shutting_down r \<Longrightarrow> cr_shutting_down r'"
    and "running_servers r' = running_servers r"
  shows "registry_inv r'"
proof -
  obtain owner n where "owned_by owner r" "cr_threads r = mset_set (set_option owner) + replicate_mset n SpawnSwap"
    using assms(1) by (auto simp: registry_inv_def owned_by_def)
  moreover from this have "\<exists>n. cr_threads r' = mset_set (set_option owner) + replicate_mset n SpawnSwap"
    using assms(2) by (auto intro: exI [of _ "Suc n"] exI [of _ n])
  ultimately have "owned_by owner r'" using assms(3-) by (auto simp: owned_by_def)
  then show ?thesis by (auto simp: registry_inv_def)
qed

lemma task_states:
  "running_servers (schedule_cleanup_task server r) = running_servers r"
  "is_requested server r \<Longrightarrow> running_servers (set_running server r) = insert server (running_servers r)"
  "running_servers (remove_task server r) = running_servers r - {server}"
  "running_servers (request_deferred server r) = running_servers r"
  "running_servers (snd (cleanup_task_should_run server r)) = running_servers r"
  by (auto simp: running_servers_def is_running_def schedule_cleanup_task_def task_default_def Let_def set_running_def
      is_requested_def is_some_and_def remove_task_def request_deferred_def cleanup_task_should_run_def
      split: option.splits if_splits)

lemma task_frames [simp]:
  "cr_threads (set_running server r) = cr_threads r" "cr_active (set_running server r) = cr_active r"
  "cr_shutting_down (set_running server r) = cr_shutting_down r"
  "cr_threads (remove_task server r) = cr_threads r" "cr_active (remove_task server r) = cr_active r"
  "cr_shutting_down (remove_task server r) = cr_shutting_down r"
  "cr_threads (request_deferred server r) = cr_threads r" "cr_active (request_deferred server r) = cr_active r"
  "cr_shutting_down (request_deferred server r) = cr_shutting_down r"
  "cr_threads (snd (cleanup_task_should_run server r)) = cr_threads r"
  "cr_active (snd (cleanup_task_should_run server r)) = cr_active r"
  "cr_shutting_down (snd (cleanup_task_should_run server r)) = cr_shutting_down r"
  by (simp_all add: set_running_def remove_task_def request_deferred_def cleanup_task_should_run_def Let_def)

lemma schedule_threads: "cr_threads (schedule_cleanup_task server r) \<in> {cr_threads r, add_mset SpawnSwap (cr_threads r)}"
  and schedule_frame [simp]: "cr_active (schedule_cleanup_task server r) = cr_active r"
    "cr_shutting_down (schedule_cleanup_task server r) = cr_shutting_down r"
  by (simp_all add: schedule_cleanup_task_def Let_def)

lemmas moves = owns_flag_def task_states

lemma registry_step_inv:
  assumes "cleanup_step r r'" and inv: "registry_inv r"
  shows "registry_inv r'"
  using assms(1)
proof cases
  case (request server)
  show ?thesis unfolding request by (rule spawn_added [OF inv schedule_threads]) (simp_all add: task_states)
next
  case swap_idle
  obtain n where n: "cr_threads r = replicate_mset n SpawnSwap" "cr_shutting_down r \<or> running_servers r = {}"
    using inv swap_idle(3) by (auto simp: registry_inv_def owned_by_def)
  moreover have "running_servers r' = running_servers r"
    by (simp add: swap_idle(1) running_servers_def is_running_def move_def)
  moreover have "cr_threads r' = add_mset SpawnPick (replicate_mset (n - 1) SpawnSwap)"
    using n(1) swap_idle(2) by (cases n) (auto simp: swap_idle(1) move_def)
  ultimately have "owned_by (Some SpawnPick) r'"
    by (auto simp: owned_by_def owns_flag_def swap_idle(1) move_def)
  then show ?thesis by (auto simp: registry_inv_def)
next
  case swap_busy
  obtain owner n where o: "owned_by owner r" "cr_threads r = mset_set (set_option owner) + replicate_mset n SpawnSwap"
    using inv by (auto simp: registry_inv_def owned_by_def)
  have "SpawnSwap \<notin># mset_set (set_option owner)" using o(1) by (cases owner) (auto simp: owned_by_def owns_flag_def)
  then have "cr_threads r' = mset_set (set_option owner) + replicate_mset (n - 1) SpawnSwap"
    using o(2) swap_busy(2) by (cases n) (auto simp: swap_busy(1) move_def)
  moreover have "running_servers r' = running_servers r"
    by (simp add: swap_busy(1) running_servers_def is_running_def move_def)
  ultimately have "owned_by owner r'" using o(1) by (auto simp: owned_by_def swap_busy(1) move_def)
  then show ?thesis by (auto simp: registry_inv_def)
next
  case shutdown
  show ?thesis unfolding shutdown by (rule spawn_added [OF inv]) (simp_all add: running_servers_def is_running_def)
next
  case (pick server)
  show ?thesis
    unfolding pick(1) by (rule owner_moves [OF inv pick(2)]) (use pick in \<open>simp_all add: moves\<close>)
next
  case pick_none
  show ?thesis unfolding pick_none(1) by (rule owner_moves [OF inv pick_none(2)]) (simp_all add: moves)
next
  case release
  show ?thesis unfolding release(1) by (rule owner_leaves [OF inv release(2)]) (simp_all add: moves)
next
  case (start server)
  show ?thesis unfolding start(1) by (rule owner_moves [OF inv start(2)]) (simp_all add: moves)
next
  case (start_rejected server)
  show ?thesis
    unfolding start_rejected(1) by (rule owner_leaves [OF inv start_rejected(2)]) (use start_rejected in \<open>simp_all add: moves retain_idle_def\<close>)
next
  case (check server failures run r1)
  have "r1 = snd (cleanup_task_should_run server r)" using check(3) by simp
  then show ?thesis
    unfolding check(1) by (intro owner_moves [OF inv check(2)]) (simp_all add: moves)
next
  case (remove server)
  show ?thesis unfolding remove(1) by (rule owner_moves [OF inv remove(2)]) (simp_all add: moves)
next
  case (attempt_done server failures)
  show ?thesis unfolding attempt_done(1) by (rule owner_moves [OF inv attempt_done(2)]) (simp_all add: moves)
next
  case (attempt_failed server failures retry failures')
  show ?thesis unfolding attempt_failed(1) by (rule owner_moves [OF inv attempt_failed(2)]) (simp_all add: moves)
next
  case (attempt_deferred server failures)
  show ?thesis
    unfolding attempt_deferred(1) by (rule owner_moves [OF inv attempt_deferred(2)]) (simp_all add: moves)
next
  case (build_changed server failures)
  show ?thesis unfolding build_changed(1) by (rule owner_moves [OF inv build_changed(2)]) (simp_all add: moves)
next
  case (wait_shutdown server failures)
  show ?thesis
    unfolding wait_shutdown(1) by (rule owner_moves [OF inv wait_shutdown(2)]) (use wait_shutdown in \<open>simp_all add: moves\<close>)
next
  case (clear server rerun r1)
  have r1: "r1 = (if rerun then r else remove_task server r)"
    using clear(3) by (auto simp: clear_finished_cleanup_task_def Let_def)
  show ?thesis
    unfolding clear(1) r1 by (rule owner_moves [OF inv clear(2)]) (cases rerun; simp add: moves)+
next
  case drop_guard
  show ?thesis unfolding drop_guard(1) by (rule owner_leaves [OF inv drop_guard(2)]) (simp_all add: moves)
qed

interpretation cleanup_system: invariant_system "\<lambda>r. r = registry_init" cleanup_step registry_inv
proof
  fix r assume "r = registry_init"
  then have "owned_by None r"
    by (simp add: owned_by_def registry_init_def running_servers_def is_running_def)
  then show "registry_inv r" by (auto simp: registry_inv_def)
qed (rule registry_step_inv)

text \<open>
  C15. In every interleaving of requests, spawns and workers at most one thread works on cleanups, it
  holds the flag, and (until shutdown) the registry marks a server as running exactly when that
  thread works for it: a request for a running server is seen by its worker, which runs again.
\<close>

theorem cleanup_worker_exclusive:
  assumes "cleanup_step\<^sup>*\<^sup>* registry_init r"
  shows "size (filter_mset owns_flag (cr_threads r)) = (if cr_active r then 1 else 0) \<and>
    (cr_shutting_down r \<or> {server. is_running server r} = {server. \<exists>t \<in># cr_threads r. server_of t = Some server})"
proof -
  obtain owner n where o: "owned_by owner r" "cr_threads r = mset_set (set_option owner) + replicate_mset n SpawnSwap"
    using cleanup_system.reachable_inv [OF refl assms] by (auto simp: registry_inv_def owned_by_def)
  have "filter_mset owns_flag (replicate_mset n SpawnSwap) = {#}"
    by (induction n) (simp_all add: owns_flag_def)
  then have "size (filter_mset owns_flag (cr_threads r)) = (if cr_active r then 1 else 0)"
    using o by (cases owner) (auto simp: owned_by_def)
  moreover have "{server. \<exists>t \<in># cr_threads r. server_of t = Some server} = set_option (Option.bind owner server_of)"
    unfolding o(2) by (cases owner) (auto split: if_splits)
  ultimately show ?thesis using o(1) by (auto simp: owned_by_def running_servers_def)
qed

text \<open>The schedule that loses a request, state by state.\<close>

definition reg :: "cleanup_task option \<Rightarrow> bool \<Rightarrow> cleanup_thread multiset \<Rightarrow> cleanup_registry" where
  "reg task active threads = \<lparr>cr_tasks = (\<lambda>server. if server = ''s'' then task else None), cr_active = active,
     cr_shutting_down = False, cr_threads = threads\<rparr>"

lemma reg_simps:
  "registry_init = reg None False {#}"
  "is_requested server (reg task active threads) \<longleftrightarrow> server = ''s'' \<and> is_some_and task ct_requested"
  "schedule_cleanup_task ''s'' (reg None active threads) =
     reg (Some \<lparr>ct_running = False, ct_requested = True\<rparr>) active (add_mset SpawnSwap threads)"
  "set_running ''s'' (reg task active threads) = reg (map_option (\<lambda>t. t\<lparr>ct_running := True\<rparr>) task) active threads"
  "cleanup_task_should_run ''s'' (reg (Some t) active threads) = (True, reg (Some (t\<lparr>ct_requested := False\<rparr>)) active threads)"
  "remove_task ''s'' (reg task active threads) = reg None active threads"
  "move thread ts (reg task active threads) = reg task active (threads - {#thread#} + ts)"
  "(reg task active threads)\<lparr>cr_active := active'\<rparr> = reg task active' threads"
  by (auto simp: reg_def registry_init_def is_requested_def schedule_cleanup_task_def set_running_def task_default_def
      cleanup_task_should_run_def remove_task_def move_def Let_def fun_eq_iff)

lemma reg_frame [simp]:
  "cr_threads (reg task active threads) = threads" "cr_active (reg task active threads) = active"
  "\<not> cr_shutting_down (reg task active threads)"
  by (simp_all add: reg_def)

lemma first_cleanup_runs:
  "cleanup_step\<^sup>*\<^sup>* registry_init (reg None True {#SpawnRelease#})"
proof -
  let ?requested = "Some \<lparr>ct_running = False, ct_requested = True\<rparr>"
  let ?picked = "Some \<lparr>ct_running = True, ct_requested = True\<rparr>"
  let ?running = "Some \<lparr>ct_running = True, ct_requested = False\<rparr>"
  have "cleanup_step registry_init (reg ?requested False {#SpawnSwap#})"
    using request [of registry_init "''s''"] by (simp add: reg_simps)
  moreover have "cleanup_step (reg ?requested False {#SpawnSwap#}) (reg ?requested True {#SpawnPick#})"
    using swap_idle [of "reg ?requested False {#SpawnSwap#}"] by (simp add: reg_simps)
  moreover have "cleanup_step (reg ?requested True {#SpawnPick#}) (reg ?picked True {#SpawnStart ''s''#})"
    using pick [of "reg ?requested True {#SpawnPick#}" "''s''"] by (simp add: reg_simps)
  moreover have "cleanup_step (reg ?picked True {#SpawnStart ''s''#}) (reg ?picked True {#WorkerCheck ''s'' 0#})"
    using start [of "''s''" "reg ?picked True {#SpawnStart ''s''#}"] by (simp add: reg_simps)
  moreover have "cleanup_step (reg ?picked True {#WorkerCheck ''s'' 0#}) (reg ?running True {#WorkerAttempt ''s'' 0#})"
    using check [of "''s''" 0 "reg ?picked True {#WorkerCheck ''s'' 0#}"] by (simp add: reg_simps)
  moreover have "cleanup_step (reg ?running True {#WorkerAttempt ''s'' 0#}) (reg ?running True {#WorkerClear ''s''#})"
    using attempt_done [of "''s''" 0 "reg ?running True {#WorkerAttempt ''s'' 0#}"] by (simp add: reg_simps)
  moreover have "cleanup_step (reg ?running True {#WorkerClear ''s''#}) (reg None True {#WorkerDrop#})"
    using clear [of "''s''" "reg ?running True {#WorkerClear ''s''#}" False]
    by (simp add: reg_simps clear_finished_cleanup_task_def)
  moreover have "cleanup_step (reg None True {#WorkerDrop#}) (reg None False {#SpawnSwap#})"
    using drop_guard [of "reg None True {#WorkerDrop#}"] by (simp add: reg_simps)
  moreover have "cleanup_step (reg None False {#SpawnSwap#}) (reg None True {#SpawnPick#})"
    using swap_idle [of "reg None False {#SpawnSwap#}"] by (simp add: reg_simps)
  moreover have "cleanup_step (reg None True {#SpawnPick#}) (reg None True {#SpawnRelease#})"
    using pick_none [of "reg None True {#SpawnPick#}"] by (simp add: reg_simps)
  ultimately show ?thesis by (meson converse_rtranclp_into_rtranclp rtranclp.rtrancl_refl)
qed

lemma request_in_the_gap:
  "cleanup_step\<^sup>*\<^sup>* (reg None True {#SpawnRelease#}) (reg (Some \<lparr>ct_running = False, ct_requested = True\<rparr>) False {#})"
proof -
  let ?requested = "Some \<lparr>ct_running = False, ct_requested = True\<rparr>"
  have "cleanup_step (reg None True {#SpawnRelease#}) (reg ?requested True {#SpawnSwap, SpawnRelease#})"
    using request [of "reg None True {#SpawnRelease#}" "''s''"] by (simp add: reg_simps)
  moreover have "cleanup_step (reg ?requested True {#SpawnSwap, SpawnRelease#}) (reg ?requested True {#SpawnRelease#})"
    using swap_busy [of "reg ?requested True {#SpawnSwap, SpawnRelease#}"] by (simp add: reg_simps)
  moreover have "cleanup_step (reg ?requested True {#SpawnRelease#}) (reg ?requested False {#})"
    using release [of "reg ?requested True {#SpawnRelease#}"] by (simp add: reg_simps)
  ultimately show ?thesis by (meson converse_rtranclp_into_rtranclp rtranclp.rtrancl_refl)
qed

theorem cleanup_worker_exclusive_witness:
  "cleanup_step\<^sup>*\<^sup>* registry_init (reg None True {#SpawnRelease#}) \<and>
   size (filter_mset owns_flag (cr_threads (reg None True {#SpawnRelease#}))) = 1"
  using cleanup_worker_exclusive [OF first_cleanup_runs] first_cleanup_runs by simp

text \<open>
  C38. A request can be lost. A thread that finds no request gives the flag back in a separate step; a
  request in between sees the flag taken and starts no worker. The request then stays in the
  registry with nobody to serve it until another one is made.
\<close>

theorem cleanup_request_can_be_lost:
  "\<exists>r. cleanup_step\<^sup>*\<^sup>* registry_init r \<and> is_requested ''s'' r \<and> cr_threads r = {#} \<and>
     \<not> cr_active r \<and> \<not> cr_shutting_down r"
proof (intro exI conjI)
  show "cleanup_step\<^sup>*\<^sup>* registry_init (reg (Some \<lparr>ct_running = False, ct_requested = True\<rparr>) False {#})"
    using first_cleanup_runs request_in_the_gap by (rule rtranclp_trans)
qed (simp_all add: reg_simps)

end
