(* ===== verification/Readiness.thy ===== *)
theory Readiness
  imports Manager
begin

text \<open>
  What a build waits for before it takes the next event of the inventory (\<open>index/traversal.rs\<close>):
  a maintenance window, a healthy server and the recovery of the adaptive controller. Each wait is
  a loop over what it sees in each round (the clock, whether the inventory was cancelled, the reply
  to a probe); a list of rounds that ends before the wait does gives \<open>None\<close>. A time that the
  platform cannot represent makes the build's task panic.
\<close>

datatype build_readiness = BuildReady | BuildCancelled | BuildFailed string | BuildPanicked

section \<open>Maintenance windows\<close>

definition outside_windows :: "maintenance_window list \<Rightarrow> call_env \<Rightarrow> bool" where
  "outside_windows windows env \<longleftrightarrow> \<not> maintenance_window_active windows (ce_local_hour env) (ce_local_minute env)"

fun maintenance_rounds ::
  "maintenance_window list \<Rightarrow> string \<Rightarrow> bool \<Rightarrow> (bool \<times> call_env) list \<Rightarrow> index_manager \<Rightarrow> (bool \<times> index_manager) option" where
  "maintenance_rounds windows server False rounds m = Some (True, m)"
| "maintenance_rounds windows server True [] m = None"
| "maintenance_rounds windows server True ((still_running, env) # rounds) m =
     (if \<not> still_running then Some (False, m)
      else let outside_window = outside_windows windows env
           in maintenance_rounds windows server outside_window rounds
                (set_pause_overlay env server (Some outside_window) None m))"

definition wait_for_maintenance ::
  "maintenance_window list \<Rightarrow> string \<Rightarrow> call_env \<Rightarrow> (bool \<times> call_env) list \<Rightarrow> index_manager \<Rightarrow> (bool \<times> index_manager) option" where
  "wait_for_maintenance windows server env rounds m =
     (let outside_window = (windows \<noteq> [] \<and> outside_windows windows env)
      in maintenance_rounds windows server outside_window rounds
           (set_pause_overlay env server (Some outside_window) None m))"

section \<open>Health probes\<close>

record health_probe_observation =
  ho_healthy :: bool
  ho_failure_reason :: string
  ho_sentinel_configured :: bool

record health_sentinel_observation =
  hs_healthy :: bool
  hs_failure_reason :: "string option"

definition eq_ignore_ascii_case :: "string \<Rightarrow> string \<Rightarrow> bool" where
  "eq_ignore_ascii_case a b \<longleftrightarrow> to_ascii_lowercase a = to_ascii_lowercase b"

text \<open>The reply to the sentinel read is an error or the qualities of the values.\<close>

definition read_health_sentinel ::
  "resolved_index_config \<Rightarrow> string + string list \<Rightarrow> health_sentinel_observation option" where
  "read_health_sentinel cfg reply =
     (if ri_sentinel_tag cfg = None then None
      else Some (case reply of
        Inr [quality] \<Rightarrow>
          (let healthy = eq_ignore_ascii_case quality ''good''
           in \<lparr>hs_healthy = healthy,
               hs_failure_reason = (if healthy then None else Some ''sentinel quality is not Good'')\<rparr>)
      | Inr _ \<Rightarrow> \<lparr>hs_healthy = False, hs_failure_reason = Some ''sentinel read returned no value''\<rparr>
      | Inl error \<Rightarrow> \<lparr>hs_healthy = False, hs_failure_reason = Some error\<rparr>))"

definition probe_health ::
  "resolved_index_config \<Rightarrow> string + unit \<Rightarrow> duration \<Rightarrow> string + string list \<Rightarrow> health_probe_observation" where
  "probe_health cfg capability elapsed reply =
     (let sentinel = read_health_sentinel cfg reply;
          threshold = ri_health_latency_threshold_ms cfg;
          sentinel_healthy = (case sentinel of None \<Rightarrow> True | Some s \<Rightarrow> hs_healthy s);
          healthy = ((case capability of Inl _ \<Rightarrow> False | Inr _ \<Rightarrow> True) \<and>
                     elapsed \<le> unat threshold * MILLISECOND \<and> sentinel_healthy);
          failure_reason =
            (case capability of
               Inl error \<Rightarrow> ''health probe failed: '' @ error
             | Inr _ \<Rightarrow>
                 (case sentinel of
                    Some s \<Rightarrow> if hs_healthy s then ''health probe exceeded '' @ nat_to_string (unat threshold) @
                                 '' ms ('' @ nat_to_string (elapsed div MILLISECOND) @ '' ms)''
                              else (case hs_failure_reason s of
                                 None \<Rightarrow> ''sentinel read was unhealthy'' | Some reason \<Rightarrow> reason)
                  | None \<Rightarrow> ''health probe exceeded '' @ nat_to_string (unat threshold) @
                      '' ms ('' @ nat_to_string (elapsed div MILLISECOND) @ '' ms)''))
      in \<lparr>ho_healthy = healthy, ho_failure_reason = failure_reason,
          ho_sentinel_configured = (ri_sentinel_tag cfg \<noteq> None)\<rparr>)"

definition health_state :: "health_probe_observation \<Rightarrow> health_probe_state" where
  "health_state observation =
     (if \<not> ho_sentinel_configured observation then HealthUnavailable
      else if ho_healthy observation then HealthHealthy else HealthUnhealthy)"

datatype health_probe_action = ProbeReady | ProbeWait duration | Probe

definition sentinel_probe_due :: "resolved_index_config \<Rightarrow> string \<Rightarrow> instant \<Rightarrow> index_manager \<Rightarrow> bool" where
  "sentinel_probe_due cfg server now m \<longleftrightarrow>
     ri_sentinel_tag cfg \<noteq> None \<and>
     (case (if im_runtime_poisoned m then None else Option.bind (im_runtime m server) rs_sentinel_checked_at) of
        None \<Rightarrow> True
      | Some checked \<Rightarrow> now - checked \<ge> unat (ri_sentinel_probe_interval_seconds cfg) * SECOND)"

definition health_overlay_active :: "string \<Rightarrow> index_manager \<Rightarrow> bool" where
  "health_overlay_active server m = is_some_and (im_pause_overlays m server) po_health"

definition health_probe_action :: "resolved_index_config \<Rightarrow> string \<Rightarrow> instant \<Rightarrow> instant \<Rightarrow> index_manager \<Rightarrow> health_probe_action" where
  "health_probe_action cfg server next_probe now m =
     (if now \<ge> next_probe \<or> sentinel_probe_due cfg server now m then Probe
      else if health_overlay_active server m then ProbeWait (next_probe - now)
      else ProbeReady)"

definition MAX_HEALTH_BACKOFF :: duration where
  "MAX_HEALTH_BACKOFF = 300 * SECOND"

definition next_health_backoff :: "duration \<Rightarrow> duration" where
  "next_health_backoff backoff =
     min (case duration_checked_mul backoff 2 of None \<Rightarrow> MAX_HEALTH_BACKOFF | Some d \<Rightarrow> d) MAX_HEALTH_BACKOFF"

text \<open>
  One round of the health loop: the clock at its start, whether the inventory was cancelled, the
  replies to a probe, the clock after it, and whether a wait ended without a cancellation.
\<close>

record health_round =
  hr_env :: call_env
  hr_cancelled :: bool
  hr_capability :: "string + unit"
  hr_elapsed :: duration
  hr_sentinel :: "string + string list"
  hr_after :: call_env
  hr_still_running :: bool

fun wait_for_health ::
  "resolved_index_config \<Rightarrow> string \<Rightarrow> health_round list \<Rightarrow> instant \<Rightarrow> duration \<Rightarrow> index_manager \<Rightarrow>
     (build_readiness \<times> instant \<times> duration \<times> index_manager) option" where
  "wait_for_health cfg server [] next_probe backoff m = None"
| "wait_for_health cfg server (rnd # rounds) next_probe backoff m =
     (let env = hr_env rnd; after = hr_after rnd;
          give_up = (\<lambda>next_probe backoff m.
            Some (BuildCancelled, next_probe, backoff, set_pause_overlay after server None (Some False) m))
      in if hr_cancelled rnd then give_up next_probe backoff m
         else (case health_probe_action cfg server next_probe (ce_instant env) m of
           ProbeReady \<Rightarrow> Some (BuildReady, next_probe, backoff, m)
         | ProbeWait delay \<Rightarrow>
             if hr_still_running rnd then wait_for_health cfg server rounds next_probe backoff m
             else give_up next_probe backoff m
         | Probe \<Rightarrow>
             let observation = probe_health cfg (hr_capability rnd) (hr_elapsed rnd) (hr_sentinel rnd);
                 m1 = update_health_state after server (health_state observation)
                        (set_pause_overlay env server None (Some True) m)
             in if ho_healthy observation
                then let m2 = set_pause_overlay after server None (Some False) m1
                     in (case instant_add (ce_imax after) (ce_instant after)
                                (unat (max (ri_health_probe_interval_seconds cfg) 1) * SECOND) of
                           None \<Rightarrow> Some (BuildPanicked, next_probe, SECOND, m2)
                         | Some next \<Rightarrow> Some (BuildReady, next, SECOND, m2))
                else let delay = min backoff MAX_HEALTH_BACKOFF;
                         backoff' = next_health_backoff backoff
                     in (case instant_add (ce_imax after) (ce_instant after) delay of
                           None \<Rightarrow> Some (BuildPanicked, next_probe, backoff', m1)
                         | Some next \<Rightarrow>
                             if hr_still_running rnd then wait_for_health cfg server rounds next backoff' m1
                             else give_up next backoff' m1)))"

section \<open>Recovery of the controller\<close>

definition foreground_active_of :: "string \<Rightarrow> index_manager \<Rightarrow> bool" where
  "foreground_active_of server m = is_some_and (im_foreground_users m server) (\<lambda>count. count > 0)"

definition controller_observation_of ::
  "resolved_index_config \<Rightarrow> call_env \<Rightarrow> host_metrics \<Rightarrow> u64 option \<Rightarrow> string \<Rightarrow> bool \<Rightarrow> index_manager \<Rightarrow> controller_observation" where
  "controller_observation_of cfg env host free_bytes server failed m =
     (let now = ce_instant env;
          window = unat (max (ri_health_probe_interval_seconds cfg) 1) * SECOND;
          (foreground, recent_failure, recent_bad) =
            (case im_foreground_metrics m server of
               None \<Rightarrow> (foreground_metrics_default, False, False)
             | Some st \<Rightarrow> (snapshot (users_of server m) st, recent_health_failure now window st, recent_bad_quality now window st));
          runtime = (if im_runtime_poisoned m then None else im_runtime m server);
          health = (case runtime of None \<Rightarrow> HealthUnavailable | Some st \<Rightarrow> rs_health st);
          last_commit_latency_ms = Option.bind (Option.bind runtime rs_build) rb_last_commit_latency_ms;
          commit_latency_is_fresh = is_some_and (im_commit_latency_recorded_at m server)
            (\<lambda>recorded_at. now - recorded_at \<le> unat (max (ri_adaptive_recovery_delay_seconds cfg) 1) * SECOND)
      in \<lparr>foreground_active = foreground_active_of server m, foreground_error = recent_failure,
          foreground_bad_quality = recent_bad, foreground_latency_ms = fm_latency_p95_ms foreground,
          baseline_latency_ms = Some (ri_health_latency_threshold_ms cfg),
          inventory_error = (failed \<or> health = HealthUnhealthy),
          host_cpu_percent = hm_cpu_percent host, available_memory_percent = hm_available_memory_percent host,
          disk_active_percent = hm_disk_active_percent host, disk_queue = hm_disk_queue host,
          database_commit_p95_ms = (if commit_latency_is_fresh then last_commit_latency_ms else None),
          insufficient_disk_space = insufficient_space cfg free_bytes\<rparr>)"

record inventory_pacing =
  ipc_min_interval :: duration
  ipc_item_rate_per_second :: "u32 option"
  ipc_batch_size :: "u32 option"

definition pacing_for_limits :: "inventory_limits \<Rightarrow> inventory_pacing" where
  "pacing_for_limits limits =
     \<lparr>ipc_min_interval = 0,
      ipc_item_rate_per_second = (if item_rate_per_second limits > 0 then Some (item_rate_per_second limits) else None),
      ipc_batch_size = Some (max 1 (min MAX_NATIVE_INVENTORY_BATCH_SIZE (batch_size limits)))\<rparr>"

text \<open>One round: cancelled, the end of the wait, the clock and readings after it, the answer of the native control to a new pacing.\<close>

record recovery_round =
  rr_cancelled :: bool
  rr_still_running :: bool
  rr_env :: call_env
  rr_host :: host_metrics
  rr_free_bytes :: "u64 option"
  rr_set_pacing :: "inventory_pacing \<Rightarrow> string option"

fun wait_for_controller_recovery ::
  "resolved_index_config \<Rightarrow> string \<Rightarrow> recovery_round list \<Rightarrow> controller \<Rightarrow> index_manager \<Rightarrow>
     (build_readiness \<times> controller \<times> index_manager) option" where
  "wait_for_controller_recovery cfg server rounds ctl m =
     (if \<not> is_paused (ctl_state ctl) then Some (BuildReady, ctl, m)
      else case rounds of
        [] \<Rightarrow> None
      | rnd # rest \<Rightarrow>
          let env = rr_env rnd
          in if rr_cancelled rnd \<or> \<not> rr_still_running rnd then Some (BuildCancelled, ctl, m)
             else (case observe (ce_imax env) (ce_instant env)
                          (controller_observation_of cfg env (rr_host rnd) (rr_free_bytes rnd) server False m) ctl of
               None \<Rightarrow> Some (BuildPanicked, ctl, m)
             | Some (verdict, ctl') \<Rightarrow>
                 let m1 = update_runtime_controller env server (dec_limits verdict) (dec_state verdict)
                            (dec_recovery_at verdict) m
                 in (case rr_set_pacing rnd (pacing_for_limits (dec_limits verdict)) of
                       Some error \<Rightarrow>
                         Some (BuildFailed (''unable to update inventory pacing while recovering: '' @ error), ctl', m1)
                     | None \<Rightarrow> wait_for_controller_recovery cfg server rest ctl' m1)))"

declare wait_for_controller_recovery.simps [simp del]

section \<open>All of them\<close>

record readiness_rounds =
  rw_env :: call_env
  rw_maintenance :: "(bool \<times> call_env) list"
  rw_health :: "health_round list"
  rw_recovery :: "recovery_round list"

record readiness_state =
  ry_next_health_probe :: instant
  ry_health_backoff :: duration
  ry_controller :: "controller option"

definition wait_for_build_readiness ::
  "resolved_index_config \<Rightarrow> string \<Rightarrow> nat \<Rightarrow> maintenance_window list \<Rightarrow> readiness_rounds \<Rightarrow> readiness_state \<Rightarrow>
     index_manager \<Rightarrow> (build_readiness \<times> readiness_state \<times> index_manager) option" where
  "wait_for_build_readiness cfg server control windows rounds st m =
     (case wait_for_maintenance windows server (rw_env rounds) (rw_maintenance rounds) m of
        None \<Rightarrow> None
      | Some (False, m1) \<Rightarrow> Some (BuildCancelled, st, m1)
      | Some (True, m1) \<Rightarrow>
          (case wait_for_health cfg server (rw_health rounds) (ry_next_health_probe st) (ry_health_backoff st) m1 of
             None \<Rightarrow> None
           | Some (outcome, next_probe, backoff, m2) \<Rightarrow>
               let st1 = st\<lparr>ry_next_health_probe := next_probe, ry_health_backoff := backoff\<rparr>
               in if outcome \<noteq> BuildReady then Some (outcome, st1, m2)
                  else (case ry_controller st1 of
                    None \<Rightarrow> Some (BuildReady, st1, m2)
                  | Some ctl \<Rightarrow>
                      (case wait_for_controller_recovery cfg server (rw_recovery rounds) ctl m2 of
                         None \<Rightarrow> None
                       | Some (outcome', ctl', m3) \<Rightarrow>
                           Some (outcome', st1\<lparr>ry_controller := Some ctl'\<rparr>,
                                 (case outcome' of BuildFailed _ \<Rightarrow> call_control control CancelCall m3 | _ \<Rightarrow> m3))))))"

section \<open>Lemmas\<close>

lemma im_db_reconcile [simp]: "im_db (reconcile_pause_state env server m) = im_db m"
  by (simp add: reconcile_pause_state_def Let_def update_build_def update_state_def call_control_def split: option.splits)

lemma im_db_overlay [simp]: "im_db (set_pause_overlay env server a b m) = im_db m"
  by (simp add: set_pause_overlay_def Let_def)

lemma im_db_health [simp]: "im_db (update_health_state env server health m) = im_db m"
  by (simp add: update_health_state_def update_state_def)

lemma im_db_controller [simp]: "im_db (update_runtime_controller env server limits st deadline m) = im_db m"
  by (simp add: update_runtime_controller_def update_build_def update_state_def)

lemma im_db_call [simp]: "im_db (call_control control call m) = im_db m"
  by (simp add: call_control_def)

lemma overlays_after:
  "im_pause_overlays (reconcile_pause_state env server m) = im_pause_overlays m"
  "im_pause_overlays (update_health_state env server health m) = im_pause_overlays m"
  "im_pause_overlays (update_runtime_controller env server limits st deadline m) = im_pause_overlays m"
  "im_pause_overlays (call_control control call m) = im_pause_overlays m"
  by (simp_all add: reconcile_pause_state_def update_health_state_def update_runtime_controller_def Let_def
      update_build_def update_state_def call_control_def split: option.splits)

lemma overlay_of_set:
  "po_maintenance (overlay_of server (set_pause_overlay env server maintenance health m)) =
     (case maintenance of None \<Rightarrow> po_maintenance (overlay_of server m) | Some v \<Rightarrow> v)"
  "po_health (overlay_of server (set_pause_overlay env server maintenance health m)) =
     (case health of None \<Rightarrow> po_health (overlay_of server m) | Some v \<Rightarrow> v)"
  by (auto simp: set_pause_overlay_def Let_def overlay_of_def overlays_after pause_overlay_default_def split: option.splits)

lemma overlay_of_cong: "im_pause_overlays m' = im_pause_overlays m \<Longrightarrow> overlay_of server m' = overlay_of server m"
  by (simp add: overlay_of_def)

lemma health_overlay_of: "health_overlay_active server m = po_health (overlay_of server m)"
  by (simp add: health_overlay_active_def overlay_of_def pause_overlay_default_def split: option.splits)

lemma maintenance_rounds_result:
  "maintenance_rounds windows server outside rounds m = Some (ok, m') \<Longrightarrow>
     im_db m' = im_db m \<and> (po_maintenance (overlay_of server m) = outside \<longrightarrow> ok \<longrightarrow> \<not> po_maintenance (overlay_of server m'))"
proof (induction windows server outside rounds m rule: maintenance_rounds.induct)
  case (3 windows server still_running env rounds m)
  then show ?case
    by (cases still_running) (auto simp: Let_def overlay_of_set)
qed auto

lemma wait_for_maintenance_result:
  "wait_for_maintenance windows server env rounds m = Some (ok, m') \<Longrightarrow>
     im_db m' = im_db m \<and> (ok \<longrightarrow> \<not> po_maintenance (overlay_of server m'))"
  unfolding wait_for_maintenance_def Let_def by (drule maintenance_rounds_result) (auto simp: overlay_of_set)

lemma wait_for_health_result:
  "wait_for_health cfg server rounds next_probe backoff m = Some (outcome, next', backoff', m') \<Longrightarrow>
     im_db m' = im_db m \<and> po_maintenance (overlay_of server m') = po_maintenance (overlay_of server m) \<and>
     (outcome = BuildReady \<longrightarrow> \<not> po_health (overlay_of server m')) \<and> (\<forall>e. outcome \<noteq> BuildFailed e)"
proof (induction cfg server rounds next_probe backoff m rule: wait_for_health.induct)
  case (2 cfg server rnd rounds next_probe backoff m)
  have health: "overlay_of server (update_health_state env server st m) = overlay_of server m" for env st m
    by (rule overlay_of_cong) (simp add: overlays_after)
  let ?after = "hr_after rnd"
  let ?obs = "probe_health cfg (hr_capability rnd) (hr_elapsed rnd) (hr_sentinel rnd)"
  let ?m1 = "update_health_state ?after server (health_state ?obs) (set_pause_overlay (hr_env rnd) server None (Some True) m)"
  show ?case
  proof (cases "hr_cancelled rnd")
    case True
    then show ?thesis using "2.prems" by (auto simp: Let_def overlay_of_set)
  next
    case run: False
    show ?thesis
    proof (cases "health_probe_action cfg server next_probe (ce_instant (hr_env rnd)) m")
      case ProbeReady
      then show ?thesis
        using "2.prems" run by (auto simp: Let_def health_probe_action_def health_overlay_of split: if_splits)
    next
      case (ProbeWait delay)
      then show ?thesis
        using "2.prems" run "2.IH"(1) [OF refl refl refl run ProbeWait] by (cases "hr_still_running rnd") (auto simp: Let_def overlay_of_set)
    next
      case Probe
      show ?thesis
      proof (cases "ho_healthy ?obs")
        case True
        then show ?thesis
          using "2.prems" run Probe by (auto simp: Let_def overlay_of_set health split: option.splits)
      next
        case False
        show ?thesis
        proof (cases "instant_add (ce_imax ?after) (ce_instant ?after) (min backoff MAX_HEALTH_BACKOFF)")
          case None
          then show ?thesis using "2.prems" run Probe False by (auto simp: Let_def overlay_of_set health)
        next
          case (Some deadline)
          show ?thesis
            using "2.prems" run Probe False "2.IH"(2) [OF refl refl refl run Probe refl refl False refl refl Some]
            by (cases "hr_still_running rnd") (auto simp: Let_def overlay_of_set health Some)
        qed
      qed
    qed
  qed
qed simp

lemma wait_for_controller_recovery_result:
  "wait_for_controller_recovery cfg server rounds ctl m = Some (outcome, ctl', m') \<Longrightarrow>
     im_db m' = im_db m \<and> overlay_of server m' = overlay_of server m \<and>
     (outcome = BuildReady \<longrightarrow> \<not> is_paused (ctl_state ctl'))"
proof (induction rounds arbitrary: ctl m outcome)
  case Nil
  then show ?case
    by (subst (asm) wait_for_controller_recovery.simps) (auto split: if_splits)
next
  case (Cons rnd rounds)
  have overlay: "overlay_of server (update_runtime_controller env server limits st deadline m) = overlay_of server m"
    for env limits st deadline m
    by (rule overlay_of_cong) (simp add: overlays_after)
  show ?case
    using Cons.prems
    by (subst (asm) wait_for_controller_recovery.simps)
      (auto simp: Let_def overlay dest!: Cons.IH split: if_splits option.splits)
qed

lemma readiness_db:
  "wait_for_build_readiness cfg server control windows rounds st m = Some (outcome, st', m') \<Longrightarrow> im_db m' = im_db m"
  unfolding wait_for_build_readiness_def Let_def
  by (auto split: option.splits prod.splits bool.splits if_splits build_readiness.splits
      dest!: wait_for_maintenance_result wait_for_health_result wait_for_controller_recovery_result)


section \<open>Witness\<close>

definition calm_call :: call_env where
  "calm_call = \<lparr>ce_imax = 10 ^ 15, ce_tmax = 10 ^ 20, ce_instant = 0, ce_system = 0, ce_read_error = (\<lambda>_. None),
     ce_faults = (\<lambda>_ _. False), ce_free_bytes = None, ce_lock_error = None, ce_error_text = (\<lambda>_. []),
     ce_in_runtime = True, ce_local_hour = 0, ce_local_minute = 0\<rparr>"

definition calm_settings :: resolved_index_config where
  "calm_settings = demo_settings\<lparr>ri_maintenance_windows := [], ri_adaptive := False, ri_sentinel_tag := None,
     ri_health_probe_interval_seconds := 1, ri_health_latency_threshold_ms := 1\<rparr>"

definition calm_rounds :: readiness_rounds where
  "calm_rounds = \<lparr>rw_env = calm_call, rw_maintenance = [],
     rw_health = [\<lparr>hr_env = calm_call, hr_cancelled = False, hr_capability = Inr (), hr_elapsed = 0, hr_sentinel = Inr [],
       hr_after = calm_call, hr_still_running = True\<rparr>], rw_recovery = []\<rparr>"


end
