(* ===== verification/Build.thy ===== *)
theory Build
  imports Readiness
begin

text \<open>
  One build of a namespace index (\<open>index/traversal.rs\<close>): the loop that takes the events of an
  inventory, collects entries and commits them in batches, the end of the stream, and the
  finalisation that promotes the staged generation, fails it or abandons it. A build is a list of
  turns of its loop; each turn carries what the code reads from outside (the clock, the event, the
  answers of the native control) and what the rest of the gateway did to the manager meanwhile.
\<close>

section \<open>Events of an inventory\<close>

datatype inventory_slice_backend = BackendDa3 | BackendDa2

record inventory_slice_observation =
  so_sequence :: u64
  so_backend :: inventory_slice_backend
  so_nodes_returned :: u64
  so_has_more :: bool
  so_native_operations :: u64
  so_elapsed_ms :: u64
  so_entries_seen :: u64
  so_unique_items :: u64

record inventory_completed =
  ic_complete :: bool
  ic_cancelled :: bool
  ic_truncated :: bool
  ic_warning :: "string option"
  ic_organization :: namespace_organization
  ic_source :: browse_source

datatype inventory_event =
    EntryEvent inventory_entry | ProgressEvent inventory_progress | SliceEvent inventory_slice_observation
  | CompletedEvent inventory_completed

text \<open>What \<open>timeout(stream.next())\<close> yields.\<close>

datatype stream_item = EventTimeout | StreamEnd | StreamItem "string + inventory_event"

section \<open>State of a build\<close>

record build_run_state =
  br_pending :: "inventory_entry list"
  br_last_progress :: inventory_progress
  br_completed :: bool
  br_cancelled :: bool
  br_failed :: "string option"
  br_completion_warning :: "string option"
  br_completion_profile :: "(namespace_organization \<times> browse_source) option"
  br_terminal :: bool
  br_accounted_active_time_ms :: u64
  br_persisted_item_count :: u64
  br_drained_event_count :: u64
  br_received_entry_count :: u64
  br_readiness :: readiness_state
  br_effective_duty_cycle_percent :: u8
  br_last_commit_at :: instant

definition zero_inventory_progress :: inventory_progress where
  "zero_inventory_progress =
     \<lparr>ip_branches_visited = 0, ip_entries_seen = 0, ip_unique_items = 0, ip_active_time_ms = 0,
      ip_paused_time_ms = 0, ip_items_per_second = Finite 0, ip_estimated_remaining_ms = None\<rparr>"

definition build_run_state_new :: "resolved_index_config \<Rightarrow> instant \<Rightarrow> controller option \<Rightarrow> build_run_state" where
  "build_run_state_new cfg now ctl =
     \<lparr>br_pending = [], br_last_progress = zero_inventory_progress, br_completed = False, br_cancelled = False,
      br_failed = None, br_completion_warning = None, br_completion_profile = None, br_terminal = False,
      br_accounted_active_time_ms = 0, br_persisted_item_count = 0, br_drained_event_count = 0,
      br_received_entry_count = 0,
      br_readiness = \<lparr>ry_next_health_probe = now, ry_health_backoff = SECOND, ry_controller = ctl\<rparr>,
      br_effective_duty_cycle_percent = ri_duty_cycle_percent cfg, br_last_commit_at = now\<rparr>"

definition record_completion :: "inventory_completed \<Rightarrow> build_run_state \<Rightarrow> build_run_state" where
  "record_completion result st =
     (let st1 = st\<lparr>br_terminal := True, br_completed := ic_complete result, br_cancelled := ic_cancelled result,
                   br_completion_profile := Some (ic_organization result, ic_source result)\<rparr>
      in if ic_truncated result
         then st1\<lparr>br_failed := Some (case ic_warning result of None \<Rightarrow> ''inventory was truncated'' | Some w \<Rightarrow> w)\<rparr>
         else st1\<lparr>br_completion_warning := ic_warning result\<rparr>)"

section \<open>Committing entries\<close>

definition manager_error_text :: "call_env \<Rightarrow> manager_error \<Rightarrow> string" where
  "manager_error_text env e = (case e of DatabaseError d \<Rightarrow> ce_error_text env d | ManagerError s \<Rightarrow> s)"

definition commit_pending_entries ::
  "text_env \<Rightarrow> call_env \<Rightarrow> faults \<Rightarrow> u64 \<Rightarrow> string \<Rightarrow> u64 \<Rightarrow> inventory_entry list \<Rightarrow> index_manager \<Rightarrow>
     (manager_error + u64) \<times> inventory_entry list \<times> index_manager" where
  "commit_pending_entries te env faults latency_ms server generation pending m =
     (if pending = [] then (Inr 0, pending, m)
      else
        let (result, m1) = database_write (insert_entries te faults server generation pending) m;
            m2 = (if im_runtime_poisoned m1 then m1
                  else update_build server (rb_last_commit_latency_ms_update (\<lambda>_. Some latency_ms)) m1);
            m3 = m2\<lparr>im_commit_latency_recorded_at := (im_commit_latency_recorded_at m2)(server \<mapsto> ce_instant env)\<rparr>
        in (result, case result of Inl _ \<Rightarrow> pending | Inr _ \<Rightarrow> [], m3))"

text \<open>The commit of a batch inside the loop; an error is the text that fails the build.\<close>

definition commit_batch ::
  "text_env \<Rightarrow> call_env \<Rightarrow> faults \<Rightarrow> u64 \<Rightarrow> string \<Rightarrow> u64 \<Rightarrow> build_run_state \<Rightarrow> index_manager \<Rightarrow>
     (string + unit) \<times> build_run_state \<times> index_manager" where
  "commit_batch te env faults latency_ms server generation st m =
     (case commit_pending_entries te env faults latency_ms server generation (br_pending st) m of
        (Inl e, pending, m1) \<Rightarrow> (Inl (manager_error_text env e), st\<lparr>br_pending := pending\<rparr>, m1)
      | (Inr inserted, pending, m1) \<Rightarrow>
          (Inr (), st\<lparr>br_pending := pending,
             br_persisted_item_count := saturating_add (br_persisted_item_count st) inserted\<rparr>, m1))"

definition commit_pending_if_due ::
  "resolved_index_config \<Rightarrow> text_env \<Rightarrow> call_env \<Rightarrow> faults \<Rightarrow> u64 \<Rightarrow> string \<Rightarrow> u64 \<Rightarrow> build_run_state \<Rightarrow> index_manager \<Rightarrow>
     (string + unit) \<times> build_run_state \<times> index_manager" where
  "commit_pending_if_due cfg te env faults latency_ms server generation st m =
     (if br_pending st = [] \<or>
         ce_instant env - br_last_commit_at st < unat (max (ri_commit_interval_ms cfg) 1) * MILLISECOND
      then (Inr (), st, m)
      else (case commit_batch te env faults latency_ms server generation st m of
        (Inl e, st1, m1) \<Rightarrow> (Inl e, st1, m1)
      | (Inr _, st1, m1) \<Rightarrow> (Inr (), st1\<lparr>br_last_commit_at := ce_instant env\<rparr>, m1)))"

section \<open>Handling an event\<close>

datatype build_event_outcome = EventContinue | EventStop | EventCancelled | EventFailed string | EventPanicked

text \<open>
  One turn of the loop: the clock and the faults of the commit that is due, what happened meanwhile,
  the rounds of the waits, the item of the stream, and for its handler the clock, the faults and the
  latency of its write, whether the rate limiter let the entry pass, the readings of the host, the
  answer to a new pacing, and for the pause of the duty cycle whether the inventory was cancelled
  before or during it.
\<close>

record build_turn =
  tn_meanwhile :: "index_manager \<Rightarrow> index_manager"
  tn_due_env :: call_env
  tn_due_faults :: faults
  tn_rounds :: readiness_rounds
  tn_item :: stream_item
  tn_env :: call_env
  tn_faults :: faults
  tn_latency_ms :: u64
  tn_acquired :: bool
  tn_host :: host_metrics
  tn_free_bytes :: "u64 option"
  tn_set_pacing :: "inventory_pacing \<Rightarrow> string option"
  tn_cancelled :: bool
  tn_still_running :: bool
  tn_duty_env :: call_env

definition handle_entry_event ::
  "resolved_index_config \<Rightarrow> text_env \<Rightarrow> build_turn \<Rightarrow> string \<Rightarrow> u64 \<Rightarrow> inventory_entry \<Rightarrow> build_run_state \<Rightarrow> index_manager \<Rightarrow>
     build_event_outcome \<times> build_run_state \<times> index_manager" where
  "handle_entry_event cfg te turn server generation entry st m =
     (if \<not> tn_acquired turn then (EventCancelled, st, m)
      else
        let st1 = st\<lparr>br_pending := br_pending st @ [entry]\<rparr>
        in if length (br_pending st1) < unat (ri_commit_batch_size cfg) then (EventContinue, st1, m)
           else (case commit_batch te (tn_env turn) (tn_faults turn) (tn_latency_ms turn) server generation st1 m of
             (Inl e, st2, m1) \<Rightarrow> (EventFailed e, st2, m1)
           | (Inr _, st2, m1) \<Rightarrow> (EventContinue, st2\<lparr>br_last_commit_at := ce_instant (tn_env turn)\<rparr>, m1)))"

text \<open>The length of the pause (\<open>mul_f64\<close>) is left to the clock: only how the wait ended matters.\<close>

definition enforce_duty_cycle ::
  "build_turn \<Rightarrow> string \<Rightarrow> nat \<Rightarrow> u8 \<Rightarrow> index_manager \<Rightarrow> bool \<times> index_manager" where
  "enforce_duty_cycle turn server control percent m =
     (if percent \<ge> 100 then (\<not> tn_cancelled turn, m)
      else
        let overlays = overlay_of server m;
            can_resume = (\<lambda>env m. \<not> im_runtime_poisoned m \<and>
              is_some_and (build_of server m) (\<lambda>build. build_can_resume env build overlays));
            can_pause = can_resume (tn_env turn) m;
            m1 = (if can_pause then call_control control PauseCall m else m);
            still_running = tn_still_running turn
        in (still_running,
            if can_pause \<and> still_running \<and> can_resume (tn_duty_env turn) m1
            then call_control control ResumeCall m1 else m1))"

definition handle_progress_event ::
  "build_turn \<Rightarrow> string \<Rightarrow> u64 \<Rightarrow> nat \<Rightarrow> inventory_progress \<Rightarrow> build_run_state \<Rightarrow> index_manager \<Rightarrow>
     build_event_outcome \<times> build_run_state \<times> index_manager" where
  "handle_progress_event turn server generation control progress st m =
     (let active_time_delta_ms = saturating_sub (ip_active_time_ms progress) (br_accounted_active_time_ms st);
          st1 = st\<lparr>br_accounted_active_time_ms := ip_active_time_ms progress, br_last_progress := progress\<rparr>
      in case database_write (update_progress (tn_faults turn) server generation progress) m of
           (Inl e, m1) \<Rightarrow> (EventFailed (manager_error_text (tn_env turn) e), st1, m1)
         | (Inr _, m1) \<Rightarrow>
             let m2 = update_runtime_progress server progress m1
             in if active_time_delta_ms > 0
                then (case enforce_duty_cycle turn server control (br_effective_duty_cycle_percent st1) m2 of
                        (True, m3) \<Rightarrow> (EventContinue, st1, m3)
                      | (False, m3) \<Rightarrow> (EventCancelled, st1, m3))
                else (EventContinue, st1, m2))"

definition handle_slice_event ::
  "resolved_index_config \<Rightarrow> build_turn \<Rightarrow> string \<Rightarrow> nat \<Rightarrow> inventory_slice_observation \<Rightarrow> build_run_state \<Rightarrow> index_manager \<Rightarrow>
     build_event_outcome \<times> build_run_state \<times> index_manager" where
  "handle_slice_event cfg turn server control slice_obs st m =
     (case ry_controller (br_readiness st) of
        None \<Rightarrow> (EventContinue, st, m)
      | Some ctl \<Rightarrow>
          let env = tn_env turn
          in (case observe (ce_imax env) (ce_instant env)
                     (controller_observation_of cfg env (tn_host turn) (tn_free_bytes turn) server
                        (so_native_operations slice_obs = 0) m) ctl of
                None \<Rightarrow> (EventPanicked, st, m)
              | Some (verdict, ctl') \<Rightarrow>
                  let st1 = st\<lparr>br_effective_duty_cycle_percent := duty_cycle_percent (dec_limits verdict),
                               br_readiness := (br_readiness st)\<lparr>ry_controller := Some ctl'\<rparr>\<rparr>;
                      m1 = update_runtime_controller env server (dec_limits verdict) (dec_state verdict)
                             (dec_recovery_at verdict) m
                  in (case tn_set_pacing turn (pacing_for_limits (dec_limits verdict)) of
                        Some error \<Rightarrow>
                          (EventFailed (''unable to update adaptive inventory pacing after slice '' @
                             nat_to_string (unat (so_sequence slice_obs)) @ '': '' @ error), st1,
                           call_control control CancelCall m1)
                      | None \<Rightarrow> (EventContinue, st1, m1))))"

definition handle_inventory_event ::
  "resolved_index_config \<Rightarrow> text_env \<Rightarrow> build_turn \<Rightarrow> string \<Rightarrow> u64 \<Rightarrow> nat \<Rightarrow> string + inventory_event \<Rightarrow> build_run_state \<Rightarrow>
     index_manager \<Rightarrow> build_event_outcome \<times> build_run_state \<times> index_manager" where
  "handle_inventory_event cfg te turn server generation control event st m =
     (case event of
        Inr (EntryEvent entry) \<Rightarrow>
          handle_entry_event cfg te turn server generation entry
            (st\<lparr>br_received_entry_count := saturating_add (br_received_entry_count st) 1\<rparr>) m
      | Inr (ProgressEvent progress) \<Rightarrow> handle_progress_event turn server generation control progress st m
      | Inr (SliceEvent slice_obs) \<Rightarrow> handle_slice_event cfg turn server control slice_obs st m
      | Inr (CompletedEvent result) \<Rightarrow> (EventStop, record_completion result st, m)
      | Inl error \<Rightarrow> (EventFailed error, st, m))"

section \<open>The loop\<close>

definition operation_timeout_seconds :: "resolved_index_config \<Rightarrow> u64" where
  "operation_timeout_seconds cfg = max (ri_operation_timeout_seconds cfg) 1"

text \<open>
  The loop of \<open>run_build_loop\<close>. \<open>None\<close>: still running after these turns. The state is \<open>None\<close> when
  the task panicked.
\<close>

fun build_loop ::
  "resolved_index_config \<Rightarrow> text_env \<Rightarrow> string \<Rightarrow> u64 \<Rightarrow> nat \<Rightarrow> maintenance_window list \<Rightarrow> build_turn list \<Rightarrow>
     build_run_state \<Rightarrow> index_manager \<Rightarrow> (build_run_state option \<times> index_manager) option" where
  "build_loop cfg te server generation control windows [] st m = None"
| "build_loop cfg te server generation control windows (turn # turns) st m =
     (case commit_pending_if_due cfg te (tn_due_env turn) (tn_due_faults turn) (tn_latency_ms turn) server generation st
             (tn_meanwhile turn m) of
        (Inl e, st1, m1) \<Rightarrow> Some (Some (st1\<lparr>br_failed := Some e\<rparr>), m1)
      | (Inr _, st1, m1) \<Rightarrow>
          (case wait_for_build_readiness cfg server control windows (tn_rounds turn) (br_readiness st1) m1 of
             None \<Rightarrow> None
           | Some (readiness, ry, m2) \<Rightarrow>
               let st2 = st1\<lparr>br_readiness := ry\<rparr>
               in (case readiness of
                     BuildCancelled \<Rightarrow> Some (Some (st2\<lparr>br_cancelled := True\<rparr>), m2)
                   | BuildFailed e \<Rightarrow> Some (Some (st2\<lparr>br_failed := Some e\<rparr>), m2)
                   | BuildPanicked \<Rightarrow> Some (None, m2)
                   | BuildReady \<Rightarrow>
                       (case tn_item turn of
                          EventTimeout \<Rightarrow>
                            Some (Some (st2\<lparr>br_failed := Some (''inventory event timed out after '' @
                                    nat_to_string (unat (operation_timeout_seconds cfg)) @ '' seconds'')\<rparr>),
                                  call_control control CancelCall m2)
                        | StreamEnd \<Rightarrow> Some (Some st2, m2)
                        | StreamItem event \<Rightarrow>
                            (case handle_inventory_event cfg te turn server generation control event
                                    (st2\<lparr>br_drained_event_count := saturating_add (br_drained_event_count st2) 1\<rparr>) m2 of
                               (EventContinue, st3, m3) \<Rightarrow> build_loop cfg te server generation control windows turns st3 m3
                             | (EventStop, st3, m3) \<Rightarrow> Some (Some st3, m3)
                             | (EventCancelled, st3, m3) \<Rightarrow> Some (Some (st3\<lparr>br_cancelled := True\<rparr>), m3)
                             | (EventFailed e, st3, m3) \<Rightarrow> Some (Some (st3\<lparr>br_failed := Some e\<rparr>), m3)
                             | (EventPanicked, st3, m3) \<Rightarrow> Some (None, m3))))))"

section \<open>After the loop\<close>

datatype build_loop_outcome = LoopFinished | LoopInterruptedByShutdown | LoopFailed string

definition operator_cancelled_build :: "string \<Rightarrow> nat \<Rightarrow> index_manager \<Rightarrow> string + bool" where
  "operator_cancelled_build server control m =
     (if im_runtime_poisoned m then Inl ''index runtime lock poisoned''
      else Inr (is_some_and (build_of server m) (\<lambda>build.
        rb_operator_cancelled_until build \<noteq> None \<and> rb_control build = Some control)))"

text \<open>
  The rest of \<open>run_build_loop\<close>. \<open>shutdown_error\<close> is the outcome of \<open>stream.shutdown()\<close> and \<open>meanwhile\<close>
  what the rest of the gateway does while that call waits.
\<close>

definition finish_loop ::
  "text_env \<Rightarrow> call_env \<Rightarrow> faults \<Rightarrow> u64 \<Rightarrow> string option \<Rightarrow> (index_manager \<Rightarrow> index_manager) \<Rightarrow> string \<Rightarrow> u64 \<Rightarrow> nat \<Rightarrow>
     build_run_state \<Rightarrow> index_manager \<Rightarrow> build_loop_outcome \<times> build_run_state \<times> index_manager" where
  "finish_loop te env faults latency_ms shutdown_error meanwhile server generation control st m =
     (let undecided = (\<lambda>st. \<not> br_terminal st \<and> br_failed st = None);
          gateway_shutting_down = im_shutting_down m;
          (operator_cancelled, st1) =
            (if undecided st
             then (case operator_cancelled_build server control m of
                     Inr cancelled \<Rightarrow> (cancelled, st)
                   | Inl error \<Rightarrow> (False, st\<lparr>br_failed :=
                       Some (''unable to classify inventory stream termination: '' @ error)\<rparr>))
             else (False, st));
          st2 = (case shutdown_error of
                   None \<Rightarrow> st1
                 | Some error \<Rightarrow> if br_failed st1 = None
                     then st1\<lparr>br_failed := Some (''inventory worker shutdown failed: '' @ error)\<rparr> else st1);
          (interrupted, st3) =
            (if undecided st2
             then (if operator_cancelled then (False, st2\<lparr>br_cancelled := True\<rparr>)
                   else if gateway_shutting_down then (True, st2)
                   else (False, st2\<lparr>br_failed := Some ''inventory stream ended unexpectedly before completion''\<rparr>))
             else (False, st2));
          (st4, m1) =
            (if br_pending st3 \<noteq> [] \<and> br_failed st3 = None \<and> \<not> br_cancelled st3 \<and> \<not> interrupted
             then (case commit_batch te env faults latency_ms server generation st3 (meanwhile m) of
                     (Inl e, st', m') \<Rightarrow> (st'\<lparr>br_failed := Some e\<rparr>, m')
                   | (Inr _, st', m') \<Rightarrow> (st', m'))
             else (st3, meanwhile m))
      in (if interrupted then LoopInterruptedByShutdown
          else (case br_failed st4 of None \<Rightarrow> LoopFinished | Some e \<Rightarrow> LoopFailed e), st4, m1))"

section \<open>Finalisation\<close>

definition fail_generation_and_schedule_cleanup ::
  "call_env \<Rightarrow> faults \<Rightarrow> string \<Rightarrow> u64 \<Rightarrow> string \<Rightarrow> index_manager \<Rightarrow> index_manager" where
  "fail_generation_and_schedule_cleanup env faults server generation error m =
     (case database_write (fail_generation faults server generation error) m of
        (Inr _, m1) \<Rightarrow> schedule_cleanup env server m1
      | (Inl _, m1) \<Rightarrow> m1)"

definition abandon_generation ::
  "call_env \<Rightarrow> faults \<Rightarrow> faults \<Rightarrow> string \<Rightarrow> u64 \<Rightarrow> string \<Rightarrow> index_manager \<Rightarrow> index_manager" where
  "abandon_generation env discard_faults faults server generation reason m =
     (case database_write (discard_empty_generation discard_faults server generation) m of
        (Inr True, m1) \<Rightarrow> m1
      | (Inr False, m1) \<Rightarrow> fail_generation_and_schedule_cleanup env faults server generation reason m1
      | (Inl _, m1) \<Rightarrow> m1)"

definition timestamp_now :: "call_env \<Rightarrow> string" where
  "timestamp_now env = system_time_timestamp (max 0 (ce_system env))"

definition promote_completed_build ::
  "call_env \<Rightarrow> faults \<Rightarrow> string \<Rightarrow> u64 \<Rightarrow> build_run_state \<Rightarrow> index_manager \<Rightarrow> unit manager_result" where
  "promote_completed_build env faults server generation st m =
     (case database_write (promote_with_profile faults server generation (timestamp_now env)
             (br_persisted_item_count st) (br_completion_profile st) (br_completion_warning st))
             (m\<lparr>im_promoting := insert server (im_promoting m)\<rparr>) of
        (result, m1) \<Rightarrow> (result, m1\<lparr>im_promoting := im_promoting m1 - {server}\<rparr>))"

definition finish_promoted_build ::
  "resolved_index_config \<Rightarrow> call_env \<Rightarrow> string \<Rightarrow> nat \<Rightarrow> nat \<Rightarrow> index_manager \<Rightarrow> index_manager" where
  "finish_promoted_build cfg env server control ownership m =
     (let m1 = schedule_cleanup env server m
      in finish_build_for_control_owned cfg env server control ownership None
           (m1\<lparr>im_cache := cache_clear_server server (im_cache m1)\<rparr>))"

text \<open>
  The four ends of a build. \<open>ce_faults env\<close> 2, 3 and 4 are the faults of the promotion, of failing and
  of discarding the generation.
\<close>

definition finish_failed_build ::
  "resolved_index_config \<Rightarrow> call_env \<Rightarrow> string \<Rightarrow> u64 \<Rightarrow> nat \<Rightarrow> nat \<Rightarrow> string \<Rightarrow> index_manager \<Rightarrow> index_manager" where
  "finish_failed_build cfg env server generation control ownership error m =
     finish_build_for_control_owned cfg env server control ownership (Some error)
       (fail_generation_and_schedule_cleanup env (ce_faults env 3) server generation error m)"

definition finish_promotion_failure ::
  "resolved_index_config \<Rightarrow> call_env \<Rightarrow> string \<Rightarrow> u64 \<Rightarrow> nat \<Rightarrow> nat \<Rightarrow> manager_error \<Rightarrow> index_manager \<Rightarrow> index_manager" where
  "finish_promotion_failure cfg env server generation control ownership error m =
     finish_build_for_control_owned cfg env server control ownership (Some (manager_error_text env error))
       (fail_generation_and_schedule_cleanup env (ce_faults env 3) server generation (manager_error_text env error) m)"

definition finish_completed_build ::
  "resolved_index_config \<Rightarrow> call_env \<Rightarrow> string \<Rightarrow> u64 \<Rightarrow> nat \<Rightarrow> nat \<Rightarrow> build_run_state \<Rightarrow> index_manager \<Rightarrow> index_manager" where
  "finish_completed_build cfg env server generation control ownership st m =
     (case promote_completed_build env (ce_faults env 2) server generation st m of
        (Inr _, m1) \<Rightarrow> finish_promoted_build cfg env server control ownership m1
      | (Inl error, m1) \<Rightarrow> finish_promotion_failure cfg env server generation control ownership error m1)"

definition finish_interrupted_build ::
  "resolved_index_config \<Rightarrow> call_env \<Rightarrow> string \<Rightarrow> u64 \<Rightarrow> nat \<Rightarrow> nat \<Rightarrow> index_manager \<Rightarrow> index_manager" where
  "finish_interrupted_build cfg env server generation control ownership m =
     (let error = ''namespace index build interrupted by gateway shutdown''
      in finish_build_for_control_owned_interrupted cfg env server control ownership error
           (fail_generation_and_schedule_cleanup env (ce_faults env 3) server generation error m))"

definition finish_cancelled_build ::
  "resolved_index_config \<Rightarrow> call_env \<Rightarrow> string \<Rightarrow> u64 \<Rightarrow> nat \<Rightarrow> nat \<Rightarrow> index_manager \<Rightarrow> index_manager" where
  "finish_cancelled_build cfg env server generation control ownership m =
     finish_build_for_control_owned cfg env server control ownership None
       (abandon_generation env (ce_faults env 4) (ce_faults env 3) server generation
          ''namespace index build cancelled'' m)"

definition finalize_build ::
  "resolved_index_config \<Rightarrow> call_env \<Rightarrow> bool \<Rightarrow> string \<Rightarrow> u64 \<Rightarrow> nat \<Rightarrow> nat \<Rightarrow> build_run_state \<Rightarrow> build_loop_outcome \<Rightarrow>
     index_manager \<Rightarrow> index_manager" where
  "finalize_build cfg env control_cancelled server generation control ownership st outcome m =
     (let completed = (br_completed st \<and> \<not> br_cancelled st \<and> \<not> control_cancelled)
      in case outcome of
           LoopFailed error \<Rightarrow> finish_failed_build cfg env server generation control ownership error m
         | LoopInterruptedByShutdown \<Rightarrow> finish_interrupted_build cfg env server generation control ownership m
         | LoopFinished \<Rightarrow>
             if completed then finish_completed_build cfg env server generation control ownership st m
             else finish_cancelled_build cfg env server generation control ownership m)"

text \<open>The guard that releases the build when its task unwinds.\<close>

definition finalization_guard_drop ::
  "resolved_index_config \<Rightarrow> call_env \<Rightarrow> string \<Rightarrow> u64 \<Rightarrow> nat \<Rightarrow> nat \<Rightarrow> index_manager \<Rightarrow> index_manager" where
  "finalization_guard_drop cfg env server generation control ownership m =
     (let error = ''namespace index build unwound unexpectedly''
      in finish_build_for_control_owned cfg env server control ownership (Some error)
           (fail_generation_and_schedule_cleanup env (ce_faults env 3) server generation error
              (call_control control CancelCall m)))"

section \<open>A whole build\<close>

text \<open>
  What surrounds the loop: the clock at its start, its turns, what happened until the stream was
  shut down, the clock, faults and latency of the last commit, the outcome of the shutdown, whether
  the control was cancelled, and the clock and faults of the finalisation.
\<close>

record build_course =
  bc_start :: call_env
  bc_turns :: "build_turn list"
  bc_meanwhile :: "index_manager \<Rightarrow> index_manager"
  bc_faults :: faults
  bc_latency_ms :: u64
  bc_shutdown_error :: "string option"
  bc_control_cancelled :: bool
  bc_end :: call_env

definition clock_error_text :: "clock_error \<Rightarrow> string" where
  "clock_error_text e =
     (case e of
        NoClockSeparator \<Rightarrow> ''maintenance window clock must use HH:MM''
      | BadHour \<Rightarrow> ''maintenance window hour is invalid''
      | BadMinute \<Rightarrow> ''maintenance window minute is invalid''
      | OutsideDay \<Rightarrow> ''maintenance window clock is outside 00:00-23:59''
      | NoWindowSeparator \<Rightarrow> ''maintenance window must use HH:MM-HH:MM'')"

definition start_controller :: "resolved_index_config \<Rightarrow> call_env \<Rightarrow> controller option option" where
  "start_controller cfg env =
     (if ri_adaptive cfg
      then map_option Some (controller_new (ce_imax env) (controller_config_of cfg) (ce_instant env))
      else Some None)"

definition run_build ::
  "resolved_index_config \<Rightarrow> text_env \<Rightarrow> build_course \<Rightarrow> string \<Rightarrow> u64 \<Rightarrow> nat \<Rightarrow> nat \<Rightarrow> index_manager \<Rightarrow> index_manager option" where
  "run_build cfg te course server generation control ownership m =
     (let env = bc_end course
      in case parse_maintenance_windows (ri_maintenance_windows cfg) of
        Inl e \<Rightarrow>
          let message = clock_error_text e
          in Some (finish_build_for_control_owned cfg env server control ownership (Some message)
                     (fail_generation_and_schedule_cleanup env (ce_faults env 3) server generation message
                        (call_control control CancelCall m)))
      | Inr windows \<Rightarrow>
          (case start_controller cfg (bc_start course) of
             None \<Rightarrow> Some (finalization_guard_drop cfg env server generation control ownership m)
           | Some ctl \<Rightarrow>
               let st = build_run_state_new cfg (ce_instant (bc_start course)) ctl;
                   m1 = (case ctl of
                           None \<Rightarrow> m
                         | Some c \<Rightarrow> update_runtime_controller (bc_start course) server (ctl_limits c) (ctl_state c) None m)
               in (case build_loop cfg te server generation control windows (bc_turns course) st m1 of
                     None \<Rightarrow> None
                   | Some (None, m2) \<Rightarrow> Some (finalization_guard_drop cfg env server generation control ownership m2)
                   | Some (Some st', m2) \<Rightarrow>
                       (case finish_loop te env (bc_faults course) (bc_latency_ms course) (bc_shutdown_error course)
                               (bc_meanwhile course) server generation control st' m2 of
                          (outcome, st'', m3) \<Rightarrow>
                            Some (finalize_build cfg env (bc_control_cancelled course) server generation control ownership
                                    st'' outcome m3)))))"

end
