(* ===== verification/BuildProofs.thy ===== *)
theory BuildProofs
  imports Build
begin

text \<open>
  What a build does to the index: the entries it delivered, first occurrence of each ItemID first,
  become the active index exactly when the inventory ended complete, and otherwise the active index
  of the server stays what it was.
\<close>

section \<open>Entries of a generation\<close>

lemma saturating_add_0 [simp]: "saturating_add x 0 = x"
  for x :: "'a::len word"
proof -
  have "unat (saturating_add x 0) = unat x" using unat_le_max [of x] by (simp add: unat_saturating_add)
  then show ?thesis by (rule unsigned_word_eqI)
qed

text \<open>The specification of deduplication: the first entry of every ItemID not seen before.\<close>

fun first_items :: "ustring set \<Rightarrow> inventory_entry list \<Rightarrow> inventory_entry list" where
  "first_items seen [] = []"
| "first_items seen (entry # entries) =
     (if ie_item_id entry \<in> seen then first_items seen entries
      else entry # first_items (insert (ie_item_id entry) seen) entries)"

definition generation_entries :: "string \<Rightarrow> int \<Rightarrow> index_db \<Rightarrow> entry_row list" where
  "generation_entries server generation db =
     filter (\<lambda>e. e_server e = server \<and> e_generation e = generation) (db_entries db)"

lemma first_items_append:
  "first_items seen (xs @ ys) = first_items seen xs @ first_items (seen \<union> ie_item_id ` set xs) ys"
  by (induction seen xs rule: first_items.induct) (auto simp: insert_absorb)

lemma first_items_ids: "ie_item_id ` set (first_items seen xs) = ie_item_id ` set xs - seen"
  by (induction seen xs rule: first_items.induct) auto

lemma first_items_length: "length (first_items seen xs) \<le> length xs"
  by (induction seen xs rule: first_items.induct) auto

lemma item_ids_generation: "item_ids server generation db = e_item_id ` set (generation_entries server generation db)"
  by (auto simp: item_ids_def generation_entries_def)

lemma entry_of_fields [simp]:
  "e_server (entry_of te server generation entry) = server"
  "e_generation (entry_of te server generation entry) = generation"
  "e_item_id (entry_of te server generation entry) = ie_item_id entry"
  by (simp_all add: entry_of_def)

lemma insert_rows_generation:
  "insert_entry_rows te faults server generation entries n cnt db = Inr (n', cnt', db') \<Longrightarrow>
     generation_entries server generation db' = generation_entries server generation db @
       map (entry_of te server generation) (first_items (item_ids server generation db) entries) \<and>
     unat cnt' = min (unat cnt + length (first_items (item_ids server generation db) entries)) (2 ^ 64 - 1)"
proof (induction te faults server generation entries n cnt db rule: insert_entry_rows.induct)
  case (1 te faults server generation n cnt db)
  then show ?case using unat_le_max [of cnt] by (auto simp: min_def)
next
  case (2 te faults server generation entry entries n cnt db)
  show ?case
  proof (cases "entry_exists server generation (ie_item_id entry) db")
    case True
    then show ?thesis using 2 by (auto simp: entry_exists_iff split: if_splits)
  next
    case False
    let ?e = "entry_of te server generation entry"
    let ?db = "db\<lparr>db_entries := db_entries db @ [?e], db_fts := db_fts db @ [fts_of server generation entry]\<rparr>"
    have gens: "generation_entries server generation ?db = generation_entries server generation db @ [?e]"
      by (simp add: generation_entries_def)
    then have ids: "item_ids server generation ?db = insert (ie_item_id entry) (item_ids server generation db)"
      by (simp add: item_ids_generation)
    have "insert_entry_rows te faults server generation entries (n + 2) (saturating_add cnt 1) ?db = Inr (n', cnt', db')"
      and *: "ie_item_id entry \<noteq> []" "\<not> faults n" "generation_exists server generation db" "\<not> faults (Suc n)"
      using "2.prems" False by (simp_all split: if_splits)
    note ih = "2.IH"(2) [OF *(1,2) False _ *(4) this(1)]
    have new: "ie_item_id entry \<notin> item_ids server generation db" using False by (simp add: entry_exists_iff)
    show ?thesis
      using ih *(3) new gens ids by (auto simp: unat_saturating_add)
  qed
qed

lemma insert_entries_generation:
  assumes "insert_entries te faults server generation entries db = (Inr cnt, db')"
  defines "gen \<equiv> int (unat generation)"
  shows "generation_entries server gen db' = generation_entries server gen db @
      map (entry_of te server gen) (first_items (item_ids server gen db) entries)"
    and "unat cnt = min (length (first_items (item_ids server gen db) entries)) (2 ^ 64 - 1)"
proof -
  obtain n where "insert_entry_rows te faults server gen entries 0 0 db = Inr (n, cnt, db')"
    using assms by (auto simp: insert_entries_def i64_try_from_def split: option.splits sum.splits prod.splits if_splits)
  from insert_rows_generation [OF this]
  show "generation_entries server gen db' = generation_entries server gen db @
      map (entry_of te server gen) (first_items (item_ids server gen db) entries)"
    and "unat cnt = min (length (first_items (item_ids server gen db) entries)) (2 ^ 64 - 1)" by simp_all
qed

section \<open>The active index during a build\<close>

definition same_active :: "string \<Rightarrow> index_db \<Rightarrow> index_db \<Rightarrow> bool" where
  "same_active server db0 db \<longleftrightarrow>
     db_wf db \<and> active_rows server db = active_rows server db0 \<and> active_entries server db = active_entries server db0"

definition staged :: "string \<Rightarrow> u64 \<Rightarrow> index_db \<Rightarrow> bool" where
  "staged server generation db \<longleftrightarrow> (\<exists>g \<in> set (db_generations db). staging_row server generation g)"

text \<open>What the rest of the gateway does during the build leaves the rows of this server alone.\<close>

definition keeps_server :: "string \<Rightarrow> (index_manager \<Rightarrow> index_manager) \<Rightarrow> bool" where
  "keeps_server server f \<longleftrightarrow> (\<forall>m. db_wf (im_db m) \<longrightarrow> db_wf (im_db (f m)) \<and>
     filter (\<lambda>g. g_server g = server) (db_generations (im_db (f m))) =
       filter (\<lambda>g. g_server g = server) (db_generations (im_db m)) \<and>
     filter (\<lambda>e. e_server e = server) (db_entries (im_db (f m))) =
       filter (\<lambda>e. e_server e = server) (db_entries (im_db m)))"

lemma filter_server:
  assumes "filter (\<lambda>x. key x = s) xs = filter (\<lambda>x. key x = s) ys"
  shows "filter (\<lambda>x. key x = s \<and> P x) xs = filter (\<lambda>x. key x = s \<and> P x) ys"
proof -
  have "filter (\<lambda>x. key x = s \<and> P x) zs = filter P (filter (\<lambda>x. key x = s) zs)" for zs by (simp add: conj_commute)
  then show ?thesis using assms by metis
qed

lemma keeps_server_state:
  assumes "keeps_server server f" and "db_wf (im_db m)"
  shows "same_active server db0 (im_db m) \<Longrightarrow> same_active server db0 (im_db (f m))"
    and "staged server generation (im_db m) \<Longrightarrow> staged server generation (im_db (f m))"
    and "generation_entries server gen (im_db (f m)) = generation_entries server gen (im_db m)"
proof -
  have wf: "db_wf (im_db (f m))"
    and g: "filter (\<lambda>g. g_server g = server) (db_generations (im_db (f m))) =
      filter (\<lambda>g. g_server g = server) (db_generations (im_db m))"
    and e: "filter (\<lambda>e. e_server e = server) (db_entries (im_db (f m))) =
      filter (\<lambda>e. e_server e = server) (db_entries (im_db m))"
    using assms unfolding keeps_server_def by blast+
  have rows: "active_rows server (im_db (f m)) = active_rows server (im_db m)"
    unfolding active_rows_def by (rule filter_server [OF g])
  have "active_entries server (im_db (f m)) = active_entries server (im_db m)"
    unfolding active_entries_def rows by (rule filter_server [OF e])
  then show "same_active server db0 (im_db m) \<Longrightarrow> same_active server db0 (im_db (f m))"
    using wf rows by (simp add: same_active_def)
  show "generation_entries server gen (im_db (f m)) = generation_entries server gen (im_db m)"
    unfolding generation_entries_def by (rule filter_server [OF e])
  assume "staged server generation (im_db m)"
  then obtain row where "row \<in> set (filter (\<lambda>g. g_server g = server) (db_generations (im_db m)))" "staging_row server generation row"
    by (auto simp: staged_def staging_row_def)
  then have "row \<in> set (db_generations (im_db (f m)))" unfolding g [symmetric] by simp
  then show "staged server generation (im_db (f m))"
    using \<open>staging_row server generation row\<close> by (auto simp: staged_def)
qed

lemma staged_not_active:
  assumes "db_wf db" and "staged server generation db" and "g \<in> set (active_rows server db)"
  shows "g_generation g \<noteq> int (unat generation)"
proof
  assume same: "g_generation g = int (unat generation)"
  obtain h where h: "h \<in> set (db_generations db)" "staging_row server generation h" using assms(2) by (auto simp: staged_def)
  have "inj_on generation_key (set (db_generations db))" using assms(1) by (simp add: db_wf_defs distinct_map)
  moreover have "g \<in> set (db_generations db)" "generation_key g = generation_key h"
    using assms(3) same h(2) by (auto simp: active_rows_def staging_row_def generation_key_def)
  ultimately have "g = h" using h(1) by (meson inj_onD)
  then show False using assms(3) h(2) by (simp add: active_rows_def staging_row_def)
qed

lemma build_step_same_active:
  "build_step db db' \<Longrightarrow> db_wf db' \<Longrightarrow> same_active server db0 db \<Longrightarrow> same_active server db0 db'"
  using build_step_active [of db db' server] by (simp add: same_active_def)

section \<open>Invariant of the loop\<close>

text \<open>
  What the build received is what it has committed followed by what is pending; the committed part
  is in the database, once per ItemID, and counted.
\<close>

definition collected :: "text_env \<Rightarrow> string \<Rightarrow> u64 \<Rightarrow> inventory_entry list \<Rightarrow> build_run_state \<Rightarrow> index_db \<Rightarrow> bool" where
  "collected te server generation received st db \<longleftrightarrow>
     (\<exists>committed. received = committed @ br_pending st \<and>
        generation_entries server (int (unat generation)) db =
          map (entry_of te server (int (unat generation))) (first_items {} committed) \<and>
        unat (br_persisted_item_count st) = min (length (first_items {} committed)) (2 ^ 64 - 1))"

definition build_inv ::
  "text_env \<Rightarrow> string \<Rightarrow> u64 \<Rightarrow> index_db \<Rightarrow> inventory_entry list \<Rightarrow> build_run_state \<Rightarrow> index_db \<Rightarrow> bool" where
  "build_inv te server generation db0 received st db \<longleftrightarrow>
     same_active server db0 db \<and> staged server generation db \<and> collected te server generation received st db"

lemma build_inv_active: "build_inv te server generation db0 received st db \<Longrightarrow> same_active server db0 db"
  by (simp add: build_inv_def)

lemma build_inv_cong:
  "br_pending st' = br_pending st \<Longrightarrow> br_persisted_item_count st' = br_persisted_item_count st \<Longrightarrow>
     build_inv te server generation db0 received st' db = build_inv te server generation db0 received st db"
  by (simp add: build_inv_def collected_def)

lemma build_inv_meanwhile:
  assumes "keeps_server server f" and "build_inv te server generation db0 received st (im_db m)"
  shows "build_inv te server generation db0 received st (im_db (f m))"
  using assms keeps_server_state [OF assms(1), of m]
  by (auto simp: build_inv_def collected_def same_active_def)

lemma build_inv_pending:
  "build_inv te server generation db0 received st db \<Longrightarrow>
     build_inv te server generation db0 (received @ [entry]) (st\<lparr>br_pending := br_pending st @ [entry]\<rparr>) db"
  by (auto simp: build_inv_def collected_def)

lemma collected_ids:
  assumes "generation_entries server gen db = map (entry_of te server gen) (first_items {} committed)"
  shows "item_ids server gen db = ie_item_id ` set committed"
proof -
  have "item_ids server gen db = ie_item_id ` set (first_items {} committed)"
    by (simp add: item_ids_generation assms image_image)
  then show ?thesis by (simp add: first_items_ids)
qed

lemma im_db_write:
  "database_write operation m = (r, m') \<Longrightarrow>
     \<exists>r0. operation (im_db m) = (r0, im_db m') \<and> ((\<exists>x. r = Inr x) \<longleftrightarrow> (\<exists>x. r0 = Inr x)) \<and> (\<forall>x. r = Inr x \<longrightarrow> r0 = Inr x)"
  by (auto simp: database_write_def split: prod.splits sum.splits)

lemma commit_pending_entries_db:
  assumes "commit_pending_entries te env faults latency server generation pending m = (r, pending', m')" and "pending \<noteq> []"
  shows "\<exists>r0. insert_entries te faults server generation pending (im_db m) = (r0, im_db m') \<and>
    (case r of Inl _ \<Rightarrow> pending' = pending | Inr n \<Rightarrow> r0 = Inr n \<and> pending' = [])"
proof -
  obtain r1 m1 where w: "database_write (insert_entries te faults server generation pending) m = (r1, m1)"
    by fastforce
  from im_db_write [OF w] obtain r0 where "insert_entries te faults server generation pending (im_db m) = (r0, im_db m1)"
    and "\<forall>x. r1 = Inr x \<longrightarrow> r0 = Inr x" by blast
  moreover have "im_db m' = im_db m1" "r = r1" "pending' = (case r1 of Inl _ \<Rightarrow> pending | Inr _ \<Rightarrow> [])"
    using assms w by (auto simp: commit_pending_entries_def Let_def update_build_def update_state_def split: if_splits)
  ultimately show ?thesis by (cases r1) auto
qed

lemma insert_same_active:
  assumes "same_active server db0 db" and "staged server generation db"
    and "insert_entries te faults server generation entries db = (r, db')"
  shows "same_active server db0 db' \<and> staged server generation db'"
proof -
  have "build_step db (snd (insert_entries te faults server generation entries db))"
    by (rule build_insert) (use assms(1,2) staged_not_active in \<open>auto simp: same_active_def\<close>)
  moreover have "db_wf db'" using insert_entries_wf [of db te faults server generation entries] assms(1,3) by (simp add: same_active_def)
  moreover have "db_generations db' = db_generations db" using insert_entries_frame [OF assms(3)] by simp
  ultimately show ?thesis
    using build_step_same_active [of db db' server db0] assms by (auto simp: staged_def)
qed

definition run_flags :: "build_run_state \<Rightarrow> bool \<times> bool \<times> bool \<times> string option" where
  "run_flags st = (br_terminal st, br_completed st, br_cancelled st, br_failed st)"

lemma commit_batch_inv:
  assumes "build_inv te server generation db0 received st (im_db m)"
    and "commit_batch te env faults latency server generation st m = (r, st', m')"
  shows "same_active server db0 (im_db m') \<and> staged server generation (im_db m')"
    and "r = Inr () \<Longrightarrow> build_inv te server generation db0 received st' (im_db m') \<and> br_pending st' = []"
    and "run_flags st' = run_flags st"
proof -
  obtain r1 pending' m1 where c: "commit_pending_entries te env faults latency server generation (br_pending st) m = (r1, pending', m1)"
    by (metis prod_cases3)
  have m': "m' = m1" and flags: "run_flags st' = run_flags st"
    using assms(2) c by (auto simp: commit_batch_def run_flags_def split: sum.splits)
  show "run_flags st' = run_flags st" by (rule flags)
  let ?gen = "int (unat generation)"
  have "(same_active server db0 (im_db m1) \<and> staged server generation (im_db m1)) \<and>
    (r = Inr () \<longrightarrow> build_inv te server generation db0 received st' (im_db m1) \<and> br_pending st' = [])"
  proof (cases "br_pending st = []")
    case True
    then have same: "r1 = Inr 0" "pending' = []" "m1 = m" using c by (simp_all add: commit_pending_entries_def)
    then have "st' = st\<lparr>br_pending := [], br_persisted_item_count := saturating_add (br_persisted_item_count st) 0\<rparr>"
      using assms(2) c by (auto simp: commit_batch_def)
    then show ?thesis
      using assms(1) same True by (simp add: build_inv_def collected_def)
  next
    case False
    obtain r0 where ins: "insert_entries te faults server generation (br_pending st) (im_db m) = (r0, im_db m1)"
      and res: "case r1 of Inl _ \<Rightarrow> pending' = br_pending st | Inr n \<Rightarrow> r0 = Inr n \<and> pending' = []"
      using commit_pending_entries_db [OF c False] by blast
    have act: "same_active server db0 (im_db m1) \<and> staged server generation (im_db m1)"
      using insert_same_active [OF _ _ ins] assms(1) unfolding build_inv_def by blast
    have "build_inv te server generation db0 received st' (im_db m1) \<and> br_pending st' = []" if ok: "r = Inr ()"
    proof -
      obtain n where n: "r1 = Inr n" using assms(2) c ok by (auto simp: commit_batch_def split: sum.splits)
      then have st': "st' = st\<lparr>br_pending := [], br_persisted_item_count := saturating_add (br_persisted_item_count st) n\<rparr>"
        using assms(2) c res by (auto simp: commit_batch_def)
      obtain committed where com: "received = committed @ br_pending st"
        "generation_entries server ?gen (im_db m) = map (entry_of te server ?gen) (first_items {} committed)"
        "unat (br_persisted_item_count st) = min (length (first_items {} committed)) (2 ^ 64 - 1)"
        using assms(1) by (auto simp: build_inv_def collected_def)
      note gen = insert_entries_generation [OF ins [unfolded res [unfolded n, simplified, THEN conjunct1]]]
      have "collected te server generation received st' (im_db m1)"
        unfolding collected_def
      proof (intro exI conjI)
        show "received = received @ br_pending st'" by (simp add: st')
        show "generation_entries server ?gen (im_db m1) = map (entry_of te server ?gen) (first_items {} received)"
          using gen(1) com by (simp add: collected_ids first_items_append)
        show "unat (br_persisted_item_count st') = min (length (first_items {} received)) (2 ^ 64 - 1)"
          using gen(2) com by (simp add: st' collected_ids first_items_append unat_saturating_add)
      qed
      then show ?thesis using act by (simp add: build_inv_def st')
    qed
    then show ?thesis using act by blast
  qed
  then show "same_active server db0 (im_db m') \<and> staged server generation (im_db m')"
    and "r = Inr () \<Longrightarrow> build_inv te server generation db0 received st' (im_db m') \<and> br_pending st' = []"
    by (auto simp: m')
qed

section \<open>Handlers\<close>

definition event_entries :: "string + inventory_event \<Rightarrow> inventory_entry list" where
  "event_entries event = (case event of Inr (EntryEvent entry) \<Rightarrow> [entry] | _ \<Rightarrow> [])"

definition is_completion :: "string + inventory_event \<Rightarrow> bool" where
  "is_completion event = (case event of Inr (CompletedEvent _) \<Rightarrow> True | _ \<Rightarrow> False)"

text \<open>What an event leaves, by its outcome.\<close>

definition event_post ::
  "text_env \<Rightarrow> string \<Rightarrow> u64 \<Rightarrow> index_db \<Rightarrow> inventory_entry list \<Rightarrow> build_run_state \<Rightarrow>
     build_event_outcome \<times> build_run_state \<times> index_manager \<Rightarrow> bool" where
  "event_post te server generation db0 received st = (\<lambda>(outcome, st', m').
     same_active server db0 (im_db m') \<and> run_flags st' = run_flags st \<and>
     (outcome = EventContinue \<longrightarrow> build_inv te server generation db0 received st' (im_db m')) \<and> outcome \<noteq> EventStop)"

lemma handle_entry_event_post:
  assumes "build_inv te server generation db0 received st (im_db m)"
  shows "event_post te server generation db0 (received @ [entry]) st (handle_entry_event cfg te turn server generation entry st m)"
proof -
  let ?st = "st\<lparr>br_pending := br_pending st @ [entry]\<rparr>"
  have inv: "build_inv te server generation db0 (received @ [entry]) ?st (im_db m)" using assms by (rule build_inv_pending)
  obtain r st' m' where c: "commit_batch te (tn_env turn) (tn_faults turn) (tn_latency_ms turn) server generation ?st m = (r, st', m')"
    by (metis prod_cases3)
  note commit = commit_batch_inv [OF inv c]
  have "build_inv te server generation db0 (received @ [entry]) (st'\<lparr>br_last_commit_at := t\<rparr>) (im_db m')" if "r = Inr ()" for t
    using commit(2) [OF that] build_inv_cong [of "st'\<lparr>br_last_commit_at := t\<rparr>" st'] by simp
  then show ?thesis
    using commit inv c assms
    by (auto simp: handle_entry_event_def Let_def event_post_def build_inv_active run_flags_def split: sum.splits)
qed

lemma staged_update:
  assumes "staged server generation db" and "\<And>g. staging_row server generation g \<Longrightarrow> staging_row server generation (upd g)"
  shows "staged server generation (sql_update_generations (staging_row server generation) upd db)"
proof -
  obtain g where g: "g \<in> set (db_generations db)" "staging_row server generation g"
    using assms(1) by (auto simp: staged_def)
  then have "upd g \<in> set (db_generations (sql_update_generations (staging_row server generation) upd db))"
    by (auto simp: sql_update_generations_def image_iff intro!: bexI [of _ g])
  then show ?thesis using assms(2) g(2) by (auto simp: staged_def)
qed

lemma update_progress_inv:
  assumes "build_inv te server generation db0 received st db" and "update_progress faults server generation progress db = (r, db')"
  shows "build_inv te server generation db0 received st db'"
proof -
  have "build_step db (snd (update_progress faults server generation progress db))" by (rule build_progress)
  moreover have "db_wf db'"
    using update_progress_wf [of db faults server generation progress] assms by (simp add: build_inv_def same_active_def)
  ultimately have "same_active server db0 db'"
    using build_step_same_active [of db db' server db0] assms by (simp add: build_inv_def)
  moreover have "db_entries db' = db_entries db"
    using assms(2) by (auto simp: update_progress_def split: option.splits if_splits)
  moreover have "staged server generation db'"
    using assms by (auto simp: build_inv_def update_progress_def staging_row_def intro!: staged_update split: option.splits if_splits)
  ultimately show ?thesis
    using assms(1) by (simp add: build_inv_def collected_def generation_entries_def)
qed

lemma im_db_duty [simp]: "im_db (snd (enforce_duty_cycle turn server control percent m)) = im_db m"
  by (simp add: enforce_duty_cycle_def Let_def)

lemma im_db_progress [simp]: "im_db (update_runtime_progress server progress m) = im_db m"
  by (simp add: update_runtime_progress_def update_build_def update_state_def)

lemma handle_progress_event_post:
  assumes "build_inv te server generation db0 received st (im_db m)"
  shows "event_post te server generation db0 received st (handle_progress_event turn server generation control progress st m)"
proof -
  let ?st = "st\<lparr>br_accounted_active_time_ms := ip_active_time_ms progress, br_last_progress := progress\<rparr>"
  obtain r m1 where w: "database_write (update_progress (tn_faults turn) server generation progress) m = (r, m1)"
    by fastforce
  have inv: "build_inv te server generation db0 received ?st (im_db m1)"
    using im_db_write [OF w] update_progress_inv [OF assms] build_inv_cong [of ?st st] by auto
  obtain ok m3 where d: "enforce_duty_cycle turn server control (br_effective_duty_cycle_percent ?st)
      (update_runtime_progress server progress m1) = (ok, m3)" by fastforce
  have "im_db m3 = im_db m1" using im_db_duty d by (metis im_db_progress snd_conv)
  then show ?thesis
    using inv d unfolding handle_progress_event_def Let_def w
    by (cases ok) (auto simp: event_post_def build_inv_active run_flags_def split: sum.splits)
qed

lemma handle_slice_event_post:
  assumes "build_inv te server generation db0 received st (im_db m)"
  shows "event_post te server generation db0 received st (handle_slice_event cfg turn server control observation st m)"
proof -
  have "build_inv te server generation db0 received
      (st\<lparr>br_effective_duty_cycle_percent := p, br_readiness := ry\<rparr>) (im_db m)" for p ry
    using assms build_inv_cong [of "st\<lparr>br_effective_duty_cycle_percent := p, br_readiness := ry\<rparr>" st] by simp
  then show ?thesis
    using assms
    by (auto simp: handle_slice_event_def Let_def event_post_def build_inv_active run_flags_def split: option.splits)
qed

lemma handle_inventory_event_post:
  assumes "build_inv te server generation db0 received st (im_db m)" and "\<not> is_completion event"
  shows "event_post te server generation db0 (received @ event_entries event) st
    (handle_inventory_event cfg te turn server generation control event st m)"
proof (cases event)
  case (Inl error)
  then show ?thesis
    using assms by (simp add: handle_inventory_event_def event_post_def event_entries_def build_inv_active)
next
  case (Inr e)
  show ?thesis
  proof (cases e)
    case (EntryEvent entry)
    let ?st = "st\<lparr>br_received_entry_count := saturating_add (br_received_entry_count st) 1\<rparr>"
    have "build_inv te server generation db0 received ?st (im_db m)" using assms(1) build_inv_cong [of ?st st] by simp
    then have "event_post te server generation db0 (received @ [entry]) ?st
        (handle_entry_event cfg te turn server generation entry ?st m)"
      by (rule handle_entry_event_post)
    moreover have "run_flags ?st = run_flags st" by (simp add: run_flags_def)
    ultimately show ?thesis
      by (simp add: Inr EntryEvent handle_inventory_event_def event_entries_def event_post_def split: prod.splits)
  qed (use assms Inr in \<open>simp_all add: handle_inventory_event_def event_entries_def is_completion_def
      handle_progress_event_post handle_slice_event_post\<close>)
qed

section \<open>The loop\<close>

text \<open>The entries of the stream before its completion, and the completion.\<close>

fun stream_entries :: "build_turn list \<Rightarrow> inventory_entry list" where
  "stream_entries [] = []"
| "stream_entries (turn # turns) =
     (case tn_item turn of
        StreamItem event \<Rightarrow> if is_completion event then [] else event_entries event @ stream_entries turns
      | _ \<Rightarrow> [])"

fun stream_completion :: "build_turn list \<Rightarrow> inventory_completed option" where
  "stream_completion [] = None"
| "stream_completion (turn # turns) =
     (case tn_item turn of
        StreamItem (Inr (CompletedEvent result)) \<Rightarrow> Some result
      | StreamItem _ \<Rightarrow> stream_completion turns
      | _ \<Rightarrow> None)"

lemma commit_pending_if_due_inv:
  assumes "build_inv te server generation db0 received st (im_db m)"
    and "commit_pending_if_due cfg te env faults latency server generation st m = (r, st', m')"
  shows "same_active server db0 (im_db m')" and "run_flags st' = run_flags st"
    and "r = Inr () \<Longrightarrow> build_inv te server generation db0 received st' (im_db m')"
proof -
  obtain r1 st1 m1 where c: "commit_batch te env faults latency server generation st m = (r1, st1, m1)" by (metis prod_cases3)
  note commit = commit_batch_inv [OF assms(1) c]
  have cong: "build_inv te server generation db0 received (st1\<lparr>br_last_commit_at := t\<rparr>) db =
      build_inv te server generation db0 received st1 db" for t db by (rule build_inv_cong) simp_all
  show "same_active server db0 (im_db m')" "run_flags st' = run_flags st"
    "r = Inr () \<Longrightarrow> build_inv te server generation db0 received st' (im_db m')"
    using assms c commit
    by (auto simp: commit_pending_if_due_def cong build_inv_active run_flags_def split: if_splits sum.splits)
qed

definition loop_post ::
  "text_env \<Rightarrow> string \<Rightarrow> u64 \<Rightarrow> index_db \<Rightarrow> inventory_entry list \<Rightarrow> inventory_completed option \<Rightarrow>
     build_run_state option \<times> index_manager \<Rightarrow> bool" where
  "loop_post te server generation db0 received completion = (\<lambda>(result, m').
     same_active server db0 (im_db m') \<and>
     (\<forall>st'. result = Some st' \<longrightarrow>
        (if br_terminal st'
         then \<exists>c. completion = Some c \<and> br_completed st' = ic_complete c \<and> br_cancelled st' = ic_cancelled c \<and>
                (br_failed st' = None \<longrightarrow> \<not> ic_truncated c) \<and>
                build_inv te server generation db0 received st' (im_db m')
         else \<not> br_completed st')))"

lemma loop_post_stopped:
  assumes "same_active server db0 (im_db m')" and "fst (run_flags st) = False" and "fst (snd (run_flags st)) = False"
  shows "loop_post te server generation db0 received completion (Some st, m')"
  using assms by (simp add: loop_post_def run_flags_def)

lemma loop_post_completed:
  assumes "build_inv te server generation db0 received st (im_db m)" and "run_flags st = (False, False, False, None)"
  shows "loop_post te server generation db0 received (Some c) (Some (record_completion c st), m)"
proof -
  have "build_inv te server generation db0 received (record_completion c st) (im_db m)"
    using assms(1) build_inv_cong [of "record_completion c st" st] by (simp add: record_completion_def Let_def)
  then show ?thesis
    using assms by (auto simp: loop_post_def build_inv_active record_completion_def Let_def run_flags_def)
qed

lemma build_loop_post:
  assumes "build_loop cfg te server generation control windows turns st m = Some result"
    and "build_inv te server generation db0 received st (im_db m)" and "run_flags st = (False, False, False, None)"
    and "\<And>turn. turn \<in> set turns \<Longrightarrow> keeps_server server (tn_meanwhile turn)"
  shows "loop_post te server generation db0 (received @ stream_entries turns) (stream_completion turns) result"
  using assms
proof (induction turns arbitrary: st m received)
  case (Cons turn turns)
  have inv0: "build_inv te server generation db0 received st (im_db (tn_meanwhile turn m))"
    by (rule build_inv_meanwhile) (use Cons.prems in auto)
  obtain r st1 m1 where due: "commit_pending_if_due cfg te (tn_due_env turn) (tn_due_faults turn) (tn_latency_ms turn)
      server generation st (tn_meanwhile turn m) = (r, st1, m1)" by (metis prod_cases3)
  note due_inv = commit_pending_if_due_inv [OF inv0 due]
  have flags1: "run_flags st1 = (False, False, False, None)" using due_inv(2) Cons.prems(3) by simp
  show ?case
  proof (cases r)
    case (Inl e)
    then have "result = (Some (st1\<lparr>br_failed := Some e\<rparr>), m1)" using Cons.prems(1) due by simp
    then show ?thesis using due_inv(1) flags1 by (auto intro!: loop_post_stopped simp: run_flags_def)
  next
    case (Inr u)
    then obtain readiness ry m2 where
      wait: "wait_for_build_readiness cfg server control windows (tn_rounds turn) (br_readiness st1) m1 = Some (readiness, ry, m2)"
      using Cons.prems(1) due by (auto split: option.splits)
    let ?st2 = "st1\<lparr>br_readiness := ry\<rparr>"
    have db2: "im_db m2 = im_db m1" using wait by (rule readiness_db)
    have act2: "same_active server db0 (im_db m2)" using due_inv(1) db2 by simp
    have inv2: "build_inv te server generation db0 received ?st2 (im_db m2)"
      using due_inv(3) Inr db2 build_inv_cong [of ?st2 st1] by simp
    have flags2: "run_flags ?st2 = (False, False, False, None)" using flags1 by (simp add: run_flags_def)
    note unfold = Cons.prems(1) [unfolded build_loop.simps due prod.case Inr sum.case wait option.case Let_def]
    show ?thesis
    proof (cases readiness)
      case BuildReady
      show ?thesis
      proof (cases "tn_item turn")
        case EventTimeout
        then show ?thesis
          using unfold BuildReady act2 flags2 by (auto intro!: loop_post_stopped simp: run_flags_def)
      next
        case StreamEnd
        then show ?thesis
          using unfold BuildReady act2 flags2 by (auto intro!: loop_post_stopped)
      next
        case (StreamItem event)
        let ?st3 = "?st2\<lparr>br_drained_event_count := saturating_add (br_drained_event_count ?st2) 1\<rparr>"
        have inv3: "build_inv te server generation db0 received ?st3 (im_db m2)"
          using inv2 build_inv_cong [of ?st3 ?st2] by simp
        have flags3: "run_flags ?st3 = (False, False, False, None)" using flags2 by (simp add: run_flags_def)
        obtain out st4 m4 where h: "handle_inventory_event cfg te turn server generation control event ?st3 m2 = (out, st4, m4)"
          by (metis prod_cases3)
        show ?thesis
        proof (cases "is_completion event")
          case True
          then obtain c where c: "event = Inr (CompletedEvent c)"
            by (auto simp: is_completion_def split: sum.splits inventory_event.splits)
          then show ?thesis
            using unfold BuildReady StreamItem loop_post_completed [OF inv3 flags3, of c]
            by (simp add: handle_inventory_event_def is_completion_def)
        next
          case False
          have post: "event_post te server generation db0 (received @ event_entries event) ?st3 (out, st4, m4)"
            using handle_inventory_event_post [OF inv3 False, of cfg turn control] h by simp
          have flags4: "run_flags st4 = (False, False, False, None)" using post flags3 by (simp add: event_post_def)
          have comp: "stream_completion (turn # turns) = stream_completion turns"
            using StreamItem False by (auto simp: is_completion_def split: sum.splits inventory_event.splits)
          show ?thesis
          proof (cases out)
            case EventContinue
            then have "build_loop cfg te server generation control windows turns st4 m4 = Some result"
              using unfold BuildReady StreamItem h by simp
            moreover have "build_inv te server generation db0 (received @ event_entries event) st4 (im_db m4)"
              using post EventContinue by (simp add: event_post_def)
            ultimately have "loop_post te server generation db0 ((received @ event_entries event) @ stream_entries turns)
                (stream_completion turns) result"
              using Cons.prems(4) flags4 by (intro Cons.IH) auto
            then show ?thesis using comp StreamItem False by simp
          qed (use unfold BuildReady StreamItem h post flags4 in
              \<open>auto intro!: loop_post_stopped simp: event_post_def run_flags_def loop_post_def\<close>)
        qed
      qed
    qed (use unfold act2 flags2 in \<open>auto intro!: loop_post_stopped simp: run_flags_def loop_post_def\<close>)
  qed
qed simp

section \<open>The end of the build\<close>

lemma finish_loop_post:
  assumes loop: "loop_post te server generation db0 received completion (Some st, m)"
    and keeps: "keeps_server server meanwhile"
    and run: "finish_loop te env faults latency shutdown_error meanwhile server generation control st m = (outcome, st', m')"
  shows "same_active server db0 (im_db m') \<and>
    (outcome = LoopFinished \<and> br_completed st' \<and> \<not> br_cancelled st' \<longrightarrow>
       (\<exists>c. completion = Some c \<and> ic_complete c \<and> \<not> ic_cancelled c \<and> \<not> ic_truncated c \<and>
            build_inv te server generation db0 received st' (im_db m') \<and> br_pending st' = []))"
proof -
  have "same_active server db0 (im_db m)" using loop by (simp add: loop_post_def)
  moreover from this have "db_wf (im_db m)" by (simp add: same_active_def)
  ultimately have act: "same_active server db0 (im_db (meanwhile m))" using keeps_server_state(1) [OF keeps] by blast
  show ?thesis
  proof (cases "br_terminal st")
    case False
    then have "\<not> br_completed st" using loop by (simp add: loop_post_def)
    then have "m' = meanwhile m \<and> \<not> br_completed st'"
      using run False by (auto simp: finish_loop_def Let_def split: option.splits if_splits sum.splits prod.splits)
    then show ?thesis using act by simp
  next
    case True
    then obtain c where c: "completion = Some c" "br_completed st = ic_complete c" "br_cancelled st = ic_cancelled c"
      "br_failed st = None \<longrightarrow> \<not> ic_truncated c" "build_inv te server generation db0 received st (im_db m)"
      using loop by (auto simp: loop_post_def)
    have inv: "build_inv te server generation db0 received st (im_db (meanwhile m))"
      using keeps c(5) by (rule build_inv_meanwhile)
    show ?thesis
    proof (cases "br_failed st = None \<and> shutdown_error = None")
      case False
      then have "m' = meanwhile m \<and> outcome \<noteq> LoopFinished"
        using run True by (auto simp: finish_loop_def Let_def split: option.splits if_splits)
      then show ?thesis using act by simp
    next
      case ok: True
      show ?thesis
      proof (cases "br_pending st \<noteq> [] \<and> \<not> br_cancelled st")
        case False
        then have "st' = st \<and> m' = meanwhile m"
          using run True ok by (auto simp: finish_loop_def Let_def split: if_splits)
        then show ?thesis using act inv c ok False by auto
      next
        case pending: True
        obtain r st1 m1 where commit: "commit_batch te env faults latency server generation st (meanwhile m) = (r, st1, m1)"
          by (metis prod_cases3)
        note post = commit_batch_inv [OF inv commit]
        have "m' = m1" and st': "st' = (case r of Inl e \<Rightarrow> st1\<lparr>br_failed := Some e\<rparr> | Inr _ \<Rightarrow> st1)"
          and out: "outcome = (case br_failed st' of None \<Rightarrow> LoopFinished | Some e \<Rightarrow> LoopFailed e)"
          using run True ok pending commit by (auto simp: finish_loop_def Let_def split: sum.splits)
        show ?thesis
        proof (cases r)
          case (Inl e)
          then show ?thesis using post(1) st' out \<open>m' = m1\<close> by simp
        next
          case (Inr u)
          then show ?thesis
            using post st' out \<open>m' = m1\<close> c ok by (auto simp: run_flags_def)
        qed
      qed
    qed
  qed
qed

lemma write_same_active:
  assumes "database_write operation m = (r, m')" and "same_active server db0 (im_db m)"
    and "\<And>db. build_step db (snd (operation db))" and "\<And>db. db_wf db \<Longrightarrow> db_wf (snd (operation db))"
  shows "same_active server db0 (im_db m')"
proof -
  have "im_db m' = snd (operation (im_db m))" using im_db_write [OF assms(1)] by auto
  then show ?thesis
    using build_step_same_active [of "im_db m" "im_db m'" server db0] assms(2-4) by (simp add: same_active_def)
qed

lemma schedule_db [simp]: "im_db (schedule_cleanup env server m) = im_db m"
  by (simp add: schedule_cleanup_def)

lemma fail_same_active:
  assumes "same_active server db0 (im_db m)"
  shows "same_active server db0 (im_db (fail_generation_and_schedule_cleanup env faults server' generation error m))"
proof -
  obtain r m1 where w: "database_write (fail_generation faults server' generation error) m = (r, m1)" by fastforce
  have "same_active server db0 (im_db m1)"
    by (rule write_same_active [OF w assms]) (auto intro: build_fail fail_generation_wf)
  then show ?thesis by (cases r) (simp_all add: fail_generation_and_schedule_cleanup_def w)
qed

lemma abandon_same_active:
  assumes "same_active server db0 (im_db m)"
  shows "same_active server db0 (im_db (abandon_generation env faults1 faults2 server' generation reason m))"
proof -
  obtain r m1 where w: "database_write (discard_empty_generation faults1 server' generation) m = (r, m1)" by fastforce
  have "same_active server db0 (im_db m1)"
    by (rule write_same_active [OF w assms]) (auto intro: build_discard discard_empty_generation_wf)
  then show ?thesis
    by (auto simp: abandon_generation_def w fail_same_active split: sum.splits bool.splits)
qed

lemma finish_db:
  "im_db (finish_build_inner_with_retry_policy cfg env server control ownership error preserve m) = im_db m \<or>
   (\<exists>faults a b c. im_db (finish_build_inner_with_retry_policy cfg env server control ownership error preserve m) =
      snd (set_retry_state faults server a b c (im_db m)))"
proof -
  have persist: "im_db m2 = im_db m1 \<or> (\<exists>faults a b c. im_db m2 = snd (set_retry_state faults server a b c (im_db m1)))"
    if "persist_retry_state env server m1 = (r, m2)" for r m1 m2
    using that by (auto simp: persist_retry_state_def Let_def split: if_splits prod.splits dest!: im_db_write) (metis snd_conv)+
  have keep: "im_db (update_state server f m1) = im_db m1" "im_db (update_runtime_after_build cfg env server error m1) = im_db m1"
    for f m1
    by (simp_all add: update_state_def update_runtime_after_build_def put_state_def Let_def split: option.splits)
  have final: "im_db (finalize_owned_build env server ownership m1) = im_db (snd (persist_retry_state env server m1))" for m1
    by (simp add: finalize_owned_build_def Let_def clear_pending_cancel_def take_build_def clear_build_lock_def
        clear_active_build_def remove_build_owner_def clear_pause_overlays_def update_state_def split: prod.splits sum.splits)
  define m1 where "m1 = (if preserve then update_state server (rs_last_error_update (\<lambda>_. error)) m
    else update_runtime_after_build cfg env server error m)"
  have "im_db m1 = im_db m" by (simp add: keep m1_def)
  moreover have "finish_build_inner_with_retry_policy cfg env server control ownership error preserve m =
      (if im_runtime_poisoned m \<or> \<not> build_completion_is_current server control ownership m then m
       else if im_runtime_poisoned m1 then m1 else finalize_owned_build env server ownership m1)"
    by (auto simp: finish_build_inner_with_retry_policy_def Let_def m1_def)
  ultimately show ?thesis
    using persist [of m1 "fst (persist_retry_state env server m1)" "snd (persist_retry_state env server m1)"] final [of m1]
    by auto
qed

lemma finish_active:
  "active_rows s (im_db (finish_build_inner_with_retry_policy cfg env server control ownership error preserve m)) = active_rows s (im_db m)"
  "active_entries s (im_db (finish_build_inner_with_retry_policy cfg env server control ownership error preserve m)) = active_entries s (im_db m)"
  using finish_db [of cfg env server control ownership error preserve m] build_retry build_step_active by metis+

lemmas finalize_defs = finalize_build_def finish_failed_build_def finish_completed_build_def finish_promotion_failure_def
  finish_interrupted_build_def finish_cancelled_build_def Let_def

lemmas finish_defs = finish_build_for_control_owned_def finish_build_for_control_owned_interrupted_def finish_build_inner_def

text \<open>What remains of a build in the index of its server.\<close>

definition index_unchanged :: "string \<Rightarrow> index_db \<Rightarrow> index_db \<Rightarrow> bool" where
  "index_unchanged server db db' \<longleftrightarrow>
     active_rows server db' = active_rows server db \<and> active_entries server db' = active_entries server db"

definition index_replaced :: "text_env \<Rightarrow> string \<Rightarrow> u64 \<Rightarrow> inventory_entry list \<Rightarrow> index_db \<Rightarrow> bool" where
  "index_replaced te server generation entries db' \<longleftrightarrow>
     (let gen = int (unat generation); items = first_items {} entries
      in active_entries server db' = map (entry_of te server gen) items \<and>
         (\<exists>g. active_rows server db' = [g] \<and> g_generation g = gen \<and> g_entry_count g = int (length items)))"

lemma finish_result:
  "index_unchanged server db (im_db (finish_build_inner_with_retry_policy cfg env server' control ownership error preserve m)) =
     index_unchanged server db (im_db m)"
  "index_replaced te server generation entries
     (im_db (finish_build_inner_with_retry_policy cfg env server' control ownership error preserve m)) =
     index_replaced te server generation entries (im_db m)"
  by (simp_all add: index_unchanged_def index_replaced_def finish_active)

lemma unchanged: "same_active server db0 db \<Longrightarrow> index_unchanged server db0 db"
  by (simp add: same_active_def index_unchanged_def)

lemma promoted_index:
  assumes inv: "build_inv te server generation db0 received st db" and pending: "br_pending st = []"
    and promote: "promote_with_profile faults server generation t (br_persisted_item_count st) profile warning db = (Inr u, db')"
  shows "index_replaced te server generation received db'"
proof -
  let ?gen = "int (unat generation)"
  obtain committed where "received = committed"
    and entries: "generation_entries server ?gen db = map (entry_of te server ?gen) (first_items {} committed)"
    and cnt: "unat (br_persisted_item_count st) = min (length (first_items {} committed)) (2 ^ 64 - 1)"
    using inv pending by (auto simp: build_inv_def collected_def)
  obtain g where g: "active_rows server db' = [g]" "g_generation g = ?gen"
    "g_entry_count g = int (unat (br_persisted_item_count st))"
    using promoted_active(1) [OF promote] by blast
  have "unat (br_persisted_item_count st) < 2 ^ 63"
    using promote by (auto simp: promote_with_profile_def i64_try_from_def split: option.splits if_splits)
  then have "unat (br_persisted_item_count st) = length (first_items {} committed)" using cnt by simp
  moreover have "active_entries server db' = generation_entries server ?gen db"
    using g promoted_active(3) [OF promote] by (simp add: active_entries_def generation_entries_def)
  ultimately show ?thesis
    using entries g \<open>received = committed\<close> by (auto simp: index_replaced_def Let_def)
qed

lemma finalize_build_result:
  assumes act: "same_active server db0 (im_db m)"
    and ended: "outcome = LoopFinished \<and> br_completed st \<and> \<not> br_cancelled st \<longrightarrow>
      good \<and> build_inv te server generation db0 received st (im_db m) \<and> br_pending st = []"
    and res: "db' = im_db (finalize_build cfg env cancelled server generation control ownership st outcome m)"
  shows "index_unchanged server db0 db' \<or> good \<and> \<not> cancelled \<and> index_replaced te server generation received db'"
proof (cases "outcome = LoopFinished \<and> br_completed st \<and> \<not> br_cancelled st \<and> \<not> cancelled")
  case False
  then show ?thesis
    using act unfolding res finalize_defs
    by (auto simp: finish_defs finish_result fail_same_active abandon_same_active unchanged split: build_loop_outcome.splits)
next
  case True
  then have inv: "build_inv te server generation db0 received st (im_db m)" "br_pending st = []" and good
    using ended by auto
  obtain r m1 where p: "promote_completed_build env (ce_faults env 2) server generation st m = (r, m1)" by fastforce
  obtain r0 where w: "promote_with_profile (ce_faults env 2) server generation (timestamp_now env) (br_persisted_item_count st)
      (br_completion_profile st) (br_completion_warning st) (im_db m) = (r0, im_db m1)"
    and r0: "(\<exists>x. r = Inr x) \<longleftrightarrow> (\<exists>x. r0 = Inr x)"
    using p by (auto simp: promote_completed_build_def split: prod.splits dest!: im_db_write)
  show ?thesis
  proof (cases r)
    case (Inl e)
    then have "im_db m1 = im_db m" using w r0 promote_error by (cases r0) auto
    then show ?thesis
      using act True p Inl unfolding res finalize_defs
      by (simp add: finish_defs finish_result fail_same_active unchanged)
  next
    case (Inr u)
    then have "index_replaced te server generation received (im_db m1)"
      using promoted_index [OF inv] w r0 by blast
    moreover have "im_db (finish_promoted_build cfg env server control ownership m1) = 
        im_db (finish_build_for_control_owned cfg env server control ownership None
          ((schedule_cleanup env server m1)\<lparr>im_cache := cache_clear_server server (im_cache (schedule_cleanup env server m1))\<rparr>))"
      by (simp add: finish_promoted_build_def Let_def)
    ultimately show ?thesis
      using True p Inr \<open>good\<close> unfolding res finalize_defs
      by (simp add: finish_defs finish_result)
  qed
qed

lemma build_start_inv:
  assumes "db_wf db" and "staged server generation db" and "generation_entries server (int (unat generation)) db = []"
  shows "build_inv te server generation db [] (build_run_state_new cfg now ctl) db"
    and "run_flags (build_run_state_new cfg now ctl) = (False, False, False, None)"
  using assms by (simp_all add: build_inv_def same_active_def collected_def build_run_state_new_def run_flags_def)

lemma guard_drop_unchanged:
  "same_active server db0 (im_db m) \<Longrightarrow>
     index_unchanged server db0 (im_db (finalization_guard_drop cfg env server generation control ownership m))"
  by (simp add: finalization_guard_drop_def Let_def finish_defs finish_result unchanged fail_same_active)

text \<open>The end of a build whose loop has returned.\<close>

lemma build_after_loop:
  assumes post: "loop_post te server generation db0 received completion (st, m)" and "keeps_server server meanwhile"
    and m': "Some m' = (case st of
      None \<Rightarrow> Some (finalization_guard_drop cfg env server generation control ownership m)
    | Some st' \<Rightarrow>
        (case finish_loop te env faults latency shutdown_error meanwhile server generation control st' m of
           (outcome, st'', m1) \<Rightarrow> Some (finalize_build cfg env cancelled server generation control ownership st'' outcome m1)))"
  shows "index_unchanged server db0 (im_db m') \<or>
    (\<exists>c. completion = Some c \<and> ic_complete c \<and> \<not> ic_cancelled c \<and> \<not> ic_truncated c) \<and> \<not> cancelled \<and>
    index_replaced te server generation received (im_db m')"
proof (cases st)
  case None
  then show ?thesis using post m' by (auto simp: loop_post_def guard_drop_unchanged)
next
  case (Some st')
  obtain outcome st'' m1 where fin: "finish_loop te env faults latency shutdown_error meanwhile server generation control
      st' m = (outcome, st'', m1)"
    by (metis prod_cases3)
  note end_post = finish_loop_post [OF post [unfolded Some] assms(2) fin]
  have "im_db m' = im_db (finalize_build cfg env cancelled server generation control ownership st'' outcome m1)"
    using m' Some fin by simp
  then show ?thesis by (rule finalize_build_result [rotated 2]) (use end_post in blast)+
qed

text \<open>
  C3. A build replaces the active index of its server exactly by what the inventory delivered, the first
  entry of every ItemID in the order of the stream, and only if the inventory ended complete, not
  cancelled and not truncated, and its control was not cancelled. In every other course of events
  (failed statements, timeouts, cancellations, shutdown, a panic of the task) the active index of the
  server is what it was.
\<close>

theorem build_replaces_or_keeps_index:
  assumes run: "run_build cfg te course server generation control ownership m = Some m'"
    and wf: "db_wf (im_db m)" and staged: "staged server generation (im_db m)"
    and fresh: "generation_entries server (int (unat generation)) (im_db m) = []"
    and turns: "\<And>turn. turn \<in> set (bc_turns course) \<Longrightarrow> keeps_server server (tn_meanwhile turn)"
    and meanwhile: "keeps_server server (bc_meanwhile course)"
  shows "index_unchanged server (im_db m) (im_db m') \<or>
    (\<exists>c. stream_completion (bc_turns course) = Some c \<and> ic_complete c \<and> \<not> ic_cancelled c \<and> \<not> ic_truncated c) \<and>
    \<not> bc_control_cancelled course \<and>
    index_replaced te server generation (stream_entries (bc_turns course)) (im_db m')"
proof -
  have act: "same_active server (im_db m) (im_db m)" using wf by (simp add: same_active_def)
  show ?thesis
  proof (cases "parse_maintenance_windows (ri_maintenance_windows cfg)")
    case (Inl e)
    then show ?thesis
      using run act by (auto simp: run_build_def Let_def finish_defs finish_result unchanged fail_same_active)
  next
    case windows: (Inr windows)
    show ?thesis
    proof (cases "start_controller cfg (bc_start course)")
      case None
      then show ?thesis using run act windows by (auto simp: run_build_def Let_def guard_drop_unchanged)
    next
      case ctl: (Some ctl)
      define st where "st = build_run_state_new cfg (ce_instant (bc_start course)) ctl"
      define m1 where "m1 = (case ctl of None \<Rightarrow> m
        | Some c \<Rightarrow> update_runtime_controller (bc_start course) server (ctl_limits c) (ctl_state c) None m)"
      have db1: "im_db m1 = im_db m" by (simp add: m1_def split: option.splits)
      obtain result where loop: "build_loop cfg te server generation control windows (bc_turns course) st m1 = Some result"
        using run windows ctl by (auto simp: run_build_def Let_def st_def m1_def split: option.splits)
      have post: "loop_post te server generation (im_db m) (stream_entries (bc_turns course))
          (stream_completion (bc_turns course)) result"
        using build_loop_post [OF loop, of "im_db m" "[]"] build_start_inv [OF wf staged fresh] turns db1 by (simp add: st_def)
      obtain st1 m2 where result: "result = (st1, m2)" by fastforce
      note body = run [unfolded run_build_def Let_def windows sum.case ctl option.case, folded st_def m1_def, unfolded loop result]
      show ?thesis
        by (rule build_after_loop [OF post [unfolded result] meanwhile, where cfg = cfg and env = "bc_end course" and
              control = control and ownership = ownership and faults = "bc_faults course" and latency = "bc_latency_ms course"
              and shutdown_error = "bc_shutdown_error course"])
          (use body in \<open>simp split: option.splits\<close>)
    qed
  qed
qed

section \<open>A build that nothing disturbs\<close>

text \<open>
  Fixed pacing, no maintenance window, no sentinel; every statement succeeds, every probe finds the
  server healthy, nothing is cancelled, and the stream carries entries with an ItemID, progress
  within the range of the database and slices, up to its completion.
\<close>

definition smooth_config :: "resolved_index_config \<Rightarrow> bool" where
  "smooth_config cfg \<longleftrightarrow> ri_maintenance_windows cfg = [] \<and> \<not> ri_adaptive cfg \<and> ri_sentinel_tag cfg = None"

definition smooth_probe :: "resolved_index_config \<Rightarrow> health_round \<Rightarrow> bool" where
  "smooth_probe cfg rnd \<longleftrightarrow> \<not> hr_cancelled rnd \<and> hr_capability rnd = Inr () \<and>
     hr_elapsed rnd \<le> unat (ri_health_latency_threshold_ms cfg) * MILLISECOND \<and>
     ce_instant (hr_after rnd) + unat (max (ri_health_probe_interval_seconds cfg) 1) * SECOND \<le> ce_imax (hr_after rnd)"

definition smooth_event :: "inventory_event \<Rightarrow> bool" where
  "smooth_event event =
     (case event of
        EntryEvent entry \<Rightarrow> ie_item_id entry \<noteq> []
      | ProgressEvent progress \<Rightarrow> unat (ip_entries_seen progress) < 2 ^ 63 \<and> unat (ip_unique_items progress) < 2 ^ 63
      | _ \<Rightarrow> True)"

definition smooth_turn :: "resolved_index_config \<Rightarrow> build_turn \<Rightarrow> bool" where
  "smooth_turn cfg turn \<longleftrightarrow> (\<forall>m. tn_meanwhile turn m = m) \<and> (\<forall>k. \<not> tn_due_faults turn k) \<and> (\<forall>k. \<not> tn_faults turn k) \<and>
     tn_acquired turn \<and> \<not> tn_cancelled turn \<and> tn_still_running turn \<and>
     list_ex (smooth_probe cfg) (take 1 (rw_health (tn_rounds turn))) \<and>
     (\<exists>event. tn_item turn = StreamItem (Inr event) \<and> smooth_event event)"

definition smooth_course :: "resolved_index_config \<Rightarrow> build_course \<Rightarrow> bool" where
  "smooth_course cfg course \<longleftrightarrow> list_all (smooth_turn cfg) (bc_turns course) \<and> (\<forall>m. bc_meanwhile course m = m) \<and>
     (\<forall>k. \<not> bc_faults course k) \<and> bc_shutdown_error course = None \<and> \<not> bc_control_cancelled course \<and>
     (\<forall>k. \<not> ce_faults (bc_end course) 2 k)"

lemma insert_rows_ok:
  "\<forall>e \<in> set entries. ie_item_id e \<noteq> [] \<Longrightarrow> generation_exists server gen db \<Longrightarrow>
     \<exists>r. insert_entry_rows te (\<lambda>_. False) server gen entries n cnt db = Inr r"
proof (induction entries arbitrary: n cnt db)
  case (Cons entry entries)
  have "generation_exists server gen (db\<lparr>db_entries := a, db_fts := b\<rparr>)" for a b
    using Cons.prems(2) by (simp add: generation_exists_def)
  then show ?case
    using Cons.prems Cons.IH by (cases "entry_exists server gen (ie_item_id entry) db") simp_all
qed simp

lemma commit_batch_ok:
  assumes "\<And>k. \<not> faults k" and "\<forall>e \<in> set (br_pending st). ie_item_id e \<noteq> []"
    and "staged server generation (im_db m)" and "unat generation < 2 ^ 63"
  shows "\<exists>st' m'. commit_batch te env faults latency server generation st m = (Inr (), st', m') \<and>
    im_pause_overlays m' = im_pause_overlays m \<and> br_readiness st' = br_readiness st"
proof -
  have no: "faults = (\<lambda>_. False)" using assms(1) by auto
  have "generation_exists server (int (unat generation)) (im_db m)"
    using assms(3) by (auto simp: staged_def generation_exists_def staging_row_def)
  then obtain r where r: "insert_entry_rows te faults server (int (unat generation)) (br_pending st) 0 0 (im_db m) = Inr r"
    using insert_rows_ok [OF assms(2)] unfolding no by blast
  obtain n c db where "r = (n, c, db)" by (cases r)
  with r have "insert_entries te faults server generation (br_pending st) (im_db m) = (Inr c, db)"
    using assms(1,4) by (simp add: insert_entries_def i64_try_from_def no)
  then show ?thesis
    by (auto simp: commit_batch_def commit_pending_entries_def database_write_def Let_def update_build_def update_state_def)
qed

lemma smooth_ready:
  assumes "smooth_config cfg" and "smooth_turn cfg turn" and "ry_controller ry = None" and "\<not> po_health (overlay_of server m)"
  shows "\<exists>ry' m'. wait_for_build_readiness cfg server control [] (tn_rounds turn) ry m = Some (BuildReady, ry', m') \<and>
    ry_controller ry' = None \<and> \<not> po_health (overlay_of server m')"
proof -
  obtain rnd rounds where h: "rw_health (tn_rounds turn) = rnd # rounds" and p: "smooth_probe cfg rnd"
    using assms(2) by (cases "rw_health (tn_rounds turn)") (auto simp: smooth_turn_def)
  define m1 where "m1 = set_pause_overlay (rw_env (tn_rounds turn)) server (Some False) None m"
  have overlay: "\<not> po_health (overlay_of server m1)" using assms(4) by (simp add: m1_def overlay_of_set)
  have maint: "wait_for_maintenance [] server (rw_env (tn_rounds turn)) (rw_maintenance (tn_rounds turn)) m = Some (True, m1)"
    by (simp add: wait_for_maintenance_def m1_def)
  have healthy: "ho_healthy (probe_health cfg (hr_capability rnd) (hr_elapsed rnd) (hr_sentinel rnd))"
    using p assms(1) by (simp add: probe_health_def read_health_sentinel_def smooth_probe_def smooth_config_def Let_def)
  have "\<exists>next backoff m2. wait_for_health cfg server (rnd # rounds) (ry_next_health_probe ry) (ry_health_backoff ry) m1 =
      Some (BuildReady, next, backoff, m2)"
    using p overlay healthy
    by (auto simp: smooth_probe_def health_probe_action_def health_overlay_of instant_add_def Let_def)
  then obtain nx backoff m2 where w: "wait_for_health cfg server (rnd # rounds) (ry_next_health_probe ry) (ry_health_backoff ry) m1 =
      Some (BuildReady, nx, backoff, m2)" by blast
  have "\<not> po_health (overlay_of server m2)" using wait_for_health_result [OF w] by simp
  then show ?thesis
    using assms(3) by (simp add: wait_for_build_readiness_def maint h w del: wait_for_health.simps)
qed

text \<open>What such a turn keeps besides the invariant of every build.\<close>

definition smooth_state :: "string \<Rightarrow> build_run_state \<Rightarrow> index_manager \<Rightarrow> bool" where
  "smooth_state server st m \<longleftrightarrow> ry_controller (br_readiness st) = None \<and> \<not> po_health (overlay_of server m) \<and>
     (\<forall>e \<in> set (br_pending st). ie_item_id e \<noteq> [])"

lemma smooth_entry:
  assumes "smooth_turn cfg turn" and "build_inv te server generation db0 received st (im_db m)"
    and "smooth_state server st m" and "unat generation < 2 ^ 63" and "ie_item_id entry \<noteq> []"
  shows "\<exists>st' m'. handle_entry_event cfg te turn server generation entry st m = (EventContinue, st', m') \<and> smooth_state server st' m'"
proof -
  let ?st = "st\<lparr>br_pending := br_pending st @ [entry]\<rparr>"
  have inv: "build_inv te server generation db0 (received @ [entry]) ?st (im_db m)" using assms(2) by (rule build_inv_pending)
  obtain st' m' where c: "commit_batch te (tn_env turn) (tn_faults turn) (tn_latency_ms turn) server generation ?st m = (Inr (), st', m')"
    and keep: "im_pause_overlays m' = im_pause_overlays m" "br_readiness st' = br_readiness ?st"
    using commit_batch_ok [of "tn_faults turn" ?st server generation m te "tn_env turn" "tn_latency_ms turn"] assms inv
    by (auto simp: smooth_turn_def smooth_state_def build_inv_def)
  have "br_pending st' = []" using commit_batch_inv(2) [OF inv c] by simp
  then show ?thesis
    using assms c keep overlay_of_cong [OF keep(1), of server]
    by (auto simp: handle_entry_event_def Let_def smooth_turn_def smooth_state_def)
qed

lemma smooth_progress:
  assumes "smooth_turn cfg turn" and "smooth_state server st m" and "unat generation < 2 ^ 63"
    and "unat (ip_entries_seen progress) < 2 ^ 63" and "unat (ip_unique_items progress) < 2 ^ 63"
  shows "\<exists>st' m'. handle_progress_event turn server generation control progress st m = (EventContinue, st', m') \<and> smooth_state server st' m'"
proof -
  obtain m1 where w: "database_write (update_progress (tn_faults turn) server generation progress) m = (Inr (), m1)"
    and o1: "im_pause_overlays m1 = im_pause_overlays m"
    using assms(1,3-5) by (auto simp: update_progress_def i64_try_from_def database_write_def smooth_turn_def)
  let ?m2 = "update_runtime_progress server progress m1"
  obtain ok m3 where d: "enforce_duty_cycle turn server control (br_effective_duty_cycle_percent st) ?m2 = (ok, m3)" by fastforce
  have ok: "ok" using d assms(1) by (auto simp: enforce_duty_cycle_def Let_def smooth_turn_def split: if_splits)
  have "im_pause_overlays ?m2 = im_pause_overlays m"
    using o1 by (simp add: update_runtime_progress_def update_build_def update_state_def)
  moreover from this have "im_pause_overlays m3 = im_pause_overlays m"
    using d by (auto simp: enforce_duty_cycle_def Let_def overlays_after split: if_splits)
  ultimately have "overlay_of server ?m2 = overlay_of server m" "overlay_of server m3 = overlay_of server m"
    by (auto intro: overlay_of_cong)
  then show ?thesis
    using assms(2) d ok by (auto simp: handle_progress_event_def Let_def w smooth_state_def)
qed

lemma smooth_event_step:
  assumes "smooth_turn cfg turn" and "build_inv te server generation db0 received st (im_db m)"
    and "smooth_state server st m" and "unat generation < 2 ^ 63" and "smooth_event event" and "\<not> is_completion (Inr event)"
  shows "\<exists>st' m'. handle_inventory_event cfg te turn server generation control (Inr event) st m = (EventContinue, st', m') \<and>
    smooth_state server st' m'"
proof (cases event)
  case (EntryEvent entry)
  let ?st = "st\<lparr>br_received_entry_count := saturating_add (br_received_entry_count st) 1\<rparr>"
  have "build_inv te server generation db0 received ?st (im_db m)" using assms(2) build_inv_cong [of ?st st] by simp
  moreover have "smooth_state server ?st m" using assms(3) by (simp add: smooth_state_def)
  ultimately show ?thesis
    using smooth_entry [OF assms(1) _ _ assms(4)] assms(5) EntryEvent
    by (simp add: handle_inventory_event_def smooth_event_def)
next
  case (ProgressEvent progress)
  then show ?thesis
    using smooth_progress [OF assms(1,3,4)] assms(5) by (simp add: handle_inventory_event_def smooth_event_def)
next
  case (SliceEvent observation)
  then show ?thesis
    using assms(3) by (simp add: handle_inventory_event_def handle_slice_event_def smooth_state_def)
next
  case (CompletedEvent result)
  then show ?thesis using assms(6) by (simp add: is_completion_def)
qed

lemma smooth_due:
  assumes "smooth_turn cfg turn" and "build_inv te server generation db0 received st (im_db m)"
    and "smooth_state server st m" and "unat generation < 2 ^ 63"
  shows "\<exists>st' m'. commit_pending_if_due cfg te (tn_due_env turn) (tn_due_faults turn) (tn_latency_ms turn) server generation st m =
    (Inr (), st', m') \<and> smooth_state server st' m'"
proof -
  obtain st' m' where c: "commit_batch te (tn_due_env turn) (tn_due_faults turn) (tn_latency_ms turn) server generation st m = (Inr (), st', m')"
    and keep: "im_pause_overlays m' = im_pause_overlays m" "br_readiness st' = br_readiness st"
    using commit_batch_ok [of "tn_due_faults turn" st server generation m te "tn_due_env turn" "tn_latency_ms turn"] assms
    by (auto simp: smooth_turn_def smooth_state_def build_inv_def)
  have "br_pending st' = []" using commit_batch_inv(2) [OF assms(2) c] by simp
  then show ?thesis
    using assms(3) c keep overlay_of_cong [OF keep(1), of server]
    by (auto simp: commit_pending_if_due_def smooth_state_def)
qed

lemma smooth_loop:
  assumes "smooth_config cfg" and "unat generation < 2 ^ 63"
  shows "list_all (smooth_turn cfg) turns \<Longrightarrow> stream_completion turns = Some c \<Longrightarrow> \<not> ic_truncated c \<Longrightarrow>
    build_inv te server generation db0 received st (im_db m) \<Longrightarrow> run_flags st = (False, False, False, None) \<Longrightarrow>
    smooth_state server st m \<Longrightarrow>
    \<exists>st' m'. build_loop cfg te server generation control [] turns st m = Some (Some st', m') \<and>
      run_flags st' = (True, ic_complete c, ic_cancelled c, None) \<and> smooth_state server st' m'"
proof (induction turns arbitrary: st m received)
  case (Cons turn turns)
  have turn: "smooth_turn cfg turn" and mw: "tn_meanwhile turn m = m" using Cons.prems(1) by (simp_all add: smooth_turn_def)
  obtain st1 m1 where due: "commit_pending_if_due cfg te (tn_due_env turn) (tn_due_faults turn) (tn_latency_ms turn) server
      generation st m = (Inr (), st1, m1)" and s1: "smooth_state server st1 m1"
    using smooth_due [OF turn Cons.prems(4,6) assms(2)] by blast
  note inv1 = commit_pending_if_due_inv [OF Cons.prems(4) due]
  obtain ry m2 where wait: "wait_for_build_readiness cfg server control [] (tn_rounds turn) (br_readiness st1) m1 =
      Some (BuildReady, ry, m2)" and ry: "ry_controller ry = None" "\<not> po_health (overlay_of server m2)"
    using smooth_ready [OF assms(1) turn] s1 unfolding smooth_state_def by blast
  define st2 where "st2 = st1\<lparr>br_readiness := ry, br_drained_event_count := saturating_add (br_drained_event_count st1) 1\<rparr>"
  have inv2: "build_inv te server generation db0 received st2 (im_db m2)"
    using inv1(3) readiness_db [OF wait] build_inv_cong [of st2 st1] by (simp add: st2_def)
  have flags2: "run_flags st2 = (False, False, False, None)"
    using inv1(2) Cons.prems(5) by (simp add: st2_def run_flags_def)
  have s2: "smooth_state server st2 m2" using s1 ry by (simp add: smooth_state_def st2_def)
  obtain event where event: "tn_item turn = StreamItem (Inr event)" "smooth_event event" using turn by (auto simp: smooth_turn_def)
  have body: "build_loop cfg te server generation control [] (turn # turns) st m =
      (case handle_inventory_event cfg te turn server generation control (Inr event) st2 m2 of
         (EventContinue, st3, m3) \<Rightarrow> build_loop cfg te server generation control [] turns st3 m3
       | (EventStop, st3, m3) \<Rightarrow> Some (Some st3, m3)
       | (EventCancelled, st3, m3) \<Rightarrow> Some (Some (st3\<lparr>br_cancelled := True\<rparr>), m3)
       | (EventFailed e, st3, m3) \<Rightarrow> Some (Some (st3\<lparr>br_failed := Some e\<rparr>), m3)
       | (EventPanicked, st3, m3) \<Rightarrow> Some (None, m3))"
    by (simp add: mw due wait event(1) st2_def)
  show ?case
  proof (cases "is_completion (Inr event)")
    case True
    then have "event = CompletedEvent c"
      using Cons.prems(2) event(1) by (auto simp: is_completion_def split: inventory_event.splits)
    then show ?thesis
      using body flags2 s2 Cons.prems(3)
      by (auto simp: handle_inventory_event_def record_completion_def Let_def run_flags_def smooth_state_def)
  next
    case False
    obtain st3 m3 where h: "handle_inventory_event cfg te turn server generation control (Inr event) st2 m2 = (EventContinue, st3, m3)"
      and s3: "smooth_state server st3 m3"
      using smooth_event_step [OF turn inv2 s2 assms(2) event(2) False] by blast
    have post: "event_post te server generation db0 (received @ event_entries (Inr event)) st2 (EventContinue, st3, m3)"
      using handle_inventory_event_post [OF inv2 False, of cfg turn control] h by simp
    have "stream_completion turns = Some c"
      using Cons.prems(2) event(1) False by (auto simp: is_completion_def split: inventory_event.splits)
    then show ?thesis
      using Cons.IH [of "received @ event_entries (Inr event)" st3 m3] Cons.prems(1,3) post s3 flags2 body h
      by (auto simp: event_post_def)
  qed
qed simp

lemma smooth_finish:
  assumes course: "smooth_course cfg course" and range: "unat generation < 2 ^ 63"
    and inv: "build_inv te server generation db0 entries st1 (im_db m1)" and s1: "smooth_state server st1 m1"
    and flags: "run_flags st1 = (True, True, False, None)"
  obtains st3 m3 where "finish_loop te (bc_end course) (bc_faults course) (bc_latency_ms course) None (bc_meanwhile course)
      server generation control st1 m1 = (LoopFinished, st3, m3)"
    and "build_inv te server generation db0 entries st3 (im_db m3)" and "br_pending st3 = []"
    and "br_completed st3" and "\<not> br_cancelled st3"
proof -
  let ?finish = "finish_loop te (bc_end course) (bc_faults course) (bc_latency_ms course) None (bc_meanwhile course)
    server generation control st1 m1"
  have quiet: "bc_meanwhile course m1 = m1" "\<And>k. \<not> bc_faults course k" using course by (simp_all add: smooth_course_def)
  obtain st2 m2 where commit: "commit_batch te (bc_end course) (bc_faults course) (bc_latency_ms course) server generation st1 m1 =
      (Inr (), st2, m2)"
    using commit_batch_ok [of "bc_faults course" st1 server generation m1 te "bc_end course" "bc_latency_ms course"]
      quiet(2) s1 inv range by (auto simp: smooth_state_def build_inv_def)
  note after = commit_batch_inv [OF inv commit]
  show thesis
  proof (cases "br_pending st1 = []")
    case True
    then have "?finish = (LoopFinished, st1, m1)"
      using flags quiet(1) by (simp add: finish_loop_def Let_def run_flags_def)
    then show thesis using that [of st1 m1] inv True flags by (simp add: run_flags_def)
  next
    case False
    then have "?finish = (LoopFinished, st2, m2)"
      using flags after(3) quiet(1) commit by (simp add: finish_loop_def Let_def run_flags_def)
    then show thesis using that [of st2 m2] after flags by (simp add: run_flags_def)
  qed
qed

lemma collected_promotes:
  assumes inv: "build_inv te server generation db0 entries st (im_db m)" and "br_pending st = []"
    and range: "unat generation < 2 ^ 63" "length entries < 2 ^ 63" and calm: "\<And>k. \<not> faults k"
  obtains db' where "promote_with_profile faults server generation completed_at (br_persisted_item_count st)
      profile warning (im_db m) = (Inr (), db')"
proof -
  have "unat (br_persisted_item_count st) = min (length (first_items {} entries)) (2 ^ 64 - 1)"
    using inv assms(2) by (auto simp: build_inv_def collected_def)
  then have "unat (br_persisted_item_count st) < 2 ^ 63" using range(2) first_items_length [of "{}" entries] by simp
  moreover obtain row where row: "db_wf (im_db m)" "row \<in> set (db_generations (im_db m))" "staging_row server generation row"
    using inv by (auto simp: build_inv_def same_active_def staged_def)
  ultimately show thesis using promote_succeeds [where faults = faults, OF row(1) calm range(1) _ row(2,3)] that by blast
qed

lemma smooth_build_run:
  assumes cfg: "smooth_config cfg" and course: "smooth_course cfg course"
    and c: "stream_completion (bc_turns course) = Some c" "ic_complete c" "\<not> ic_cancelled c" "\<not> ic_truncated c"
    and wf: "db_wf (im_db m)" and staged: "staged server generation (im_db m)"
    and fresh: "generation_entries server (int (unat generation)) (im_db m) = []"
    and range: "unat generation < 2 ^ 63" "length (stream_entries (bc_turns course)) < 2 ^ 63"
    and overlay: "\<not> po_health (overlay_of server m)"
  shows "\<exists>m'. run_build cfg te course server generation control ownership m = Some m' \<and>
    index_replaced te server generation (stream_entries (bc_turns course)) (im_db m')"
proof -
  let ?st = "build_run_state_new cfg (ce_instant (bc_start course)) None"
  let ?entries = "stream_entries (bc_turns course)"
  let ?ending = "\<lambda>st. finalize_build cfg (bc_end course) False server generation control ownership st LoopFinished"
  note start = build_start_inv(1) [OF wf staged fresh, of te cfg "ce_instant (bc_start course)" None]
    build_start_inv(2) [OF wf staged fresh, of cfg "ce_instant (bc_start course)" None]
  have quiet: "smooth_state server ?st m" using overlay by (simp add: smooth_state_def build_run_state_new_def)
  have turns: "list_all (smooth_turn cfg) (bc_turns course)" and calm: "\<And>k. \<not> ce_faults (bc_end course) 2 k"
    using course by (simp_all add: smooth_course_def)
  obtain st1 m1 where loop: "build_loop cfg te server generation control [] (bc_turns course) ?st m = Some (Some st1, m1)"
    and flags: "run_flags st1 = (True, ic_complete c, ic_cancelled c, None)" and s1: "smooth_state server st1 m1"
    using smooth_loop [OF cfg range(1) turns c(1,4) start(1,2) quiet] by blast
  have keeps: "keeps_server server (tn_meanwhile turn)" if "turn \<in> set (bc_turns course)" for turn
    using turns that by (auto simp: list_all_iff smooth_turn_def keeps_server_def)
  have "loop_post te server generation (im_db m) ?entries (Some c) (Some st1, m1)"
    using build_loop_post [OF loop start(1,2) keeps] c(1) by simp
  then have inv: "build_inv te server generation (im_db m) ?entries st1 (im_db m1)"
    using flags by (simp add: loop_post_def run_flags_def)
  have complete: "run_flags st1 = (True, True, False, None)" using flags c(2,3) by simp
  obtain st3 m3 where ended: "finish_loop te (bc_end course) (bc_faults course) (bc_latency_ms course) None (bc_meanwhile course)
      server generation control st1 m1 = (LoopFinished, st3, m3)"
    and inv3: "build_inv te server generation (im_db m) ?entries st3 (im_db m3)" "br_pending st3 = []"
    and flags3: "br_completed st3" "\<not> br_cancelled st3"
    by (rule smooth_finish [OF course range(1) inv s1 complete])
  obtain db' where promoted: "promote_with_profile (ce_faults (bc_end course) 2) server generation (timestamp_now (bc_end course))
      (br_persisted_item_count st3) (br_completion_profile st3) (br_completion_warning st3) (im_db m3) = (Inr (), db')"
    by (rule collected_promotes [OF inv3 range calm])
  have "run_build cfg te course server generation control ownership m = Some (?ending st3 m3)"
    using cfg loop ended course by (simp add: run_build_def smooth_config_def start_controller_def smooth_course_def)
  moreover have "index_replaced te server generation ?entries (im_db (?ending st3 m3))"
    using flags3 promoted promoted_index [OF inv3 promoted]
    by (simp add: finalize_defs promote_completed_build_def database_write_def finish_promoted_build_def
        finish_defs finish_result)
  ultimately show ?thesis by blast
qed

text \<open>
  C12. An inventory that ends complete is promoted when nothing disturbs the build: the build returns, and
  the active index is exactly what was delivered.
\<close>

theorem smooth_build_promotes:
  assumes cfg: "smooth_config cfg" and course: "smooth_course cfg course"
    and c: "stream_completion (bc_turns course) = Some c" "ic_complete c" "\<not> ic_cancelled c" "\<not> ic_truncated c"
    and wf: "db_wf (im_db m)" and staged: "staged server generation (im_db m)"
    and fresh: "generation_entries server (int (unat generation)) (im_db m) = []"
    and range: "unat generation < 2 ^ 63" "length (stream_entries (bc_turns course)) < 2 ^ 63"
    and overlay: "\<not> po_health (overlay_of server m)"
  shows "\<exists>m'. run_build cfg te course server generation control ownership m = Some m' \<and>
    index_replaced te server generation (stream_entries (bc_turns course)) (im_db m')"
  using assms by (rule smooth_build_run)

section \<open>Witnesses\<close>

definition calm_turn :: "inventory_event \<Rightarrow> build_turn" where
  "calm_turn event = \<lparr>tn_meanwhile = (\<lambda>m. m), tn_due_env = calm_call, tn_due_faults = (\<lambda>_. False),
     tn_rounds = calm_rounds,
     tn_item = StreamItem (Inr event), tn_env = calm_call, tn_faults = (\<lambda>_. False), tn_latency_ms = 0, tn_acquired = True,
     tn_host = \<lparr>hm_cpu_percent = None, hm_available_memory_percent = None, hm_disk_active_percent = None,
       hm_disk_queue = None, hm_process_working_set_bytes = None, hm_process_private_bytes = None,
       hm_process_read_bytes_per_second = None, hm_process_write_bytes_per_second = None, hm_disk_free_bytes = None\<rparr>,
     tn_free_bytes = None, tn_set_pacing = (\<lambda>_. None), tn_cancelled = False, tn_still_running = True, tn_duty_env = calm_call\<rparr>"

definition calm_completion :: inventory_completed where
  "calm_completion = \<lparr>ic_complete = True, ic_cancelled = False, ic_truncated = False, ic_warning = None,
     ic_organization = OrgHierarchical, ic_source = SrcDa3\<rparr>"

text \<open>The same entry twice, then the completion.\<close>

definition calm_course :: build_course where
  "calm_course = \<lparr>bc_start = calm_call,
     bc_turns = [calm_turn (EntryEvent (hd demo_entries)), calm_turn (EntryEvent (hd demo_entries)),
       calm_turn (CompletedEvent calm_completion)],
     bc_meanwhile = (\<lambda>m. m), bc_faults = (\<lambda>_. False), bc_latency_ms = 0, bc_shutdown_error = None,
     bc_control_cancelled = False, bc_end = calm_call\<rparr>"

definition calm_manager :: index_manager where
  "calm_manager = manager_new 16 demo_staged"

lemma calm_facts:
  "smooth_config calm_settings" "smooth_course calm_settings calm_course"
  "stream_completion (bc_turns calm_course) = Some calm_completion"
  "stream_entries (bc_turns calm_course) = [hd demo_entries, hd demo_entries]"
  "db_wf (im_db calm_manager)" "staged ''S'' 1 (im_db calm_manager)"
  "generation_entries ''S'' (int (unat (1 :: u64))) (im_db calm_manager) = []"
  "\<not> po_health (overlay_of ''S'' calm_manager)"
proof -
  show "smooth_config calm_settings" by (simp add: smooth_config_def calm_settings_def)
  show "smooth_course calm_settings calm_course"
    by (simp add: smooth_course_def calm_course_def smooth_turn_def calm_turn_def calm_rounds_def smooth_probe_def calm_settings_def calm_call_def
        smooth_event_def demo_entries_def ascii_def SECOND_def)
  show "stream_completion (bc_turns calm_course) = Some calm_completion"
    "stream_entries (bc_turns calm_course) = [hd demo_entries, hd demo_entries]"
    by (simp_all add: calm_course_def calm_turn_def is_completion_def event_entries_def)
  show "db_wf (im_db calm_manager)" using demo_staged_wf by (simp add: calm_manager_def manager_new_def)
  show "staged ''S'' 1 (im_db calm_manager)" "generation_entries ''S'' (int (unat (1 :: u64))) (im_db calm_manager) = []"
    by (simp_all add: calm_manager_def manager_new_def demo_staged_eq staged_def staging_row_def generation_entries_def)
  show "\<not> po_health (overlay_of ''S'' calm_manager)"
    by (simp add: calm_manager_def manager_new_def overlay_of_def pause_overlay_default_def)
qed

theorem smooth_build_promotes_witness:
  "\<exists>m'. run_build calm_settings demo_text calm_course ''S'' 1 7 3 calm_manager = Some m' \<and>
     active_entries ''S'' (im_db m') = [entry_of demo_text ''S'' 1 (hd demo_entries)]"
  using smooth_build_promotes [OF calm_facts(1-3) _ _ _ calm_facts(5-7) _ _ calm_facts(8), of demo_text 7 3]
  by (auto simp: calm_facts(4) calm_completion_def index_replaced_def)

definition cancelled_course :: build_course where
  "cancelled_course = calm_course\<lparr>bc_control_cancelled := True\<rparr>"

theorem build_replaces_or_keeps_index_witness:
  "\<exists>m'. run_build calm_settings demo_text cancelled_course ''S'' 1 7 3 calm_manager = Some m' \<and>
     index_unchanged ''S'' demo_staged (im_db m')"
proof -
  have keeps: "keeps_server ''S'' (\<lambda>m. m)" by (simp add: keeps_server_def)
  obtain m1 where "run_build calm_settings demo_text calm_course ''S'' 1 7 3 calm_manager = Some m1"
    using smooth_build_run [OF calm_facts(1-3) _ _ _ calm_facts(5-7) _ _ calm_facts(8), of demo_text 7 3]
    by (auto simp: calm_facts(4) calm_completion_def)
  then have "run_build calm_settings demo_text cancelled_course ''S'' 1 7 3 calm_manager \<noteq> None"
    by (auto simp: run_build_def Let_def cancelled_course_def split: sum.splits option.splits prod.splits)
  then obtain m' where run: "run_build calm_settings demo_text cancelled_course ''S'' 1 7 3 calm_manager = Some m'" by blast
  have turns: "keeps_server ''S'' (tn_meanwhile turn)" if "turn \<in> set (bc_turns cancelled_course)" for turn
    using that keeps by (auto simp: cancelled_course_def calm_course_def calm_turn_def)
  have "index_unchanged ''S'' (im_db calm_manager) (im_db m')"
    using build_replaces_or_keeps_index [OF run calm_facts(5-7) turns] keeps
    by (auto simp: cancelled_course_def calm_course_def)
  then show ?thesis using run by (auto simp: calm_manager_def manager_new_def)
qed

end
