(* ===== verification/Wire.thy ===== *)
theory Wire
  imports LiveSearch Status
begin

text \<open>
  What crosses the network: the messages of \<open>bridge.proto\<close>, the gateway's mapping of its own data
  to them (\<open>server/map.rs\<close>) and the client library's typed reading of them
  (\<open>types/conversions.rs\<close>), which rejects unknown enumeration values and inconsistent messages. A
  protobuf enumeration is its number. The lemmas say that the client accepts what the gateway sends
  and that a status can be read back from what the client sees.
\<close>

section \<open>Messages\<close>

record proto_browse_page =
  pp_session_id :: string
  pp_nodes :: "proto_browse_node list"
  pp_next_page_token :: "string option"
  pp_complete :: bool
  pp_organization :: int
  pp_source :: int
  pp_warning :: "string option"

record proto_capabilities =
  pc_application_version :: string
  pc_protocol_version :: string
  pc_max_page_size :: u32
  pc_supports_browse_sessions :: bool
  pc_supports_search :: bool
  pc_organization :: int
  pc_source :: int
  pc_supports_indexed_search :: bool
  pc_indexed_search_protocol_version :: string
  pc_max_indexed_search_results :: u32
  pc_search_index_state :: int
  pc_search_index_promoting :: bool

record proto_progress =
  pg_branches_visited :: u64
  pg_entries_seen :: u64
  pg_unique_items :: u64
  pg_active_time_ms :: u64
  pg_paused_time_ms :: u64
  pg_items_per_second :: f64
  pg_estimated_remaining_ms :: "u64 option"

record proto_limits =
  pl_item_rate_per_second :: u32
  pl_batch_size :: u32
  pl_duty_cycle_percent :: u32

record proto_foreground =
  pf_active_count :: u64
  pf_operations :: u64
  pf_errors :: u64
  pf_bad_quality :: u64
  pf_latency_p50_ms :: "u64 option"
  pf_latency_p95_ms :: "u64 option"
  pf_latency_max_ms :: "u64 option"
  pf_last_error :: bool
  pf_last_bad_quality :: bool

record proto_host =
  ph_cpu_percent :: "f64 option"
  ph_available_memory_percent :: "f64 option"
  ph_disk_active_percent :: "f64 option"
  ph_disk_queue :: "f64 option"
  ph_process_working_set_bytes :: "u64 option"
  ph_process_private_bytes :: "u64 option"
  ph_process_read_bytes_per_second :: "u64 option"
  ph_process_write_bytes_per_second :: "u64 option"
  ph_disk_free_bytes :: "u64 option"

record proto_storage =
  pt_main_bytes :: u64
  pt_wal_bytes :: u64
  pt_shm_bytes :: u64
  pt_free_bytes :: "u64 option"
  pt_last_commit_latency_ms :: "u64 option"

record proto_scheduler =
  pd_next_refresh_at :: "string option"
  pd_last_attempt_at :: "string option"
  pd_last_success_at :: "string option"
  pd_last_success_duration_ms :: "u64 option"
  pd_retry_after :: "string option"
  pd_consecutive_failures :: u32
  pd_circuit_open :: bool

record proto_health =
  pe_state :: int
  pe_sentinel_configured :: bool

record proto_status =
  ps_server :: string
  ps_state :: int
  ps_configured :: bool
  ps_active_generation :: u64
  ps_entry_count :: u64
  ps_unique_item_count :: u64
  ps_started_at :: "string option"
  ps_completed_at :: "string option"
  ps_last_error :: "string option"
  ps_database_bytes :: u64
  ps_organization :: int
  ps_source :: int
  ps_progress :: "proto_progress option"
  ps_effective_limits :: "proto_limits option"
  ps_controller_state :: int
  ps_pause_reason :: "int option"
  ps_recovery_deadline :: "string option"
  ps_pause_reason_detail :: "string option"
  ps_foreground :: "proto_foreground option"
  ps_host :: "proto_host option"
  ps_storage :: "proto_storage option"
  ps_scheduler :: "proto_scheduler option"
  ps_health :: "proto_health option"
  ps_promoting :: bool

record proto_match =
  px_item_id :: ustring
  px_display_name :: ustring
  px_kind :: int
  px_breadcrumbs :: "ustring list"

record proto_search_index_response =
  pr_matches :: "proto_match list"
  pr_has_more :: bool
  pr_status :: "proto_status option"

datatype proto_typed_value = StringValue ustring | IntValue "32 word" | FloatValue f64 | BoolValue bool

section \<open>The gateway's side\<close>

definition map_namespace_organization :: "namespace_organization \<Rightarrow> int" where
  "map_namespace_organization value =
     (case value of OrgUnspecified \<Rightarrow> 0 | OrgFlat \<Rightarrow> 1 | OrgHierarchical \<Rightarrow> 2)"

definition map_browse_source :: "browse_source \<Rightarrow> int" where
  "map_browse_source value =
     (case value of SrcUnspecified \<Rightarrow> 0 | SrcDa3 \<Rightarrow> 1 | SrcDa2 \<Rightarrow> 2 | SrcFlat \<Rightarrow> 3 | SrcDerived \<Rightarrow> 4)"

definition map_browse_page :: "string \<Rightarrow> browse_page \<Rightarrow> proto_browse_page" where
  "map_browse_page session_id page =
     \<lparr>pp_session_id = session_id, pp_nodes = map map_browse_node (bp_nodes page),
      pp_next_page_token = bp_next_page_token page, pp_complete = bp_complete page,
      pp_organization = map_namespace_organization (bp_organization page),
      pp_source = map_browse_source (bp_source page), pp_warning = bp_warning page\<rparr>"

text \<open>Promotion is sent as a refresh with the promoting mark.\<close>

definition map_index_state :: "index_state \<Rightarrow> int" where
  "map_index_state state =
     (case state of IndexNotIndexed \<Rightarrow> 1 | IndexPartial \<Rightarrow> 2 | IndexReady \<Rightarrow> 3 | IndexStale \<Rightarrow> 4
      | IndexRefreshing \<Rightarrow> 5 | IndexPromoting \<Rightarrow> 5 | IndexFailed \<Rightarrow> 6 | IndexDeleting \<Rightarrow> 8)"

definition is_promoting_state :: "index_state \<Rightarrow> bool" where
  "is_promoting_state state \<longleftrightarrow> state = IndexPromoting"

definition map_inventory_progress :: "inventory_progress \<Rightarrow> proto_progress" where
  "map_inventory_progress p =
     \<lparr>pg_branches_visited = ip_branches_visited p, pg_entries_seen = ip_entries_seen p,
      pg_unique_items = ip_unique_items p, pg_active_time_ms = ip_active_time_ms p,
      pg_paused_time_ms = ip_paused_time_ms p, pg_items_per_second = ip_items_per_second p,
      pg_estimated_remaining_ms = ip_estimated_remaining_ms p\<rparr>"

definition controller_state_code :: "controller_state option \<Rightarrow> int" where
  "controller_state_code state =
     (case state of None \<Rightarrow> 0 | Some Ramping \<Rightarrow> 1 | Some Steady \<Rightarrow> 2 | Some Throttled \<Rightarrow> 3 | Some (Paused _) \<Rightarrow> 4)"

text \<open>There is no code for a maintenance pause; its text still goes into the detail.\<close>

definition pause_reason_code :: "pause_reason \<Rightarrow> int option" where
  "pause_reason_code reason =
     (case reason of
        Foreground \<Rightarrow> Some 1 | OpcHealth \<Rightarrow> Some 2 | HostCpu \<Rightarrow> Some 3 | Memory \<Rightarrow> Some 4 | Disk \<Rightarrow> Some 5
      | Database \<Rightarrow> Some 6 | Operator \<Rightarrow> Some 7 | Circuit \<Rightarrow> Some 8 | Maintenance \<Rightarrow> None)"

definition health_state_code :: "health_probe_state \<Rightarrow> int" where
  "health_state_code health = (case health of HealthUnavailable \<Rightarrow> 3 | HealthHealthy \<Rightarrow> 1 | HealthUnhealthy \<Rightarrow> 2)"

definition map_foreground :: "foreground_metrics \<Rightarrow> proto_foreground" where
  "map_foreground f =
     \<lparr>pf_active_count = fm_active_count f, pf_operations = fm_operations f, pf_errors = fm_errors f,
      pf_bad_quality = fm_bad_quality f, pf_latency_p50_ms = fm_latency_p50_ms f,
      pf_latency_p95_ms = fm_latency_p95_ms f, pf_latency_max_ms = fm_latency_max_ms f,
      pf_last_error = fm_last_error f, pf_last_bad_quality = fm_last_bad_quality f\<rparr>"

definition map_host :: "host_metrics \<Rightarrow> proto_host" where
  "map_host h =
     \<lparr>ph_cpu_percent = hm_cpu_percent h, ph_available_memory_percent = hm_available_memory_percent h,
      ph_disk_active_percent = hm_disk_active_percent h, ph_disk_queue = hm_disk_queue h,
      ph_process_working_set_bytes = hm_process_working_set_bytes h,
      ph_process_private_bytes = hm_process_private_bytes h,
      ph_process_read_bytes_per_second = hm_process_read_bytes_per_second h,
      ph_process_write_bytes_per_second = hm_process_write_bytes_per_second h,
      ph_disk_free_bytes = hm_disk_free_bytes h\<rparr>"

definition map_storage :: "storage_diagnostics \<Rightarrow> proto_storage" where
  "map_storage s =
     \<lparr>pt_main_bytes = sd_main_bytes s, pt_wal_bytes = sd_wal_bytes s, pt_shm_bytes = sd_shm_bytes s,
      pt_free_bytes = sd_free_bytes s, pt_last_commit_latency_ms = sd_last_commit_latency_ms s\<rparr>"

definition map_scheduler :: "scheduler_diagnostics \<Rightarrow> proto_scheduler" where
  "map_scheduler s =
     \<lparr>pd_next_refresh_at = sch_next_refresh_at s, pd_last_attempt_at = sch_last_attempt_at s,
      pd_last_success_at = sch_last_success_at s, pd_last_success_duration_ms = sch_last_success_duration_ms s,
      pd_retry_after = sch_retry_after s, pd_consecutive_failures = sch_consecutive_failures s,
      pd_circuit_open = sch_circuit_open s\<rparr>"

definition map_limits :: "inventory_limits \<Rightarrow> proto_limits" where
  "map_limits limits =
     \<lparr>pl_item_rate_per_second = item_rate_per_second limits, pl_batch_size = batch_size limits,
      pl_duty_cycle_percent = ucast (duty_cycle_percent limits)\<rparr>"

definition map_index_status :: "index_status \<Rightarrow> proto_status" where
  "map_index_status status =
     \<lparr>ps_server = is_server status, ps_state = map_index_state (is_state status),
      ps_configured = is_auto_refresh_enabled status, ps_active_generation = is_active_generation status,
      ps_entry_count = is_entry_count status, ps_unique_item_count = is_unique_item_count status,
      ps_started_at = is_started_at status, ps_completed_at = is_completed_at status,
      ps_last_error = is_last_error status, ps_database_bytes = is_database_bytes status,
      ps_organization = map_namespace_organization (is_organization status),
      ps_source = map_browse_source (is_source status),
      ps_progress = map_option map_inventory_progress (is_progress status),
      ps_effective_limits = map_option map_limits (is_effective_limits status),
      ps_controller_state = controller_state_code (is_controller_state status),
      ps_pause_reason = Option.bind (is_pause_reason status) pause_reason_code,
      ps_recovery_deadline = is_recovery_deadline status,
      ps_pause_reason_detail = map_option pause_reason_as_str (is_pause_reason status),
      ps_foreground = Some (map_foreground (is_foreground_metrics status)),
      ps_host = Some (map_host (is_host_metrics status)),
      ps_storage = Some (map_storage (is_storage status)),
      ps_scheduler = Some (map_scheduler (is_scheduler status)),
      ps_health = Some \<lparr>pe_state = health_state_code (is_health status),
                        pe_sentinel_configured = is_sentinel_configured status\<rparr>,
      ps_promoting = is_promoting_state (is_state status)\<rparr>"

definition map_index_match :: "indexed_match \<Rightarrow> proto_match" where
  "map_index_match v =
     \<lparr>px_item_id = im_item_id v, px_display_name = im_display_name v,
      px_kind = (case im_kind v of InvItem \<Rightarrow> 2 | InvBranchAndItem \<Rightarrow> 3), px_breadcrumbs = im_breadcrumbs v\<rparr>"

text \<open>The reply of the indexed search handler (\<open>server/service.rs\<close>).\<close>

definition map_indexed_search :: "indexed_search \<Rightarrow> proto_search_index_response" where
  "map_indexed_search result =
     \<lparr>pr_matches = map map_index_match (se_matches result), pr_has_more = se_has_more result,
      pr_status = Some (map_index_status (se_status result))\<rparr>"

section \<open>The client library: types\<close>

datatype client_organization = ClientOrgUnspecified | ClientOrgFlat | ClientOrgHierarchical

datatype client_source = ClientSrcUnspecified | ClientSrcDa3 | ClientSrcDa2 | ClientSrcFlat | ClientSrcDerived

datatype client_node_kind = KindUnspecified | KindBranch | KindItem | KindBranchAndItem

definition kind_is_item :: "client_node_kind \<Rightarrow> bool" where
  "kind_is_item kind \<longleftrightarrow> kind = KindItem \<or> kind = KindBranchAndItem"

datatype search_index_state =
  StateUnspecified | StateNotIndexed | StatePartial | StateReady | StateStale | StateRefreshing | StatePromoting
| StateFailed | StateDeleting

datatype index_controller_state = CtlUnspecified | CtlRamping | CtlSteady | CtlThrottled | CtlPaused

datatype index_pause_reason =
  ReasonUnspecified | ReasonForeground | ReasonOpcHealth | ReasonHostCpu | ReasonMemory | ReasonDisk | ReasonDatabase
| ReasonOperator | ReasonCircuit

datatype index_health_state = IhUnspecified | IhHealthy | IhUnhealthy | IhUnavailable

record client_node =
  cn_node_key :: string
  cn_display_name :: ustring
  cn_kind :: client_node_kind
  cn_item_id :: "ustring option"

record client_page =
  cp_session_id :: string
  cp_nodes :: "client_node list"
  cp_next_page_token :: "string option"
  cp_complete :: bool
  cp_organization :: client_organization
  cp_source :: client_source
  cp_warning :: "string option"

record client_capabilities =
  ca_application_version :: string
  ca_protocol_version :: string
  ca_max_page_size :: u32
  ca_supports_browse_sessions :: bool
  ca_supports_search :: bool
  ca_organization :: client_organization
  ca_source :: client_source
  ca_supports_indexed_search :: bool
  ca_indexed_search_protocol_version :: string
  ca_max_indexed_search_results :: u32
  ca_search_index_state :: search_index_state
  ca_search_index_promoting :: bool

record client_progress =
  cg_branches_visited :: u64
  cg_entries_seen :: u64
  cg_unique_items :: u64
  cg_active_time_ms :: u64
  cg_paused_time_ms :: u64
  cg_items_per_second :: f64
  cg_estimated_remaining_ms :: "u64 option"

record client_limits =
  cl_item_rate_per_second :: u32
  cl_batch_size :: u32
  cl_duty_cycle_percent :: u32

record client_foreground =
  cf_active_count :: u64
  cf_operations :: u64
  cf_errors :: u64
  cf_bad_quality :: u64
  cf_latency_p50_ms :: "u64 option"
  cf_latency_p95_ms :: "u64 option"
  cf_latency_max_ms :: "u64 option"
  cf_last_error :: bool
  cf_last_bad_quality :: bool

record client_host =
  ch_cpu_percent :: "f64 option"
  ch_available_memory_percent :: "f64 option"
  ch_disk_active_percent :: "f64 option"
  ch_disk_queue :: "f64 option"
  ch_process_working_set_bytes :: "u64 option"
  ch_process_private_bytes :: "u64 option"
  ch_process_read_bytes_per_second :: "u64 option"
  ch_process_write_bytes_per_second :: "u64 option"
  ch_disk_free_bytes :: "u64 option"

record client_storage =
  ct_main_bytes :: u64
  ct_wal_bytes :: u64
  ct_shm_bytes :: u64
  ct_free_bytes :: "u64 option"
  ct_last_commit_latency_ms :: "u64 option"

record client_scheduler =
  cd_next_refresh_at :: "string option"
  cd_last_attempt_at :: "string option"
  cd_last_success_at :: "string option"
  cd_last_success_duration_ms :: "u64 option"
  cd_retry_after :: "string option"
  cd_consecutive_failures :: u32
  cd_circuit_open :: bool

record client_health =
  ce_state :: index_health_state
  ce_sentinel_configured :: bool

record client_status =
  cx_server :: string
  cx_state :: search_index_state
  cx_auto_refresh_enabled :: bool
  cx_active_generation :: u64
  cx_entry_count :: u64
  cx_unique_item_count :: u64
  cx_started_at :: "string option"
  cx_completed_at :: "string option"
  cx_last_error :: "string option"
  cx_database_bytes :: u64
  cx_organization :: client_organization
  cx_source :: client_source
  cx_progress :: "client_progress option"
  cx_effective_limits :: "client_limits option"
  cx_controller_state :: index_controller_state
  cx_pause_reason :: "index_pause_reason option"
  cx_recovery_deadline :: "string option"
  cx_pause_reason_detail :: "string option"
  cx_foreground :: client_foreground
  cx_host :: client_host
  cx_storage :: client_storage
  cx_scheduler :: client_scheduler
  cx_health :: client_health
  cx_promoting :: bool

record client_match =
  cm_item_id :: ustring
  cm_display_name :: ustring
  cm_kind :: client_node_kind
  cm_breadcrumbs :: "ustring list"

record client_search_response =
  cr_matches :: "client_match list"
  cr_has_more :: bool
  cr_status :: client_status

datatype client_search_event =
  ClientMatch client_node "breadcrumb list"
| ClientProgress u32 u32 bool
| ClientCompleted bool bool bool "string option"

datatype client_error =
  ConnectError string | RpcError rpc_error | IncompatibleGateway string | UnknownIndexServer string
| IndexNotEnrolled string | IndexDeletingError string | ProtocolError string

type_synonym 'a client_result = "client_error + 'a"

section \<open>The client library: conversions\<close>

definition invalid_enum :: "string \<Rightarrow> int \<Rightarrow> client_error" where
  "invalid_enum field v = ProtocolError (''gateway returned unknown '' @ field @ '' value '' @ int_to_string v)"

text \<open>\<open>try_from\<close> of an enumeration whose numbers count its values from zero.\<close>

definition enum_of :: "string \<Rightarrow> 'a list \<Rightarrow> int \<Rightarrow> 'a client_result" where
  "enum_of field values v =
     (if 0 \<le> v \<and> nat v < length values then Inr (values ! nat v) else Inl (invalid_enum field v))"

definition client_organization_of :: "int \<Rightarrow> client_organization client_result" where
  "client_organization_of = enum_of ''namespace organization'' [ClientOrgUnspecified, ClientOrgFlat, ClientOrgHierarchical]"

definition client_source_of :: "int \<Rightarrow> client_source client_result" where
  "client_source_of = enum_of ''browse source''
     [ClientSrcUnspecified, ClientSrcDa3, ClientSrcDa2, ClientSrcFlat, ClientSrcDerived]"

definition node_kind_of :: "int \<Rightarrow> client_node_kind client_result" where
  "node_kind_of = enum_of ''browse node kind'' [KindUnspecified, KindBranch, KindItem, KindBranchAndItem]"

definition search_index_state_of :: "int \<Rightarrow> search_index_state client_result" where
  "search_index_state_of = enum_of ''search index state''
     [StateUnspecified, StateNotIndexed, StatePartial, StateReady, StateStale, StateRefreshing, StateFailed,
      StatePromoting, StateDeleting]"

definition index_controller_state_of :: "int \<Rightarrow> index_controller_state client_result" where
  "index_controller_state_of = enum_of ''index controller state''
     [CtlUnspecified, CtlRamping, CtlSteady, CtlThrottled, CtlPaused]"

definition index_pause_reason_of :: "int \<Rightarrow> index_pause_reason client_result" where
  "index_pause_reason_of = enum_of ''index pause reason''
     [ReasonUnspecified, ReasonForeground, ReasonOpcHealth, ReasonHostCpu, ReasonMemory, ReasonDisk, ReasonDatabase,
      ReasonOperator, ReasonCircuit]"

definition index_health_state_of :: "int \<Rightarrow> index_health_state client_result" where
  "index_health_state_of = enum_of ''index health state'' [IhUnspecified, IhHealthy, IhUnhealthy, IhUnavailable]"

text \<open>The \<open>?\<close> operator, and \<open>collect\<close> into a result.\<close>

definition and_then :: "'a client_result \<Rightarrow> ('a \<Rightarrow> 'b client_result) \<Rightarrow> 'b client_result" where
  "and_then r f = (case r of Inl e \<Rightarrow> Inl e | Inr x \<Rightarrow> f x)"

fun collect :: "'a client_result list \<Rightarrow> 'a list client_result" where
  "collect [] = Inr []"
| "collect (r # rs) = and_then r (\<lambda>x. and_then (collect rs) (\<lambda>xs. Inr (x # xs)))"

definition capabilities_of_proto :: "proto_capabilities \<Rightarrow> client_capabilities client_result" where
  "capabilities_of_proto v =
     and_then (client_organization_of (pc_organization v)) (\<lambda>organization.
     and_then (client_source_of (pc_source v)) (\<lambda>source.
     and_then (search_index_state_of (pc_search_index_state v)) (\<lambda>state.
       Inr \<lparr>ca_application_version = pc_application_version v, ca_protocol_version = pc_protocol_version v,
            ca_max_page_size = pc_max_page_size v, ca_supports_browse_sessions = pc_supports_browse_sessions v,
            ca_supports_search = pc_supports_search v, ca_organization = organization, ca_source = source,
            ca_supports_indexed_search = pc_supports_indexed_search v,
            ca_indexed_search_protocol_version = pc_indexed_search_protocol_version v,
            ca_max_indexed_search_results = pc_max_indexed_search_results v, ca_search_index_state = state,
            ca_search_index_promoting = pc_search_index_promoting v\<rparr>)))"

definition node_of_proto :: "proto_browse_node \<Rightarrow> client_node client_result" where
  "node_of_proto v =
     and_then (node_kind_of (pn_kind v)) (\<lambda>kind.
       if kind_is_item kind \<and> pn_item_id v = None
       then Inl (ProtocolError ''gateway returned a selectable browse node without an ItemID'')
       else if \<not> kind_is_item kind \<and> pn_item_id v \<noteq> None
       then Inl (ProtocolError ''gateway returned an ItemID for a non-selectable browse node'')
       else Inr \<lparr>cn_node_key = pn_node_key v, cn_display_name = pn_display_name v, cn_kind = kind,
                 cn_item_id = pn_item_id v\<rparr>)"

definition page_of_proto :: "proto_browse_page \<Rightarrow> client_page client_result" where
  "page_of_proto v =
     (if pp_complete v \<and> pp_next_page_token v \<noteq> None
      then Inl (ProtocolError ''gateway returned a complete browse page with a continuation token'')
      else if \<not> pp_complete v \<and> pp_next_page_token v = None
      then Inl (ProtocolError ''gateway returned an incomplete browse page without a continuation token'')
      else
        and_then (collect (map node_of_proto (pp_nodes v))) (\<lambda>nodes.
        and_then (client_organization_of (pp_organization v)) (\<lambda>organization.
        and_then (client_source_of (pp_source v)) (\<lambda>source.
          Inr \<lparr>cp_session_id = pp_session_id v, cp_nodes = nodes, cp_next_page_token = pp_next_page_token v,
               cp_complete = pp_complete v, cp_organization = organization, cp_source = source,
               cp_warning = pp_warning v\<rparr>))))"

definition progress_of_proto :: "proto_progress \<Rightarrow> client_progress" where
  "progress_of_proto v =
     \<lparr>cg_branches_visited = pg_branches_visited v, cg_entries_seen = pg_entries_seen v,
      cg_unique_items = pg_unique_items v, cg_active_time_ms = pg_active_time_ms v,
      cg_paused_time_ms = pg_paused_time_ms v, cg_items_per_second = pg_items_per_second v,
      cg_estimated_remaining_ms = pg_estimated_remaining_ms v\<rparr>"

definition limits_of_proto :: "proto_limits \<Rightarrow> client_limits" where
  "limits_of_proto v =
     \<lparr>cl_item_rate_per_second = pl_item_rate_per_second v, cl_batch_size = pl_batch_size v,
      cl_duty_cycle_percent = pl_duty_cycle_percent v\<rparr>"

definition foreground_of_proto :: "proto_foreground option \<Rightarrow> client_foreground" where
  "foreground_of_proto v =
     (case v of
        None \<Rightarrow> \<lparr>cf_active_count = 0, cf_operations = 0, cf_errors = 0, cf_bad_quality = 0, cf_latency_p50_ms = None,
                 cf_latency_p95_ms = None, cf_latency_max_ms = None, cf_last_error = False,
                 cf_last_bad_quality = False\<rparr>
      | Some d \<Rightarrow> \<lparr>cf_active_count = pf_active_count d, cf_operations = pf_operations d, cf_errors = pf_errors d,
                   cf_bad_quality = pf_bad_quality d, cf_latency_p50_ms = pf_latency_p50_ms d,
                   cf_latency_p95_ms = pf_latency_p95_ms d, cf_latency_max_ms = pf_latency_max_ms d,
                   cf_last_error = pf_last_error d, cf_last_bad_quality = pf_last_bad_quality d\<rparr>)"

definition host_of_proto :: "proto_host option \<Rightarrow> client_host" where
  "host_of_proto v =
     (case v of
        None \<Rightarrow> \<lparr>ch_cpu_percent = None, ch_available_memory_percent = None, ch_disk_active_percent = None,
                 ch_disk_queue = None, ch_process_working_set_bytes = None, ch_process_private_bytes = None,
                 ch_process_read_bytes_per_second = None, ch_process_write_bytes_per_second = None,
                 ch_disk_free_bytes = None\<rparr>
      | Some d \<Rightarrow> \<lparr>ch_cpu_percent = ph_cpu_percent d, ch_available_memory_percent = ph_available_memory_percent d,
                   ch_disk_active_percent = ph_disk_active_percent d, ch_disk_queue = ph_disk_queue d,
                   ch_process_working_set_bytes = ph_process_working_set_bytes d,
                   ch_process_private_bytes = ph_process_private_bytes d,
                   ch_process_read_bytes_per_second = ph_process_read_bytes_per_second d,
                   ch_process_write_bytes_per_second = ph_process_write_bytes_per_second d,
                   ch_disk_free_bytes = ph_disk_free_bytes d\<rparr>)"

definition storage_of_proto :: "proto_storage option \<Rightarrow> client_storage" where
  "storage_of_proto v =
     (case v of
        None \<Rightarrow> \<lparr>ct_main_bytes = 0, ct_wal_bytes = 0, ct_shm_bytes = 0, ct_free_bytes = None,
                 ct_last_commit_latency_ms = None\<rparr>
      | Some d \<Rightarrow> \<lparr>ct_main_bytes = pt_main_bytes d, ct_wal_bytes = pt_wal_bytes d, ct_shm_bytes = pt_shm_bytes d,
                   ct_free_bytes = pt_free_bytes d, ct_last_commit_latency_ms = pt_last_commit_latency_ms d\<rparr>)"

definition scheduler_of_proto :: "proto_scheduler option \<Rightarrow> client_scheduler" where
  "scheduler_of_proto v =
     (case v of
        None \<Rightarrow> \<lparr>cd_next_refresh_at = None, cd_last_attempt_at = None, cd_last_success_at = None,
                 cd_last_success_duration_ms = None, cd_retry_after = None, cd_consecutive_failures = 0,
                 cd_circuit_open = False\<rparr>
      | Some d \<Rightarrow> \<lparr>cd_next_refresh_at = pd_next_refresh_at d, cd_last_attempt_at = pd_last_attempt_at d,
                   cd_last_success_at = pd_last_success_at d,
                   cd_last_success_duration_ms = pd_last_success_duration_ms d, cd_retry_after = pd_retry_after d,
                   cd_consecutive_failures = pd_consecutive_failures d, cd_circuit_open = pd_circuit_open d\<rparr>)"

definition health_of_proto :: "proto_health option \<Rightarrow> client_health client_result" where
  "health_of_proto v =
     (case v of
        None \<Rightarrow> Inr \<lparr>ce_state = IhUnavailable, ce_sentinel_configured = False\<rparr>
      | Some d \<Rightarrow> and_then (index_health_state_of (pe_state d)) (\<lambda>state.
          Inr \<lparr>ce_state = state, ce_sentinel_configured = pe_sentinel_configured d\<rparr>))"

definition transpose_option :: "'a client_result option \<Rightarrow> 'a option client_result" where
  "transpose_option v = (case v of None \<Rightarrow> Inr None | Some r \<Rightarrow> and_then r (\<lambda>x. Inr (Some x)))"

definition status_of_proto :: "proto_status \<Rightarrow> client_status client_result" where
  "status_of_proto v =
     and_then (search_index_state_of (ps_state v)) (\<lambda>state.
     and_then (client_organization_of (ps_organization v)) (\<lambda>organization.
     and_then (client_source_of (ps_source v)) (\<lambda>source.
     and_then (index_controller_state_of (ps_controller_state v)) (\<lambda>controller.
     and_then (transpose_option (map_option index_pause_reason_of (ps_pause_reason v))) (\<lambda>reason.
     and_then (health_of_proto (ps_health v)) (\<lambda>health.
       Inr \<lparr>cx_server = ps_server v, cx_state = state, cx_auto_refresh_enabled = ps_configured v,
            cx_active_generation = ps_active_generation v, cx_entry_count = ps_entry_count v,
            cx_unique_item_count = ps_unique_item_count v, cx_started_at = ps_started_at v,
            cx_completed_at = ps_completed_at v, cx_last_error = ps_last_error v,
            cx_database_bytes = ps_database_bytes v, cx_organization = organization, cx_source = source,
            cx_progress = map_option progress_of_proto (ps_progress v),
            cx_effective_limits = map_option limits_of_proto (ps_effective_limits v),
            cx_controller_state = controller, cx_pause_reason = reason,
            cx_recovery_deadline = ps_recovery_deadline v, cx_pause_reason_detail = ps_pause_reason_detail v,
            cx_foreground = foreground_of_proto (ps_foreground v), cx_host = host_of_proto (ps_host v),
            cx_storage = storage_of_proto (ps_storage v), cx_scheduler = scheduler_of_proto (ps_scheduler v),
            cx_health = health, cx_promoting = ps_promoting v\<rparr>))))))"

definition match_of_proto :: "proto_match \<Rightarrow> client_match client_result" where
  "match_of_proto v =
     and_then (node_kind_of (px_kind v)) (\<lambda>kind.
       if \<not> kind_is_item kind
       then Inl (ProtocolError ''gateway returned a non-selectable indexed search match'')
       else if px_item_id v = []
       then Inl (ProtocolError ''gateway returned an indexed search match without an ItemID'')
       else Inr \<lparr>cm_item_id = px_item_id v, cm_display_name = px_display_name v, cm_kind = kind,
                 cm_breadcrumbs = px_breadcrumbs v\<rparr>)"

definition search_response_of_proto :: "proto_search_index_response \<Rightarrow> client_search_response client_result" where
  "search_response_of_proto v =
     and_then (collect (map match_of_proto (pr_matches v))) (\<lambda>matches.
     and_then (case pr_status v of
         None \<Rightarrow> Inl (ProtocolError ''gateway returned indexed search results without status'')
       | Some status \<Rightarrow> status_of_proto status) (\<lambda>status.
       Inr \<lparr>cr_matches = matches, cr_has_more = pr_has_more v, cr_status = status\<rparr>))"

text \<open>An event of a live search; a match of the gateway always carries its node.\<close>

definition event_of_proto :: "search_event option \<Rightarrow> client_search_event client_result" where
  "event_of_proto event =
     (case event of
        None \<Rightarrow> Inl (ProtocolError ''gateway returned an empty search event'')
      | Some (Match node breadcrumbs) \<Rightarrow> and_then (node_of_proto node) (\<lambda>n. Inr (ClientMatch n breadcrumbs))
      | Some (Progress visited matches is_partial) \<Rightarrow> Inr (ClientProgress visited matches is_partial)
      | Some (Completed is_complete cancelled truncated warning) \<Rightarrow>
          Inr (ClientCompleted is_complete cancelled truncated warning))"

section \<open>What the client sees of the gateway's data\<close>

text \<open>The client reads back every enumeration value the gateway sends.\<close>

definition organization_back :: "client_organization \<Rightarrow> namespace_organization" where
  "organization_back v =
     (case v of ClientOrgUnspecified \<Rightarrow> OrgUnspecified | ClientOrgFlat \<Rightarrow> OrgFlat | ClientOrgHierarchical \<Rightarrow> OrgHierarchical)"

definition source_back :: "client_source \<Rightarrow> browse_source" where
  "source_back v =
     (case v of ClientSrcUnspecified \<Rightarrow> SrcUnspecified | ClientSrcDa3 \<Rightarrow> SrcDa3 | ClientSrcDa2 \<Rightarrow> SrcDa2
      | ClientSrcFlat \<Rightarrow> SrcFlat | ClientSrcDerived \<Rightarrow> SrcDerived)"

definition state_back :: "bool \<Rightarrow> search_index_state \<Rightarrow> index_state" where
  "state_back promoting v =
     (case v of StateNotIndexed \<Rightarrow> IndexNotIndexed | StatePartial \<Rightarrow> IndexPartial | StateReady \<Rightarrow> IndexReady
      | StateStale \<Rightarrow> IndexStale | StateRefreshing \<Rightarrow> if promoting then IndexPromoting else IndexRefreshing
      | StateFailed \<Rightarrow> IndexFailed | StateDeleting \<Rightarrow> IndexDeleting | StatePromoting \<Rightarrow> IndexPromoting
      | StateUnspecified \<Rightarrow> IndexNotIndexed)"

definition health_back :: "index_health_state \<Rightarrow> health_probe_state" where
  "health_back v = (case v of IhHealthy \<Rightarrow> HealthHealthy | IhUnhealthy \<Rightarrow> HealthUnhealthy | _ \<Rightarrow> HealthUnavailable)"

text \<open>The reason inside a paused controller state is not sent; the reason of the whole pause is, as text.\<close>

definition controller_back :: "index_controller_state \<Rightarrow> controller_state option" where
  "controller_back v =
     (case v of CtlUnspecified \<Rightarrow> None | CtlRamping \<Rightarrow> Some Ramping | CtlSteady \<Rightarrow> Some Steady
      | CtlThrottled \<Rightarrow> Some Throttled | CtlPaused \<Rightarrow> Some (Paused Maintenance))"

definition all_pause_reasons :: "pause_reason list" where
  "all_pause_reasons = [Foreground, OpcHealth, HostCpu, Memory, Disk, Database, Operator, Circuit, Maintenance]"

definition reason_back :: "string \<Rightarrow> pause_reason option" where
  "reason_back detail = find (\<lambda>reason. pause_reason_as_str reason = detail) all_pause_reasons"

definition recovered_status :: "client_status \<Rightarrow> index_status" where
  "recovered_status c =
     \<lparr>is_server = cx_server c, is_state = state_back (cx_promoting c) (cx_state c),
      is_auto_refresh_enabled = cx_auto_refresh_enabled c, is_active_generation = cx_active_generation c,
      is_entry_count = cx_entry_count c, is_unique_item_count = cx_unique_item_count c,
      is_started_at = cx_started_at c, is_completed_at = cx_completed_at c, is_last_error = cx_last_error c,
      is_database_bytes = cx_database_bytes c, is_organization = organization_back (cx_organization c),
      is_source = source_back (cx_source c),
      is_progress = map_option (\<lambda>p. \<lparr>ip_branches_visited = cg_branches_visited p, ip_entries_seen = cg_entries_seen p,
        ip_unique_items = cg_unique_items p, ip_active_time_ms = cg_active_time_ms p,
        ip_paused_time_ms = cg_paused_time_ms p, ip_items_per_second = cg_items_per_second p,
        ip_estimated_remaining_ms = cg_estimated_remaining_ms p\<rparr>) (cx_progress c),
      is_effective_limits = map_option (\<lambda>l. \<lparr>item_rate_per_second = cl_item_rate_per_second l,
        batch_size = cl_batch_size l, duty_cycle_percent = ucast (cl_duty_cycle_percent l)\<rparr>) (cx_effective_limits c),
      is_controller_state = controller_back (cx_controller_state c),
      is_pause_reason = Option.bind (cx_pause_reason_detail c) reason_back,
      is_recovery_deadline = cx_recovery_deadline c,
      is_foreground_metrics = (let f = cx_foreground c in
        \<lparr>fm_active_count = cf_active_count f, fm_operations = cf_operations f, fm_errors = cf_errors f,
         fm_bad_quality = cf_bad_quality f, fm_latency_p50_ms = cf_latency_p50_ms f,
         fm_latency_p95_ms = cf_latency_p95_ms f, fm_latency_max_ms = cf_latency_max_ms f,
         fm_last_error = cf_last_error f, fm_last_bad_quality = cf_last_bad_quality f\<rparr>),
      is_host_metrics = (let h = cx_host c in
        \<lparr>hm_cpu_percent = ch_cpu_percent h, hm_available_memory_percent = ch_available_memory_percent h,
         hm_disk_active_percent = ch_disk_active_percent h, hm_disk_queue = ch_disk_queue h,
         hm_process_working_set_bytes = ch_process_working_set_bytes h,
         hm_process_private_bytes = ch_process_private_bytes h,
         hm_process_read_bytes_per_second = ch_process_read_bytes_per_second h,
         hm_process_write_bytes_per_second = ch_process_write_bytes_per_second h,
         hm_disk_free_bytes = ch_disk_free_bytes h\<rparr>),
      is_health = health_back (ce_state (cx_health c)), is_sentinel_configured = ce_sentinel_configured (cx_health c),
      is_storage = (let s = cx_storage c in
        \<lparr>sd_main_bytes = ct_main_bytes s, sd_wal_bytes = ct_wal_bytes s, sd_shm_bytes = ct_shm_bytes s,
         sd_free_bytes = ct_free_bytes s, sd_last_commit_latency_ms = ct_last_commit_latency_ms s\<rparr>),
      is_scheduler = (let d = cx_scheduler c in
        \<lparr>sch_next_refresh_at = cd_next_refresh_at d, sch_last_attempt_at = cd_last_attempt_at d,
         sch_last_success_at = cd_last_success_at d, sch_last_success_duration_ms = cd_last_success_duration_ms d,
         sch_retry_after = cd_retry_after d, sch_consecutive_failures = cd_consecutive_failures d,
         sch_circuit_open = cd_circuit_open d\<rparr>)\<rparr>"

definition unreasoned :: "index_status \<Rightarrow> index_status" where
  "unreasoned s = s\<lparr>is_controller_state :=
     map_option (\<lambda>state. case state of Paused _ \<Rightarrow> Paused Maintenance | _ \<Rightarrow> state) (is_controller_state s)\<rparr>"

lemma and_then_simps [simp]: "and_then (Inr x) f = f x" "and_then (Inl e) f = Inl e"
  by (simp_all add: and_then_def)

lemmas enum_readers = client_organization_of_def client_source_of_def node_kind_of_def search_index_state_of_def
  index_controller_state_of_def index_pause_reason_of_def index_health_state_of_def enum_of_def

lemma organization_read:
  obtains v where "client_organization_of (map_namespace_organization x) = Inr v" and "organization_back v = x"
  by (cases x) (simp_all add: enum_readers map_namespace_organization_def organization_back_def)

lemma source_read:
  obtains v where "client_source_of (map_browse_source x) = Inr v" and "source_back v = x"
  by (cases x) (simp_all add: enum_readers map_browse_source_def source_back_def)

lemma state_read:
  obtains v where "search_index_state_of (map_index_state x) = Inr v" and "state_back (is_promoting_state x) v = x"
  by (cases x) (simp_all add: enum_readers map_index_state_def state_back_def is_promoting_state_def)

lemma controller_read:
  obtains v where "index_controller_state_of (controller_state_code x) = Inr v"
    and "controller_back v = map_option (\<lambda>state. case state of Paused _ \<Rightarrow> Paused Maintenance | _ \<Rightarrow> state) x"
proof (cases x)
  case None
  then show thesis using that by (simp add: enum_readers controller_state_code_def controller_back_def)
next
  case (Some state)
  then show thesis
    using that by (cases state) (simp_all add: enum_readers controller_state_code_def controller_back_def)
qed

lemma health_read:
  obtains v where "index_health_state_of (health_state_code x) = Inr v" and "health_back v = x"
  by (cases x) (simp_all add: enum_readers health_state_code_def health_back_def)

lemma reason_sent:
  obtains v where "transpose_option (map_option index_pause_reason_of (Option.bind r pause_reason_code)) = Inr v"
proof (cases r)
  case None
  then show thesis using that by (simp add: transpose_option_def)
next
  case (Some reason)
  then show thesis using that by (cases reason) (simp_all add: transpose_option_def pause_reason_code_def enum_readers)
qed

lemma reason_read [simp]: "Option.bind (map_option pause_reason_as_str r) reason_back = r"
proof (cases r)
  case (Some reason)
  then show ?thesis by (cases reason) (simp_all add: reason_back_def all_pause_reasons_def pause_reason_as_str_def)
qed simp

lemma duty_read [simp]: "ucast (ucast (x :: u8) :: u32) = x"
  by (simp add: unsigned_ucast_eq take_bit_word_eq_self)

lemma map_option_same: "(\<And>x. f x = x) \<Longrightarrow> map_option f v = v"
  by (cases v) simp_all

lemmas wire_maps = map_inventory_progress_def map_limits_def map_foreground_def map_host_def map_storage_def
  map_scheduler_def progress_of_proto_def limits_of_proto_def foreground_of_proto_def host_of_proto_def
  storage_of_proto_def scheduler_of_proto_def

lemma status_accepted:
  "\<exists>c. status_of_proto (map_index_status s) = Inr c \<and> recovered_status c = unreasoned s"
proof -
  obtain state where state: "search_index_state_of (map_index_state (is_state s)) = Inr state"
    "state_back (is_promoting_state (is_state s)) state = is_state s" by (rule state_read)
  obtain org where org: "client_organization_of (map_namespace_organization (is_organization s)) = Inr org"
    "organization_back org = is_organization s" by (rule organization_read)
  obtain src where src: "client_source_of (map_browse_source (is_source s)) = Inr src" "source_back src = is_source s"
    by (rule source_read)
  obtain ctl where ctl: "index_controller_state_of (controller_state_code (is_controller_state s)) = Inr ctl"
    "controller_back ctl = map_option (\<lambda>state. case state of Paused _ \<Rightarrow> Paused Maintenance | _ \<Rightarrow> state)
       (is_controller_state s)" by (rule controller_read)
  obtain health where health: "index_health_state_of (health_state_code (is_health s)) = Inr health"
    "health_back health = is_health s" by (rule health_read)
  obtain reason where reason:
    "transpose_option (map_option index_pause_reason_of (Option.bind (is_pause_reason s) pause_reason_code)) = Inr reason"
    by (rule reason_sent)
  show ?thesis
    by (rule exI, rule conjI, simp add: status_of_proto_def map_index_status_def state org src ctl health reason health_of_proto_def,
        rule index_status.equality)
      (simp_all add: recovered_status_def unreasoned_def state org src ctl health wire_maps option.map_comp o_def
        map_option_same Let_def)
qed

text \<open>
  C25. Every status the gateway reports reaches the client: the client accepts the message, and the whole
  status can be read back from it, promotion and the reason of a pause included. Only the reason
  inside a paused controller state is left out.
\<close>

theorem status_crosses_wire:
  "\<exists>c. status_of_proto (map_index_status s) = Inr c \<and> recovered_status c = unreasoned s"
  by (rule status_accepted)

section \<open>Browse pages and search results\<close>

text \<open>
  What the gateway relies on the native client for: a selectable node has an ItemID. That a page is
  complete exactly when it has no continuation is checked by the gateway itself.
\<close>

definition node_typed :: "browse_node \<Rightarrow> bool" where
  "node_typed node \<longleftrightarrow> (bn_kind node \<noteq> Branch \<longrightarrow> bn_item_id node \<noteq> None)"

definition page_typed :: "browse_page \<Rightarrow> bool" where
  "page_typed page \<longleftrightarrow> (bp_complete page \<longleftrightarrow> bp_next_page_token page = None) \<and> list_all node_typed (bp_nodes page)"

definition client_typed :: "'w browse_env \<Rightarrow> bool" where
  "client_typed env \<longleftrightarrow> (\<forall>w sid parent token psize refresh page w'.
     env_browse_page env w sid parent token psize refresh = (Inr page, w') \<longrightarrow> list_all node_typed (bp_nodes page))"

text \<open>The node as the client sees it.\<close>

definition client_view :: "browse_node \<Rightarrow> client_node" where
  "client_view node =
     \<lparr>cn_node_key = bn_node_key node, cn_display_name = bn_display_name node,
      cn_kind = (case bn_kind node of Branch \<Rightarrow> KindBranch | Item \<Rightarrow> KindItem | BranchAndItem \<Rightarrow> KindBranchAndItem),
      cn_item_id = (if bn_kind node = Branch then None else bn_item_id node)\<rparr>"

lemma node_accepted: "node_typed node \<Longrightarrow> node_of_proto (map_browse_node node) = Inr (client_view node)"
  by (cases "bn_kind node")
    (auto simp: node_typed_def node_of_proto_def map_browse_node_def client_view_def enum_readers kind_is_item_def)

lemma collect_all: "list_all (\<lambda>x. f x = Inr (g x)) xs \<Longrightarrow> collect (map f xs) = Inr (map g xs)"
  by (induction xs) simp_all

lemma page_accepted:
  assumes "page_typed page"
  shows "\<exists>c. page_of_proto (map_browse_page sid page) = Inr c \<and> cp_session_id c = sid \<and>
    cp_nodes c = map client_view (bp_nodes page) \<and> cp_next_page_token c = bp_next_page_token page \<and>
    cp_complete c = bp_complete page \<and> organization_back (cp_organization c) = bp_organization page \<and>
    source_back (cp_source c) = bp_source page"
proof -
  obtain org where org: "client_organization_of (map_namespace_organization (bp_organization page)) = Inr org"
    "organization_back org = bp_organization page" by (rule organization_read)
  obtain src where src: "client_source_of (map_browse_source (bp_source page)) = Inr src" "source_back src = bp_source page"
    by (rule source_read)
  have "collect (map node_of_proto (map map_browse_node (bp_nodes page))) = Inr (map client_view (bp_nodes page))"
    unfolding map_map using assms
    by (intro collect_all) (auto simp: page_typed_def list_all_iff node_accepted)
  then show ?thesis
    using assms by (auto simp: page_of_proto_def map_browse_page_def page_typed_def org src)
qed

lemma renamed_typed: "list_all2 renamed_node xs ys \<Longrightarrow> list_all node_typed xs \<Longrightarrow> list_all node_typed ys"
proof (induction rule: list_all2_induct)
  case (Cons x xs y ys)
  then show ?case by (cases x; cases y) (simp add: renamed_node_def node_typed_def)
qed simp

interpretation typed_pages: page_law "\<lambda>_. page_typed"
  by unfold_locales (auto simp: page_typed_def dest: renamed_typed)

lemma client_typed_pages: "client_typed env \<Longrightarrow> client_pages (\<lambda>_. page_typed) env"
  unfolding client_pages_def client_typed_def page_typed_def check_native_page_def
  by (metis (no_types, lifting) Inl_Inr_False)

text \<open>
  C24. The client library accepts every page the gateway's browse returns, and sees the nodes of the page
  in their order, its continuation and its metadata; the cached pages stay acceptable.
\<close>

theorem browse_pages_accepted:
  assumes "client_typed env" and "cached_pages (\<lambda>_. page_typed) m"
    and "browse env now server session_id parent token page_size refresh m w = (Inr (sid, page), m', w')"
  shows "cached_pages (\<lambda>_. page_typed) m' \<and>
    (\<exists>c. page_of_proto (map_browse_page sid page) = Inr c \<and> cp_session_id c = sid \<and>
       cp_nodes c = map client_view (bp_nodes page) \<and> cp_next_page_token c = bp_next_page_token page \<and>
       cp_complete c = bp_complete page)"
  using typed_pages.browse_pages [OF client_typed_pages [OF assms(1)] assms(2,3)] page_accepted [of page sid] by blast

lemma match_streamed: "Inr (Match pn breadcrumbs) \<in> set events \<Longrightarrow> pn \<in> set (stream_matches events)"
  by (induction events rule: stream_matches.induct) auto

text \<open>
  A live search that was not asked for branches streams only events the client accepts, whatever the
  native client returns.
\<close>

theorem live_matches_accepted:
  assumes "0 < se_max_results senv" and "run_search senv close temporary b = Some (events, b')"
    and "\<not> sq_include_branches (se_request senv)"
  shows "\<forall>event. Inr event \<in> set events \<longrightarrow> (\<exists>c. event_of_proto (Some event) = Inr c)"
proof (intro allI impI)
  fix event assume sent: "Inr event \<in> set events"
  have ok: "list_all (is_requested senv) (stream_matches events)"
    using search_stream [OF assms(1,2)] by (simp add: stream_ok_def)
  show "\<exists>c. event_of_proto (Some event) = Inr c"
  proof (cases event)
    case (Match pn breadcrumbs)
    then have "pn \<in> set (stream_matches events)" using sent match_streamed by blast
    then obtain node where node: "pn = map_browse_node node" "bn_item_id node \<noteq> None"
      using ok assms(3) by (auto simp: list_all_iff is_requested_def)
    then have "node_of_proto pn = Inr (client_view node)" by (intro node_accepted [of node, folded node(1)]) (simp add: node_typed_def)
    then show ?thesis using Match by (simp add: event_of_proto_def)
  qed (simp_all add: event_of_proto_def)
qed

section \<open>The client on a concrete gateway\<close>

lemma demo_client_typed: "client_typed demo_env"
  by (auto simp: client_typed_def demo_native_page_def node_typed_def)

theorem browse_pages_accepted_witness:
  "\<exists>c. page_of_proto (map_browse_page (demo_token 0) demo_page) = Inr c \<and>
     cp_nodes c = map client_view (bp_nodes demo_page) \<and> \<not> cp_complete c"
proof -
  have run: "browse demo_env 100001 ''S'' (Some (demo_token 0)) None None 200 False demo_opened () =
      (Inr (demo_token 0, demo_page), demo_fetched, ())"
    using demo_browse
    by (simp add: browse_def expire_def remove_expired_def SESSION_TTL_def normalize_page_size_def
        MAX_PAGE_SIZE_def demo_opened_def session_new_def)
  have "cached_pages (\<lambda>_. page_typed) demo_opened"
    by (simp add: cached_pages_def demo_opened_def session_new_def session_pages_def)
  then show ?thesis using browse_pages_accepted [OF demo_client_typed _ run] by (auto simp: demo_page_def)
qed

theorem live_matches_accepted_witness:
  "\<exists>events b. run_search LiveSearch.demo_search (gateway_close demo_env (demo_token 0)) True (demo_opened, (), 0) =
     Some (events, b) \<and> (\<forall>event. Inr event \<in> set events \<longrightarrow> (\<exists>c. event_of_proto (Some event) = Inr c))"
proof -
  obtain events b where
    r: "run_search LiveSearch.demo_search (gateway_close demo_env (demo_token 0)) True (demo_opened, (), 0) = Some (events, b)"
    using gateway_search_ends [OF demo_search_params(1,2) demo_client_productive demo_cache_productive] by blast
  have "\<not> sq_include_branches (se_request LiveSearch.demo_search)" by (simp add: LiveSearch.demo_search_def)
  then show ?thesis using live_matches_accepted [OF demo_search_params(2) r] r by blast
qed

end
