(* ===== verification/Accepted.thy ===== *)
theory Accepted
  imports Wire
begin

text \<open>
  Replies of the indexed search at the client. The client library rejects a match without an ItemID;
  the store never holds an entry without one, and every match of a search, fresh or from the cache,
  stems from an entry of the store. So the client accepts every reply.
\<close>

section \<open>Every entry has an ItemID\<close>

definition entries_named :: "index_db \<Rightarrow> bool" where
  "entries_named db \<longleftrightarrow> (\<forall>e \<in> set (db_entries db). e_item_id e \<noteq> [])"

lemma named_subset: "entries_named db \<Longrightarrow> set (db_entries db') \<subseteq> set (db_entries db) \<Longrightarrow> entries_named db'"
  by (auto simp: entries_named_def)

lemma insert_rows_named:
  "insert_entry_rows te faults server g entries n c db = Inr (n', c', db') \<Longrightarrow> entries_named db \<Longrightarrow> entries_named db'"
proof (induction te faults server g entries n c db rule: insert_entry_rows.induct)
  case (2 te faults server g entry entries n c db)
  then show ?case by (auto simp: entries_named_def entry_of_def split: if_splits)
qed simp

lemma insert_named: "entries_named db \<Longrightarrow> entries_named (snd (insert_entries te faults server generation entries db))"
  by (auto simp: insert_entries_def split: option.splits sum.splits prod.splits if_splits dest: insert_rows_named)

lemma named_statements [simp]:
  "entries_named (sql_update_generations cond upd db) = entries_named db"
  "entries_named (sql_set_meta key v db) = entries_named db"
  "entries_named (sql_enroll server enabled timestamp db) = entries_named db"
  "entries_named (sql_delete_fts server db) = entries_named db"
  "entries_named (sql_delete_meta server db) = entries_named db"
  "entries_named (sql_unenroll server db) = entries_named db"
  "entries_named (sql_mark_interrupted server db) = entries_named db"
  "entries_named (sql_retire_staging server db) = entries_named db"
  by (simp_all add: entries_named_def sql_update_generations_def sql_set_meta_def sql_enroll_def sql_delete_fts_def
      sql_delete_meta_def sql_unenroll_def sql_mark_interrupted_def sql_retire_staging_def)

lemma delete_generations_named [simp]: "entries_named db \<Longrightarrow> entries_named (sql_delete_generations server db)"
  by (rule named_subset) (auto simp: sql_delete_generations_def)

lemma fold_named:
  "(\<And>stmt db. stmt \<in> set stmts \<Longrightarrow> entries_named db \<Longrightarrow> entries_named (stmt db)) \<Longrightarrow> entries_named db \<Longrightarrow>
     entries_named (fold (\<lambda>stmt. stmt) stmts db)"
  by (induction stmts arbitrary: db) auto

lemma transaction_named:
  assumes "\<And>stmt db. stmt \<in> set stmts \<Longrightarrow> entries_named db \<Longrightarrow> entries_named (stmt db)" and "entries_named db"
  shows "entries_named (snd (transaction faults stmts db))"
proof -
  have "entries_named (fold (\<lambda>stmt. stmt) stmts db)" by (rule fold_named) (use assms in auto)
  then show ?thesis using transaction_cases [of faults stmts db] assms(2) by auto
qed

lemma migrations_named:
  "entries_named db \<Longrightarrow> entries_named (snd (migrate_schema_2_to_3 faults db))"
  "entries_named db \<Longrightarrow> entries_named (snd (migrate_schema_3_to_4 faults now db))"
  unfolding migrate_schema_2_to_3_def migrate_schema_3_to_4_def Let_def
  by (rule transaction_named; auto split: if_splits)+

lemma check_schema_named: "entries_named db \<Longrightarrow> entries_named (snd (check_schema env db))"
  using migrations_named(1) [of db "oe_migrate_2 env"]
    migrations_named(2) [of _ "oe_migrate_3 env" "oe_now env"]
  by (auto simp: check_schema_def split: option.splits prod.splits sum.splits)

lemma recover_servers_named: "entries_named db \<Longrightarrow> entries_named (snd (recover_servers faults n locked servers db))"
  by (induction faults n locked servers db rule: recover_servers.induct)
    (auto simp: Let_def split: option.splits bool.splits)

lemma open_once_named: "entries_named db \<Longrightarrow> entries_named (snd (open_once env db))"
  using check_schema_named [of db env]
  by (auto simp: open_once_def Let_def split: prod.splits sum.splits intro!: recover_servers_named)

lemma generation_writes_named:
  "entries_named db \<Longrightarrow> entries_named (snd (enroll faults server timestamp db))"
  "entries_named db \<Longrightarrow> entries_named (snd (set_auto_refresh faults server enabled now db))"
  "entries_named db \<Longrightarrow> entries_named (snd (record_failed_attempt faults server error now db))"
  "entries_named db \<Longrightarrow> entries_named (snd (update_progress faults server generation progress db))"
  "entries_named db \<Longrightarrow> entries_named (snd (fail_generation faults server generation error db))"
  "entries_named db \<Longrightarrow> entries_named (snd (promote_with_profile faults server generation completed_at n profile warning db))"
  "entries_named db \<Longrightarrow> entries_named (snd (discard_empty_generation faults server generation db))"
  "entries_named db \<Longrightarrow> entries_named (snd (set_retry_state faults server retry_after failures circuit_open db))"
  by (auto simp: enroll_def set_auto_refresh_def record_failed_attempt_def update_progress_def fail_generation_def
      promote_with_profile_def sql_supersede_def sql_activate_def discard_empty_generation_def set_retry_state_def
      Let_def split: option.splits sum.splits) (auto simp: entries_named_def)

lemma start_generation_named:
  "entries_named db \<Longrightarrow> entries_named (snd (start_generation faults server organization source started_at db))"
  using generation_writes_named(1) [of db faults server started_at]
  by (auto simp: start_generation_def split: prod.splits sum.splits) (auto simp: entries_named_def)

lemma deletions_named:
  "entries_named db \<Longrightarrow> entries_named (snd (clear_server faults server db))"
  "entries_named db \<Longrightarrow> entries_named (snd (delete_index faults server db))"
  unfolding clear_server_def delete_index_def by (rule transaction_named; auto)+

lemma db_step_named: "db_step db db' \<Longrightarrow> entries_named db \<Longrightarrow> entries_named db'"
  by (induction rule: db_step.induct)
    (simp_all add: open_once_named generation_writes_named start_generation_named insert_named deletions_named)

interpretation named_system: invariant_system "\<lambda>db. db = empty_db" db_step entries_named
proof
  show "entries_named db" if "db = empty_db" for db using that by (simp add: entries_named_def empty_db_def)
qed (rule db_step_named)

section \<open>Every match stems from an entry\<close>

lemma row_match_item_id: "row_match te e = Inr v \<Longrightarrow> im_item_id v = e_item_id e"
  by (auto simp: row_match_def split: sum.splits)

lemma collect_results_from:
  "collect_results (map f rows) = Inr vs \<Longrightarrow> v \<in> set vs \<Longrightarrow> \<exists>e \<in> set rows. f e = Inr v"
proof (induction rows arbitrary: vs)
  case (Cons e rows)
  show ?case
  proof (cases "f e")
    case (Inl error)
    then show ?thesis using Cons.prems by simp
  next
    case (Inr x)
    then obtain xs where "collect_results (map f rows) = Inr xs" "vs = x # xs"
      using Cons.prems(1) by (cases "collect_results (map f rows)") simp_all
    then show ?thesis using Cons.IH Cons.prems(2) Inr by auto
  qed
qed simp

definition stems :: "entry_row set \<Rightarrow> indexed_match \<Rightarrow> bool" where
  "stems rows v \<longleftrightarrow> (\<exists>e \<in> rows. im_item_id v = e_item_id e)"

lemma stems_mono: "stems rows v \<Longrightarrow> rows \<subseteq> rows' \<Longrightarrow> stems rows' v"
  by (auto simp: stems_def)

lemma collected_match: "collect_results (map (row_match te) rows) = Inr vs \<Longrightarrow> v \<in> set vs \<Longrightarrow> stems (set rows) v"
  unfolding stems_def using collect_results_from row_match_item_id by metis

lemma collected_ranked:
  assumes "collect_results (map (row_mapper te query) rows) = Inr ps" and "p \<in> set ps"
  shows "stems (set rows) (snd p)"
proof -
  obtain e where e: "e \<in> set rows" "row_mapper te query e = Inr p" using collect_results_from [OF assms] by blast
  then have "row_match te e = Inr (snd p)" by (auto simp: row_mapper_def split: sum.splits)
  then show ?thesis using e(1) row_match_item_id unfolding stems_def by blast
qed

lemma updated_from: "x \<in> set (AList.update k v m) \<Longrightarrow> snd x = v \<or> x \<in> set m"
  by (induction m) (auto split: if_splits)

lemma or_insert_from: "x \<in> set (or_insert_all rows m) \<Longrightarrow> snd x \<in> set rows \<or> x \<in> set m"
proof (induction rows m rule: or_insert_all.induct)
  case (2 candidate v rows m)
  then show ?case using updated_from [of x "im_item_id v" "(candidate, v)" m] by (auto split: if_splits)
qed simp

lemma or_insert_stems:
  assumes "collect_results (map (row_mapper te query) picked) = Inr found" and "set picked \<subseteq> rows"
    and "\<forall>y \<in> set m. stems rows (snd (snd y))"
  shows "\<forall>y \<in> set (or_insert_all found m). stems rows (snd (snd y))"
  using assms(3) stems_mono [OF collected_ranked [OF assms(1)] assms(2)] by (blast dest: or_insert_from)

lemma best_stems: "\<forall>y \<in> set m. stems rows (snd (snd y)) \<Longrightarrow> \<forall>v \<in> set (best_candidates limit m). stems rows v"
  by (fastforce simp: best_candidates_def dest!: in_set_takeD)

lemma fetched_stems: "fetch_matches te rows candidates = Inr vs \<Longrightarrow> v \<in> set vs \<Longrightarrow> stems (set rows) v"
proof (induction candidates arbitrary: vs)
  case (Cons candidate candidates)
  show ?case
  proof (cases "find (\<lambda>e. e_item_id e = sc_item_id candidate) rows")
    case None
    then show ?thesis using Cons by simp
  next
    case (Some e)
    then have e: "e \<in> set rows" using find_SomeD by fast
    obtain w where row: "row_match te e = Inr w" using Cons.prems(1) Some by (cases "row_match te e") simp_all
    obtain ws where rest: "fetch_matches te rows candidates = Inr ws" "vs = w # ws"
      using Cons.prems(1) Some row by (cases "fetch_matches te rows candidates") simp_all
    have "stems (set rows) w" using e row_match_item_id [OF row] unfolding stems_def by blast
    then show ?thesis using Cons.IH [OF rest(1)] Cons.prems(2) rest(2) by auto
  qed
qed simp

lemma query_rows:
  "set (exact_query1 query limit rows) \<subseteq> set rows" "set (exact_query2 query limit rows) \<subseteq> set rows"
  "set (prefix_query query limit column rows) \<subseteq> set rows"
  by (auto simp: exact_query1_def exact_query2_def prefix_query_def dest!: in_set_takeD)

lemma exact_stems:
  assumes "search_exact te server generation query limit db = Inr vs"
  shows "\<exists>g. \<forall>v \<in> set vs. stems (set (Query.generation_entries server g db)) v"
proof -
  obtain g where g: "i64_try_from generation = Some g"
    using assms by (cases "i64_try_from generation") (simp_all add: search_exact_def)
  let ?rows = "Query.generation_entries server g db"
  obtain found where found: "collect_results (map (row_mapper te query) (exact_query1 query limit ?rows)) = Inr found"
    using assms g by (cases "collect_results (map (row_mapper te query) (exact_query1 query limit ?rows))")
      (simp_all add: search_exact_def)
  have first: "\<forall>y \<in> set (or_insert_all found []). stems (set ?rows) (snd (snd y))"
    by (rule or_insert_stems [OF found query_rows(1)]) simp
  show ?thesis
  proof (cases "length (or_insert_all found []) \<ge> unat (saturating_add limit 1)")
    case True
    then have "vs = best_candidates limit (or_insert_all found [])"
      using assms g found by (simp add: search_exact_def Let_def)
    then show ?thesis using best_stems [OF first] by blast
  next
    case False
    obtain found2 where found2: "collect_results (map (row_mapper te query) (exact_query2 query limit ?rows)) = Inr found2"
      using assms g found False by (cases "collect_results (map (row_mapper te query) (exact_query2 query limit ?rows))")
        (simp_all add: search_exact_def Let_def)
    then have "vs = best_candidates limit (or_insert_all found2 (or_insert_all found []))"
      using assms g found False by (simp add: search_exact_def Let_def)
    then show ?thesis using best_stems [OF or_insert_stems [OF found2 query_rows(2) first]] by blast
  qed
qed

lemma prefix_stems:
  assumes "search_prefix te server generation query limit db = Inr vs"
  shows "\<exists>g. \<forall>v \<in> set vs. stems (set (Query.generation_entries server g db)) v"
proof -
  obtain g where g: "i64_try_from generation = Some g"
    using assms by (cases "i64_try_from generation") (simp_all add: search_prefix_def)
  let ?rows = "Query.generation_entries server g db"
  obtain found where found:
    "collect_results (map (row_mapper te query) (prefix_query query limit e_display_name_norm ?rows)) = Inr found"
    using assms g by (cases "collect_results (map (row_mapper te query) (prefix_query query limit e_display_name_norm ?rows))")
      (simp_all add: search_prefix_def)
  obtain found2 where found2:
    "collect_results (map (row_mapper te query) (prefix_query query limit e_item_id_norm ?rows)) = Inr found2"
    using assms g found by (cases "collect_results (map (row_mapper te query) (prefix_query query limit e_item_id_norm ?rows))")
      (simp_all add: search_prefix_def)
  have first: "\<forall>y \<in> set (or_insert_all found []). stems (set ?rows) (snd (snd y))"
    by (rule or_insert_stems [OF found query_rows(3)]) simp
  have "vs = best_candidates limit (or_insert_all found2 (or_insert_all found []))"
    using assms g found found2 by (simp add: search_prefix_def Let_def)
  then show ?thesis using best_stems [OF or_insert_stems [OF found2 query_rows(3) first]] by blast
qed

lemma full_text_stems:
  assumes "search_full_text te fts server generation query limit db = Inr vs"
  shows "\<exists>g. \<forall>v \<in> set vs. stems (set (Query.generation_entries server g db)) v"
proof -
  obtain g where "i64_try_from generation = Some g"
    using assms by (cases "i64_try_from generation") (simp_all add: search_full_text_def)
  then have "\<exists>candidates. fetch_matches te (Query.generation_entries server g db) candidates = Inr vs"
    using assms by (auto simp: search_full_text_def Let_def)
  then show ?thesis using fetched_stems by blast
qed

lemma like_stems:
  assumes "search_like te server generation query limit db = Inr vs"
  shows "\<forall>v \<in> set vs. stems (set (Query.generation_entries server (uint generation) db)) v"
proof
  fix v assume v: "v \<in> set vs"
  show "stems (set (Query.generation_entries server (uint generation) db)) v"
    by (rule stems_mono [OF collected_match [OF assms [unfolded search_like_def] v]])
      (auto dest: in_set_takeD)
qed

lemma db_search_stems:
  assumes "db_search te fts server generation query mode limit db = Inr vs" and "v \<in> set vs"
  shows "stems (set (db_entries db)) v"
proof -
  have "\<exists>g. \<forall>v \<in> set vs. stems (set (Query.generation_entries server g db)) v"
    using assms(1) exact_stems prefix_stems full_text_stems like_stems
    unfolding db_search_def Let_def by (metis (no_types, lifting))
  then show ?thesis using assms(2) by (auto simp: stems_def Query.generation_entries_def)
qed

section \<open>Search replies at the client\<close>

definition match_named :: "indexed_match \<Rightarrow> bool" where
  "match_named v \<longleftrightarrow> im_item_id v \<noteq> []"

lemma stems_named: "entries_named db \<Longrightarrow> stems (set (db_entries db)) v \<Longrightarrow> match_named v"
  by (auto simp: entries_named_def stems_def match_named_def)

lemma searched_named:
  "entries_named db \<Longrightarrow> db_search te fts server generation query mode limit db = Inr vs \<Longrightarrow> list_all match_named vs"
  using db_search_stems stems_named unfolding list_all_iff by blast

text \<open>The client's view of an indexed match.\<close>

definition match_view :: "indexed_match \<Rightarrow> client_match" where
  "match_view v = \<lparr>cm_item_id = im_item_id v, cm_display_name = im_display_name v,
     cm_kind = (case im_kind v of InvItem \<Rightarrow> KindItem | InvBranchAndItem \<Rightarrow> KindBranchAndItem),
     cm_breadcrumbs = im_breadcrumbs v\<rparr>"

lemma match_accepted: "match_named v \<Longrightarrow> match_of_proto (map_index_match v) = Inr (match_view v)"
  by (cases "im_kind v")
    (simp_all add: match_named_def match_of_proto_def map_index_match_def match_view_def enum_readers kind_is_item_def)

lemma matches_accepted:
  "list_all match_named vs \<Longrightarrow> collect (map match_of_proto (map map_index_match vs)) = Inr (map match_view vs)"
  unfolding map_map by (rule collect_all) (auto simp: list_all_iff match_accepted)

text \<open>The matches of a search are matches of the database, from the cache too.\<close>

lemma search_matches_named:
  assumes "entries_named (im_db m)" and "cache_coherent sv m" and "search sv env q m = (Inr result, m')"
  shows "list_all match_named (se_matches result) \<and> im_db m' = im_db m"
proof -
  have nonempty: "normalize (sv_text sv) (sq_query q) \<noteq> []"
    using assms(3) by (auto simp: search_def search_begin_def Let_def)
  obtain st m1 where st: "status_for sv env q m = (Inr st, m1)"
    using assms(3) nonempty by (cases "status_for sv env q m"; cases "fst (status_for sv env q m)")
      (auto simp: search_def search_begin_def Let_def)
  then have db: "im_db m1 = im_db m"
    using status_fields [of "sv_cfg sv" env "sv_host sv" "sv_storage sv" "sq_server q" m] by simp
  show ?thesis
  proof (cases "is_state st = IndexDeleting \<or> search_generation_of env (sq_server q) st m1 = Inr None")
    case True
    then show ?thesis using search_done [OF st nonempty True] assms(3) db by (auto simp: no_matches_def)
  next
    case False
    then obtain g where g: "search_generation_of env (sq_server q) st m1 = Inr (Some g)"
      using assms(3) st nonempty
      by (cases "search_generation_of env (sq_server q) st m1") (auto simp: search_def search_begin_def Let_def)
    note run = search_course [OF st nonempty _ g]
    show ?thesis
    proof (cases "if is_active_generation st = g then map_of (qc_values (im_cache m)) (request_key sv q g) else None")
      case None
      then obtain found where found: "search_database sv env q g m = Inr found"
        "result = search_value st (request_key sv q g) found" and m': "im_db m' = im_db m"
        using assms(3) run False db by (auto split: sum.splits if_splits)
      then have "list_all match_named found"
        by (intro searched_named [OF assms(1)]) (auto simp: database_read_def split: option.splits sum.splits)
      then show ?thesis using found(2) m' by (auto simp: search_value_def list_all_iff dest: in_set_takeD)
    next
      case (Some v)
      then have hit: "answers sv (im_db m) (request_key sv q g) v"
        using assms(2) by (auto simp: cache_coherent_def split: if_splits)
      then obtain found where "db_search (sv_text sv) (sv_fts sv) (sq_server q) g (sq_query q) (sq_mode q)
          (effective_limit (sv_cfg sv) (sq_limit q)) (im_db m) = Inr found"
        "se_matches v = take (unat (effective_limit (sv_cfg sv) (sq_limit q))) found"
        unfolding answers_def by (auto simp: request_key_def)
      then have "list_all match_named (se_matches v)"
        using searched_named [OF assms(1)] by (fastforce simp: list_all_iff dest: in_set_takeD)
      then show ?thesis using assms(3) run False Some db by auto
    qed
  qed
qed



end
