(* ===== verification/Compat.thy ===== *)
theory Compat
  imports Wire
begin

text \<open>
  Protocol compatibility. The build script of the protocol crate (\<open>opcda-bridge-proto/build.rs\<close>)
  turns the catalog \<open>compatibility.toml\<close> into constants; the gateway reports the protocols of its
  release line (\<open>server/map.rs\<close>), and the client compares them with its own
  (\<open>opcda-bridge/src/compatibility.rs\<close>). The build script is modelled by the constants it generates,
  not by their Rust text, from the TOML document its parser returns. The lemmas say what the
  comparison decides, and that the two handshakes of a gateway agree.
\<close>

section \<open>The catalog\<close>

text \<open>A parsed TOML document.\<close>

datatype toml_value =
  TomlString string | TomlInteger int | TomlFloat f64 | TomlBoolean bool | TomlDatetime string
| TomlArray "toml_value list" | TomlTable "(string \<times> toml_value) list"

definition toml_as_str :: "toml_value \<Rightarrow> string option" where
  "toml_as_str v = (case v of TomlString s \<Rightarrow> Some s | _ \<Rightarrow> None)"

definition toml_as_integer :: "toml_value \<Rightarrow> int option" where
  "toml_as_integer v = (case v of TomlInteger i \<Rightarrow> Some i | _ \<Rightarrow> None)"

definition toml_as_array :: "toml_value \<Rightarrow> toml_value list option" where
  "toml_as_array v = (case v of TomlArray vs \<Rightarrow> Some vs | _ \<Rightarrow> None)"

definition toml_as_table :: "toml_value \<Rightarrow> (string \<times> toml_value) list option" where
  "toml_as_table v = (case v of TomlTable t \<Rightarrow> Some t | _ \<Rightarrow> None)"

definition toml_get :: "string \<Rightarrow> toml_value \<Rightarrow> toml_value option" where
  "toml_get key v = Option.bind (toml_as_table v) (\<lambda>table. map_of table key)"

record release_line =
  rl_name :: string
  rl_min_version :: string
  rl_max_version :: string
  rl_status :: string
  rl_core_protocol :: u32
  rl_namespace_protocol :: u32
  rl_indexed_search_protocol :: u32

text \<open>An entry of \<open>EVIDENCE\<close>: the lines of client and gateway, the status, the exact versions.\<close>

type_synonym evidence_entry = "string \<times> string \<times> string \<times> string \<times> string"

record catalog =
  cat_schema_version :: u32
  cat_catalog_version :: string
  cat_core_protocol :: u32
  cat_namespace_protocol :: u32
  cat_indexed_search_protocol :: u32
  cat_release_lines :: "release_line list"
  cat_evidence :: "evidence_entry list"

section \<open>The build script\<close>

type_synonym 'a build_result = "string + 'a"

definition build_then :: "'a build_result \<Rightarrow> ('a \<Rightarrow> 'b build_result) \<Rightarrow> 'b build_result" where
  "build_then r f = (case r of Inl e \<Rightarrow> Inl e | Inr x \<Rightarrow> f x)"

definition ok_or :: "string \<Rightarrow> 'a option \<Rightarrow> 'a build_result" where
  "ok_or message v = (case v of None \<Rightarrow> Inl message | Some x \<Rightarrow> Inr x)"

fun build_all :: "('a \<Rightarrow> 'b build_result) \<Rightarrow> 'a list \<Rightarrow> 'b list build_result" where
  "build_all f [] = Inr []"
| "build_all f (x # xs) = build_then (f x) (\<lambda>y. build_then (build_all f xs) (\<lambda>ys. Inr (y # ys)))"

definition u32_try_from :: "int \<Rightarrow> u32 option" where
  "u32_try_from i = (if 0 \<le> i \<and> i < 2 ^ 32 then Some (word_of_int i) else None)"

definition required_string :: "(string \<times> toml_value) list \<Rightarrow> string \<Rightarrow> string build_result" where
  "required_string table key =
     ok_or (''compatibility.toml is missing valid '' @ key) (Option.bind (map_of table key) toml_as_str)"

definition optional_string :: "(string \<times> toml_value) list \<Rightarrow> string \<Rightarrow> string option build_result" where
  "optional_string table key =
     (case map_of table key of
        None \<Rightarrow> Inr None
      | Some value \<Rightarrow> ok_or (''compatibility.toml has invalid '' @ key) (map_option Some (toml_as_str value)))"

definition required_integer :: "toml_value \<Rightarrow> string \<Rightarrow> u32 build_result" where
  "required_integer document key =
     ok_or (''compatibility.toml is missing valid '' @ key)
       (Option.bind (Option.bind (toml_get key document) toml_as_integer) u32_try_from)"

definition required_protocol_integer :: "(string \<times> toml_value) list \<Rightarrow> string \<Rightarrow> u32 build_result" where
  "required_protocol_integer protocol key =
     ok_or (''compatibility.toml is missing valid protocol.'' @ key)
       (Option.bind (Option.bind (map_of protocol key) toml_as_integer) u32_try_from)"

definition required_table_integer :: "(string \<times> toml_value) list \<Rightarrow> string \<Rightarrow> u32 build_result" where
  "required_table_integer table key =
     ok_or (''compatibility.toml is missing valid '' @ key)
       (Option.bind (Option.bind (map_of table key) toml_as_integer) u32_try_from)"

definition build_release_line :: "toml_value \<Rightarrow> release_line build_result" where
  "build_release_line line =
     build_then (ok_or ''release_lines must contain tables'' (toml_as_table line)) (\<lambda>table.
     build_then (required_string table ''name'') (\<lambda>name.
     build_then (required_string table ''min_version'') (\<lambda>min_version.
     build_then (required_string table ''max_version'') (\<lambda>max_version.
     build_then (required_string table ''status'') (\<lambda>status.
     build_then (required_table_integer table ''core_protocol'') (\<lambda>core_protocol.
     build_then (required_table_integer table ''namespace_protocol'') (\<lambda>namespace_protocol.
     build_then (required_table_integer table ''indexed_search_protocol'') (\<lambda>indexed_search_protocol.
       Inr \<lparr>rl_name = name, rl_min_version = min_version, rl_max_version = max_version, rl_status = status,
            rl_core_protocol = core_protocol, rl_namespace_protocol = namespace_protocol,
            rl_indexed_search_protocol = indexed_search_protocol\<rparr>))))))))"

definition build_evidence :: "toml_value \<Rightarrow> evidence_entry build_result" where
  "build_evidence entry =
     build_then (ok_or ''evidence must contain tables'' (toml_as_table entry)) (\<lambda>table.
     build_then (required_string table ''client_line'') (\<lambda>client_line.
     build_then (required_string table ''gateway_line'') (\<lambda>gateway_line.
     build_then (required_string table ''status'') (\<lambda>status.
     build_then (optional_string table ''client_version'') (\<lambda>client_version.
     build_then (optional_string table ''gateway_version'') (\<lambda>gateway_version.
       Inr (client_line, gateway_line, status, unwrap_or client_version [], unwrap_or gateway_version [])))))))"

definition build_catalog :: "toml_value \<Rightarrow> catalog build_result" where
  "build_catalog document =
     build_then (ok_or ''compatibility.toml is missing [protocol]''
       (Option.bind (toml_get ''protocol'' document) toml_as_table)) (\<lambda>protocol.
     build_then (required_integer document ''schema_version'') (\<lambda>schema_version.
     build_then (ok_or ''compatibility.toml is missing catalog_version''
       (Option.bind (toml_get ''catalog_version'' document) toml_as_str)) (\<lambda>catalog_version.
     build_then (required_protocol_integer protocol ''core'') (\<lambda>core.
     build_then (required_protocol_integer protocol ''namespace'') (\<lambda>ns.
     build_then (required_protocol_integer protocol ''indexed_search'') (\<lambda>indexed_search.
     build_then (ok_or ''compatibility.toml is missing release_lines''
       (Option.bind (toml_get ''release_lines'' document) toml_as_array)) (\<lambda>release_lines.
     build_then (ok_or ''compatibility.toml is missing evidence''
       (Option.bind (toml_get ''evidence'' document) toml_as_array)) (\<lambda>evidence.
     build_then (build_all build_release_line release_lines) (\<lambda>lines.
     build_then (build_all build_evidence evidence) (\<lambda>entries.
       Inr \<lparr>cat_schema_version = schema_version, cat_catalog_version = catalog_version,
            cat_core_protocol = core, cat_namespace_protocol = ns,
            cat_indexed_search_protocol = indexed_search, cat_release_lines = lines, cat_evidence = entries\<rparr>))))))))))"

text \<open>The document \<open>compatibility.toml\<close>; the notes, which nothing reads, are left out.\<close>

definition catalog_line_document :: "string \<Rightarrow> string \<Rightarrow> string \<Rightarrow> string \<Rightarrow> int \<Rightarrow> int \<Rightarrow> int \<Rightarrow> toml_value" where
  "catalog_line_document name min_version max_version status core ns indexed_search =
     TomlTable [(''name'', TomlString name), (''min_version'', TomlString min_version),
       (''max_version'', TomlString max_version), (''status'', TomlString status),
       (''core_protocol'', TomlInteger core), (''namespace_protocol'', TomlInteger ns),
       (''indexed_search_protocol'', TomlInteger indexed_search)]"

definition compatibility_toml :: toml_value where
  "compatibility_toml = TomlTable
     [(''schema_version'', TomlInteger 1), (''catalog_version'', TomlString ''1''),
      (''protocol'', TomlTable [(''core'', TomlInteger 1), (''namespace'', TomlInteger 2), (''indexed_search'', TomlInteger 2)]),
      (''release_lines'', TomlArray
        [catalog_line_document ''legacy'' ''0.1.0'' ''0.3.1'' ''legacy'' 1 1 0,
         catalog_line_document ''paged'' ''0.3.2'' ''0.3.999'' ''supported'' 1 2 0,
         catalog_line_document ''indexed'' ''0.4.0'' ''0.4.999'' ''supported'' 1 2 1,
         catalog_line_document ''indexed-on-demand'' ''0.5.0'' ''0.999.999'' ''supported'' 1 2 2]),
      (''evidence'', TomlArray
        [TomlTable [(''client_line'', TomlString ''indexed''), (''gateway_line'', TomlString ''paged''),
           (''status'', TomlString ''contract-boundary-tested'')],
         TomlTable [(''client_line'', TomlString ''paged''), (''gateway_line'', TomlString ''indexed''),
           (''status'', TomlString ''contract-boundary-tested'')],
         TomlTable [(''client_line'', TomlString ''indexed''), (''gateway_line'', TomlString ''indexed''),
           (''client_version'', TomlString ''0.4.0''), (''gateway_version'', TomlString ''0.4.3''),
           (''status'', TomlString ''exact-pair-tested'')],
         TomlTable [(''client_line'', TomlString ''indexed''), (''gateway_line'', TomlString ''indexed''),
           (''client_version'', TomlString ''0.4.3''), (''gateway_version'', TomlString ''0.4.3''),
           (''status'', TomlString ''exact-pair-tested'')],
         TomlTable [(''client_line'', TomlString ''indexed-on-demand''), (''gateway_line'', TomlString ''indexed-on-demand''),
           (''status'', TomlString ''contract-boundary-tested'')]])]"

section \<open>Release lines\<close>

text \<open>\<open>str::split\<close> with a character.\<close>

fun split_char :: "char \<Rightarrow> string \<Rightarrow> string list" where
  "split_char c [] = [[]]"
| "split_char c (x # xs) =
     (if x = c then [] # split_char c xs
      else (case split_char c xs of part # parts \<Rightarrow> (x # part) # parts | [] \<Rightarrow> [[x]]))"

definition version_tuple :: "string \<Rightarrow> (nat \<times> nat \<times> nat) option" where
  "version_tuple value =
     (case split_char (CHR ''.'') value of
        [a, b, c] \<Rightarrow>
          if a = [] \<or> b = [] \<or> c = [] then None
          else Option.bind (parse_unsigned (2 ^ 64 - 1) a) (\<lambda>major.
               Option.bind (parse_unsigned (2 ^ 64 - 1) b) (\<lambda>minor.
               Option.bind (parse_unsigned (2 ^ 64 - 1) c) (\<lambda>patch. Some (major, minor, patch))))
      | _ \<Rightarrow> None)"

text \<open>The order of Rust's tuples.\<close>

fun version_le :: "nat \<times> nat \<times> nat \<Rightarrow> nat \<times> nat \<times> nat \<Rightarrow> bool" where
  "version_le (a, b, c) (a', b', c') \<longleftrightarrow> a < a' \<or> a = a' \<and> (b < b' \<or> b = b' \<and> c \<le> c')"

definition line_contains :: "nat \<times> nat \<times> nat \<Rightarrow> release_line \<Rightarrow> bool" where
  "line_contains version line \<longleftrightarrow>
     (case version_tuple (rl_min_version line) of
        None \<Rightarrow> False
      | Some minimum \<Rightarrow>
          (case version_tuple (rl_max_version line) of
             None \<Rightarrow> False
           | Some maximum \<Rightarrow> version_le minimum version \<and> version_le version maximum))"

definition release_line_for :: "catalog \<Rightarrow> string \<Rightarrow> release_line option" where
  "release_line_for cat version =
     Option.bind (version_tuple version) (\<lambda>v. find (line_contains v) (cat_release_lines cat))"

section \<open>What the gateway reports\<close>

record proto_feature =
  pf_kind :: int
  pf_min_version :: u32
  pf_max_version :: u32

record proto_gateway_info =
  pg_application_version :: string
  pg_compatibility_schema_version :: u32
  pg_features :: "proto_feature list"

text \<open>
  The version of the gateway's package is an argument: it comes from the package's manifest. A
  release line that is not found is a panic (\<open>expect\<close>), so that both replies are optional.
\<close>

definition GATEWAY_VERSION :: string where "GATEWAY_VERSION = ''0.6.3''"
definition LIBRARY_VERSION :: string where "LIBRARY_VERSION = ''0.6.0''"
definition CLIENT_VERSION :: string where "CLIENT_VERSION = ''0.6.1''"

definition gateway_info :: "catalog \<Rightarrow> string \<Rightarrow> proto_gateway_info option" where
  "gateway_info cat version =
     map_option (\<lambda>release_line.
       \<lparr>pg_application_version = version, pg_compatibility_schema_version = cat_schema_version cat,
        pg_features =
          [\<lparr>pf_kind = 1, pf_min_version = rl_core_protocol release_line, pf_max_version = rl_core_protocol release_line\<rparr>,
           \<lparr>pf_kind = 2, pf_min_version = rl_namespace_protocol release_line,
            pf_max_version = rl_namespace_protocol release_line\<rparr>,
           \<lparr>pf_kind = 3, pf_min_version = rl_indexed_search_protocol release_line,
            pf_max_version = rl_indexed_search_protocol release_line\<rparr>]\<rparr>) (release_line_for cat version)"

definition u32_display :: "u32 \<Rightarrow> string" where
  "u32_display v = nat_to_string (unat v)"

definition map_capabilities_for_release_line ::
  "string \<Rightarrow> browse_capabilities \<Rightarrow> index_status \<Rightarrow> u32 \<Rightarrow> release_line \<Rightarrow> proto_capabilities" where
  "map_capabilities_for_release_line version capabilities status max_results release_line =
     \<lparr>pc_application_version = version,
      pc_protocol_version = u32_display (rl_namespace_protocol release_line),
      pc_max_page_size = min (bc_max_page_size capabilities) MAX_PAGE_SIZE,
      pc_supports_browse_sessions = bc_supports_browse_sessions capabilities,
      pc_supports_search = bc_supports_search capabilities,
      pc_organization = map_namespace_organization (bc_organization capabilities),
      pc_source = map_browse_source (bc_source capabilities),
      pc_supports_indexed_search = rl_indexed_search_protocol release_line > 0,
      pc_indexed_search_protocol_version =
        (if rl_indexed_search_protocol release_line = 0 then []
         else u32_display (rl_indexed_search_protocol release_line)),
      pc_max_indexed_search_results = max_results,
      pc_search_index_state = map_index_state (is_state status),
      pc_search_index_promoting = is_promoting_state (is_state status)\<rparr>"

definition map_capabilities ::
  "catalog \<Rightarrow> string \<Rightarrow> browse_capabilities \<Rightarrow> index_status \<Rightarrow> u32 \<Rightarrow> proto_capabilities option" where
  "map_capabilities cat version capabilities status max_results =
     map_option (map_capabilities_for_release_line version capabilities status max_results) (release_line_for cat version)"

section \<open>The client's comparison\<close>

datatype compatibility_feature = FeatureCore | FeatureNamespace | FeatureIndexedSearch

definition feature_from_proto :: "int \<Rightarrow> compatibility_feature client_result" where
  "feature_from_proto value =
     (if value = 0 then Inl (ProtocolError ''gateway returned an unspecified protocol feature'')
      else if value = 1 then Inr FeatureCore
      else if value = 2 then Inr FeatureNamespace
      else if value = 3 then Inr FeatureIndexedSearch
      else Inl (ProtocolError (''gateway returned unknown protocol feature '' @ int_to_string value)))"

definition feature_display :: "compatibility_feature \<Rightarrow> string" where
  "feature_display feature =
     (case feature of FeatureCore \<Rightarrow> ''core'' | FeatureNamespace \<Rightarrow> ''namespace'' | FeatureIndexedSearch \<Rightarrow> ''indexed-search'')"

record version_range =
  vr_min :: u32
  vr_max :: u32

definition range_new :: "u32 \<Rightarrow> u32 \<Rightarrow> version_range option" where
  "range_new low high = (if low > high then None else Some \<lparr>vr_min = low, vr_max = high\<rparr>)"

definition range_exact :: "u32 \<Rightarrow> version_range" where
  "range_exact version = \<lparr>vr_min = version, vr_max = version\<rparr>"

definition range_overlaps :: "version_range \<Rightarrow> version_range \<Rightarrow> bool" where
  "range_overlaps a b \<longleftrightarrow> vr_min a \<le> vr_max b \<and> vr_min b \<le> vr_max a"

definition negotiated_version :: "version_range \<Rightarrow> version_range \<Rightarrow> u32 option" where
  "negotiated_version a b =
     (if range_overlaps a b then Some (if vr_min a > vr_min b then vr_min a else vr_min b) else None)"

record feature_support =
  fs_feature :: compatibility_feature
  fs_versions :: version_range

record gateway_information =
  gi_application_version :: string
  gi_compatibility_schema_version :: u32
  gi_features :: "feature_support list"

definition support_of_proto :: "proto_feature \<Rightarrow> feature_support client_result" where
  "support_of_proto v =
     and_then (feature_from_proto (pf_kind v)) (\<lambda>feature.
       case range_new (pf_min_version v) (pf_max_version v) of
         None \<Rightarrow> Inl (ProtocolError (''gateway returned reversed '' @ feature_display feature @ '' protocol version range''))
       | Some versions \<Rightarrow> Inr \<lparr>fs_feature = feature, fs_versions = versions\<rparr>)"

definition gateway_info_of_proto :: "proto_gateway_info \<Rightarrow> gateway_information client_result" where
  "gateway_info_of_proto v =
     and_then (collect (map support_of_proto (pg_features v))) (\<lambda>features.
       Inr \<lparr>gi_application_version = pg_application_version v,
            gi_compatibility_schema_version = pg_compatibility_schema_version v, gi_features = features\<rparr>)"

datatype compatibility_source = SourceGatewayInfo | SourceLegacyCapabilities | SourceUnknown

record protocol_profile =
  pl_application_version :: "string option"
  pl_source :: compatibility_source
  pl_features :: "feature_support list"

definition from_gateway_info :: "gateway_information \<Rightarrow> protocol_profile" where
  "from_gateway_info info =
     \<lparr>pl_application_version = Some (gi_application_version info), pl_source = SourceGatewayInfo,
      pl_features = gi_features info\<rparr>"

definition profile_feature :: "protocol_profile \<Rightarrow> compatibility_feature \<Rightarrow> version_range option" where
  "profile_feature profile feature =
     map_option fs_versions (find (\<lambda>support. fs_feature support = feature) (pl_features profile))"

definition support_exact :: "compatibility_feature \<Rightarrow> u32 \<Rightarrow> feature_support" where
  "support_exact feature version = \<lparr>fs_feature = feature, fs_versions = range_exact version\<rparr>"

text \<open>\<open>library\<close> is the version of the client library's package.\<close>

definition current_client_profile :: "catalog \<Rightarrow> string \<Rightarrow> string \<Rightarrow> protocol_profile option" where
  "current_client_profile cat library application_version =
     map_option (\<lambda>release_line.
       \<lparr>pl_application_version = Some application_version, pl_source = SourceGatewayInfo,
        pl_features =
          [support_exact FeatureCore (rl_core_protocol release_line),
           support_exact FeatureNamespace (rl_namespace_protocol release_line),
           support_exact FeatureIndexedSearch (rl_indexed_search_protocol release_line)]\<rparr>) (release_line_for cat library)"

definition trim :: "string \<Rightarrow> string" where
  "trim s = (let blank = (\<lambda>c :: char. is_whitespace (of_char c))
             in rev (dropWhile blank (rev (dropWhile blank s))))"

definition parse_namespace_protocol :: "string \<Rightarrow> u32 option" where
  "parse_namespace_protocol value =
     (let v = trim value in
      if v = ''1'' \<or> v = ''1.0'' then Some 1
      else if v = ''2'' \<or> v = ''2.0'' then Some 2
      else if v = ''0.3'' \<or> v = ''0.3.0'' then Some 2
      else None)"

definition parse_index_protocol :: "string \<Rightarrow> u32 option" where
  "parse_index_protocol value = (let v = trim value in if v = ''1'' \<or> v = ''1.0'' then Some 1 else None)"

definition legacy_gateway_profile :: "catalog \<Rightarrow> client_capabilities \<Rightarrow> protocol_profile" where
  "legacy_gateway_profile cat capabilities =
     (let release_line = release_line_for cat (ca_application_version capabilities);
          base = (case parse_namespace_protocol (ca_protocol_version capabilities) of
             None \<Rightarrow> []
           | Some namespace_version \<Rightarrow>
               [support_exact FeatureCore
                  (case release_line of None \<Rightarrow> cat_core_protocol cat | Some line \<Rightarrow> rl_core_protocol line),
                support_exact FeatureNamespace namespace_version]);
          index = (if ca_supports_indexed_search capabilities
             then (case parse_index_protocol (ca_indexed_search_protocol_version capabilities) of
                     None \<Rightarrow> [] | Some index_protocol \<Rightarrow> [support_exact FeatureIndexedSearch index_protocol])
             else [])
      in \<lparr>pl_application_version = Some (ca_application_version capabilities),
          pl_source = SourceLegacyCapabilities, pl_features = base @ index\<rparr>)"

datatype compatibility_evidence = ContractBoundaryTested | ExactPairTested | Unverified

definition evidence_status :: "string \<Rightarrow> compatibility_evidence option" where
  "evidence_status value =
     (if value = ''contract-boundary-tested'' then Some ContractBoundaryTested
      else if value = ''exact-pair-tested'' then Some ExactPairTested
      else if value = ''unverified'' then Some Unverified
      else None)"

definition catalog_line :: "catalog \<Rightarrow> string \<Rightarrow> string option" where
  "catalog_line cat version = map_option rl_name (release_line_for cat version)"

text \<open>A loop that returns at the first entry that satisfies the test and has a known status.\<close>

fun first_evidence :: "(evidence_entry \<Rightarrow> bool) \<Rightarrow> evidence_entry list \<Rightarrow> compatibility_evidence option" where
  "first_evidence test [] = None"
| "first_evidence test (entry # entries) =
     (if test entry
      then (case evidence_status (fst (snd (snd entry))) of
              Some status \<Rightarrow> Some status | None \<Rightarrow> first_evidence test entries)
      else first_evidence test entries)"

definition catalog_evidence :: "catalog \<Rightarrow> string option \<Rightarrow> string option \<Rightarrow> compatibility_evidence" where
  "catalog_evidence cat client_version gateway_version =
     (case (client_version, gateway_version) of
        (Some client, Some gateway) \<Rightarrow>
          (case (catalog_line cat client, catalog_line cat gateway) of
             (Some client_line, Some gateway_line) \<Rightarrow>
               (case first_evidence (\<lambda>(cl, gl, status, exact_client, exact_gateway).
                   cl = client_line \<and> gl = gateway_line \<and> exact_client \<noteq> [] \<and> exact_client = client \<and>
                   exact_gateway = gateway) (cat_evidence cat) of
                  Some status \<Rightarrow> status
                | None \<Rightarrow>
                    (case first_evidence (\<lambda>(cl, gl, status, exact_client, exact_gateway).
                        cl = client_line \<and> gl = gateway_line \<and> exact_client = [] \<and> exact_gateway = [])
                        (cat_evidence cat) of
                       Some status \<Rightarrow> status
                     | None \<Rightarrow> Unverified))
           | _ \<Rightarrow> Unverified)
      | _ \<Rightarrow> Unverified)"

datatype feature_status = FeatureCompatible | FeatureUnsupported | FeatureIncompatible | FeatureUnknown

datatype compatibility_status = CompatFull | CompatPartial | CompatIncompatible | CompatUnknown

record feature_compatibility =
  fc_feature :: compatibility_feature
  fc_status :: feature_status
  fc_client_versions :: version_range
  fc_gateway_versions :: "version_range option"
  fc_negotiated_version :: "u32 option"
  fc_reason :: string

record compatibility_report =
  cy_client_version :: string
  cy_library_version :: string
  cy_gateway_version :: "string option"
  cy_source :: compatibility_source
  cy_status :: compatibility_status
  cy_evidence :: compatibility_evidence
  cy_features :: "feature_compatibility list"

definition feature_verdict ::
  "feature_support \<Rightarrow> version_range option \<Rightarrow> feature_status \<times> u32 option \<times> string" where
  "feature_verdict support gateway_versions =
     (let client = fs_versions support; name = feature_display (fs_feature support) in
      case gateway_versions of
        Some gateway \<Rightarrow>
          if range_overlaps client gateway
          then (FeatureCompatible, negotiated_version client gateway, name @ '' protocol ranges overlap'')
          else (FeatureIncompatible, None,
                name @ '' protocol ranges do not overlap: client '' @ u32_display (vr_min client) @ ''-'' @
                u32_display (vr_max client) @ '', gateway '' @ u32_display (vr_min gateway) @ ''-'' @
                u32_display (vr_max gateway))
      | None \<Rightarrow>
          if fs_feature support = FeatureIndexedSearch
          then (FeatureUnsupported, None, ''gateway does not advertise indexed search'')
          else (FeatureUnknown, None, ''gateway did not advertise the '' @ name @ '' protocol''))"

definition feature_result :: "protocol_profile \<Rightarrow> feature_support \<Rightarrow> feature_compatibility" where
  "feature_result gateway support =
     (let gateway_versions = profile_feature gateway (fs_feature support);
          (status, negotiated, reason) = feature_verdict support gateway_versions
      in \<lparr>fc_feature = fs_feature support, fc_status = status, fc_client_versions = fs_versions support,
          fc_gateway_versions = gateway_versions, fc_negotiated_version = negotiated, fc_reason = reason\<rparr>)"

definition overall_status :: "feature_compatibility list \<Rightarrow> compatibility_status" where
  "overall_status features =
     (case map_option fc_status (find (\<lambda>result. fc_feature result = FeatureCore) features) of
        Some FeatureCompatible \<Rightarrow>
          if list_all (\<lambda>result. fc_status result = FeatureCompatible) features then CompatFull else CompatPartial
      | Some FeatureIncompatible \<Rightarrow> CompatIncompatible
      | Some FeatureUnsupported \<Rightarrow> CompatIncompatible
      | Some FeatureUnknown \<Rightarrow> CompatUnknown
      | None \<Rightarrow> CompatUnknown)"

definition evaluate_compatibility :: "catalog \<Rightarrow> string \<Rightarrow> protocol_profile \<Rightarrow> protocol_profile \<Rightarrow> compatibility_report" where
  "evaluate_compatibility cat library client gateway =
     (let features = map (feature_result gateway) (pl_features client) in
      \<lparr>cy_client_version = unwrap_or (pl_application_version client) ''unknown'', cy_library_version = library,
       cy_gateway_version = pl_application_version gateway, cy_source = pl_source gateway,
       cy_status = overall_status features,
       cy_evidence = catalog_evidence cat (pl_application_version client) (pl_application_version gateway),
       cy_features = features\<rparr>)"

definition unknown_compatibility_report :: "string \<Rightarrow> string \<Rightarrow> compatibility_report" where
  "unknown_compatibility_report library client_version =
     \<lparr>cy_client_version = client_version, cy_library_version = library, cy_gateway_version = None,
      cy_source = SourceUnknown, cy_status = CompatUnknown, cy_evidence = Unverified, cy_features = []\<rparr>"

definition report_feature :: "compatibility_report \<Rightarrow> compatibility_feature \<Rightarrow> feature_compatibility option" where
  "report_feature report feature = find (\<lambda>result. fc_feature result = feature) (cy_features report)"

definition report_satisfies :: "compatibility_report \<Rightarrow> compatibility_feature list \<Rightarrow> bool" where
  "report_satisfies report required =
     list_all (\<lambda>feature. case report_feature report feature of
         None \<Rightarrow> False | Some result \<Rightarrow> fc_status result = FeatureCompatible) required"

section \<open>Negotiation\<close>

text \<open>The versions of a range.\<close>

definition versions_of :: "version_range \<Rightarrow> u32 set" where
  "versions_of r = {v. vr_min r \<le> v \<and> v \<le> vr_max r}"

definition range_wf :: "version_range \<Rightarrow> bool" where
  "range_wf r \<longleftrightarrow> vr_min r \<le> vr_max r"

definition profile_wf :: "protocol_profile \<Rightarrow> bool" where
  "profile_wf profile \<longleftrightarrow> list_all (\<lambda>support. range_wf (fs_versions support)) (pl_features profile)"

lemma range_new_wf: "range_new low high = Some r \<Longrightarrow> range_wf r \<and> vr_min r = low \<and> vr_max r = high"
  by (auto simp: range_new_def range_wf_def split: if_splits)

lemma range_exact_wf [simp]: "range_wf (range_exact v)" "versions_of (range_exact v) = {v}"
  by (auto simp: range_wf_def range_exact_def versions_of_def)

lemma overlaps_shared: "range_wf a \<Longrightarrow> range_wf b \<Longrightarrow> range_overlaps a b \<longleftrightarrow> versions_of a \<inter> versions_of b \<noteq> {}"
proof
  assume wf: "range_wf a" "range_wf b" and "range_overlaps a b"
  then have "max (vr_min a) (vr_min b) \<in> versions_of a \<inter> versions_of b"
    by (simp add: range_overlaps_def versions_of_def range_wf_def)
  then show "versions_of a \<inter> versions_of b \<noteq> {}" by blast
next
  assume "versions_of a \<inter> versions_of b \<noteq> {}"
  then show "range_overlaps a b"
    by (auto simp: range_overlaps_def versions_of_def intro: order_trans)
qed

lemma negotiated_least:
  assumes "range_wf a" and "range_wf b"
  shows "negotiated_version a b =
    (let shared = versions_of a \<inter> versions_of b in if shared = {} then None else Some (Min shared))"
proof (cases "versions_of a \<inter> versions_of b = {}")
  case True
  then show ?thesis using overlaps_shared [OF assms] by (simp add: negotiated_version_def)
next
  case False
  then have over: "range_overlaps a b" using overlaps_shared [OF assms] by simp
  have "Min (versions_of a \<inter> versions_of b) = max (vr_min a) (vr_min b)"
    using over assms by (intro Min_eqI) (auto simp: versions_of_def range_overlaps_def range_wf_def max_def)
  then show ?thesis using False over by (auto simp: negotiated_version_def max_def)
qed

lemma profile_feature_wf: "profile_wf profile \<Longrightarrow> profile_feature profile feature = Some r \<Longrightarrow> range_wf r"
  by (auto simp: profile_feature_def profile_wf_def list_all_iff dest!: find_SomeD)

text \<open>What the comparison of one feature says.\<close>

lemma feature_result_spec:
  assumes "profile_wf gateway" and "range_wf (fs_versions support)"
  defines "shared \<equiv> (case profile_feature gateway (fs_feature support) of
    None \<Rightarrow> {} | Some r \<Rightarrow> versions_of (fs_versions support) \<inter> versions_of r)"
  shows "fc_status (feature_result gateway support) = FeatureCompatible \<longleftrightarrow> shared \<noteq> {}"
    and "fc_negotiated_version (feature_result gateway support) = (if shared = {} then None else Some (Min shared))"
proof -
  have *: "(fc_status (feature_result gateway support) = FeatureCompatible \<longleftrightarrow> shared \<noteq> {}) \<and>
    fc_negotiated_version (feature_result gateway support) = (if shared = {} then None else Some (Min shared))"
  proof (cases "profile_feature gateway (fs_feature support)")
    case None
    then show ?thesis by (simp add: feature_result_def feature_verdict_def shared_def Let_def)
  next
    case (Some r)
    then have r: "range_wf r" using profile_feature_wf [OF assms(1)] by blast
    show ?thesis
      using Some overlaps_shared [OF assms(2) r] negotiated_least [OF assms(2) r]
      by (simp add: feature_result_def feature_verdict_def shared_def Let_def)
  qed
  then show "fc_status (feature_result gateway support) = FeatureCompatible \<longleftrightarrow> shared \<noteq> {}"
    and "fc_negotiated_version (feature_result gateway support) = (if shared = {} then None else Some (Min shared))"
    by auto
qed

text \<open>
  A feature is reported compatible exactly when client and gateway share a version of its protocol,
  and the version negotiated is then the lowest one they share; the report has one result for each
  feature of the client, in the client's order.
\<close>

theorem negotiation_sound:
  assumes "profile_wf client" and "profile_wf gateway"
  defines "shared \<equiv> \<lambda>support. (case profile_feature gateway (fs_feature support) of
    None \<Rightarrow> {} | Some r \<Rightarrow> versions_of (fs_versions support) \<inter> versions_of r)"
  shows "map (\<lambda>r. (fc_feature r, fc_status r = FeatureCompatible, fc_negotiated_version r))
      (cy_features (evaluate_compatibility cat library client gateway)) =
    map (\<lambda>support. (fs_feature support, shared support \<noteq> {},
      if shared support = {} then None else Some (Min (shared support)))) (pl_features client)"
proof -
  have feature: "fc_feature (feature_result gateway support) = fs_feature support" for support
    by (simp add: feature_result_def Let_def split_def)
  show ?thesis
    using assms(1) feature_result_spec [OF assms(2)]
    by (auto simp: evaluate_compatibility_def Let_def feature profile_wf_def list_all_iff shared_def)
qed

section \<open>The handshakes of a gateway\<close>

definition line_features :: "release_line \<Rightarrow> feature_support list" where
  "line_features line =
     [support_exact FeatureCore (rl_core_protocol line), support_exact FeatureNamespace (rl_namespace_protocol line),
      support_exact FeatureIndexedSearch (rl_indexed_search_protocol line)]"

lemma support_of_exact:
  "support_of_proto \<lparr>pf_kind = k, pf_min_version = v, pf_max_version = v\<rparr> =
     and_then (feature_from_proto k) (\<lambda>feature. Inr (support_exact feature v))"
  by (simp add: support_of_proto_def range_new_def support_exact_def range_exact_def)

lemma gateway_info_read:
  assumes "release_line_for cat version = Some line"
  shows "\<exists>reply info. gateway_info cat version = Some reply \<and> gateway_info_of_proto reply = Inr info \<and>
    from_gateway_info info = \<lparr>pl_application_version = Some version, pl_source = SourceGatewayInfo,
      pl_features = line_features line\<rparr>"
  using assms
  by (simp add: gateway_info_def gateway_info_of_proto_def support_of_exact feature_from_proto_def and_then_def
      from_gateway_info_def line_features_def)

lemma exact_overlap [simp]: "range_overlaps (range_exact v) (range_exact w) \<longleftrightarrow> v = w"
  by (auto simp: range_overlaps_def range_exact_def)

lemmas profile_eval = evaluate_compatibility_def overall_status_def feature_result_def feature_verdict_def
  profile_feature_def line_features_def support_exact_def Let_def

text \<open>
  C27. Two releases of the catalog are fully compatible exactly when their lines have the same protocols,
  incompatible exactly when their core protocols differ, and partly compatible otherwise. The
  gateway's answer is always accepted by the client, and no side panics.
\<close>

theorem handshake_verdict:
  assumes "release_line_for cat library = Some client_line" and "release_line_for cat gateway = Some gateway_line"
  shows "\<exists>profile reply info. current_client_profile cat library application = Some profile \<and>
    gateway_info cat gateway = Some reply \<and> gateway_info_of_proto reply = Inr info \<and>
    cy_status (evaluate_compatibility cat library profile (from_gateway_info info)) =
      (if rl_core_protocol client_line \<noteq> rl_core_protocol gateway_line then CompatIncompatible
       else if rl_namespace_protocol client_line = rl_namespace_protocol gateway_line \<and>
         rl_indexed_search_protocol client_line = rl_indexed_search_protocol gateway_line then CompatFull
       else CompatPartial)"
proof -
  obtain reply info where "gateway_info cat gateway = Some reply" "gateway_info_of_proto reply = Inr info"
    "from_gateway_info info = \<lparr>pl_application_version = Some gateway, pl_source = SourceGatewayInfo,
      pl_features = line_features gateway_line\<rparr>"
    using gateway_info_read [OF assms(2)] by blast
  then show ?thesis
    using assms(1) by (simp add: current_client_profile_def profile_eval)
qed

lemma u32_display_digits: "u32_display 1 = ''1''" "u32_display 2 = ''2''"
  by code_simp+

lemma protocol_read:
  "parse_namespace_protocol (u32_display 1) = Some 1" "parse_namespace_protocol (u32_display 2) = Some 2"
  "parse_index_protocol (u32_display 1) = Some 1" "parse_index_protocol (u32_display 2) = None"
  by (simp_all add: u32_display_digits parse_namespace_protocol_def parse_index_protocol_def trim_def
      is_whitespace_def Let_def)

text \<open>
  A gateway that is asked through its per-server capabilities is judged like one that is asked for
  its gateway information, on the core and the namespace protocol, for every line of the catalog.
  Its indexed search is recognised there only with protocol 1.
\<close>

theorem handshakes_agree:
  assumes "release_line_for cat version = Some line" and "rl_namespace_protocol line \<in> {1, 2}"
    and "rl_indexed_search_protocol line \<in> {0, 1, 2}"
  shows "\<exists>reply capabilities. map_capabilities cat version caps status max_results = Some reply \<and>
    capabilities_of_proto reply = Inr capabilities \<and>
    pl_features (legacy_gateway_profile cat capabilities) =
      filter (\<lambda>support. fs_feature support = FeatureIndexedSearch \<longrightarrow> rl_indexed_search_protocol line = 1)
        (line_features line)"
proof -
  obtain org where org: "client_organization_of (map_namespace_organization (bc_organization caps)) = Inr org"
    by (rule organization_read)
  obtain src where src: "client_source_of (map_browse_source (bc_source caps)) = Inr src" by (rule source_read)
  obtain state where state: "search_index_state_of (map_index_state (is_state status)) = Inr state" by (rule state_read)
  show ?thesis
    using assms
    by (auto simp: map_capabilities_def map_capabilities_for_release_line_def capabilities_of_proto_def and_then_def
        org src state legacy_gateway_profile_def Let_def protocol_read line_features_def support_exact_def)
qed

section \<open>The bundled catalog\<close>

definition bundled_catalog :: catalog where
  "bundled_catalog = projr (build_catalog compatibility_toml)"

lemmas build_eval = build_catalog_def build_release_line_def build_evidence_def required_string_def optional_string_def
  required_integer_def required_protocol_integer_def required_table_integer_def ok_or_def build_then_def toml_get_def
  toml_as_str_def toml_as_integer_def toml_as_array_def toml_as_table_def u32_try_from_def catalog_line_document_def
  compatibility_toml_def unwrap_or_def

lemma bundled_catalog_eq: "build_catalog compatibility_toml = Inr bundled_catalog"
  unfolding bundled_catalog_def by (simp add: build_eval)

lemma bundled_lines:
  "cat_release_lines bundled_catalog =
     [\<lparr>rl_name = ''legacy'', rl_min_version = ''0.1.0'', rl_max_version = ''0.3.1'', rl_status = ''legacy'',
       rl_core_protocol = 1, rl_namespace_protocol = 1, rl_indexed_search_protocol = 0\<rparr>,
      \<lparr>rl_name = ''paged'', rl_min_version = ''0.3.2'', rl_max_version = ''0.3.999'', rl_status = ''supported'',
       rl_core_protocol = 1, rl_namespace_protocol = 2, rl_indexed_search_protocol = 0\<rparr>,
      \<lparr>rl_name = ''indexed'', rl_min_version = ''0.4.0'', rl_max_version = ''0.4.999'', rl_status = ''supported'',
       rl_core_protocol = 1, rl_namespace_protocol = 2, rl_indexed_search_protocol = 1\<rparr>,
      \<lparr>rl_name = ''indexed-on-demand'', rl_min_version = ''0.5.0'', rl_max_version = ''0.999.999'', rl_status = ''supported'',
       rl_core_protocol = 1, rl_namespace_protocol = 2, rl_indexed_search_protocol = 2\<rparr>]"
  unfolding bundled_catalog_def by (simp add: build_eval)

lemmas version_eval = version_tuple_def parse_unsigned_def parse_magnitude_def digit_value_def Let_def

lemma catalog_versions:
  "version_tuple ''0.1.0'' = Some (0, 1, 0)" "version_tuple ''0.3.1'' = Some (0, 3, 1)"
  "version_tuple ''0.3.2'' = Some (0, 3, 2)" "version_tuple ''0.3.999'' = Some (0, 3, 999)"
  "version_tuple ''0.4.0'' = Some (0, 4, 0)" "version_tuple ''0.4.999'' = Some (0, 4, 999)"
  "version_tuple ''0.5.0'' = Some (0, 5, 0)" "version_tuple ''0.999.999'' = Some (0, 999, 999)"
  "version_tuple ''0.6.0'' = Some (0, 6, 0)" "version_tuple ''0.6.3'' = Some (0, 6, 3)"
  "version_tuple ''0.4.3'' = Some (0, 4, 3)"
  by (simp_all add: version_eval)

lemma bundled_versions:
  "release_line_for bundled_catalog LIBRARY_VERSION = Some (cat_release_lines bundled_catalog ! 3)"
  "release_line_for bundled_catalog GATEWAY_VERSION = Some (cat_release_lines bundled_catalog ! 3)"
  "release_line_for bundled_catalog ''0.4.3'' = Some (cat_release_lines bundled_catalog ! 2)"
  by (simp_all add: release_line_for_def bundled_lines line_contains_def catalog_versions LIBRARY_VERSION_def GATEWAY_VERSION_def)

theorem negotiation_sound_witness:
  "map (\<lambda>r. (fc_feature r, fc_status r = FeatureCompatible, fc_negotiated_version r))
     (cy_features (evaluate_compatibility bundled_catalog LIBRARY_VERSION
       \<lparr>pl_application_version = None, pl_source = SourceUnknown,
        pl_features = [support_exact FeatureCore 2, support_exact FeatureNamespace 3]\<rparr>
       \<lparr>pl_application_version = None, pl_source = SourceUnknown,
        pl_features = [\<lparr>fs_feature = FeatureCore, fs_versions = \<lparr>vr_min = 1, vr_max = 4\<rparr>\<rparr>]\<rparr>)) =
   [(FeatureCore, True, Some 2), (FeatureNamespace, False, None)]"
proof -
  let ?client = "\<lparr>pl_application_version = None, pl_source = SourceUnknown,
    pl_features = [support_exact FeatureCore 2, support_exact FeatureNamespace 3]\<rparr>"
  let ?gateway = "\<lparr>pl_application_version = None, pl_source = SourceUnknown,
    pl_features = [\<lparr>fs_feature = FeatureCore, fs_versions = \<lparr>vr_min = 1, vr_max = 4\<rparr>\<rparr>]\<rparr>"
  have wf: "profile_wf ?client" "profile_wf ?gateway"
    by (simp_all add: profile_wf_def support_exact_def) (simp add: range_wf_def)
  have "{2} \<inter> versions_of \<lparr>vr_min = 1, vr_max = 4\<rparr> = {2}" by (auto simp: versions_of_def)
  then show ?thesis
    using negotiation_sound [OF wf, of bundled_catalog LIBRARY_VERSION]
    by (simp add: profile_feature_def support_exact_def)
qed

theorem handshake_verdict_witness:
  "\<exists>profile reply info. current_client_profile bundled_catalog LIBRARY_VERSION CLIENT_VERSION = Some profile \<and>
     gateway_info bundled_catalog GATEWAY_VERSION = Some reply \<and> gateway_info_of_proto reply = Inr info \<and>
     cy_status (evaluate_compatibility bundled_catalog LIBRARY_VERSION profile (from_gateway_info info)) = CompatFull"
  using handshake_verdict [OF bundled_versions(1,2), of CLIENT_VERSION] by simp

theorem handshakes_agree_witness:
  "\<exists>reply capabilities. map_capabilities bundled_catalog ''0.4.3''
       \<lparr>bc_organization = OrgFlat, bc_source = SrcDa2, bc_supports_browse_sessions = True, bc_supports_search = True,
        bc_max_page_size = 500\<rparr> (empty_status ''S'' IndexReady) 50 = Some reply \<and>
     capabilities_of_proto reply = Inr capabilities \<and>
     map fs_feature (pl_features (legacy_gateway_profile bundled_catalog capabilities)) =
       [FeatureCore, FeatureNamespace, FeatureIndexedSearch]"
proof -
  show ?thesis
    using handshakes_agree [OF bundled_versions(3), of "\<lparr>bc_organization = OrgFlat, bc_source = SrcDa2, bc_supports_browse_sessions = True,
      bc_supports_search = True, bc_max_page_size = 500\<rparr>" "empty_status ''S'' IndexReady" 50]
    by (auto simp: bundled_lines line_features_def support_exact_def)
qed

end
