(* ===== verification/Refresh.thy ===== *)
theory Refresh
  imports BuildProofs Status
begin

text \<open>
  A refresh request, from the check of the enrollment to the launch of the build task
  (\<open>index/enrollment.rs\<close>, \<open>start_refresh_inventory\<close> of \<open>index/traversal.rs\<close>), and the rebuild after a
  change of the server's profile (\<open>index/scheduler.rs\<close>). The replies of the OPC client, the answers of
  the inventory's control and what other tasks do at each \<open>await\<close> are inputs. The lemmas say that a
  refresh either launches its build or releases all it reserved, whatever fails on the way, and that
  it enrolls no server the OPC host does not list.
\<close>

section \<open>The course of a refresh\<close>

text \<open>
  A reply of the OPC client is \<open>None\<close> where it did not come in time. \<open>rc_env\<close> gives the circumstances of
  the steps: 0 the check of the enrollment, 1 the enrollment, 2 the reservation, 3 a failed start of
  the inventory, 4 the attachment of its control, 5 a shutdown after it, 6 the start of the
  generation, 7 its failure, 8 the launch, 9 the status; \<open>rc_meanwhile\<close> is what happens while the list of
  servers (0), the inventory (1) and the capabilities (2) are awaited.
\<close>

record refresh_course =
  rc_env :: "nat \<Rightarrow> call_env"
  rc_meanwhile :: "nat \<Rightarrow> index_manager \<Rightarrow> index_manager"
  rc_servers :: "(string + string list) option"
  rc_coordinated :: "string + nat option"
  rc_inventory :: "(string + nat) option"
  rc_answers :: control_answers
  rc_capabilities :: "(string + namespace_organization \<times> browse_source) option"
  rc_cancelled_at_probe :: bool
  rc_cancelled_at_launch :: bool
  rc_spawned :: bool
  rc_host :: host_metrics
  rc_storage :: storage_diagnostics

definition with_opc_timeout :: "resolved_index_config \<Rightarrow> string \<Rightarrow> (string + 'a) option \<Rightarrow> string + 'a" where
  "with_opc_timeout cfg operation reply =
     (case reply of
        Some r \<Rightarrow> r
      | None \<Rightarrow> Inl (''OPC namespace index '' @ operation @ '' timed out after '' @
          nat_to_string (unat (max (ri_operation_timeout_seconds cfg) 1)) @ '' seconds''))"

definition validate_server_for_enrollment ::
  "resolved_index_config \<Rightarrow> refresh_course \<Rightarrow> string \<Rightarrow> index_operation_error + unit" where
  "validate_server_for_enrollment cfg c server =
     (case with_opc_timeout cfg ''list servers for index enrollment'' (rc_servers c) of
        Inl e \<Rightarrow> Inl (Manager.Internal (ManagerError e))
      | Inr servers \<Rightarrow> if server \<in> set servers then Inr () else Inl (UnknownServer server))"

definition refresh_status :: "resolved_index_config \<Rightarrow> refresh_course \<Rightarrow> string \<Rightarrow> index_manager \<Rightarrow> index_status manager_result" where
  "refresh_status cfg c server m = index_status_of cfg (rc_env c 9) (rc_host c) (rc_storage c) server m"

text \<open>The inventory did not start: the error is recorded, unless the operator cancelled the build.\<close>

definition inventory_not_started ::
  "resolved_index_config \<Rightarrow> refresh_course \<Rightarrow> string \<Rightarrow> nat \<Rightarrow> string \<Rightarrow> index_manager \<Rightarrow> nat option manager_result" where
  "inventory_not_started cfg c server ownership error m =
     (case take_pending_cancel server m of
        (True, m1) \<Rightarrow> (Inr None, finish_build_owned cfg (rc_env c 3) server ownership None m1)
      | (False, m1) \<Rightarrow>
          (case record_start_failure cfg (rc_env c 3) server ownership error m1 of
             (Inl e, m2) \<Rightarrow> (Inl e, m2)
           | (Inr _, m2) \<Rightarrow> (Inl (ManagerError error), m2)))"

definition start_refresh_inventory ::
  "resolved_index_config \<Rightarrow> refresh_course \<Rightarrow> string \<Rightarrow> nat \<Rightarrow> index_manager \<Rightarrow> nat option manager_result" where
  "start_refresh_inventory cfg c server ownership m0 =
     (let m = rc_meanwhile c 1 m0 in
      if ri_inventory_root cfg \<noteq> None
      then (case with_opc_timeout cfg ''start root-scoped inventory'' (rc_inventory c) of
              Inr control \<Rightarrow> (Inr (Some control), m)
            | Inl error \<Rightarrow> inventory_not_started cfg c server ownership error m)
      else case (if ri_worker_count cfg > 1 then rc_coordinated c else Inr None) of
        Inr (Some control) \<Rightarrow> (Inr (Some control), m)
      | _ \<Rightarrow>
          (case with_opc_timeout cfg ''start inventory'' (rc_inventory c) of
             Inr control \<Rightarrow> (Inr (Some control), m)
           | Inl error \<Rightarrow> inventory_not_started cfg c server ownership error m))"

text \<open>The generation did not start.\<close>

definition generation_not_started ::
  "resolved_index_config \<Rightarrow> refresh_course \<Rightarrow> string \<Rightarrow> nat \<Rightarrow> nat \<Rightarrow> bool \<Rightarrow> manager_error \<Rightarrow> index_manager \<Rightarrow>
     u64 option manager_result" where
  "generation_not_started cfg c server control ownership cancelled_before error m =
     (let env = rc_env c 7; m1 = call_control control CancelCall m in
      if \<not> cancelled_before \<and> rc_cancelled_at_probe c
      then (Inr None, finish_build_for_control_owned cfg env server control ownership None m1)
      else (case record_start_failure cfg env server ownership (error_text env error) m1 of
              (Inl e, m2) \<Rightarrow> (Inl e, m2)
            | (Inr _, m2) \<Rightarrow> (Inl error, m2)))"

definition start_refresh_generation ::
  "resolved_index_config \<Rightarrow> refresh_course \<Rightarrow> string \<Rightarrow> nat \<Rightarrow> nat \<Rightarrow> bool \<Rightarrow> index_manager \<Rightarrow> u64 option manager_result" where
  "start_refresh_generation cfg c server control ownership cancelled_before m0 =
     (let m = rc_meanwhile c 2 m0; env = rc_env c 6 in
      case with_opc_timeout cfg ''inventory capability probe'' (rc_capabilities c) of
        Inl error \<Rightarrow> generation_not_started cfg c server control ownership cancelled_before (ManagerError error) m
      | Inr (organization, source) \<Rightarrow>
          (case database_write (start_generation (ce_faults env 0) server organization source (timestamp_now env)) m of
             (Inl error, m1) \<Rightarrow> generation_not_started cfg c server control ownership cancelled_before error m1
           | (Inr generation, m1) \<Rightarrow> (Inr (Some generation), schedule_cleanup env server m1)))"

text \<open>Whether the build task was started.\<close>

definition launch_refresh_build ::
  "resolved_index_config \<Rightarrow> refresh_course \<Rightarrow> string \<Rightarrow> u64 \<Rightarrow> nat \<Rightarrow> nat \<Rightarrow> bool \<Rightarrow> index_manager \<Rightarrow> bool manager_result" where
  "launch_refresh_build cfg c server generation control ownership cancelled_before m =
     (let env = rc_env c 8;
          abandon = (\<lambda>reason m. abandon_generation env (ce_faults env 4) (ce_faults env 3) server generation reason
            (call_control control CancelCall m));
          lost = (if im_runtime_poisoned m then Some ''index runtime lock poisoned''
                  else if Option.bind (build_of server m) rb_control = Some control then None
                  else Some ''index build disappeared before start'')
      in case lost of
           Some error \<Rightarrow>
             if rc_cancelled_at_launch c
             then (Inr False, finish_build_owned cfg env server ownership None (abandon error m))
             else (Inl (ManagerError error), finish_build_owned cfg env server ownership (Some error) (abandon error m))
         | None \<Rightarrow>
             if \<not> cancelled_before \<and> rc_cancelled_at_launch c
             then (Inr False, finish_build_for_control_owned cfg env server control ownership None
                     (abandon ''index build cancelled during startup'' m))
             else
               let m1 = reconcile_pause_state env server m in
               if im_shutting_down m1
               then (Inr False, finish_build_owned cfg env server ownership None
                       (abandon ''gateway shutdown before index build'' m1))
               else if rc_spawned c then (Inr True, m1)
               else (Inr False, finish_build_for_control_owned cfg env server control ownership None
                       (abandon ''index build task was not started'' m1)))"

text \<open>
  A refresh with its reservation. Besides its result it returns what the build task was started
  with: the generation, the control and the ownership.
\<close>

type_synonym launched_build = "u64 \<times> nat \<times> nat"

definition refresh_answer ::
  "resolved_index_config \<Rightarrow> refresh_course \<Rightarrow> string \<Rightarrow> launched_build option \<Rightarrow> index_manager \<Rightarrow>
     (manager_error + index_status) \<times> launched_build option \<times> index_manager" where
  "refresh_answer cfg c server launched m = (case refresh_status cfg c server m of (r, m') \<Rightarrow> (r, launched, m'))"

definition refresh_attached ::
  "resolved_index_config \<Rightarrow> refresh_course \<Rightarrow> string \<Rightarrow> nat \<Rightarrow> nat \<Rightarrow> bool \<Rightarrow> index_manager \<Rightarrow>
     (manager_error + index_status) \<times> launched_build option \<times> index_manager" where
  "refresh_attached cfg c server control ownership cancelled_before m2 =
     (if im_shutting_down m2
      then refresh_answer cfg c server None (finish_build_owned cfg (rc_env c 5) server ownership None
             (call_control control CancelCall m2))
      else (case start_refresh_generation cfg c server control ownership cancelled_before m2 of
              (Inl e, m3) \<Rightarrow> (Inl e, None, m3)
            | (Inr None, m3) \<Rightarrow> refresh_answer cfg c server None m3
            | (Inr (Some generation), m3) \<Rightarrow>
                (case launch_refresh_build cfg c server generation control ownership cancelled_before m3 of
                   (Inl e, m4) \<Rightarrow> (Inl e, None, m4)
                 | (Inr launched, m4) \<Rightarrow>
                     refresh_answer cfg c server (if launched then Some (generation, control, ownership) else None) m4)))"

definition refresh_reserved ::
  "resolved_index_config \<Rightarrow> refresh_course \<Rightarrow> string \<Rightarrow> nat \<Rightarrow> index_manager \<Rightarrow>
     (manager_error + index_status) \<times> launched_build option \<times> index_manager" where
  "refresh_reserved cfg c server ownership m =
     (case start_refresh_inventory cfg c server ownership m of
        (Inl e, m1) \<Rightarrow> (Inl e, None, m1)
      | (Inr None, m1) \<Rightarrow> refresh_answer cfg c server None m1
      | (Inr (Some control), m1) \<Rightarrow>
          (case attach_refresh_control cfg (rc_env c 4) server ownership control (rc_answers c) m1 of
             (Inl e, m2) \<Rightarrow> (Inl e, None, m2)
           | (Inr None, m2) \<Rightarrow> refresh_answer cfg c server None m2
           | (Inr (Some cancelled_before), m2) \<Rightarrow>
               refresh_attached cfg c server control ownership cancelled_before m2))"

definition refresh_enrolled ::
  "resolved_index_config \<Rightarrow> refresh_course \<Rightarrow> string \<Rightarrow> bool \<Rightarrow> bool \<Rightarrow> index_manager \<Rightarrow>
     (manager_error + index_status) \<times> launched_build option \<times> index_manager" where
  "refresh_enrolled cfg c server force automatic m =
     (if im_shutting_down m then refresh_answer cfg c server None m
      else case reserve_refresh_build cfg (rc_env c 2) server force automatic m of
        (Inl e, m1) \<Rightarrow> (Inl e, None, m1)
      | (Inr None, m1) \<Rightarrow> refresh_answer cfg c server None m1
      | (Inr (Some ownership), m1) \<Rightarrow> refresh_reserved cfg c server ownership m1)"

definition index_result ::
  "(manager_error + 'a) \<times> launched_build option \<times> index_manager \<Rightarrow>
     (index_operation_error + 'a) \<times> launched_build option \<times> index_manager" where
  "index_result = (\<lambda>(r, launched, m). (case r of Inl e \<Rightarrow> Inl (Manager.Internal e) | Inr x \<Rightarrow> Inr x, launched, m))"

definition refresh ::
  "resolved_index_config \<Rightarrow> refresh_course \<Rightarrow> string \<Rightarrow> bool \<Rightarrow> index_manager \<Rightarrow>
     (index_operation_error + index_status) \<times> launched_build option \<times> index_manager" where
  "refresh cfg c server force m =
     (if server \<in> im_deleting m then (Inl (Deleting server), None, m)
      else case database_read (rc_env c 0) 0 (\<lambda>db. Inr (is_enrolled server db)) m of
        Inl e \<Rightarrow> (Inl (Manager.Internal e), None, m)
      | Inr True \<Rightarrow> index_result (refresh_enrolled cfg c server force False m)
      | Inr False \<Rightarrow>
          (let m1 = rc_meanwhile c 0 m in
           case validate_server_for_enrollment cfg c server of
             Inl e \<Rightarrow> (Inl e, None, m1)
           | Inr _ \<Rightarrow>
               (case database_write (enroll (ce_faults (rc_env c 1) 0) server (timestamp_now (rc_env c 1))) m1 of
                  (Inl e, m2) \<Rightarrow> (Inl (Manager.Internal e), None, m2)
                | (Inr _, m2) \<Rightarrow> index_result (refresh_enrolled cfg c server force False m2))))"

section \<open>Refreshes of the background task\<close>

definition refresh_active_generation_if_due ::
  "resolved_index_config \<Rightarrow> refresh_course \<Rightarrow> string \<Rightarrow> index_status \<Rightarrow> index_manager \<Rightarrow> launched_build option \<times> index_manager" where
  "refresh_active_generation_if_due cfg c server status m =
     (if active_generation_due cfg (rc_env c 0) status then snd (refresh_enrolled cfg c server False True m) else (None, m))"

text \<open>
  The index is removed only if the build is not cancelled, the server is still refreshed automatically
  and its active generation is the one the status reported. \<open>ce_read_error\<close> 6 and 7 of step 1 are the
  failures of the two reads.
\<close>

definition invalidate_index ::
  "call_env \<Rightarrow> string \<Rightarrow> bool \<Rightarrow> index_status \<Rightarrow> index_db \<Rightarrow> bool db_result \<times> index_db" where
  "invalidate_index env server cancelled status db =
     (if cancelled then (Inr False, db)
      else case ce_read_error env 6 of
        Some e \<Rightarrow> (Inl e, db)
      | None \<Rightarrow>
          if enrollment server db \<noteq> Some True then (Inr False, db)
          else (case ce_read_error env 7 of
            Some e \<Rightarrow> (Inl e, db)
          | None \<Rightarrow>
              if \<not> list_ex (\<lambda>row. ds_state row = Active \<and> ds_generation row = is_active_generation status \<and>
                     ds_completed_at row = sch_last_success_at (is_scheduler status)) (status_rows server db)
              then (Inr False, db)
              else (case clear_server (ce_faults env 0) server db of
                      (Inl e, db1) \<Rightarrow> (Inl e, db1) | (Inr _, db1) \<Rightarrow> (Inr True, db1))))"

definition refresh_after_profile_change ::
  "resolved_index_config \<Rightarrow> refresh_course \<Rightarrow> string \<Rightarrow> index_status \<Rightarrow> index_manager \<Rightarrow> launched_build option \<times> index_manager" where
  "refresh_after_profile_change cfg c server status m =
     (if \<not> automatic_refresh_allowed cfg (rc_env c 0) status then (None, m)
      else case reserve_refresh_build cfg (rc_env c 2) server False True m of
        (Inl e, m1) \<Rightarrow> (None, m1)
      | (Inr None, m1) \<Rightarrow> (None, m1)
      | (Inr (Some ownership), m1) \<Rightarrow>
          (case database_write (invalidate_index (rc_env c 1) server (server \<in> im_pending_cancels m1) status) m1 of
             (Inl e, m2) \<Rightarrow>
               (None, snd (record_start_failure cfg (rc_env c 1) server ownership (error_text (rc_env c 1) e) m2))
           | (Inr False, m2) \<Rightarrow> (None, finish_build_owned cfg (rc_env c 1) server ownership None m2)
           | (Inr True, m2) \<Rightarrow>
               snd (refresh_reserved cfg c server ownership (m2\<lparr>im_cache := cache_clear_server server (im_cache m2)\<rparr>))))"

definition run_refresh_action ::
  "resolved_index_config \<Rightarrow> refresh_course \<Rightarrow> string \<Rightarrow> index_status \<Rightarrow> refresh_action \<Rightarrow> index_manager \<Rightarrow>
     launched_build option \<times> index_manager" where
  "run_refresh_action cfg c server status action m =
     (case action of
        NoRefresh \<Rightarrow> (None, m)
      | RefreshAfterProfileChange \<Rightarrow> refresh_after_profile_change cfg c server status m
      | RefreshActiveGeneration \<Rightarrow> refresh_active_generation_if_due cfg c server status m)"

section \<open>What a build holds\<close>

text \<open>
  What the manager keeps for the build of a server: its owner, its places among the active builds and
  the locks, and its control.
\<close>

definition footprint :: "string \<Rightarrow> index_manager \<Rightarrow> nat option \<times> bool \<times> bool \<times> nat option option" where
  "footprint server m =
     (im_build_owners m server, server \<in> im_active_builds m, server \<in> im_build_locks m, map_option fst (attached server m))"

definition owned :: "string \<Rightarrow> nat \<Rightarrow> nat option \<Rightarrow> index_manager \<Rightarrow> bool" where
  "owned server ownership control m \<longleftrightarrow>
     im_runtime_poisoned m \<or> footprint server m = (Some ownership, True, True, Some control)"

definition released :: "string \<Rightarrow> index_manager \<Rightarrow> bool" where
  "released server m \<longleftrightarrow> im_runtime_poisoned m \<or> footprint server m = (None, False, False, None)"

definition same_build :: "string \<Rightarrow> index_manager \<Rightarrow> index_manager \<Rightarrow> bool" where
  "same_build server m m' \<longleftrightarrow>
     footprint server m' = footprint server m \<and> (im_runtime_poisoned m \<longrightarrow> im_runtime_poisoned m')"

lemma same_build_refl [simp]: "same_build server m m"
  by (simp add: same_build_def)

lemma same_build_trans [trans]: "same_build server m m' \<Longrightarrow> same_build server m' m'' \<Longrightarrow> same_build server m m''"
  by (simp add: same_build_def)

lemma unseen_same: "unseen m m' \<Longrightarrow> same_build server m m'"
  by (simp add: same_build_def footprint_def unseen_def same_registries_def)

lemma same_build_owned: "owned server ownership control m \<Longrightarrow> same_build server m m' \<Longrightarrow> owned server ownership control m'"
  by (auto simp: owned_def same_build_def)

lemma same_build_released: "released server m \<Longrightarrow> same_build server m m' \<Longrightarrow> released server m'"
  by (auto simp: released_def same_build_def)

lemma release_build_free: "\<not> im_runtime_poisoned m \<Longrightarrow> footprint server (release_build server m) = (None, False, False, None)"
  by (cases "im_runtime m server")
    (simp_all add: footprint_def release_build_def take_build_def clear_build_lock_def clear_active_build_def attached_def
      build_of_def update_state_def)

lemma reconcile_same: "same_build server m (reconcile_pause_state env server' m)"
  using reconcile_view [where m = m and env = env and server = server']
  by (auto simp: same_build_def footprint_def same_registries_def)

lemma finalize_released:
  assumes "\<not> im_runtime_poisoned m" and "im_build_owners m server = ownership"
  shows "released server (finalize_owned_build env server ownership m)"
proof -
  obtain m1 where "unseen m m1" "\<not> im_runtime_poisoned m1"
    "finalize_owned_build env server ownership m =
      clear_pending_cancel server (schedule_cleanup env server (release_build server m1))"
    by (rule finalize_view [OF assms])
  then show ?thesis
    using release_build_free same_build_released [OF _ unseen_same [OF unseen_cleanup]] by (auto simp: released_def)
qed

lemma finish_released:
  assumes "owned server ownership ctl m" and "control = None \<or> control = ctl"
  shows "released server (finish_build_inner_with_retry_policy cfg env server control (Some ownership) error preserve m)"
proof (cases "im_runtime_poisoned m")
  case True
  then show ?thesis by (simp add: finish_build_inner_with_retry_policy_def released_def)
next
  case False
  let ?m1 = "if preserve then update_state server (rs_last_error_update (\<lambda>_. error)) m
    else update_runtime_after_build cfg env server error m"
  have held: "footprint server m = (Some ownership, True, True, Some ctl)" using assms(1) False by (simp add: owned_def)
  then have "build_completion_is_current server control (Some ownership) m"
    using assms(2) by (auto simp: build_completion_is_current_def footprint_def attached_def split: option.splits)
  moreover have "unseen m ?m1" by (simp add: unseen_after_build unseen_update_state)
  then have "im_build_owners ?m1 server = Some ownership"
    using held by (simp add: unseen_def same_registries_def footprint_def)
  ultimately show ?thesis
    using False finalize_released [of ?m1 server "Some ownership"]
    by (auto simp: finish_build_inner_with_retry_policy_def Let_def released_def)
qed

lemma finish_owned_released:
  "owned server ownership ctl m \<Longrightarrow> released server (finish_build_owned cfg env server ownership error m)"
  unfolding finish_build_owned_def finish_build_inner_def by (erule finish_released) simp

lemma finish_control_released:
  "owned server ownership (Some control) m \<Longrightarrow>
     released server (finish_build_for_control_owned cfg env server control ownership error m)"
  unfolding finish_build_for_control_owned_def finish_build_inner_def by (erule finish_released) simp

lemma start_failure_released:
  "owned server ownership ctl m \<Longrightarrow> released server (snd (record_start_failure cfg env server ownership error m))"
  unfolding record_start_failure_def Let_def split_def
  by (auto intro!: finish_owned_released same_build_owned [OF _ unseen_same [OF unseen_database_write]])

lemmas owned_fields = same_build_owned [OF _ unseen_same [OF unseen_fields(2)]]
  same_build_owned [OF _ unseen_same [OF unseen_fields(11)]]

section \<open>The steps of a refresh\<close>

lemma inventory_not_started_released:
  assumes "owned server ownership ctl m" and "inventory_not_started cfg c server ownership error m = (r, m')"
  shows "released server m' \<and> (\<forall>control. r \<noteq> Inr (Some control))"
proof (cases "server \<in> im_pending_cancels m")
  case True
  then show ?thesis
    using assms(2) finish_owned_released [OF owned_fields(1) [OF assms(1)]]
    by (auto simp: inventory_not_started_def take_pending_cancel_def)
next
  case False
  have "released server (snd (record_start_failure cfg (rc_env c 3) server ownership error
      (m\<lparr>im_pending_cancels := im_pending_cancels m - {server}\<rparr>)))"
    by (rule start_failure_released [OF owned_fields(1) [OF assms(1)]])
  then show ?thesis
    using assms(2) False
    by (auto simp: inventory_not_started_def take_pending_cancel_def split: prod.splits sum.splits)
qed

text \<open>What other tasks do at an \<open>await\<close> leaves the build of the server alone.\<close>

definition undisturbed :: "string \<Rightarrow> refresh_course \<Rightarrow> bool" where
  "undisturbed server c \<longleftrightarrow> (\<forall>k m. same_build server m (rc_meanwhile c k m))"

definition step_outcome :: "string \<Rightarrow> nat \<Rightarrow> nat option \<Rightarrow> (manager_error + 'a option) \<times> index_manager \<Rightarrow> bool" where
  "step_outcome server ownership control =
     (\<lambda>(r, m). case r of Inr (Some _) \<Rightarrow> owned server ownership control m | _ \<Rightarrow> released server m)"

lemma step_outcomes [simp]:
  "step_outcome server ownership control (Inr (Some x), m) = owned server ownership control m"
  "step_outcome server ownership control (Inr None, m) = released server m"
  "step_outcome server ownership control (Inl e, m) = released server m"
  by (simp_all add: step_outcome_def)

lemma start_inventory_outcome:
  assumes "undisturbed server c" and "owned server ownership None m"
  shows "step_outcome server ownership None (start_refresh_inventory cfg c server ownership m)"
proof -
  have held: "owned server ownership None (rc_meanwhile c 1 m)"
    using assms by (auto simp: undisturbed_def intro: same_build_owned)
  then have failed: "step_outcome server ownership None (inventory_not_started cfg c server ownership error (rc_meanwhile c 1 m))"
    for error
    using inventory_not_started_released [OF held, of cfg c error]
    by (cases "inventory_not_started cfg c server ownership error (rc_meanwhile c 1 m)")
      (auto simp: step_outcome_def split: sum.split option.split)
  have started: "step_outcome server ownership None (Inr (Some control), rc_meanwhile c 1 m)" for control :: nat
    using held by (simp add: step_outcome_def)
  show ?thesis
    unfolding start_refresh_inventory_def Let_def using failed started by (auto split: sum.split option.split)
qed

lemma abandon_attach_outcome:
  assumes "owned server ownership ctl m" and "abandon_attach cfg env server ownership control replies m = (cancelled, m')"
  shows "if cancelled then released server m' else owned server ownership ctl m'"
proof -
  let ?m = "call_control control CancelCall (m\<lparr>im_pending_cancels := im_pending_cancels m - {server}\<rparr>)"
  have held: "owned server ownership ctl ?m" by (rule owned_fields(2) [OF owned_fields(1) [OF assms(1)]])
  moreover have "m' = (if cancelled then finish_build_owned cfg env server ownership None ?m else ?m)"
    using assms(2) unfolding abandon_attach_def take_pending_cancel_def Let_def by auto
  ultimately show ?thesis using finish_owned_released [OF held] by simp
qed

lemma attach_control_owned:
  assumes "owned server ownership ctl m" and "\<not> im_runtime_poisoned m"
  shows "owned server ownership (Some control) (update_build server (rb_control_update (\<lambda>_. Some control)) m)"
proof -
  have "build_of server m \<noteq> None" using assms by (auto simp: owned_def footprint_def attached_def)
  then show ?thesis
    using assms by (auto simp: owned_def footprint_def attached_def manager_simps)
qed

lemma attach_outcome:
  assumes "owned server ownership ctl m"
  shows "step_outcome server ownership (Some control) (attach_refresh_control cfg env server ownership control replies m)"
proof -
  obtain cancelled m1 where ab: "abandon_attach cfg env server ownership control replies m = (cancelled, m1)"
    by (cases "abandon_attach cfg env server ownership control replies m")
  note after = abandon_attach_outcome [OF assms ab]
  have recorded: "released server m2" if "\<not> cancelled" "record_start_failure cfg env server ownership e m1 = (r, m2)" for e r m2
    using start_failure_released [of server ownership ctl m1 cfg env e] that after by simp
  let ?up = "update_build server (rb_control_update (\<lambda>_. Some control)) m"
  show ?thesis
  proof (cases "ca_pacing_error replies")
    case (Some e)
    then show ?thesis using after recorded
      by (auto simp: attach_refresh_control_def ab Let_def step_outcome_def split: prod.split sum.split)
  next
    case None
    show ?thesis
    proof (cases "im_runtime_poisoned m \<or> build_of server m = None")
      case True
      then show ?thesis using None after
        by (auto simp: attach_refresh_control_def ab Let_def step_outcome_def intro: finish_owned_released)
    next
      case False
      then have up: "owned server ownership (Some control) ?up" using attach_control_owned [OF assms] by simp
      then have "owned server ownership (Some control) (?up\<lparr>im_pending_cancels := x\<rparr>)" for x by (rule owned_fields(1))
      then show ?thesis
        using None False up finish_control_released [OF owned_fields(2)]
        by (auto simp: attach_refresh_control_def take_pending_cancel_def step_outcome_def Let_def)
    qed
  qed
qed

lemma generation_not_started_released:
  assumes "owned server ownership (Some control) m"
  shows "step_outcome server ownership (Some control)
    (generation_not_started cfg c server control ownership cancelled_before error m)"
proof -
  let ?m = "call_control control CancelCall m"
  have held: "owned server ownership (Some control) ?m" using assms by (rule owned_fields(2))
  have "released server m2" if "record_start_failure cfg (rc_env c 7) server ownership e ?m = (r, m2)" for e r m2
    using start_failure_released [OF held, of cfg "rc_env c 7" e] that by simp
  then show ?thesis
    using finish_control_released [OF held]
    by (auto simp: generation_not_started_def step_outcome_def Let_def split: prod.split sum.split)
qed

lemma generation_outcome:
  assumes "undisturbed server c" and "owned server ownership (Some control) m"
  shows "step_outcome server ownership (Some control)
    (start_refresh_generation cfg c server control ownership cancelled_before m)"
proof -
  have held: "owned server ownership (Some control) (rc_meanwhile c 2 m)"
    using assms by (auto simp: undisturbed_def intro: same_build_owned)
  have written: "owned server ownership (Some control) m1" if "database_write w (rc_meanwhile c 2 m) = (r, m1)" for w r m1
    using same_build_owned [OF held unseen_same [OF unseen_database_write [of _ w]]] that by simp
  have cleanup: "owned server ownership (Some control) (schedule_cleanup env server m1)"
    if "owned server ownership (Some control) m1" for env m1
    using that by (simp add: schedule_cleanup_def same_build_owned [OF _ unseen_same [OF unseen_fields(8)]])
  show ?thesis
    unfolding start_refresh_generation_def Let_def
    using generation_not_started_released [OF held] generation_not_started_released [OF written] cleanup [OF written]
    by (auto split: sum.split prod.split)
qed

lemma abandon_same: "same_build server m (abandon_generation env f1 f2 server' generation reason m)"
proof -
  have cleanup: "unseen m (schedule_cleanup env server' m)" for m by (simp add: schedule_cleanup_def unseen_fields)
  have failed: "unseen m (fail_generation_and_schedule_cleanup env f2 server' generation reason m)" for m
    using unseen_database_write [of m "fail_generation f2 server' generation reason"] unseen_trans [OF _ cleanup]
    by (auto simp: fail_generation_and_schedule_cleanup_def split: prod.splits sum.splits)
  have "unseen m (abandon_generation env f1 f2 server' generation reason m)"
    using unseen_database_write [of m "discard_empty_generation f1 server' generation"] unseen_trans [OF _ failed]
    by (auto simp: abandon_generation_def split: prod.splits sum.splits bool.splits)
  then show ?thesis by (rule unseen_same)
qed

lemma launch_outcome:
  assumes "owned server ownership (Some control) m"
    and "launch_refresh_build cfg c server generation control ownership cancelled_before m = (r, m')"
  shows "if r = Inr True then owned server ownership (Some control) m' else released server m'"
proof -
  let ?env = "rc_env c 8"
  let ?abandon = "\<lambda>reason m. abandon_generation ?env (ce_faults ?env 4) (ce_faults ?env 3) server generation reason
    (call_control control CancelCall m)"
  have abandon: "owned server ownership (Some control) (?abandon reason n)" if "owned server ownership (Some control) n" for reason n
    by (rule same_build_owned [OF owned_fields(2) [OF that] abandon_same])
  have m1: "owned server ownership (Some control) (reconcile_pause_state ?env server m)"
    by (rule same_build_owned [OF assms(1) reconcile_same])
  note ends = finish_owned_released [OF abandon [OF assms(1)]] finish_control_released [OF abandon [OF assms(1)]]
    finish_owned_released [OF abandon [OF m1]] finish_control_released [OF abandon [OF m1]]
  show ?thesis
    using assms(2) ends m1 unfolding launch_refresh_build_def Let_def
    by (auto split: if_splits option.splits)
qed

lemma status_same: "refresh_status cfg c server m = (r, m') \<Longrightarrow> same_build server' m m'"
  using status_loaded [of cfg "rc_env c 9" "rc_host c" "rc_storage c" server m] unseen_same [OF unseen_load]
  by (auto simp: refresh_status_def)

section \<open>A refresh launches its build or releases it\<close>

definition refresh_outcome :: "string \<Rightarrow> 'r \<times> launched_build option \<times> index_manager \<Rightarrow> bool" where
  "refresh_outcome server = (\<lambda>(r, launched, m). case launched of
     None \<Rightarrow> released server m
   | Some (generation, control, ownership) \<Rightarrow> owned server ownership (Some control) m)"

lemma refresh_outcomes [simp]:
  "refresh_outcome server (r, None, m) = released server m"
  "refresh_outcome server (r, Some (generation, control, ownership), m) = owned server ownership (Some control) m"
  by (simp_all add: refresh_outcome_def)

lemma answer_outcome:
  assumes "case launched of None \<Rightarrow> released server m | Some (_, control, ownership) \<Rightarrow> owned server ownership (Some control) m"
  shows "refresh_outcome server (refresh_answer cfg c server launched m)"
proof -
  obtain r' m' where r: "refresh_status cfg c server m = (r', m')" by (cases "refresh_status cfg c server m")
  then have "same_build server m m'" by (rule status_same)
  then show ?thesis
    using assms r by (cases launched) (auto simp: refresh_answer_def intro: same_build_released same_build_owned)
qed

lemma attached_outcome:
  assumes "undisturbed server c" and "owned server ownership (Some control) m"
  shows "refresh_outcome server (refresh_attached cfg c server control ownership earlier m)"
proof (cases "im_shutting_down m")
  case True
  then show ?thesis
    using finish_owned_released [OF owned_fields(2) [OF assms(2)]] by (simp add: refresh_attached_def answer_outcome)
next
  case running: False
  obtain r m1 where r: "start_refresh_generation cfg c server control ownership earlier m = (r, m1)"
    by (cases "start_refresh_generation cfg c server control ownership earlier m")
  note held = generation_outcome [OF assms, of cfg earlier, unfolded r]
  show ?thesis
  proof (cases "\<exists>generation. r = Inr (Some generation)")
    case False
    then show ?thesis using running r held by (auto simp: refresh_attached_def answer_outcome step_outcome_def split: sum.splits option.splits)
  next
    case True
    then obtain generation where g: "r = Inr (Some generation)" by blast
    obtain r' m2 where launch: "launch_refresh_build cfg c server generation control ownership earlier m1 = (r', m2)"
      by (cases "launch_refresh_build cfg c server generation control ownership earlier m1")
    have "if r' = Inr True then owned server ownership (Some control) m2 else released server m2"
      using launch_outcome [OF _ launch] held g by simp
    then show ?thesis
      using running r g launch by (cases r') (auto simp: refresh_attached_def answer_outcome split: if_splits)
  qed
qed

lemma reserved_outcome:
  assumes "undisturbed server c" and "owned server ownership None m"
  shows "refresh_outcome server (refresh_reserved cfg c server ownership m)"
proof -
  obtain r1 m1 where s1: "start_refresh_inventory cfg c server ownership m = (r1, m1)"
    by (cases "start_refresh_inventory cfg c server ownership m")
  note o1 = start_inventory_outcome [OF assms, of cfg, unfolded s1]
  show ?thesis
  proof (cases "\<exists>control. r1 = Inr (Some control)")
    case False
    then show ?thesis using o1 s1
      by (auto simp: refresh_reserved_def answer_outcome step_outcome_def split: sum.splits option.splits)
  next
    case True
    then obtain control where control: "r1 = Inr (Some control)" by blast
    obtain r2 m2 where s2: "attach_refresh_control cfg (rc_env c 4) server ownership control (rc_answers c) m1 = (r2, m2)"
      by (cases "attach_refresh_control cfg (rc_env c 4) server ownership control (rc_answers c) m1")
    have "step_outcome server ownership (Some control) (r2, m2)"
      using attach_outcome [of server ownership None m1 control cfg "rc_env c 4" "rc_answers c"] o1 control s2 by simp
    then show ?thesis
      using s1 s2 control attached_outcome [OF assms(1)]
      by (auto simp: refresh_reserved_def answer_outcome step_outcome_def split: sum.splits option.splits)
  qed
qed

lemma reserve_outcome:
  assumes "released server m" and "reserve_refresh_build cfg env server force automatic m = (r, m')"
  shows "step_outcome server (case r of Inr (Some ownership) \<Rightarrow> ownership | _ \<Rightarrow> 0) None (r, m')"
proof -
  obtain r1 m1 where checks: "reserve_checks cfg env server automatic m = (r1, m1)"
    by (cases "reserve_checks cfg env server automatic m")
  then have m1: "released server m1"
    using same_build_released [OF assms(1) unseen_same [OF reserve_checks_unseen]] by (metis snd_conv)
  then have put: "released server (put_state server (entry_or_default server m1) m1)"
    by (rule same_build_released) (intro unseen_same unseen_put_state entry_build)
  show ?thesis
    using assms(2) checks m1 put
    by (auto simp: reserve_refresh_build_def reserve_commit_def Let_def step_outcome_def owned_def footprint_def
        manager_simps new_build_def split: sum.splits option.splits if_splits)
qed

lemma refresh_enrolled_outcome:
  assumes "undisturbed server c" and "released server m"
  shows "refresh_outcome server (refresh_enrolled cfg c server force automatic m)"
proof -
  obtain r m1 where r: "reserve_refresh_build cfg (rc_env c 2) server force automatic m = (r, m1)"
    by (cases "reserve_refresh_build cfg (rc_env c 2) server force automatic m")
  have "step_outcome server (case r of Inr (Some ownership) \<Rightarrow> ownership | _ \<Rightarrow> 0) None (r, m1)"
    using assms(2) r by (rule reserve_outcome)
  then show ?thesis
    using assms r reserved_outcome [OF assms(1)]
    by (auto simp: refresh_enrolled_def answer_outcome step_outcome_def split: sum.splits option.splits)
qed

lemma request_outcome:
  assumes "undisturbed server c" and "released server m"
  shows "refresh_outcome server (refresh cfg c server force m)"
proof -
  have enrolled: "refresh_outcome server (index_result (refresh_enrolled cfg c server force False n))" if "released server n" for n
    using refresh_enrolled_outcome [OF assms(1) that, of cfg force False]
    by (auto simp: refresh_outcome_def index_result_def split: prod.splits)
  have listed: "released server (rc_meanwhile c 0 m)"
    using assms(1,2) by (auto simp: undisturbed_def intro: same_build_released)
  have written: "released server n" if "database_write w (rc_meanwhile c 0 m) = (r, n)" for w r n
    using same_build_released [OF listed unseen_same [OF unseen_database_write [of _ w]]] that by simp
  show ?thesis
    using assms(2) enrolled listed written
    by (auto simp: refresh_def Let_def split: sum.split bool.split prod.split)
qed

lemma background_outcome:
  assumes "undisturbed server c" and "released server m"
  shows "refresh_outcome server (r, run_refresh_action cfg c server status action m)"
proof -
  have skip: "refresh_outcome server (r, snd x)" if "refresh_outcome server x" for x :: "(manager_error + index_status) \<times> launched_build option \<times> index_manager"
    using that by (auto simp: refresh_outcome_def split: prod.splits)
  have due: "refresh_outcome server (r, refresh_active_generation_if_due cfg c server status m)"
    using assms skip [OF refresh_enrolled_outcome [OF assms]] by (simp add: refresh_active_generation_if_due_def)
  obtain r1 m1 where reserve: "reserve_refresh_build cfg (rc_env c 2) server False True m = (r1, m1)"
    by (cases "reserve_refresh_build cfg (rc_env c 2) server False True m")
  have held: "step_outcome server (case r1 of Inr (Some ownership) \<Rightarrow> ownership | _ \<Rightarrow> 0) None (r1, m1)"
    using assms(2) reserve by (rule reserve_outcome)
  obtain r2 m2 where stored: "database_write (invalidate_index (rc_env c 1) server (server \<in> im_pending_cancels m1) status) m1 = (r2, m2)"
    by (cases "database_write (invalidate_index (rc_env c 1) server (server \<in> im_pending_cancels m1) status) m1")
  have "refresh_outcome server (r, refresh_after_profile_change cfg c server status m)"
  proof (cases "\<exists>ownership. r1 = Inr (Some ownership)")
    case False
    then show ?thesis using held assms(2)
      by (auto simp: refresh_after_profile_change_def reserve step_outcome_def split: sum.splits option.splits)
  next
    case True
    then obtain ownership where own: "r1 = Inr (Some ownership)" by blast
    then have m2: "owned server ownership None m2"
      using held same_build_owned [OF _ unseen_same [OF unseen_database_write]] stored by (metis snd_conv sum.case(2) option.case(2) step_outcomes(1))
    then have "owned server ownership None (m2\<lparr>im_cache := x\<rparr>)" for x
      by (rule same_build_owned) (intro unseen_same unseen_fields)
    then show ?thesis
      using own stored assms(2) m2 skip [OF reserved_outcome [OF assms(1)]] start_failure_released [OF m2] finish_owned_released [OF m2]
      by (auto simp: refresh_after_profile_change_def reserve split: sum.splits bool.splits)
  qed
  then show ?thesis using due assms(2) by (simp add: run_refresh_action_def split: refresh_action.split)
qed

text \<open>
  C7. A refresh either launches its build, which then holds the server's place under the ownership and
  the control the build task has, or leaves nothing behind: whatever fails on the way, the place, the
  lock and the owner of the build are released. This holds for the request of a client and for the
  refreshes of the background task. What other tasks do meanwhile is arbitrary, as long as they leave
  this build alone; a poisoned runtime lock is the exception.
\<close>

theorem refresh_launches_or_releases:
  assumes "undisturbed server c" and "released server m"
  shows "refresh_outcome server (refresh cfg c server force m) \<and>
    refresh_outcome server ((), run_refresh_action cfg c server status action m)"
  by (intro conjI request_outcome [OF assms] background_outcome [OF assms])

section \<open>The build a refresh launches\<close>

lemma reserve_db: "im_db (snd (reserve_refresh_build cfg env server force automatic m)) = im_db m"
proof -
  have "im_db (snd (reserve_checks cfg env server automatic m)) = im_db m"
    using load_fields [of env 2 server m] by (auto simp: reserve_checks_def split: sum.splits prod.splits)
  moreover have "im_db (snd (reserve_commit cfg env server force n m1)) = im_db m1" for n m1
    by (auto simp: reserve_commit_def Let_def put_state_def split: option.split)
  ultimately show ?thesis
    by (auto simp: reserve_refresh_build_def split: prod.splits sum.splits option.splits)
qed

lemma start_inventory_started:
  "start_refresh_inventory cfg c server ownership m = (Inr (Some control), m1) \<Longrightarrow> m1 = rc_meanwhile c 1 m"
proof -
  have "fst (inventory_not_started cfg c server ownership error n) \<noteq> Inr (Some control)" for error n
    by (auto simp: inventory_not_started_def split: prod.splits sum.splits bool.splits)
  then show "start_refresh_inventory cfg c server ownership m = (Inr (Some control), m1) \<Longrightarrow> m1 = rc_meanwhile c 1 m"
    by (auto simp: start_refresh_inventory_def Let_def split: if_splits sum.splits option.splits) (metis fst_conv)+
qed

lemma attach_db:
  "attach_refresh_control cfg env server ownership control replies m = (Inr (Some b), m1) \<Longrightarrow> im_db m1 = im_db m"
  by (auto simp: attach_refresh_control_def take_pending_cancel_def update_build_def update_state_def Let_def
      split: option.splits prod.splits if_splits sum.splits)

lemma generation_started:
  assumes "start_refresh_generation cfg c server control ownership earlier m = (Inr (Some generation), m1)"
  obtains faults organization source t where
    "start_generation faults server organization source t (im_db (rc_meanwhile c 2 m)) = (Inr generation, im_db m1)"
proof -
  have "fst (generation_not_started cfg c server control ownership earlier error n) \<noteq> Inr (Some generation)" for error n
    by (auto simp: generation_not_started_def Let_def split: prod.splits sum.splits)
  note failed = this
  obtain organization source where caps:
    "with_opc_timeout cfg ''inventory capability probe'' (rc_capabilities c) = Inr (organization, source)"
    using assms failed by (auto simp: start_refresh_generation_def Let_def split: sum.splits prod.splits) (metis fst_conv)
  let ?w = "start_generation (ce_faults (rc_env c 6) 0) server organization source (timestamp_now (rc_env c 6))"
  obtain r db where w: "?w (im_db (rc_meanwhile c 2 m)) = (r, db)" by (cases "?w (im_db (rc_meanwhile c 2 m))")
  show thesis
  proof (cases r)
    case (Inl e)
    then have "fst (start_refresh_generation cfg c server control ownership earlier m) \<noteq> Inr (Some generation)"
      using caps w failed by (simp add: start_refresh_generation_def database_write_def Let_def)
    then show thesis using assms by simp
  next
    case (Inr g)
    then have "g = generation" "db = im_db m1"
      using assms caps w by (auto simp: start_refresh_generation_def database_write_def schedule_cleanup_def Let_def split: if_splits)
    then show thesis using w Inr that by blast
  qed
qed

lemma launch_db:
  "launch_refresh_build cfg c server generation control ownership earlier m = (Inr True, m1) \<Longrightarrow> im_db m1 = im_db m"
  by (auto simp: launch_refresh_build_def Let_def reconcile_pause_state_def call_control_def update_build_def
      update_state_def split: option.splits if_splits)

lemma start_generation_staged:
  assumes "db_wf db" and "start_generation faults server organization source t db = (Inr generation, db')"
  shows "db_wf db' \<and> staged server generation db' \<and> generation_entries server (int (unat generation)) db' = [] \<and>
    unat generation < 2 ^ 63"
proof -
  have wf: "db_wf db'" using start_generation_wf [OF assms(1), of faults server organization source t] assms(2) by simp
  let ?db = "sql_enroll server False t db"
  obtain n where n: "next_generation server ?db = Inr n" "0 \<le> n" "generation = word_of_int n"
    "set (db_generations db') = insert \<lparr>g_server = server, g_generation = n, g_state = Staging,
       g_organization = namespace_string organization, g_source = source_string source, g_started_at = t,
       g_completed_at = None, g_entry_count = 0, g_unique_item_count = 0, g_last_error = None,
       g_compatibility_fallback = False\<rparr> (set (db_generations db))" "db_entries db' = db_entries db"
    using assms(2) by (auto simp: start_generation_def enroll_def sql_enroll_def split: if_splits sum.splits)
  have bound: "n < 2 ^ 63" using n(1) by (auto simp: next_generation_def Let_def split: if_splits)
  have num: "int (unat generation) = n" "unat generation < 2 ^ 63"
    using n(2,3) bound by (simp_all add: unat_eq_nat_uint uint_word_of_int)
  have above: "g_generation g < n" if "g \<in> set (db_generations db)" "g_server g = server" for g
  proof -
    have "g_generation g \<le> Max (set (map g_generation (filter (\<lambda>g. g_server g = server) (db_generations db))))"
      using that by (intro Max_ge) auto
    then show ?thesis using n(1) that by (auto simp: next_generation_def Let_def sql_enroll_def filter_empty_conv split: if_splits)
  qed
  have "e_server e \<noteq> server \<or> e_generation e \<noteq> n" if "e \<in> set (db_entries db)" for e
    using assms(1) that above unfolding db_wf_def entries_wf_def generation_exists_def
    by (force simp: list_all_iff list_ex_iff)
  then have "generation_entries server n db' = []" by (auto simp: generation_entries_def n(5) filter_empty_conv)
  moreover have "staged server generation db'" using num(1) n(4) by (auto simp: staged_def staging_row_def)
  ultimately show ?thesis using wf num by simp
qed

lemma refresh_answer_db:
  "refresh_answer cfg c server launched m = (r, launched', m') \<Longrightarrow> launched' = launched \<and> im_db m' = im_db m"
  using status_fields(2) [of cfg "rc_env c 9" "rc_host c" "rc_storage c" server m]
  by (auto simp: refresh_answer_def refresh_status_def split: prod.splits)

lemma attached_launched:
  assumes "refresh_attached cfg c server control ownership earlier m = (r, Some (generation, control', ownership'), m')"
  obtains faults organization source t where
    "start_generation faults server organization source t (im_db (rc_meanwhile c 2 m)) = (Inr generation, im_db m')"
proof -
  obtain m3 m4 where s3: "start_refresh_generation cfg c server control ownership earlier m = (Inr (Some generation), m3)"
    and s4: "launch_refresh_build cfg c server generation control ownership earlier m3 = (Inr True, m4)"
    and db: "im_db m' = im_db m4"
    using assms unfolding refresh_attached_def
    by (auto split: if_splits prod.splits sum.splits option.splits dest!: refresh_answer_db)
  from s3 obtain faults organization source t where
    "start_generation faults server organization source t (im_db (rc_meanwhile c 2 m)) = (Inr generation, im_db m3)"
    by (rule generation_started)
  then show thesis using that launch_db [OF s4] db by simp
qed

text \<open>What other tasks do leaves the database well-formed.\<close>

definition keeps_database :: "refresh_course \<Rightarrow> bool" where
  "keeps_database c \<longleftrightarrow> (\<forall>k m. db_wf (im_db m) \<longrightarrow> db_wf (im_db (rc_meanwhile c k m)))"

lemma enrolled_launched:
  assumes "keeps_database c" and "db_wf (im_db m)"
    and "refresh_enrolled cfg c server force automatic m = (r, Some (generation, control, ownership), m')"
  shows "db_wf (im_db m') \<and> staged server generation (im_db m') \<and>
    generation_entries server (int (unat generation)) (im_db m') = [] \<and> unat generation < 2 ^ 63"
proof -
  obtain o' m1 where reserved: "reserve_refresh_build cfg (rc_env c 2) server force automatic m = (Inr (Some o'), m1)"
    and rest: "refresh_reserved cfg c server o' m1 = (r, Some (generation, control, ownership), m')"
    using assms(3) unfolding refresh_enrolled_def
    by (auto split: if_splits prod.splits sum.splits option.splits dest!: refresh_answer_db)
  obtain ctl earlier m2 m3 where inv: "start_refresh_inventory cfg c server o' m1 = (Inr (Some ctl), m2)"
    and att: "attach_refresh_control cfg (rc_env c 4) server o' ctl (rc_answers c) m2 = (Inr (Some earlier), m3)"
    and tail: "refresh_attached cfg c server ctl o' earlier m3 = (r, Some (generation, control, ownership), m')"
    using rest unfolding refresh_reserved_def
    by (auto split: prod.splits sum.splits option.splits dest!: refresh_answer_db)
  have "im_db m1 = im_db m" using reserve_db [of cfg "rc_env c 2" server force automatic m] reserved by simp
  then have "db_wf (im_db m3)"
    using assms(1,2) start_inventory_started [OF inv] attach_db [OF att] by (simp add: keeps_database_def)
  then have wf: "db_wf (im_db (rc_meanwhile c 2 m3))" using assms(1) by (simp add: keeps_database_def)
  obtain faults organization source t where
    "start_generation faults server organization source t (im_db (rc_meanwhile c 2 m3)) = (Inr generation, im_db m')"
    using tail by (rule attached_launched)
  with wf show ?thesis by (rule start_generation_staged)
qed

lemma refresh_launched:
  assumes "keeps_database c" and "db_wf (im_db m)"
    and "refresh cfg c server force m = (r, Some (generation, control, ownership), m')"
  shows "db_wf (im_db m') \<and> staged server generation (im_db m') \<and>
    generation_entries server (int (unat generation)) (im_db m') = [] \<and> unat generation < 2 ^ 63"
proof -
  have enrolled: "db_wf (im_db n)" if "database_write (enroll f server t) (rc_meanwhile c 0 m) = (x, n)" for f t x n
    using that assms(1,2) enroll_wf
    by (auto simp: database_write_def enroll_def keeps_database_def split: if_splits)
  obtain n r' where "db_wf (im_db n)" "refresh_enrolled cfg c server force False n = (r', Some (generation, control, ownership), m')"
    using assms(2,3) unfolding refresh_def Let_def index_result_def
    by (auto split: if_splits sum.splits bool.splits prod.splits) (blast dest: enrolled)+
  then show ?thesis using enrolled_launched [OF assms(1)] by blast
qed

text \<open>
  C4. A refresh that launches a build whose inventory then runs undisturbed to its end puts exactly the
  entries the inventory delivered into the active index of the server, whatever happened before.
\<close>

theorem refresh_then_build:
  assumes "refresh cfg c server force m = (result, Some (generation, control, ownership), m1)"
    and "keeps_database c" and "db_wf (im_db m)"
    and "smooth_config cfg" and "smooth_course cfg course"
    and "stream_completion (bc_turns course) = Some completion" "ic_complete completion" "\<not> ic_cancelled completion" "\<not> ic_truncated completion"
    and "length (stream_entries (bc_turns course)) < 2 ^ 63" and "\<not> po_health (overlay_of server m1)"
  shows "\<exists>m2. run_build cfg te course server generation control ownership m1 = Some m2 \<and>
    index_replaced te server generation (stream_entries (bc_turns course)) (im_db m2)"
  using refresh_launched [OF assms(2,3,1)] assms(4-11) by (intro smooth_build_run) auto

section \<open>A concrete refresh\<close>

definition demo_course :: refresh_course where
  "demo_course =
     \<lparr>rc_env = (\<lambda>_. demo_call), rc_meanwhile = (\<lambda>_ m. m), rc_servers = Some (Inr [''R'', ''S'']), rc_coordinated = Inr None,
      rc_inventory = Some (Inr 7), rc_answers = demo_answers, rc_capabilities = Some (Inr (OrgHierarchical, SrcDa3)),
      rc_cancelled_at_probe = False, rc_cancelled_at_launch = False, rc_spawned = True,
      rc_host = host_metrics_default, rc_storage = storage_diagnostics_default\<rparr>"

definition demo_listed :: index_manager where
  "demo_listed = (manager_new 16 empty_db)\<lparr>im_db := sql_enroll ''S'' False (timestamp_now demo_call) empty_db\<rparr>"

lemma calm_limits: "ri_concurrency calm_settings = 1" "ri_inventory_root calm_settings = None"
  by (simp_all add: calm_settings_def demo_concurrency)
    (simp add: demo_settings_def resolve_index_config_def Let_def)

lemma demo_listed_reserved:
  "reserve_refresh_build calm_settings demo_call ''S'' False False demo_listed =
     (Inr (Some 0), demo_listed\<lparr>im_runtime := [''S'' \<mapsto> runtime_state_default\<lparr>rs_build := Some (new_build demo_call 0)\<rparr>],
        im_next_owner := 1, im_build_owners := [''S'' \<mapsto> 0], im_active_builds := {''S''}, im_build_locks := {''S''}\<rparr>)"
  by (simp add: reserve_refresh_build_def reserve_checks_def reserve_commit_def demo_listed_def demo_call_def manager_new_def
      sql_enroll_def empty_db_def database_read_def enrollment_def insufficient_space_def
      load_persisted_retry_state_def retry_state_def failures_key_def circuit_key_def retry_after_key_def
      entry_or_default_def runtime_state_default_def persist_time_def users_of_def put_state_def
      concurrency_reached_def calm_limits Let_def)

lemma demo_refresh:
  obtains r m where "refresh calm_settings demo_course ''S'' False (manager_new 16 empty_db) = (r, Some (1, 7, 0), m)"
    and "overlay_of ''S'' m = pause_overlay_default"
proof -
  let ?m1 = "demo_listed\<lparr>im_runtime := [''S'' \<mapsto> runtime_state_default\<lparr>rs_build := Some (new_build demo_call 0)\<rparr>],
        im_next_owner := 1, im_build_owners := [''S'' \<mapsto> 0], im_active_builds := {''S''}, im_build_locks := {''S''}\<rparr>"
  let ?m2 = "(update_build ''S'' (rb_control_update (\<lambda>_. Some 7)) ?m1)\<lparr>im_pending_cancels := {}\<rparr>"
  have inventory: "start_refresh_inventory calm_settings demo_course ''S'' 0 ?m1 = (Inr (Some 7), ?m1)"
    by (simp add: start_refresh_inventory_def demo_course_def with_opc_timeout_def calm_limits)
  have attach: "attach_refresh_control calm_settings demo_call ''S'' 0 7 demo_answers ?m1 = (Inr (Some False), ?m2)"
    by (simp add: attach_refresh_control_def demo_answers_def take_pending_cancel_def demo_listed_def manager_new_def build_of_def
        update_build_def update_state_def)
  obtain m3 where generation: "start_refresh_generation calm_settings demo_course ''S'' 7 0 False ?m2 = (Inr (Some 1), m3)"
    and m3: "im_runtime m3 = im_runtime ?m2" "im_pause_overlays m3 = Map.empty" "\<not> im_runtime_poisoned m3" "\<not> im_shutting_down m3"
    by (simp add: start_refresh_generation_def demo_course_def with_opc_timeout_def demo_listed_def manager_new_def
        update_build_def update_state_def database_write_def demo_call_def start_generation_def enroll_def sql_enroll_def
        empty_db_def next_generation_def schedule_cleanup_def Let_def)
  let ?m4 = "reconcile_pause_state demo_call ''S'' m3"
  have launch: "launch_refresh_build calm_settings demo_course ''S'' 1 7 0 False m3 = (Inr True, ?m4)"
    using m3 by (simp add: launch_refresh_build_def demo_course_def build_of_def demo_listed_def update_build_def update_state_def
        manager_new_def runtime_state_default_def Let_def reconcile_pause_state_def call_control_def split: option.split)
  obtain r m where answer: "refresh_status calm_settings demo_course ''S'' ?m4 = (r, m)"
    by (cases "refresh_status calm_settings demo_course ''S'' ?m4")
  have run: "refresh calm_settings demo_course ''S'' False (manager_new 16 empty_db) =
      index_result (refresh_enrolled calm_settings demo_course ''S'' False False demo_listed)"
    by (simp add: refresh_def demo_course_def manager_new_def database_read_def is_enrolled_def enrollment_def empty_db_def
        validate_server_for_enrollment_def with_opc_timeout_def database_write_def enroll_def demo_listed_def demo_call_def Let_def)
  have fields: "rc_env demo_course k = demo_call" "rc_answers demo_course = demo_answers" for k by (simp_all add: demo_course_def)
  have "\<not> im_shutting_down demo_listed" "\<not> im_shutting_down ?m2"
    by (simp_all add: demo_listed_def manager_new_def update_build_def update_state_def)
  then have "refresh calm_settings demo_course ''S'' False (manager_new 16 empty_db) = index_result (r, Some (1, 7, 0), m)"
    unfolding run refresh_enrolled_def refresh_reserved_def refresh_attached_def refresh_answer_def fields
    by (simp only: demo_listed_reserved inventory attach generation launch answer sum.case option.case prod.case if_False if_True)
  moreover have "im_pause_overlays m = Map.empty"
    using status_loaded [of calm_settings demo_call host_metrics_default storage_diagnostics_default "''S''" ?m4] answer m3(2)
    by (auto simp: refresh_status_def demo_course_def load_persisted_retry_state_def put_state_def reconcile_pause_state_def
        call_control_def update_build_def update_state_def Let_def split: sum.splits option.splits)
  then have "overlay_of ''S'' m = pause_overlay_default" by (simp add: overlay_of_def)
  ultimately show thesis using that by (simp add: index_result_def)
qed

theorem refresh_launches_or_releases_witness:
  "\<exists>r m. refresh calm_settings demo_course ''S'' False (manager_new 16 empty_db) = (r, Some (1, 7, 0), m) \<and>
     owned ''S'' 0 (Some 7) m"
proof -
  obtain r m where run: "refresh calm_settings demo_course ''S'' False (manager_new 16 empty_db) = (r, Some (1, 7, 0), m)"
    by (rule demo_refresh)
  have "undisturbed ''S'' demo_course" by (simp add: undisturbed_def demo_course_def)
  moreover have "released ''S'' (manager_new 16 empty_db)"
    by (simp add: released_def footprint_def manager_new_def attached_def build_of_def)
  ultimately show ?thesis
    using refresh_launches_or_releases [of "''S''" demo_course "manager_new 16 empty_db" calm_settings False] run by auto
qed

theorem refresh_then_build_witness:
  "\<exists>r m1 m2. refresh calm_settings demo_course ''S'' False (manager_new 16 empty_db) = (r, Some (1, 7, 0), m1) \<and>
     run_build calm_settings demo_text calm_course ''S'' 1 7 0 m1 = Some m2 \<and>
     active_entries ''S'' (im_db m2) = [entry_of demo_text ''S'' 1 (hd demo_entries)]"
proof -
  obtain r m where run: "refresh calm_settings demo_course ''S'' False (manager_new 16 empty_db) = (r, Some (1, 7, 0), m)"
    and overlay: "overlay_of ''S'' m = pause_overlay_default"
    by (rule demo_refresh)
  have "keeps_database demo_course" by (simp add: keeps_database_def demo_course_def)
  moreover have "db_wf (im_db (manager_new 16 empty_db))" using empty_db_wf by (simp add: manager_new_def)
  ultimately show ?thesis
    using refresh_then_build [OF run _ _ calm_facts(1-3), of demo_text] run overlay
    by (auto simp: calm_facts(4) calm_completion_def index_replaced_def pause_overlay_default_def)
qed

end
