(* ===== verification/Service.thy ===== *)
theory Service
  imports Compat Accepted Refresh
begin

text \<open>
  The gateway's request handlers (\<open>server/service.rs\<close>). A handler that reaches an OPC server holds a
  foreground guard from its start to its end, on every path, so that index builds of that server
  pause; it records the latency and the outcome of the call. The replies of the OPC client, the
  clocks and what other tasks do while the reply is awaited are inputs. The lemmas say that every
  request gives back the place it takes among the foreground requests, and what an indexed search
  accepts.
\<close>

section \<open>Status values\<close>

definition internal_error :: "string \<Rightarrow> rpc_error" where
  "internal_error message = Status Opc.Internal message"

text \<open>\<open>{server:?}\<close>, the quoted and escaped text of a server name, is an argument.\<close>

definition index_error :: "(string \<Rightarrow> string) \<Rightarrow> call_env \<Rightarrow> index_operation_error \<Rightarrow> rpc_error" where
  "index_error debug env error =
     (case error of
        UnknownServer server \<Rightarrow> Status InvalidArgument (''OPC DA server '' @ debug server @ '' is not registered'')
      | NotEnrolled server \<Rightarrow>
          Status NotFound (''namespace index for OPC DA server '' @ debug server @ '' is not enrolled'')
      | Deleting server \<Rightarrow>
          Status FailedPrecondition (''namespace index for OPC DA server '' @ debug server @ '' is being deleted'')
      | Manager.Internal e \<Rightarrow> internal_error (error_text env e))"

definition resolve_host :: "string \<Rightarrow> string" where
  "resolve_host host = (if host = [] then ''localhost'' else host)"

section \<open>Foreground requests\<close>

text \<open>
  The circumstances of a request: those of its start, of the recording of its outcome and of its
  end, the time the OPC call took, and what other tasks did meanwhile.
\<close>

record request_env =
  rq_cfg :: resolved_index_config
  rq_start :: call_env
  rq_recorded :: call_env
  rq_end :: call_env
  rq_elapsed :: duration
  rq_meanwhile :: "index_manager \<Rightarrow> index_manager"
  rq_host :: host_metrics
  rq_storage :: storage_diagnostics

text \<open>The guard is taken before the body and dropped when the body returns, with a value or an error.\<close>

definition with_foreground ::
  "request_env \<Rightarrow> string \<Rightarrow> (index_manager \<Rightarrow> 'r \<times> index_manager) \<Rightarrow> index_manager \<Rightarrow> 'r \<times> index_manager" where
  "with_foreground rq server body m =
     (case body (foreground_guard (rq_start rq) server m) of
        (r, m1) \<Rightarrow> (r, foreground_end (rq_cfg rq) (rq_end rq) server m1))"

definition recorded ::
  "request_env \<Rightarrow> string \<Rightarrow> bool \<Rightarrow> bool \<Rightarrow> bool \<Rightarrow> index_manager \<Rightarrow> index_manager" where
  "recorded rq server error bad_quality health_failure m =
     record_foreground_operation_with_health (rq_recorded rq) server (rq_elapsed rq) error bad_quality health_failure
       (rq_meanwhile rq m)"

definition is_err :: "'e + 'a \<Rightarrow> bool" where
  "is_err r = (case r of Inl _ \<Rightarrow> True | Inr _ \<Rightarrow> False)"

definition handle_get_gateway_info :: "catalog \<Rightarrow> string \<Rightarrow> proto_gateway_info rpc" where
  "handle_get_gateway_info cat version = (case gateway_info cat version of Some reply \<Rightarrow> Inr reply | None \<Rightarrow> Inl Panic)"

definition handle_get_capabilities ::
  "catalog \<Rightarrow> string \<Rightarrow> request_env \<Rightarrow> string + browse_capabilities \<Rightarrow> string \<Rightarrow> index_manager \<Rightarrow>
     proto_capabilities rpc \<times> index_manager" where
  "handle_get_capabilities cat version rq reply server =
     with_foreground rq server (\<lambda>m.
       let m1 = recorded rq server (is_err reply) False (is_err reply) m in
       case reply of
         Inl e \<Rightarrow> (Inl (internal_error e), m1)
       | Inr capabilities \<Rightarrow>
           (case index_status_of (rq_cfg rq) (rq_recorded rq) (rq_host rq) (rq_storage rq) server m1 of
              (Inl e, m2) \<Rightarrow> (Inl (internal_error (error_text (rq_recorded rq) e)), m2)
            | (Inr status, m2) \<Rightarrow>
                (case map_capabilities cat version capabilities status (ri_max_results (rq_cfg rq)) of
                   None \<Rightarrow> (Inl Panic, m2)
                 | Some response \<Rightarrow> (Inr response, m2))))"

text \<open>The health of the OPC server is in doubt when it cannot be reached; a panic records nothing.\<close>

definition health_failure_of :: "'a rpc \<Rightarrow> bool" where
  "health_failure_of r = (case r of Inl (Status code _) \<Rightarrow> code = Unavailable \<or> code = DeadlineExceeded | _ \<Rightarrow> False)"

definition handle_browse ::
  "'w browse_env \<Rightarrow> int \<Rightarrow> request_env \<Rightarrow> string \<Rightarrow> string option \<Rightarrow> string option \<Rightarrow> string option \<Rightarrow> u32 \<Rightarrow> bool \<Rightarrow>
     manager \<Rightarrow> 'w \<Rightarrow> index_manager \<Rightarrow> (proto_browse_page rpc \<times> manager \<times> 'w) \<times> index_manager" where
  "handle_browse env now rq server session_id parent token page_size renew b w =
     with_foreground rq server (\<lambda>m.
       case browse env now server session_id parent token page_size renew b w of
         (Inl Panic, b1, w1) \<Rightarrow> ((Inl Panic, b1, w1), rq_meanwhile rq m)
       | (result, b1, w1) \<Rightarrow>
           let m1 = recorded rq server (is_err result) False (health_failure_of result) m in
           (case result of
              Inl e \<Rightarrow> ((Inl e, b1, w1), m1)
            | Inr (sid, page) \<Rightarrow> ((Inr (map_browse_page sid page), b1, w1), m1)))"

definition handle_close_browse_session ::
  "'w browse_env \<Rightarrow> string \<Rightarrow> manager \<Rightarrow> 'w \<Rightarrow> unit rpc \<times> manager \<times> 'w" where
  "handle_close_browse_session env sid b w = close_session env sid b w"

section \<open>The index\<close>

definition handle_get_search_index_status :: "request_env \<Rightarrow> string \<Rightarrow> index_manager \<Rightarrow> proto_status rpc \<times> index_manager" where
  "handle_get_search_index_status rq server m =
     (case index_status_of (rq_cfg rq) (rq_start rq) (rq_host rq) (rq_storage rq) server m of
        (Inl e, m1) \<Rightarrow> (Inl (internal_error (error_text (rq_start rq) e)), m1)
      | (Inr status, m1) \<Rightarrow> (Inr (map_index_status status), m1))"

definition handle_refresh_search_index ::
  "(string \<Rightarrow> string) \<Rightarrow> request_env \<Rightarrow> refresh_course \<Rightarrow> string \<Rightarrow> bool \<Rightarrow> index_manager \<Rightarrow>
     proto_status rpc \<times> launched_build option \<times> index_manager" where
  "handle_refresh_search_index debug rq c server force m =
     (case refresh (rq_cfg rq) c server force m of
        (Inl e, launched, m1) \<Rightarrow> (Inl (index_error debug (rq_end rq) e), launched, m1)
      | (Inr status, launched, m1) \<Rightarrow> (Inr (map_index_status status), launched, m1))"

definition control_action_of :: "int \<Rightarrow> index_control_action rpc" where
  "control_action_of action =
     (if action = 1 then Inr ActPause else if action = 2 then Inr ActResume else if action = 3 then Inr ActCancel
      else if action = 4 then Inr ActEnableAutoRefresh else if action = 5 then Inr ActDisableAutoRefresh
      else if action = 6 then Inr ActDelete
      else if action = 0 then Inl (Status InvalidArgument ''index control action is required'')
      else Inl (Status InvalidArgument ''unknown index control action''))"

definition handle_control_search_index ::
  "(string \<Rightarrow> string) \<Rightarrow> request_env \<Rightarrow> string \<Rightarrow> int \<Rightarrow> index_manager \<Rightarrow> proto_status rpc \<times> index_manager" where
  "handle_control_search_index debug rq server action m =
     (case control_action_of action of
        Inl e \<Rightarrow> (Inl e, m)
      | Inr act \<Rightarrow>
          (case control_operation (rq_cfg rq) (rq_start rq) server act m of
             (Inl e, m1) \<Rightarrow> (Inl (index_error debug (rq_start rq) e), m1)
           | (Inr _, m1) \<Rightarrow>
               (case index_status_of (rq_cfg rq) (rq_end rq) (rq_host rq) (rq_storage rq) server m1 of
                  (Inl e, m2) \<Rightarrow> (Inl (internal_error (error_text (rq_end rq) e)), m2)
                | (Inr status, m2) \<Rightarrow> (Inr (map_index_status status), m2))))"

text \<open>The match mode of an indexed search and its shortest query; the debug text of the mode.\<close>

definition indexed_mode :: "int \<Rightarrow> (int \<times> nat \<times> string) rpc" where
  "indexed_mode match_mode =
     (if match_mode = 1 then Inr (1, 2, ''Exact'')
      else if match_mode = 2 then Inr (2, 2, ''Prefix'')
      else if match_mode = 3 \<or> match_mode = 0 then Inr (3, 3, ''Contains'')
      else Inl (Status InvalidArgument ''unknown search match mode''))"

definition handle_search_index ::
  "search_env \<Rightarrow> call_env \<Rightarrow> string \<Rightarrow> ustring \<Rightarrow> int \<Rightarrow> u32 \<Rightarrow> index_manager \<Rightarrow>
     proto_search_index_response rpc \<times> index_manager" where
  "handle_search_index sv env server query match_mode max_results m =
     (case indexed_mode match_mode of
        Inl e \<Rightarrow> (Inl e, m)
      | Inr (mode, minimum, name) \<Rightarrow>
          let normalized_query = normalize (sv_text sv) query in
          if normalized_query = [] then (Inl (Status InvalidArgument ''search query must not be empty''), m)
          else if length normalized_query < minimum
          then (Inl (Status InvalidArgument (''indexed '' @ name @ '' searches require at least '' @
                       nat_to_string minimum @ '' characters'')), m)
          else (case search sv env \<lparr>sq_server = server, sq_query = query, sq_mode = mode, sq_limit = max_results\<rparr> m of
                  (Inl e, m1) \<Rightarrow> (Inl (internal_error (error_text env e)), m1)
                | (Inr result, m1) \<Rightarrow> (Inr (map_indexed_search result), m1)))"

section \<open>Live search\<close>

text \<open>
  The stream of a live search and the state after its task has ended; \<open>None\<close> where the walk does not
  end. The task holds the guard until then.
\<close>

definition handle_search ::
  "'w browse_env \<Rightarrow> (nat \<Rightarrow> int) \<Rightarrow> (nat \<Rightarrow> bool) \<Rightarrow> (ustring \<Rightarrow> ustring) \<Rightarrow> request_env \<Rightarrow> string \<Rightarrow> string option \<Rightarrow>
     LiveSearch.search_request \<Rightarrow> manager \<Rightarrow> 'w \<Rightarrow> index_manager \<Rightarrow>
     ((rpc_error + search_event) list rpc \<times> manager \<times> 'w) option \<times> index_manager" where
  "handle_search env clock rx lower rq server session_id request b w =
     with_foreground rq server (\<lambda>m.
       case validate_search lower request of
         Inl e \<Rightarrow> (Some (Inl e, b, w), m)
       | Inr (mode, max_results) \<Rightarrow>
           (case (case session_id of Some sid \<Rightarrow> (Inr sid, b, w) | None \<Rightarrow> open_session env (clock 0) server b w) of
              (Inl e, b1, w1) \<Rightarrow> (Some (Inl e, b1, w1), rq_meanwhile rq m)
            | (Inr sid, b1, w1) \<Rightarrow>
                (case run_search
                    \<lparr>se_rx = rx, se_browse = gateway_source env (\<lambda>n. clock (Suc n)) server sid, se_request = request,
                     se_mode = mode, se_max_results = max_results\<rparr>
                    (gateway_close env sid) (session_id = None) (b1, w1, 0) of
                   None \<Rightarrow> (None, rq_meanwhile rq m)
                 | Some (events, b2, w2, _) \<Rightarrow> (Some (Inr events, b2, w2), rq_meanwhile rq m))))"

section \<open>Servers and values\<close>

definition handle_list_servers :: "(string \<Rightarrow> string + string list) \<Rightarrow> string \<Rightarrow> string list rpc" where
  "handle_list_servers list_servers host =
     (case list_servers (resolve_host host) of Inl e \<Rightarrow> Inl (internal_error e) | Inr servers \<Rightarrow> Inr servers)"

record proto_tag_value =
  pt_tag_id :: ustring
  pt_value :: ustring
  pt_quality :: string
  pt_timestamp :: string

definition map_to_proto_tag_values :: "tag_value list \<Rightarrow> proto_tag_value list" where
  "map_to_proto_tag_values = map (\<lambda>v. \<lparr>pt_tag_id = tv_tag_id v, pt_value = tv_value v, pt_quality = tv_quality v,
     pt_timestamp = tv_timestamp v\<rparr>)"

definition handle_read ::
  "request_env \<Rightarrow> (ustring list \<Rightarrow> string + tag_value list) \<Rightarrow> string \<Rightarrow> ustring list \<Rightarrow> index_manager \<Rightarrow>
     proto_tag_value list rpc \<times> index_manager" where
  "handle_read rq read_tag_values server tag_ids =
     with_foreground rq server (\<lambda>m.
       let result = read_tag_values tag_ids;
           bad_quality = (case result of
             Inl _ \<Rightarrow> False | Inr values \<Rightarrow> list_ex (\<lambda>v. \<not> eq_ignore_ascii_case (tv_quality v) ''good'') values);
           m1 = recorded rq server (is_err result) bad_quality (is_err result) m
       in (case result of
             Inl e \<Rightarrow> (Inl (internal_error e), m1)
           | Inr values \<Rightarrow> (Inr (map_to_proto_tag_values values), m1)))"

definition typed_value_to_opc_value :: "proto_typed_value option \<Rightarrow> opc_value rpc" where
  "typed_value_to_opc_value typed_value =
     (case typed_value of
        None \<Rightarrow> Inl (Status InvalidArgument ''no typed_value provided'')
      | Some (StringValue v) \<Rightarrow> Inr (OpcString v)
      | Some (IntValue v) \<Rightarrow> Inr (OpcInt v)
      | Some (FloatValue v) \<Rightarrow> Inr (OpcFloat v)
      | Some (BoolValue v) \<Rightarrow> Inr (OpcBool v))"

record proto_write_response =
  pw_tag_id :: ustring
  pw_success :: bool
  pw_error :: "string option"

definition map_to_write_response :: "write_result \<Rightarrow> proto_write_response" where
  "map_to_write_response result =
     \<lparr>pw_tag_id = wr_tag_id result, pw_success = wr_success result, pw_error = wr_error result\<rparr>"

definition handle_write ::
  "request_env \<Rightarrow> (ustring \<Rightarrow> opc_value \<Rightarrow> string + write_result) \<Rightarrow> string \<Rightarrow> ustring \<Rightarrow> proto_typed_value option \<Rightarrow>
     index_manager \<Rightarrow> proto_write_response rpc \<times> index_manager" where
  "handle_write rq write_tag_value server tag_id typed_value =
     with_foreground rq server (\<lambda>m.
       case typed_value_to_opc_value typed_value of
         Inl e \<Rightarrow> (Inl e, m)
       | Inr value \<Rightarrow>
           let result = write_tag_value tag_id value;
               refused = (case result of Inl _ \<Rightarrow> False | Inr r \<Rightarrow> \<not> wr_success r);
               m1 = recorded rq server (is_err result \<or> refused) False (is_err result) m
           in (case result of
                 Inl e \<Rightarrow> (Inl (internal_error e), m1)
               | Inr r \<Rightarrow> (Inr (map_to_write_response r), m1)))"

section \<open>Every request gives its place back\<close>

text \<open>What changes neither the foreground requests nor the place of anyone among them.\<close>

definition users_kept :: "index_manager \<Rightarrow> index_manager \<Rightarrow> bool" where
  "users_kept m m' \<longleftrightarrow> (\<forall>s. users_of s m' = users_of s m)"

lemma users_kept_refl [simp]: "users_kept m m"
  by (simp add: users_kept_def)

lemma users_kept_trans: "users_kept m m' \<Longrightarrow> users_kept m' m'' \<Longrightarrow> users_kept m m''"
  by (simp add: users_kept_def)

lemma unseen_users: "unseen m m' \<Longrightarrow> users_kept m m'"
  by (simp add: users_kept_def unseen_def users_of_def)

lemma guard_users: "users_of s (foreground_guard env server m) = (if s = server then saturating_add (users_of server m) 1 else users_of s m)"
  by (simp add: foreground_guard_def Let_def users_of_def reconcile_view manager_simps)

lemma end_users: "users_of s (foreground_end cfg env server m) = (if s = server then saturating_sub (users_of server m) 1 else users_of s m)"
proof -
  have ended: "users_of t (update_runtime_after_foreground_end env server q n) = users_of t n" for n q t
    by (simp add: update_runtime_after_foreground_end_def users_of_def manager_simps Let_def split: option.split)
  have clear: "users_of t (snd (clear_expired_foreground_quiet_period env server n)) = users_of t n" for n t
    by (simp add: clear_expired_foreground_quiet_period_def users_of_def manager_simps)
  have reconcile: "users_of t (reconcile_pause_state env server n) = users_of t n" for n t by (simp add: users_of_def reconcile_view)
  have "users_of t (decrement_foreground_users server n) =
      (if t = server then saturating_sub (users_of server n) 1 else users_of t n)" for n t
    by (simp add: decrement_foreground_users_def users_of_def Let_def)
  then show ?thesis by (simp add: foreground_end_def Let_def ended clear reconcile)
qed

lemma saturating_back:
  assumes "u < (- 1 :: u64)"
  shows "saturating_sub (saturating_add u 1) 1 = u"
proof -
  have bound: "unat u < 2 ^ 64 - 1" using assms by (simp add: word_less_nat_alt unsigned_minus_1_eq_mask mask_eq_exp_minus_1)
  then have "unat (u + 1) = unat u + 1" by (simp add: unat_word_ariths)
  then have "1 \<le> u + 1" by (simp add: word_le_nat_alt)
  then show ?thesis using bound by (simp add: saturating_add_def saturating_sub_def)
qed

lemma foreground_users:
  assumes "users_kept (foreground_guard (rq_start rq) server m) (snd (body (foreground_guard (rq_start rq) server m)))"
    and "users_of server m < - 1"
  shows "users_kept m (snd (with_foreground rq server body m))"
proof -
  obtain r m1 where body: "body (foreground_guard (rq_start rq) server m) = (r, m1)"
    by (cases "body (foreground_guard (rq_start rq) server m)")
  then have "users_of s m1 = (if s = server then saturating_add (users_of server m) 1 else users_of s m)" for s
    using assms(1) by (simp add: users_kept_def guard_users)
  then show ?thesis
    using assms(2) by (simp add: users_kept_def with_foreground_def body end_users saturating_back)
qed

lemma recorded_users: "users_kept m (rq_meanwhile rq m) \<Longrightarrow> users_kept m (recorded rq server error bad failure m)"
  by (simp add: recorded_def record_foreground_operation_with_health_def Let_def users_kept_def users_of_def)

lemma status_users: "users_kept m (snd (index_status_of cfg env host storage server m))"
  using status_loaded [of cfg env host storage server m] unseen_users [OF unseen_load] by auto

text \<open>What other tasks do gives back the places it takes.\<close>

definition balanced :: "request_env \<Rightarrow> bool" where
  "balanced rq \<longleftrightarrow> (\<forall>m. users_kept m (rq_meanwhile rq m))"

lemma capabilities_body:
  assumes "balanced rq" and "users_of server m < - 1"
  shows "users_kept m (snd (handle_get_capabilities cat version rq reply server m))"
  unfolding handle_get_capabilities_def Let_def
proof (rule foreground_users [OF _ assms(2)])
  let ?g = "foreground_guard (rq_start rq) server m"
  let ?m1 = "recorded rq server (is_err reply) False (is_err reply) ?g"
  have kept: "users_kept ?g ?m1" using assms(1) by (intro recorded_users) (simp add: balanced_def)
  moreover have "users_kept ?g m2"
    if "index_status_of (rq_cfg rq) (rq_recorded rq) (rq_host rq) (rq_storage rq) server ?m1 = (r, m2)" for r m2
    using users_kept_trans [OF kept] status_users [of ?m1 "rq_cfg rq" "rq_recorded rq" "rq_host rq" "rq_storage rq" server] that
    by simp
  ultimately show "users_kept ?g (snd (case reply of
      Inl e \<Rightarrow> (Inl (internal_error e), ?m1)
    | Inr capabilities \<Rightarrow>
        (case index_status_of (rq_cfg rq) (rq_recorded rq) (rq_host rq) (rq_storage rq) server ?m1 of
           (Inl e, m2) \<Rightarrow> (Inl (internal_error (error_text (rq_recorded rq) e)), m2)
         | (Inr status, m2) \<Rightarrow>
             (case map_capabilities cat version capabilities status (ri_max_results (rq_cfg rq)) of
                None \<Rightarrow> (Inl Panic, m2)
              | Some response \<Rightarrow> (Inr response, m2)))))"
    by (auto split: sum.split prod.split option.split)
qed

lemma other_bodies:
  assumes "balanced rq" and "users_of server m < - 1"
  shows "users_kept m (snd (handle_browse env now rq server session_id parent token page_size renew b w m))"
    and "users_kept m (snd (handle_search env clock rx lower rq server session_id request b w m))"
    and "users_kept m (snd (handle_read rq read_tag_values server tag_ids m))"
    and "users_kept m (snd (handle_write rq write_tag_value server tag_id typed_value m))"
proof -
  have kept: "users_kept n (recorded rq s error bad failure n)" "users_kept n (rq_meanwhile rq n)" for s error bad failure n
    using assms(1) recorded_users by (simp_all add: balanced_def)
  show "users_kept m (snd (handle_browse env now rq server session_id parent token page_size renew b w m))"
    unfolding handle_browse_def Let_def
    by (rule foreground_users [OF _ assms(2)]) (auto simp: kept split: prod.split sum.split rpc_error.split)
  show "users_kept m (snd (handle_search env clock rx lower rq server session_id request b w m))"
    unfolding handle_search_def
    by (rule foreground_users [OF _ assms(2)]) (auto simp: kept split: prod.split sum.split option.split)
  show "users_kept m (snd (handle_read rq read_tag_values server tag_ids m))"
    unfolding handle_read_def Let_def
    by (rule foreground_users [OF _ assms(2)]) (auto simp: kept split: sum.split)
  show "users_kept m (snd (handle_write rq write_tag_value server tag_id typed_value m))"
    unfolding handle_write_def Let_def
    by (rule foreground_users [OF _ assms(2)]) (auto simp: kept split: sum.split)
qed


definition demo_request :: request_env where
  "demo_request = \<lparr>rq_cfg = calm_settings, rq_start = demo_call, rq_recorded = demo_call, rq_end = demo_call,
     rq_elapsed = SECOND, rq_meanwhile = (\<lambda>m. m),
     rq_host = host_metrics_default, rq_storage = storage_diagnostics_default\<rparr>"


section \<open>What an indexed search accepts\<close>

text \<open>
  C34. An indexed search is turned down as invalid, before the index is touched, exactly when its match
  mode is unknown or its query is, once its white space is normalised, shorter than two characters
  (three for a substring). Nothing a search meets later is reported as an invalid request.
\<close>

theorem search_index_request_check:
  "(\<exists>message. handle_search_index sv env server query match_mode max_results m =
      (Inl (Status InvalidArgument message), m)) \<longleftrightarrow>
   \<not> (match_mode \<in> {0, 1, 2, 3} \<and>
      (if match_mode \<in> {1, 2} then 2 else 3) \<le> length (normalize (sv_text sv) query))"
proof (cases "indexed_mode match_mode")
  case (Inl e)
  then show ?thesis by (auto simp: handle_search_index_def indexed_mode_def split: if_splits)
next
  case (Inr r)
  then obtain mode minimum name where r: "indexed_mode match_mode = Inr (mode, minimum, name)"
    by (cases r) auto
  then have mode: "match_mode \<in> {0, 1, 2, 3}" "minimum = (if match_mode \<in> {1, 2} then 2 else 3)" "0 < minimum"
    by (auto simp: indexed_mode_def split: if_splits)
  show ?thesis
  proof (cases "minimum \<le> length (normalize (sv_text sv) query)")
    case True
    then have "normalize (sv_text sv) query \<noteq> []" using mode(3) by auto
    then show ?thesis using True r mode
      by (auto simp: handle_search_index_def Let_def internal_error_def split: sum.splits prod.splits)
  next
    case False
    then show ?thesis using r mode by (simp add: handle_search_index_def Let_def)
  qed
qed

end
