(* ===== verification/Client.thy ===== *)
theory Client
  imports Service
begin

text \<open>
  The client library (\<open>opcda-bridge/src/client.rs\<close> and its request types): every method of
  \<open>Client\<close>, over a gateway that is a record of the RPCs of \<open>bridge.proto\<close> acting on a state of its
  own. A call the gateway does not know answers \<open>Unimplemented\<close>; \<open>Panic\<close> stands for a call the
  gateway abandoned. The lemmas put the client on top of the gateway's own handlers: the operator's
  actions and the errors of the index reach the caller as what they are, and the versions a client
  settles on are versions the gateway has offered.
\<close>

section \<open>Requests\<close>

record browse_page_request =
  brq_server :: string
  brq_session_id :: "string option"
  brq_parent_node_key :: "string option"
  brq_page_token :: "string option"
  brq_page_size :: u32
  brq_refresh :: bool

definition request_root :: "string \<Rightarrow> u32 \<Rightarrow> browse_page_request" where
  "request_root server page_size =
     \<lparr>brq_server = server, brq_session_id = None, brq_parent_node_key = None, brq_page_token = None,
      brq_page_size = page_size, brq_refresh = False\<rparr>"

definition request_children :: "string \<Rightarrow> string \<Rightarrow> string \<Rightarrow> u32 \<Rightarrow> browse_page_request" where
  "request_children server session_id parent_node_key page_size =
     \<lparr>brq_server = server, brq_session_id = Some session_id, brq_parent_node_key = Some parent_node_key,
      brq_page_token = None, brq_page_size = page_size, brq_refresh = False\<rparr>"

definition request_next :: "string \<Rightarrow> string \<Rightarrow> string option \<Rightarrow> string \<Rightarrow> u32 \<Rightarrow> browse_page_request" where
  "request_next server session_id parent_node_key page_token page_size =
     \<lparr>brq_server = server, brq_session_id = Some session_id, brq_parent_node_key = parent_node_key,
      brq_page_token = Some page_token, brq_page_size = page_size, brq_refresh = False\<rparr>"

definition with_refresh :: "bool \<Rightarrow> browse_page_request \<Rightarrow> browse_page_request" where
  "with_refresh renew request = request\<lparr>brq_refresh := renew\<rparr>"

datatype client_match_mode = MatchExact | MatchPrefix | MatchContains

record client_search_request =
  csr_server :: string
  csr_query :: ustring
  csr_match_mode :: client_match_mode
  csr_session_id :: "string option"
  csr_scope_node_key :: "string option"
  csr_max_results :: u32
  csr_include_branches :: bool
  csr_refresh :: bool

definition DEFAULT_SEARCH_MAX_RESULTS :: u32 where "DEFAULT_SEARCH_MAX_RESULTS = 200"

definition search_request_new :: "string \<Rightarrow> ustring \<Rightarrow> client_match_mode \<Rightarrow> client_search_request" where
  "search_request_new server query match_mode =
     \<lparr>csr_server = server, csr_query = query, csr_match_mode = match_mode, csr_session_id = None,
      csr_scope_node_key = None, csr_max_results = DEFAULT_SEARCH_MAX_RESULTS, csr_include_branches = False,
      csr_refresh = False\<rparr>"

record client_index_request =
  cir_server :: string
  cir_query :: ustring
  cir_match_mode :: client_match_mode
  cir_max_results :: u32

definition DEFAULT_INDEX_SEARCH_MAX_RESULTS :: u32 where "DEFAULT_INDEX_SEARCH_MAX_RESULTS = 50"

definition index_request_new :: "string \<Rightarrow> ustring \<Rightarrow> client_match_mode \<Rightarrow> client_index_request" where
  "index_request_new server query match_mode =
     \<lparr>cir_server = server, cir_query = query, cir_match_mode = match_mode,
      cir_max_results = DEFAULT_INDEX_SEARCH_MAX_RESULTS\<rparr>"

datatype client_control_action =
  ClientPause | ClientResume | ClientCancel | ClientEnableAutoRefresh | ClientDisableAutoRefresh | ClientDelete

datatype client_value = ValueString ustring | ValueInt "32 word" | ValueFloat f64 | ValueBool bool

section \<open>Messages\<close>

record proto_browse_request =
  pbr_server :: string
  pbr_session_id :: "string option"
  pbr_parent_node_key :: "string option"
  pbr_page_token :: "string option"
  pbr_page_size :: u32
  pbr_refresh :: bool

record proto_search_request =
  psr_server :: string
  psr_query :: ustring
  psr_match_mode :: int
  psr_session_id :: "string option"
  psr_scope_node_key :: "string option"
  psr_max_results :: u32
  psr_include_branches :: bool
  psr_refresh :: bool

record proto_index_request =
  pir_server :: string
  pir_query :: ustring
  pir_match_mode :: int
  pir_max_results :: u32

definition browse_request_message :: "browse_page_request \<Rightarrow> proto_browse_request" where
  "browse_request_message v =
     \<lparr>pbr_server = brq_server v, pbr_session_id = brq_session_id v, pbr_parent_node_key = brq_parent_node_key v,
      pbr_page_token = brq_page_token v, pbr_page_size = brq_page_size v, pbr_refresh = brq_refresh v\<rparr>"

definition match_mode_code :: "client_match_mode \<Rightarrow> int" where
  "match_mode_code mode = (case mode of MatchExact \<Rightarrow> 1 | MatchPrefix \<Rightarrow> 2 | MatchContains \<Rightarrow> 3)"

definition search_request_message :: "client_search_request \<Rightarrow> proto_search_request" where
  "search_request_message v =
     \<lparr>psr_server = csr_server v, psr_query = csr_query v, psr_match_mode = match_mode_code (csr_match_mode v),
      psr_session_id = csr_session_id v, psr_scope_node_key = csr_scope_node_key v,
      psr_max_results = csr_max_results v, psr_include_branches = csr_include_branches v, psr_refresh = csr_refresh v\<rparr>"

definition index_request_message :: "client_index_request \<Rightarrow> proto_index_request" where
  "index_request_message v =
     \<lparr>pir_server = cir_server v, pir_query = cir_query v, pir_match_mode = match_mode_code (cir_match_mode v),
      pir_max_results = cir_max_results v\<rparr>"

definition control_action_code :: "client_control_action \<Rightarrow> int" where
  "control_action_code action =
     (case action of ClientPause \<Rightarrow> 1 | ClientResume \<Rightarrow> 2 | ClientCancel \<Rightarrow> 3 | ClientEnableAutoRefresh \<Rightarrow> 4
      | ClientDisableAutoRefresh \<Rightarrow> 5 | ClientDelete \<Rightarrow> 6)"

definition typed_value_message :: "client_value \<Rightarrow> proto_typed_value" where
  "typed_value_message v =
     (case v of ValueString s \<Rightarrow> StringValue s | ValueInt i \<Rightarrow> IntValue i | ValueFloat f \<Rightarrow> FloatValue f
      | ValueBool b \<Rightarrow> BoolValue b)"

section \<open>The RPCs\<close>

text \<open>
  A live search answers a stream: its events, an error as its last element where it breaks off;
  \<open>None\<close> where the stream does not end.
\<close>

record 'g bridge_client =
  rpc_get_gateway_info :: "'g \<Rightarrow> proto_gateway_info rpc \<times> 'g"
  rpc_get_capabilities :: "string \<Rightarrow> 'g \<Rightarrow> proto_capabilities rpc \<times> 'g"
  rpc_list_servers :: "string \<Rightarrow> 'g \<Rightarrow> string list rpc \<times> 'g"
  rpc_browse :: "proto_browse_request \<Rightarrow> 'g \<Rightarrow> proto_browse_page rpc \<times> 'g"
  rpc_close_browse_session :: "string \<Rightarrow> 'g \<Rightarrow> unit rpc \<times> 'g"
  rpc_search :: "proto_search_request \<Rightarrow> 'g \<Rightarrow> ((rpc_error + search_event option) list rpc \<times> 'g) option"
  rpc_get_search_index_status :: "string \<Rightarrow> 'g \<Rightarrow> proto_status rpc \<times> 'g"
  rpc_refresh_search_index :: "string \<Rightarrow> bool \<Rightarrow> 'g \<Rightarrow> proto_status rpc \<times> 'g"
  rpc_control_search_index :: "string \<Rightarrow> int \<Rightarrow> 'g \<Rightarrow> proto_status rpc \<times> 'g"
  rpc_search_index :: "proto_index_request \<Rightarrow> 'g \<Rightarrow> proto_search_index_response rpc \<times> 'g"
  rpc_read :: "string \<Rightarrow> ustring list \<Rightarrow> 'g \<Rightarrow> proto_tag_value list rpc \<times> 'g"
  rpc_write :: "string \<Rightarrow> ustring \<Rightarrow> proto_typed_value option \<Rightarrow> 'g \<Rightarrow> proto_write_response rpc \<times> 'g"

text \<open>An answer: its error is mapped, its message converted.\<close>

definition answer :: "(rpc_error \<Rightarrow> client_error) \<Rightarrow> ('p \<Rightarrow> 'a client_result) \<Rightarrow> 'p rpc \<times> 'g \<Rightarrow> 'a client_result \<times> 'g" where
  "answer map_err try_into reply =
     (case reply of (Inl status, g) \<Rightarrow> (Inl (map_err status), g) | (Inr message, g) \<Rightarrow> (try_into message, g))"

definition feature_error :: "string \<Rightarrow> rpc_error \<Rightarrow> client_error" where
  "feature_error operation status =
     (case status of
        Status code _ \<Rightarrow> if code = Unimplemented then IncompatibleGateway operation else RpcError status
      | Panic \<Rightarrow> RpcError Panic)"

text \<open>\<open>{server:?}\<close> is an argument here as it is in the gateway.\<close>

definition index_operation_error_of :: "(string \<Rightarrow> string) \<Rightarrow> string \<Rightarrow> string \<Rightarrow> rpc_error \<Rightarrow> client_error" where
  "index_operation_error_of debug operation server status =
     (case status of
        Status Unimplemented _ \<Rightarrow> IncompatibleGateway operation
      | Status InvalidArgument _ \<Rightarrow> UnknownIndexServer server
      | Status NotFound _ \<Rightarrow> IndexNotEnrolled server
      | Status FailedPrecondition message \<Rightarrow>
          if message = ''namespace index for OPC DA server '' @ debug server @ '' is being deleted''
          then IndexDeletingError server else RpcError status
      | _ \<Rightarrow> RpcError status)"

section \<open>The methods of the client\<close>

definition client_get_capabilities :: "'g bridge_client \<Rightarrow> string \<Rightarrow> 'g \<Rightarrow> client_capabilities client_result \<times> 'g" where
  "client_get_capabilities inner server g =
     answer (feature_error ''capability discovery'') capabilities_of_proto (rpc_get_capabilities inner server g)"

definition client_gateway_info :: "'g bridge_client \<Rightarrow> 'g \<Rightarrow> gateway_information client_result \<times> 'g" where
  "client_gateway_info inner g = answer RpcError gateway_info_of_proto (rpc_get_gateway_info inner g)"

text \<open>\<open>None\<close> is the panic of a library whose own version is not in the catalog.\<close>

definition compatibility_with_client_version ::
  "catalog \<Rightarrow> string \<Rightarrow> 'g bridge_client \<Rightarrow> string option \<Rightarrow> string \<Rightarrow> 'g \<Rightarrow>
     (compatibility_report client_result \<times> 'g) option" where
  "compatibility_with_client_version cat library inner server client_version g =
     map_option (\<lambda>client_profile.
       case client_gateway_info inner g of
         (Inr info, g1) \<Rightarrow> (Inr (evaluate_compatibility cat library client_profile (from_gateway_info info)), g1)
       | (Inl error, g1) \<Rightarrow>
           if (case error of RpcError (Status code _) \<Rightarrow> code = Unimplemented | _ \<Rightarrow> False)
           then (case server of
                   Some s \<Rightarrow>
                     (case client_get_capabilities inner s g1 of
                        (Inl e, g2) \<Rightarrow> (Inl e, g2)
                      | (Inr capabilities, g2) \<Rightarrow>
                          (Inr (evaluate_compatibility cat library client_profile
                             (legacy_gateway_profile cat capabilities)), g2))
                 | None \<Rightarrow>
                     (Inr (unknown_compatibility_report library
                        (unwrap_or (pl_application_version client_profile) [])), g1))
           else (Inl error, g1)) (current_client_profile cat library client_version)"

definition compatibility ::
  "catalog \<Rightarrow> string \<Rightarrow> 'g bridge_client \<Rightarrow> string option \<Rightarrow> 'g \<Rightarrow> (compatibility_report client_result \<times> 'g) option" where
  "compatibility cat library inner server g = compatibility_with_client_version cat library inner server library g"

definition client_list_servers :: "'g bridge_client \<Rightarrow> 'g \<Rightarrow> string list client_result \<times> 'g" where
  "client_list_servers inner g = answer RpcError Inr (rpc_list_servers inner ''localhost'' g)"

definition client_browse_page :: "'g bridge_client \<Rightarrow> browse_page_request \<Rightarrow> 'g \<Rightarrow> client_page client_result \<times> 'g" where
  "client_browse_page inner request g =
     answer (feature_error ''paged browse'') page_of_proto (rpc_browse inner (browse_request_message request) g)"

definition client_open_browse :: "'g bridge_client \<Rightarrow> string \<Rightarrow> u32 \<Rightarrow> 'g \<Rightarrow> client_page client_result \<times> 'g" where
  "client_open_browse inner server page_size = client_browse_page inner (request_root server page_size)"

definition client_close_browse_session :: "'g bridge_client \<Rightarrow> string \<Rightarrow> 'g \<Rightarrow> unit client_result \<times> 'g" where
  "client_close_browse_session inner session_id g =
     answer (feature_error ''browse-session close'') Inr (rpc_close_browse_session inner session_id g)"

text \<open>The next message of a search stream and the rest of the stream.\<close>

definition stream_message ::
  "(rpc_error + search_event option) list \<Rightarrow>
     client_search_event option client_result \<times> (rpc_error + search_event option) list" where
  "stream_message stream =
     (case stream of
        [] \<Rightarrow> (Inr None, [])
      | Inl status # rest \<Rightarrow> (Inl (RpcError status), rest)
      | Inr event # rest \<Rightarrow> (and_then (event_of_proto event) (\<lambda>e. Inr (Some e)), rest))"

definition client_search_stream ::
  "'g bridge_client \<Rightarrow> client_search_request \<Rightarrow> 'g \<Rightarrow>
     ((rpc_error + search_event option) list client_result \<times> 'g) option" where
  "client_search_stream inner request g =
     map_option (answer (feature_error ''namespace search'') Inr) (rpc_search inner (search_request_message request) g)"

lemma stream_shorter [termination_simp]: "(Inr (Some e), rest) = stream_message stream \<Longrightarrow> length rest < length stream"
  by (auto simp: stream_message_def split: list.splits sum.splits)

fun collect_stream :: "client_search_event list \<Rightarrow> (rpc_error + search_event option) list \<Rightarrow> client_search_event list client_result" where
  "collect_stream events stream =
     (case stream_message stream of
        (Inl e, _) \<Rightarrow> Inl e
      | (Inr None, _) \<Rightarrow> Inr events
      | (Inr (Some event), rest) \<Rightarrow> collect_stream (events @ [event]) rest)"

declare collect_stream.simps [simp del]

definition client_search ::
  "'g bridge_client \<Rightarrow> client_search_request \<Rightarrow> 'g \<Rightarrow> (client_search_event list client_result \<times> 'g) option" where
  "client_search inner request g =
     map_option (\<lambda>(r, g1). (case r of Inl e \<Rightarrow> Inl e | Inr stream \<Rightarrow> collect_stream [] stream, g1))
       (client_search_stream inner request g)"

definition search_index_status :: "'g bridge_client \<Rightarrow> string \<Rightarrow> 'g \<Rightarrow> client_status client_result \<times> 'g" where
  "search_index_status inner server g =
     answer (feature_error ''indexed-search status'') status_of_proto (rpc_get_search_index_status inner server g)"

definition refresh_search_index ::
  "(string \<Rightarrow> string) \<Rightarrow> 'g bridge_client \<Rightarrow> string \<Rightarrow> bool \<Rightarrow> 'g \<Rightarrow> client_status client_result \<times> 'g" where
  "refresh_search_index debug inner server force g =
     answer (index_operation_error_of debug ''indexed-search refresh'' server) status_of_proto
       (rpc_refresh_search_index inner server force g)"

definition control_search_index ::
  "(string \<Rightarrow> string) \<Rightarrow> 'g bridge_client \<Rightarrow> string \<Rightarrow> client_control_action \<Rightarrow> 'g \<Rightarrow> client_status client_result \<times> 'g" where
  "control_search_index debug inner server action g =
     answer (index_operation_error_of debug ''indexed-search control'' server) status_of_proto
       (rpc_control_search_index inner server (control_action_code action) g)"

definition set_search_index_auto_refresh ::
  "(string \<Rightarrow> string) \<Rightarrow> 'g bridge_client \<Rightarrow> string \<Rightarrow> bool \<Rightarrow> 'g \<Rightarrow> client_status client_result \<times> 'g" where
  "set_search_index_auto_refresh debug inner server enabled =
     control_search_index debug inner server (if enabled then ClientEnableAutoRefresh else ClientDisableAutoRefresh)"

definition delete_search_index :: "(string \<Rightarrow> string) \<Rightarrow> 'g bridge_client \<Rightarrow> string \<Rightarrow> 'g \<Rightarrow> client_status client_result \<times> 'g" where
  "delete_search_index debug inner server = control_search_index debug inner server ClientDelete"

definition client_search_index ::
  "'g bridge_client \<Rightarrow> client_index_request \<Rightarrow> 'g \<Rightarrow> client_search_response client_result \<times> 'g" where
  "client_search_index inner request g =
     answer (feature_error ''indexed search'') search_response_of_proto (rpc_search_index inner (index_request_message request) g)"

text \<open>The client's \<open>TagValue\<close> and \<open>WriteResult\<close> have the fields of the gateway's.\<close>

definition tag_value_of_proto :: "proto_tag_value \<Rightarrow> tag_value" where
  "tag_value_of_proto v =
     \<lparr>tv_tag_id = pt_tag_id v, tv_value = pt_value v, tv_quality = pt_quality v, tv_timestamp = pt_timestamp v\<rparr>"

definition client_read :: "'g bridge_client \<Rightarrow> string \<Rightarrow> ustring list \<Rightarrow> 'g \<Rightarrow> tag_value list client_result \<times> 'g" where
  "client_read inner server tags g = answer RpcError (\<lambda>values. Inr (map tag_value_of_proto values)) (rpc_read inner server tags g)"

definition client_write :: "'g bridge_client \<Rightarrow> string \<Rightarrow> ustring \<Rightarrow> client_value \<Rightarrow> 'g \<Rightarrow> write_result client_result \<times> 'g" where
  "client_write inner server tag v g =
     answer RpcError (\<lambda>r. Inr \<lparr>wr_tag_id = pw_tag_id r, wr_success = pw_success r, wr_error = pw_error r\<rparr>)
       (rpc_write inner server tag (Some (typed_value_message v)) g)"

section \<open>The gateway's RPCs\<close>

text \<open>
  The gateway as a client meets it: the handlers of \<open>BridgeService\<close> on the browse sessions, the OPC
  server and the index manager, with the circumstances of each call chosen by its number.
\<close>

record 'w gateway =
  gw_catalog :: catalog
  gw_version :: string
  gw_debug :: "string \<Rightarrow> string"
  gw_browse :: "'w browse_env"
  gw_now :: "nat \<Rightarrow> int"
  gw_walk_clock :: "nat \<Rightarrow> nat \<Rightarrow> int"
  gw_rx :: "nat \<Rightarrow> nat \<Rightarrow> bool"
  gw_lower :: "ustring \<Rightarrow> ustring"
  gw_request :: "nat \<Rightarrow> request_env"
  gw_course :: "nat \<Rightarrow> refresh_course"
  gw_search :: search_env
  gw_capabilities :: "nat \<Rightarrow> string \<Rightarrow> string + browse_capabilities"
  gw_list_servers :: "nat \<Rightarrow> string \<Rightarrow> string + string list"
  gw_read :: "nat \<Rightarrow> string \<Rightarrow> ustring list \<Rightarrow> string + tag_value list"
  gw_write :: "nat \<Rightarrow> string \<Rightarrow> ustring \<Rightarrow> opc_value \<Rightarrow> string + write_result"

record 'w gateway_state =
  gs_sessions :: manager
  gs_world :: 'w
  gs_index :: index_manager
  gs_calls :: nat

text \<open>A handler that works on the index manager alone, and the next call.\<close>

definition on_index :: "(nat \<Rightarrow> index_manager \<Rightarrow> 'r \<times> index_manager) \<Rightarrow> 'w gateway_state \<Rightarrow> 'r \<times> 'w gateway_state" where
  "on_index handler g =
     (case handler (gs_calls g) (gs_index g) of (r, m) \<Rightarrow> (r, g\<lparr>gs_index := m, gs_calls := Suc (gs_calls g)\<rparr>))"

definition service_browse ::
  "'w gateway \<Rightarrow> proto_browse_request \<Rightarrow> 'w gateway_state \<Rightarrow> proto_browse_page rpc \<times> 'w gateway_state" where
  "service_browse gw request g =
     (case handle_browse (gw_browse gw) (gw_now gw (gs_calls g)) (gw_request gw (gs_calls g)) (pbr_server request)
         (pbr_session_id request) (pbr_parent_node_key request) (pbr_page_token request) (pbr_page_size request)
         (pbr_refresh request) (gs_sessions g) (gs_world g) (gs_index g) of
        ((r, b, w), m) \<Rightarrow> (r, \<lparr>gs_sessions = b, gs_world = w, gs_index = m, gs_calls = Suc (gs_calls g)\<rparr>))"

definition service_close ::
  "'w gateway \<Rightarrow> string \<Rightarrow> 'w gateway_state \<Rightarrow> unit rpc \<times> 'w gateway_state" where
  "service_close gw session_id g =
     (case handle_close_browse_session (gw_browse gw) session_id (gs_sessions g) (gs_world g) of
        (r, b, w) \<Rightarrow> (r, g\<lparr>gs_sessions := b, gs_world := w, gs_calls := Suc (gs_calls g)\<rparr>))"

definition service_search ::
  "'w gateway \<Rightarrow> proto_search_request \<Rightarrow> 'w gateway_state \<Rightarrow>
     ((rpc_error + search_event option) list rpc \<times> 'w gateway_state) option" where
  "service_search gw request g =
     (case handle_search (gw_browse gw) (gw_walk_clock gw (gs_calls g)) (gw_rx gw (gs_calls g)) (gw_lower gw)
         (gw_request gw (gs_calls g)) (psr_server request) (psr_session_id request)
         \<lparr>LiveSearch.search_request.sq_query = psr_query request, sq_match_mode = psr_match_mode request,
          sq_max_results = psr_max_results request, sq_scope_node_key = psr_scope_node_key request,
          sq_include_branches = psr_include_branches request, sq_refresh = psr_refresh request\<rparr>
         (gs_sessions g) (gs_world g) (gs_index g) of
        (None, m) \<Rightarrow> None
      | (Some (r, b, w), m) \<Rightarrow>
          Some (case r of Inl e \<Rightarrow> Inl e | Inr events \<Rightarrow> Inr (map (map_sum id Some) events),
                \<lparr>gs_sessions = b, gs_world = w, gs_index = m, gs_calls = Suc (gs_calls g)\<rparr>))"

definition bridge_service :: "'w gateway \<Rightarrow> 'w gateway_state bridge_client" where
  "bridge_service gw =
     \<lparr>rpc_get_gateway_info = (\<lambda>g. (handle_get_gateway_info (gw_catalog gw) (gw_version gw), g)),
      rpc_get_capabilities = (\<lambda>server. on_index (\<lambda>n.
        handle_get_capabilities (gw_catalog gw) (gw_version gw) (gw_request gw n) (gw_capabilities gw n server) server)),
      rpc_list_servers = (\<lambda>host. on_index (\<lambda>n m. (handle_list_servers (gw_list_servers gw n) host, m))),
      rpc_browse = service_browse gw,
      rpc_close_browse_session = service_close gw,
      rpc_search = service_search gw,
      rpc_get_search_index_status = (\<lambda>server. on_index (\<lambda>n. handle_get_search_index_status (gw_request gw n) server)),
      rpc_refresh_search_index = (\<lambda>server force. on_index (\<lambda>n m.
        case handle_refresh_search_index (gw_debug gw) (gw_request gw n) (gw_course gw n) server force m of
          (r, launched, m1) \<Rightarrow> (r, m1))),
      rpc_control_search_index = (\<lambda>server action. on_index (\<lambda>n.
        handle_control_search_index (gw_debug gw) (gw_request gw n) server action)),
      rpc_search_index = (\<lambda>request. on_index (\<lambda>n.
        handle_search_index (gw_search gw) (rq_start (gw_request gw n)) (pir_server request) (pir_query request)
          (pir_match_mode request) (pir_max_results request))),
      rpc_read = (\<lambda>server tags. on_index (\<lambda>n. handle_read (gw_request gw n) (gw_read gw n server) server tags)),
      rpc_write = (\<lambda>server tag v. on_index (\<lambda>n. handle_write (gw_request gw n) (gw_write gw n server) server tag v))\<rparr>"

section \<open>The errors of an index operation\<close>

text \<open>The error the caller of the client is to see.\<close>

definition client_error_of :: "call_env \<Rightarrow> index_operation_error \<Rightarrow> client_error" where
  "client_error_of env error =
     (case error of
        UnknownServer server \<Rightarrow> UnknownIndexServer server
      | NotEnrolled server \<Rightarrow> IndexNotEnrolled server
      | Deleting server \<Rightarrow> IndexDeletingError server
      | Manager.Internal e \<Rightarrow> RpcError (Status Opc.Internal (error_text env e)))"

definition error_about :: "string \<Rightarrow> index_operation_error \<Rightarrow> bool" where
  "error_about server error =
     (case error of
        UnknownServer s \<Rightarrow> s = server | NotEnrolled s \<Rightarrow> s = server | Deleting s \<Rightarrow> s = server
      | Manager.Internal _ \<Rightarrow> True)"

text \<open>
  An operation of the index manager that a handler answers with a status or with one of the index
  errors, told with the circumstances in which the error was put into words. What the client relies
  on is that such an error is about the server it asked for.
\<close>

type_synonym index_operation_result = "((call_env \<times> index_operation_error) + index_status) \<times> index_manager"

definition handler_reply :: "(string \<Rightarrow> string) \<Rightarrow> index_operation_result \<Rightarrow> proto_status rpc \<times> index_manager" where
  "handler_reply debug = (\<lambda>(r, m). (case r of
     Inl (env, e) \<Rightarrow> Inl (index_error debug env e) | Inr status \<Rightarrow> Inr (map_index_status status), m))"

definition caller_sees :: "index_operation_result \<Rightarrow> client_status client_result \<times> index_manager" where
  "caller_sees = (\<lambda>(r, m). (case r of
     Inl (env, e) \<Rightarrow> Inl (client_error_of env e) | Inr status \<Rightarrow> status_of_proto (map_index_status status), m))"

locale index_operation =
  fixes operation :: "string \<Rightarrow> index_manager \<Rightarrow> index_operation_result"
  assumes own_server: "operation server m = (Inl (env, e), m') \<Longrightarrow> error_about server e"
begin

lemma recognised:
  "answer (index_operation_error_of debug name server) status_of_proto (handler_reply debug (operation server m)) =
     caller_sees (operation server m)"
proof (cases "operation server m")
  case (Pair r m')
  show ?thesis
  proof (cases r)
    case (Inl failure)
    then obtain env e where r: "r = Inl (env, e)" by (cases failure) auto
    then have "error_about server e" using own_server Pair by blast
    then show ?thesis
      using Pair r by (cases e) (auto simp: answer_def handler_reply_def caller_sees_def index_error_def
          index_operation_error_of_def client_error_of_def error_about_def internal_error_def)
  next
    case (Inr status)
    then show ?thesis using Pair by (simp add: answer_def handler_reply_def caller_sees_def)
  qed
qed

end

text \<open>A control action followed by the status it is answered with, and a refresh.\<close>

definition control_course ::
  "request_env \<Rightarrow> index_control_action \<Rightarrow> string \<Rightarrow> index_manager \<Rightarrow> index_operation_result" where
  "control_course rq action server m =
     (case control_operation (rq_cfg rq) (rq_start rq) server action m of
        (Inl e, m1) \<Rightarrow> (Inl (rq_start rq, e), m1)
      | (Inr _, m1) \<Rightarrow>
          (case index_status_of (rq_cfg rq) (rq_end rq) (rq_host rq) (rq_storage rq) server m1 of
             (Inl e, m2) \<Rightarrow> (Inl (rq_end rq, Manager.Internal e), m2)
           | (Inr status, m2) \<Rightarrow> (Inr status, m2)))"

definition refresh_course_of ::
  "request_env \<Rightarrow> refresh_course \<Rightarrow> bool \<Rightarrow> string \<Rightarrow> index_manager \<Rightarrow> index_operation_result" where
  "refresh_course_of rq c force server m =
     (case refresh (rq_cfg rq) c server force m of
        (Inl e, launched, m1) \<Rightarrow> (Inl (rq_end rq, e), m1)
      | (Inr status, launched, m1) \<Rightarrow> (Inr status, m1))"

lemma control_error_about:
  assumes "control_operation cfg env server action m = (Inl e, m')"
  shows "error_about server e"
  using assms unfolding control_operation_def change_auto_refresh_def delete_index_request_def
    reject_if_deleting_def require_enrollment_def
  by (auto simp: error_about_def split: index_control_action.splits sum.splits prod.splits if_splits)

interpretation control: index_operation "control_course rq action" for rq action
  by unfold_locales
    (auto simp: control_course_def error_about_def dest: control_error_about split: prod.splits sum.splits)

lemma index_result_about: "index_result r = (Inl e, launched, m') \<Longrightarrow> error_about server e"
  by (auto simp: index_result_def error_about_def split: prod.splits sum.splits)

lemma validate_about: "validate_server_for_enrollment cfg c server = Inl e \<Longrightarrow> error_about server e"
  by (auto simp: validate_server_for_enrollment_def error_about_def split: sum.splits if_splits)

lemma refresh_error_about: "refresh cfg c server force m = (Inl e, launched, m') \<Longrightarrow> error_about server e"
  unfolding refresh_def Let_def
  by (auto simp: error_about_def dest: index_result_about validate_about split: if_splits sum.splits bool.splits prod.splits)

interpretation renewal: index_operation "refresh_course_of rq c force" for rq c force
  by unfold_locales (auto simp: refresh_course_of_def dest: refresh_error_about split: prod.splits sum.splits)

text \<open>The gateway's action for a client's, and the state after a call.\<close>

definition gateway_action :: "client_control_action \<Rightarrow> index_control_action" where
  "gateway_action action =
     (case action of ClientPause \<Rightarrow> ActPause | ClientResume \<Rightarrow> ActResume | ClientCancel \<Rightarrow> ActCancel
      | ClientEnableAutoRefresh \<Rightarrow> ActEnableAutoRefresh | ClientDisableAutoRefresh \<Rightarrow> ActDisableAutoRefresh
      | ClientDelete \<Rightarrow> ActDelete)"

lemma action_understood: "control_action_of (control_action_code action) = Inr (gateway_action action)"
  by (cases action) (simp_all add: control_action_of_def control_action_code_def gateway_action_def)

lemma handled_control:
  "handle_control_search_index debug rq server (control_action_code action) =
     (\<lambda>m. handler_reply debug (control_course rq (gateway_action action) server m))"
  by (rule ext) (simp add: handle_control_search_index_def action_understood control_course_def handler_reply_def
      index_error_def internal_error_def split: prod.split sum.split)

lemma handled_refresh:
  "(case handle_refresh_search_index debug rq c server force m of (r, launched, m1) \<Rightarrow> (r, m1)) =
     handler_reply debug (refresh_course_of rq c force server m)"
  by (simp add: handle_refresh_search_index_def refresh_course_of_def handler_reply_def split: prod.split sum.split)

lemma answer_on_index: "answer f h (on_index handler g) = on_index (\<lambda>n m. answer f h (handler n m)) g"
  by (simp add: answer_def on_index_def split: prod.split sum.split)

text \<open>
  C19. An operator's action and a refresh, asked for through the client library of the gateway's own
  handlers, reach the index manager as what they are, and the caller is told which of the errors of
  the index manager occurred: an unknown server, an index that is not enrolled, one that is being
  deleted, or an internal error with its text. Otherwise the caller gets the status.
\<close>

theorem index_errors_recognised:
  "control_search_index (gw_debug gw) (bridge_service gw) server action g =
     on_index (\<lambda>n m. caller_sees (control_course (gw_request gw n) (gateway_action action) server m)) g \<and>
   refresh_search_index (gw_debug gw) (bridge_service gw) server force g =
     on_index (\<lambda>n m. caller_sees (refresh_course_of (gw_request gw n) (gw_course gw n) force server m)) g"
  by (simp add: control_search_index_def refresh_search_index_def bridge_service_def answer_on_index handled_control
      handled_refresh control.recognised renewal.recognised)

section \<open>The versions a client settles on\<close>

text \<open>A profile offers a version of a feature's protocol.\<close>

definition offers :: "feature_support list \<Rightarrow> compatibility_feature \<Rightarrow> u32 \<Rightarrow> bool" where
  "offers features feature v \<longleftrightarrow>
     list_ex (\<lambda>support. fs_feature support = feature \<and> vr_min (fs_versions support) \<le> v \<and> v \<le> vr_max (fs_versions support)) features"

lemma collect_from: "collect xs = Inr ys \<Longrightarrow> y \<in> set ys \<Longrightarrow> Inr y \<in> set xs"
  by (induction xs arbitrary: ys) (auto simp: and_then_def split: sum.splits)

lemma compatible_offered:
  assumes "profile_feature gateway (fs_feature support) = r" and "range_wf (fs_versions support)"
    and "profile_wf gateway"
    and "fc_status (feature_result gateway support) = FeatureCompatible"
  shows "\<exists>v. fc_negotiated_version (feature_result gateway support) = Some v \<and>
    offers (pl_features gateway) (fs_feature support) v \<and>
    vr_min (fs_versions support) \<le> v \<and> v \<le> vr_max (fs_versions support)"
proof -
  note wf = assms(3)
  obtain range where range: "profile_feature gateway (fs_feature support) = Some range"
    "versions_of (fs_versions support) \<inter> versions_of range \<noteq> {}"
    using feature_result_spec(1) [OF wf assms(2)] assms(4) by (auto split: option.splits)
  define v where "v = Min (versions_of (fs_versions support) \<inter> versions_of range)"
  have "v \<in> versions_of (fs_versions support) \<inter> versions_of range"
    using range(2) unfolding v_def by (intro Min_in) auto
  moreover have "fc_negotiated_version (feature_result gateway support) = Some v"
    using feature_result_spec(2) [OF wf assms(2)] range by (simp add: v_def)
  moreover obtain s where "s \<in> set (pl_features gateway)" "fs_feature s = fs_feature support" "fs_versions s = range"
    using range(1) by (auto simp: profile_feature_def dest!: find_SomeD)
  ultimately show ?thesis by (auto simp: offers_def versions_of_def list_ex_iff)
qed

lemma accepted_ranges:
  assumes "gateway_info_of_proto reply = Inr info" and "s \<in> set (gi_features info)"
  shows "range_wf (fs_versions s)"
proof -
  have "Inr s \<in> set (map support_of_proto (pg_features reply))"
    using assms by (auto simp: gateway_info_of_proto_def and_then_def dest: collect_from split: sum.splits)
  then show ?thesis
    by (auto simp: support_of_proto_def and_then_def split: sum.splits option.splits dest: range_new_wf)
qed

lemma exact_support [simp]: "range_wf (fs_versions (support_exact feature v))"
  by (simp add: support_exact_def)

lemma client_features: "current_client_profile cat library version = Some profile \<Longrightarrow> profile_wf profile"
  by (auto simp: current_client_profile_def profile_wf_def)

lemma legacy_features: "profile_wf (legacy_gateway_profile cat capabilities)"
  by (simp add: legacy_gateway_profile_def profile_wf_def Let_def split: option.split)

lemma evaluated_offered:
  assumes "current_client_profile cat library version = Some profile"
    and "profile_wf gateway"
    and "r \<in> set (cy_features (evaluate_compatibility cat library profile gateway))" and "fc_status r = FeatureCompatible"
  shows "\<exists>v. fc_negotiated_version r = Some v \<and> offers (pl_features gateway) (fc_feature r) v \<and>
    offers (pl_features profile) (fc_feature r) v"
proof -
  obtain support where support: "support \<in> set (pl_features profile)" "r = feature_result gateway support"
    using assms(3) by (auto simp: evaluate_compatibility_def Let_def)
  have "fc_feature r = fs_feature support" by (simp add: support(2) feature_result_def Let_def split_def)
  then show ?thesis
    using compatible_offered [OF refl _ assms(2), of support] client_features [OF assms(1)] assms(4) support
    by (auto simp: offers_def list_ex_iff profile_wf_def list_all_iff)
qed

text \<open>
  C26. Whatever the gateway answers, a feature the client reports as compatible has a version settled on
  that the client supports and that the gateway has offered, in its answer about itself or, if it
  does not know that call, in the capabilities of the server asked about. With neither the report
  calls no feature compatible.
\<close>

theorem settled_version_offered:
  assumes "compatibility_with_client_version cat library inner server version g = Some (Inr report, g')"
    and "r \<in> set (cy_features report)" and "fc_status r = FeatureCompatible"
  shows "\<exists>v profile. fc_negotiated_version r = Some v \<and> current_client_profile cat library version = Some profile \<and>
    offers (pl_features profile) (fc_feature r) v \<and>
    ((\<exists>info. fst (client_gateway_info inner g) = Inr info \<and> offers (gi_features info) (fc_feature r) v) \<or>
     (\<exists>message s capabilities. fst (client_gateway_info inner g) = Inl (RpcError (Status Unimplemented message)) \<and>
        server = Some s \<and> fst (client_get_capabilities inner s (snd (client_gateway_info inner g))) = Inr capabilities \<and>
        offers (pl_features (legacy_gateway_profile cat capabilities)) (fc_feature r) v))"
proof -
  obtain profile where profile: "current_client_profile cat library version = Some profile"
    using assms(1) by (auto simp: compatibility_with_client_version_def)
  obtain first g1 where first: "client_gateway_info inner g = (first, g1)" by (cases "client_gateway_info inner g")
  show ?thesis
  proof (cases first)
    case (Inr info)
    then obtain reply where "gateway_info_of_proto reply = Inr info"
      using first by (auto simp: client_gateway_info_def answer_def split: prod.splits sum.splits)
    then have "profile_wf (from_gateway_info info)"
      using accepted_ranges by (simp add: from_gateway_info_def profile_wf_def list_all_iff)
    moreover have "report = evaluate_compatibility cat library profile (from_gateway_info info)"
      using assms(1) profile first Inr by (simp add: compatibility_with_client_version_def)
    ultimately show ?thesis
      using evaluated_offered [OF profile] assms(2,3) first Inr profile by (fastforce simp: from_gateway_info_def)
  next
    case (Inl error)
    then obtain message where error: "error = RpcError (Status Unimplemented message)"
      using assms(1) profile first by (auto simp: compatibility_with_client_version_def split: if_splits client_error.splits rpc_error.splits)
    then obtain s capabilities where legacy: "server = Some s"
      "fst (client_get_capabilities inner s g1) = Inr capabilities"
      "report = evaluate_compatibility cat library profile (legacy_gateway_profile cat capabilities)"
      using assms(1,2) profile first Inl
      by (auto simp: compatibility_with_client_version_def unknown_compatibility_report_def split: option.splits prod.splits sum.splits)
    then show ?thesis
      using evaluated_offered [OF profile] legacy_features assms(2,3) first Inl error profile by fastforce
  qed
qed

section \<open>A concrete gateway\<close>

definition demo_gateway :: "unit gateway" where
  "demo_gateway =
     \<lparr>gw_catalog = bundled_catalog, gw_version = GATEWAY_VERSION, gw_debug = (\<lambda>s. s), gw_browse = demo_env,
      gw_now = (\<lambda>n. 100001 + int n), gw_walk_clock = (\<lambda>_ n. 100002 + int n), gw_rx = (\<lambda>_ _. True), gw_lower = (\<lambda>s. s),
      gw_request = (\<lambda>_. demo_request), gw_course = (\<lambda>_. demo_course), gw_search = Status.demo_search,
      gw_capabilities = (\<lambda>_ _. Inl ''offline''), gw_list_servers = (\<lambda>_ _. Inr [''S'']),
      gw_read = (\<lambda>_ _ _. Inl ''offline''), gw_write = (\<lambda>_ _ _ _. Inl ''offline'')\<rparr>"

definition demo_state :: "unit gateway_state" where
  "demo_state = \<lparr>gs_sessions = demo_opened, gs_world = (), gs_index = demo_manager, gs_calls = 0\<rparr>"

theorem settled_version_offered_witness:
  "\<exists>report. compatibility_with_client_version bundled_catalog LIBRARY_VERSION (bridge_service demo_gateway) None
       CLIENT_VERSION demo_state = Some (Inr report, demo_state) \<and>
     (\<exists>r v. r \<in> set (cy_features report) \<and> fc_feature r = FeatureIndexedSearch \<and> fc_negotiated_version r = Some v)"
proof -
  obtain reply info where gateway: "gateway_info bundled_catalog GATEWAY_VERSION = Some reply"
    "gateway_info_of_proto reply = Inr info"
    "from_gateway_info info = \<lparr>pl_application_version = Some GATEWAY_VERSION, pl_source = SourceGatewayInfo,
      pl_features = line_features (cat_release_lines bundled_catalog ! 3)\<rparr>"
    using gateway_info_read [OF bundled_versions(2)] by blast
  obtain profile where profile: "current_client_profile bundled_catalog LIBRARY_VERSION CLIENT_VERSION = Some profile"
    "pl_features profile = line_features (cat_release_lines bundled_catalog ! 3)"
    using bundled_versions(1) by (simp add: current_client_profile_def line_features_def)
  let ?report = "evaluate_compatibility bundled_catalog LIBRARY_VERSION profile (from_gateway_info info)"
  have run: "compatibility_with_client_version bundled_catalog LIBRARY_VERSION (bridge_service demo_gateway) None
      CLIENT_VERSION demo_state = Some (Inr ?report, demo_state)"
    using gateway(1,2) profile(1)
    by (simp add: compatibility_with_client_version_def client_gateway_info_def answer_def bridge_service_def
        demo_gateway_def handle_get_gateway_info_def)
  have "\<exists>r \<in> set (cy_features ?report). fc_feature r = FeatureIndexedSearch \<and> fc_status r = FeatureCompatible"
    using gateway(3) profile(2) by (simp add: profile_eval)
  then obtain r where r: "r \<in> set (cy_features ?report)" "fc_feature r = FeatureIndexedSearch" "fc_status r = FeatureCompatible"
    by blast
  then show ?thesis using run settled_version_offered [OF run r(1,3)] by blast
qed

end
