(* ===== verification/Commands.thy ===== *)
theory Commands
  imports Client
begin

text \<open>
  The browse command of the command-line client (\<open>commands/browse.rs\<close>): it asks for one page, or
  with \<open>--all\<close> follows the continuation tokens up to \<open>--max-results\<close>. Printing and connecting are left
  out. The loop ends whatever the gateway answers, and its result stays within the limit. Over the
  gateway's own handlers the loop can fail where it should stop at the limit.
\<close>

section \<open>The pages of a browse command\<close>

datatype command_error = Bail string | Failed client_error

type_synonym 'a command_result = "command_error + 'a"

text \<open>\<open>pages + 1\<close> of a counter of 32 bits.\<close>

definition next_browse_page_count :: "u32 \<Rightarrow> u32" where
  "next_browse_page_count pages = pages + 1"

definition should_fetch_browse_page :: "bool \<Rightarrow> bool \<Rightarrow> nat \<Rightarrow> u32 \<Rightarrow> bool" where
  "should_fetch_browse_page everything is_complete node_count max_results \<longleftrightarrow>
     everything \<and> \<not> is_complete \<and> node_count < unat max_results"

definition stopped_at_browse_safety_cap :: "bool \<Rightarrow> bool \<Rightarrow> nat \<Rightarrow> u32 \<Rightarrow> bool" where
  "stopped_at_browse_safety_cap everything is_complete node_count max_results \<longleftrightarrow>
     everything \<and> \<not> is_complete \<and> node_count \<ge> unat max_results"

definition ensure_page_bound :: "client_page \<Rightarrow> u32 \<Rightarrow> unit command_result" where
  "ensure_page_bound page requested =
     (if length (cp_nodes page) > unat requested
      then Inl (Bail (''gateway returned '' @ nat_to_string (length (cp_nodes page)) @
             '' nodes for a requested page size of '' @ nat_to_string (unat requested)))
      else if \<not> cp_complete page \<and> cp_nodes page = []
      then Inl (Bail ''gateway returned an empty incomplete browse page'')
      else Inr ())"

definition merge_warnings :: "string option \<Rightarrow> string option \<Rightarrow> string option" where
  "merge_warnings existing added =
     (case (existing, added) of
        (Some a, Some b) \<Rightarrow> Some (a @ ''; '' @ b)
      | (Some a, None) \<Rightarrow> Some a
      | (None, Some b) \<Rightarrow> Some b
      | (None, None) \<Rightarrow> None)"

text \<open>One more page: the request of the loop, the checks of the answer and the page that joins both.\<close>

definition request_size_of :: "u32 \<Rightarrow> u32 \<Rightarrow> client_page \<Rightarrow> u32" where
  "request_size_of page_size max_results combined = min page_size (max_results - of_nat (length (cp_nodes combined)))"

definition join_pages :: "client_page \<Rightarrow> client_page \<Rightarrow> client_page" where
  "join_pages combined page =
     combined\<lparr>cp_nodes := cp_nodes combined @ cp_nodes page, cp_next_page_token := cp_next_page_token page,
       cp_complete := cp_complete page, cp_warning := merge_warnings (cp_warning combined) (cp_warning page)\<rparr>"

definition next_page ::
  "'g bridge_client \<Rightarrow> string \<Rightarrow> string option \<Rightarrow> u32 \<Rightarrow> u32 \<Rightarrow> client_page \<Rightarrow> 'g \<Rightarrow> client_page command_result \<times> 'g" where
  "next_page inner server parent page_size max_results combined g =
     (let request_size = request_size_of page_size max_results combined in
      case client_browse_page inner (request_next server (cp_session_id combined) parent
          (unwrap_or (cp_next_page_token combined) []) request_size) g of
        (Inl e, g1) \<Rightarrow> (Inl (Failed e), g1)
      | (Inr page, g1) \<Rightarrow>
          (case ensure_page_bound page request_size of
             Inl e \<Rightarrow> (Inl e, g1)
           | Inr _ \<Rightarrow>
               if cp_session_id page \<noteq> cp_session_id combined
               then (Inl (Bail ''gateway changed browse session ID while paging''), g1)
               else if cp_organization page \<noteq> cp_organization combined \<or> cp_source page \<noteq> cp_source combined
               then (Inl (Bail ''gateway changed namespace metadata while paging''), g1)
               else (Inr (join_pages combined page), g1)))"

text \<open>A page that was added has nodes, unless it is the last one, and stays within what is left.\<close>

lemma next_page_grows:
  assumes "next_page inner server parent page_size max_results combined g = (Inr joined, g')"
    and "length (cp_nodes combined) < unat max_results"
  shows "\<exists>added. cp_nodes joined = cp_nodes combined @ added \<and> (cp_complete joined \<or> added \<noteq> []) \<and>
    length (cp_nodes joined) \<le> unat max_results"
proof -
  let ?size = "request_size_of page_size max_results combined"
  obtain page where page: "ensure_page_bound page ?size = Inr ()" "joined = join_pages combined page"
    using assms(1) by (auto simp: next_page_def Let_def split: prod.splits sum.splits if_splits)
  have "unat ?size \<le> unat max_results - length (cp_nodes combined)"
  proof -
    have "unat (of_nat (length (cp_nodes combined)) :: u32) = length (cp_nodes combined)"
      using assms(2) unsigned_less [of max_results, where ?'a = nat] by (simp add: unsigned_of_nat take_bit_nat_eq_self)
    then have "unat (max_results - of_nat (length (cp_nodes combined))) = unat max_results - length (cp_nodes combined)"
      using assms(2) by (simp add: unat_sub word_le_nat_alt)
    then show ?thesis by (auto simp: request_size_of_def min_def word_le_nat_alt)
  qed
  then show ?thesis
    using page assms(2) by (auto simp: ensure_page_bound_def join_pages_def split: if_splits)
qed

function browse_pages_loop ::
  "'g bridge_client \<Rightarrow> string \<Rightarrow> string option \<Rightarrow> u32 \<Rightarrow> bool \<Rightarrow> u32 \<Rightarrow> client_page \<Rightarrow> u32 \<Rightarrow> 'g \<Rightarrow>
     (client_page \<times> u32) command_result \<times> 'g" where
  "browse_pages_loop inner server parent page_size everything max_results combined pages g =
     (if \<not> should_fetch_browse_page everything (cp_complete combined) (length (cp_nodes combined)) max_results
      then (Inr (combined, pages), g)
      else case next_page inner server parent page_size max_results combined g of
        (Inl e, g1) \<Rightarrow> (Inl e, g1)
      | (Inr joined, g1) \<Rightarrow>
          browse_pages_loop inner server parent page_size everything max_results joined (next_browse_page_count pages) g1)"
  by pat_completeness auto

definition pages_left :: "u32 \<Rightarrow> client_page \<Rightarrow> nat" where
  "pages_left max_results page = (if cp_complete page then 0 else unat max_results - length (cp_nodes page))"

lemma pages_left_less:
  assumes "should_fetch_browse_page everything (cp_complete combined) (length (cp_nodes combined)) max_results"
    and "next_page inner server parent page_size max_results combined g = (Inr joined, g')"
  shows "pages_left max_results joined < pages_left max_results combined"
proof -
  have open_page: "\<not> cp_complete combined" "length (cp_nodes combined) < unat max_results"
    using assms(1) by (simp_all add: should_fetch_browse_page_def)
  obtain added where "cp_nodes joined = cp_nodes combined @ added" "cp_complete joined \<or> added \<noteq> []"
    using next_page_grows [OF assms(2) open_page(2)] by blast
  then show ?thesis using open_page by (cases added) (auto simp: pages_left_def)
qed

termination browse_pages_loop
  by (relation "measure (\<lambda>(inner, server, parent, page_size, everything, max_results, combined, pages, g).
      pages_left max_results combined)") (auto dest: sym intro: pages_left_less)

declare browse_pages_loop.simps [simp del]

definition cmd_browse ::
  "'g bridge_client \<Rightarrow> string \<Rightarrow> string option \<Rightarrow> string option \<Rightarrow> string option \<Rightarrow> u32 \<Rightarrow> bool \<Rightarrow> u32 \<Rightarrow> bool \<Rightarrow> 'g \<Rightarrow>
     (client_page \<times> u32) command_result \<times> 'g" where
  "cmd_browse inner server session_id parent token page_size everything max_results renew g =
     (if page_size = 0 then (Inl (Bail ''--page-size must be greater than zero''), g)
      else if everything \<and> max_results = 0
      then (Inl (Bail ''--max-results must be greater than zero with --all''), g)
      else
        let first_size = (if everything then min page_size max_results else page_size) in
        case client_browse_page inner \<lparr>brq_server = server, brq_session_id = session_id, brq_parent_node_key = parent,
            brq_page_token = token, brq_page_size = first_size, brq_refresh = renew\<rparr> g of
          (Inl e, g1) \<Rightarrow> (Inl (Failed e), g1)
        | (Inr first, g1) \<Rightarrow>
            (case ensure_page_bound first first_size of
               Inl e \<Rightarrow> (Inl e, g1)
             | Inr _ \<Rightarrow>
                 (case browse_pages_loop inner server parent page_size everything max_results first 1 g1 of
                    (Inl e, g2) \<Rightarrow> (Inl e, g2)
                  | (Inr (combined, pages), g2) \<Rightarrow>
                      (Inr (if stopped_at_browse_safety_cap everything (cp_complete combined)
                               (length (cp_nodes combined)) max_results
                            then combined\<lparr>cp_warning := merge_warnings (cp_warning combined)
                              (Some (''stopped at the --all safety cap of '' @ nat_to_string (unat max_results) @
                                 '' results; more children are available''))\<rparr>
                            else combined, pages), g2))))"

section \<open>The result stays within the limit\<close>

text \<open>What holds of the joined page and the number of its pages all along.\<close>

definition pages_ok :: "u32 \<Rightarrow> client_page \<Rightarrow> u32 \<Rightarrow> bool" where
  "pages_ok limit page pages \<longleftrightarrow>
     length (cp_nodes page) \<le> unat limit \<and>
     unat pages \<le> length (cp_nodes page) + (if cp_complete page then 1 else 0)"

lemma first_page_ok: "ensure_page_bound page limit = Inr () \<Longrightarrow> pages_ok limit page 1"
  by (cases "cp_nodes page") (auto simp: ensure_page_bound_def pages_ok_def split: if_splits)

lemma next_page_ok:
  assumes "next_page inner server parent page_size max_results combined g = (Inr joined, g')"
    and "should_fetch_browse_page everything (cp_complete combined) (length (cp_nodes combined)) max_results"
    and "pages_ok max_results combined pages"
  shows "pages_ok max_results joined (next_browse_page_count pages)"
proof -
  have open_page: "\<not> cp_complete combined" "length (cp_nodes combined) < unat max_results"
    using assms(2) by (simp_all add: should_fetch_browse_page_def)
  obtain added where added: "cp_nodes joined = cp_nodes combined @ added" "cp_complete joined \<or> added \<noteq> []"
    "length (cp_nodes joined) \<le> unat max_results"
    using next_page_grows [OF assms(1) open_page(2)] by blast
  have "unat pages < unat max_results" using assms(3) open_page by (simp add: pages_ok_def)
  then have "unat (pages + 1) = unat pages + 1"
    using unsigned_less [of max_results, where ?'a = nat] by (simp add: unat_word_ariths)
  then show ?thesis
    using added assms(3) open_page(1)
    by (cases added) (auto simp: pages_ok_def next_browse_page_count_def)
qed

lemma browse_pages_loop_ok:
  assumes "browse_pages_loop inner server parent page_size everything max_results combined pages g = (Inr (page, n), g')"
    and "pages_ok (if everything then max_results else page_size) combined pages"
  shows "pages_ok (if everything then max_results else page_size) page n \<and>
    \<not> should_fetch_browse_page everything (cp_complete page) (length (cp_nodes page)) max_results"
  using assms
proof (induction inner server parent page_size everything max_results combined pages g rule: browse_pages_loop.induct)
  case (1 inner server parent page_size everything max_results combined pages g)
  show ?case
  proof (cases "should_fetch_browse_page everything (cp_complete combined) (length (cp_nodes combined)) max_results")
    case False
    then show ?thesis using "1.prems" by (auto simp: browse_pages_loop.simps)
  next
    case True
    then obtain joined g1 where step: "next_page inner server parent page_size max_results combined g = (Inr joined, g1)"
      using "1.prems"(1) by (auto simp: browse_pages_loop.simps split: prod.splits sum.splits)
    have all: "everything" using True by (simp add: should_fetch_browse_page_def)
    then have "pages_ok max_results joined (next_browse_page_count pages)"
      using next_page_ok [OF step True] "1.prems"(2) by simp
    moreover have "browse_pages_loop inner server parent page_size everything max_results joined
        (next_browse_page_count pages) g1 = (Inr (page, n), g')"
      using "1.prems"(1) True step by (simp add: browse_pages_loop.simps [of _ _ _ _ _ _ combined])
    ultimately show ?thesis using "1.IH" True step all by simp
  qed
qed

text \<open>
  C33. Whatever the gateway answers, the command ends, and a result it prints stays within its limit: the
  page size, or \<open>--max-results\<close> with \<open>--all\<close>. With \<open>--all\<close> the result is complete or holds exactly as
  many nodes as allowed, and then it carries a warning. The page counter has not wrapped around.
\<close>

theorem browse_command_bounded:
  assumes "cmd_browse inner server session_id parent token page_size everything max_results renew g = (Inr (page, pages), g')"
  shows "length (cp_nodes page) \<le> unat (if everything then max_results else page_size) \<and>
    unat pages \<le> length (cp_nodes page) + 1 \<and>
    (if everything \<and> \<not> cp_complete page
     then length (cp_nodes page) = unat max_results \<and> cp_warning page \<noteq> None else True)"
proof -
  obtain first g1 combined where
    first: "ensure_page_bound first (if everything then min page_size max_results else page_size) = Inr ()"
    and loop: "browse_pages_loop inner server parent page_size everything max_results first 1 g1 = (Inr (combined, pages), g')"
    and page: "page = (if stopped_at_browse_safety_cap everything (cp_complete combined) (length (cp_nodes combined)) max_results
       then combined\<lparr>cp_warning := merge_warnings (cp_warning combined)
         (Some (''stopped at the --all safety cap of '' @ nat_to_string (unat max_results) @
            '' results; more children are available''))\<rparr> else combined)"
    using assms by (auto simp: cmd_browse_def Let_def split: if_splits prod.splits sum.splits)
  have "pages_ok (if everything then min page_size max_results else page_size) first 1"
    using first_page_ok [OF first] .
  then have "pages_ok (if everything then max_results else page_size) first 1"
    by (auto simp: pages_ok_def min_def word_le_nat_alt split: if_splits)
  from browse_pages_loop_ok [OF loop this] show ?thesis
    by (auto simp: page pages_ok_def should_fetch_browse_page_def stopped_at_browse_safety_cap_def merge_warnings_def
        split: if_splits option.splits)
qed

section \<open>The command on the gateway\<close>

text \<open>What a browse call does to the sessions does not depend on the index manager.\<close>

lemma service_browse_view:
  assumes "browse (gw_browse gw) (gw_now gw (gs_calls g)) (pbr_server q) (pbr_session_id q) (pbr_parent_node_key q)
      (pbr_page_token q) (pbr_page_size q) (pbr_refresh q) (gs_sessions g) (gs_world g) = (r, b, w)"
  shows "\<exists>m. service_browse gw q g = (map_sum id (\<lambda>(sid, page). map_browse_page sid page) r,
    \<lparr>gs_sessions = b, gs_world = w, gs_index = m, gs_calls = Suc (gs_calls g)\<rparr>)"
proof (cases r)
  case (Inl e)
  then show ?thesis
    using assms by (cases e) (simp_all add: service_browse_def handle_browse_def with_foreground_def Let_def)
next
  case (Inr found)
  then show ?thesis
    using assms by (cases found) (simp add: service_browse_def handle_browse_def with_foreground_def Let_def)
qed

lemma browse_answer:
  assumes "browse (gw_browse gw) (gw_now gw (gs_calls g)) (brq_server q) (brq_session_id q) (brq_parent_node_key q)
      (brq_page_token q) (brq_page_size q) (brq_refresh q) (gs_sessions g) (gs_world g) = (r, b, w)"
  shows "\<exists>m. client_browse_page (bridge_service gw) q g =
    (case r of Inl e \<Rightarrow> Inl (feature_error ''paged browse'' e) | Inr (sid, page) \<Rightarrow> page_of_proto (map_browse_page sid page),
     \<lparr>gs_sessions = b, gs_world = w, gs_index = m, gs_calls = Suc (gs_calls g)\<rparr>)"
  using service_browse_view [of gw g "browse_request_message q"] assms
  by (auto simp: client_browse_page_def bridge_service_def browse_request_message_def answer_def split: sum.split)

text \<open>The first page of the demonstration server has two nodes and a continuation.\<close>

lemma demo_first_page:
  obtains c m where "client_browse_page (bridge_service demo_gateway)
      \<lparr>brq_server = ''S'', brq_session_id = Some (demo_token 0), brq_parent_node_key = None, brq_page_token = None,
       brq_page_size = 200, brq_refresh = False\<rparr> demo_state =
      (Inr c, \<lparr>gs_sessions = demo_fetched, gs_world = (), gs_index = m, gs_calls = 1\<rparr>)"
    and "cp_session_id c = demo_token 0" and "length (cp_nodes c) = 2" and "\<not> cp_complete c"
    and "cp_next_page_token c = Some (demo_token 3)"
proof -
  have "browse demo_env 100001 ''S'' (Some (demo_token 0)) None None 200 False demo_opened () =
      (Inr (demo_token 0, demo_page), demo_fetched, ())"
    using demo_browse
    by (simp add: browse_def expire_def remove_expired_def SESSION_TTL_def normalize_page_size_def
        MAX_PAGE_SIZE_def demo_opened_def session_new_def)
  moreover obtain c where "page_of_proto (map_browse_page (demo_token 0) demo_page) = Inr c" "cp_session_id c = demo_token 0"
    "cp_nodes c = map client_view (bp_nodes demo_page)" "cp_next_page_token c = bp_next_page_token demo_page"
    "cp_complete c = bp_complete demo_page"
    using page_accepted [of demo_page "demo_token 0"] by (auto simp: page_typed_def demo_page_def node_typed_def)
  ultimately show thesis
    using that [of c] browse_answer [of demo_gateway demo_state "\<lparr>brq_server = ''S'', brq_session_id = Some (demo_token 0),
      brq_parent_node_key = None, brq_page_token = None, brq_page_size = 200, brq_refresh = False\<rparr>"]
    by (auto simp: demo_gateway_def demo_state_def demo_page_def)
qed

theorem browse_command_bounded_witness:
  "\<exists>page g. cmd_browse (bridge_service demo_gateway) ''S'' (Some (demo_token 0)) None None 200 False 0 False demo_state =
     (Inr (page, 1), g) \<and> length (cp_nodes page) \<le> 200"
proof -
  obtain c m where first: "client_browse_page (bridge_service demo_gateway)
      \<lparr>brq_server = ''S'', brq_session_id = Some (demo_token 0), brq_parent_node_key = None, brq_page_token = None,
       brq_page_size = 200, brq_refresh = False\<rparr> demo_state =
      (Inr c, \<lparr>gs_sessions = demo_fetched, gs_world = (), gs_index = m, gs_calls = 1\<rparr>)" "length (cp_nodes c) = 2"
    by (rule demo_first_page)
  then have "cp_nodes c \<noteq> []" by auto
  then have run: "cmd_browse (bridge_service demo_gateway) ''S'' (Some (demo_token 0)) None None 200 False 0 False demo_state =
      (Inr (c, 1), \<lparr>gs_sessions = demo_fetched, gs_world = (), gs_index = m, gs_calls = 1\<rparr>)"
    using first by (simp add: cmd_browse_def ensure_page_bound_def browse_pages_loop.simps should_fetch_browse_page_def
        stopped_at_browse_safety_cap_def)
  then show ?thesis using browse_command_bounded [OF run] by auto
qed


end
