(* ===== verification/Spec2Isabelle.thy ===== *)
theory Spec2Isabelle
  imports LiveSearch Status Cleanup CleanupTasks BuildProofs Wire Accepted Compat Refresh Commands
begin

text \<open>
  A verification library of the OPC DA bridge: a gateway that serves the namespace and the values of
  OPC DA servers over gRPC, and the client library and command line that use it. Paths below are
  relative to \<open>src/crates\<close>; the gateway is \<open>opcda-bridge-gateway/src\<close>.

  \<^bold>\<open>The program.\<close> A request enters the gateway in \<open>server/service.rs\<close>. Browse requests go to the
  session manager (\<open>browse.rs\<close>), which hands out opaque session, node and page tokens for those of the
  native OPC client and caches pages. A live search (\<open>server/search.rs\<close>) walks the namespace through
  the session manager. Everything about the persistent index goes to \<open>IndexManager\<close> (\<open>index.rs\<close> and
  \<open>index/\<close>): it keeps enrolled servers, builds, pauses and retries in memory (\<open>enrollment.rs\<close>,
  \<open>status.rs\<close>, \<open>scheduler.rs\<close>), drives builds (\<open>traversal.rs\<close>) paced by an adaptive controller
  (\<open>controller.rs\<close>), stores generations of entries in SQLite (\<open>store.rs\<close>), answers queries
  (\<open>query.rs\<close>) and removes obsolete generations in the background (\<open>scheduler.rs\<close>). Requests that
  reach an OPC server are foreground requests and hold builds of that server back. The answers cross
  the wire as the messages of \<open>opcda-bridge-proto/proto/bridge.proto\<close>; the client library
  (\<open>opcda-bridge/src\<close>) converts and checks them.

  \<^bold>\<open>How the code is modelled.\<close> Structs are records, enums datatypes, machine integers words
  (\<open>u8\<close>, \<open>u32\<close>, \<open>u64\<close>), durations and instants integers of nanoseconds with the platform's largest
  instant a parameter, floating point numbers an abstract type with the operations the code uses.
  Fallible functions return a sum, with the error on the left. A panic is a value: of a handler
  (\<open>Panic\<close>), as a poisoned lock (\<open>mgr_poisoned\<close>, \<open>im_runtime_poisoned\<close>), or as \<open>None\<close> where the
  text says so. State is passed explicitly: \<open>manager\<close> for the browse sessions, \<open>index_manager\<close> for
  the index, \<open>index_db\<close> for the tables. The native OPC client, the clocks, failing SQL statements
  (\<open>faults\<close>, a set of statement numbers), Unicode lower-casing, the full-text engine, free disk space
  and what other tasks do at an await are parameters; what a theorem needs of them is a hypothesis.

  \<^bold>\<open>The theories.\<close>
  \<^item> \<open>Prelude\<close>, \<open>Text\<close>, \<open>Decimal\<close>: association lists as hash maps, saturating words, Unicode texts,
    white space, decimal numbers.
  \<^item> \<open>Opc\<close>: the data of \<open>opc.rs\<close> and RPC status values.
  \<^item> \<open>Browse\<close>: \<open>BrowseManager\<close>. Each critical section under the session lock is a function
    (\<open>prepare\<close>, \<open>recheck\<close>, \<open>commit\<close>, \<open>admit_session\<close>, \<dots>) and a rule of the step relation
    \<open>manager_step\<close>; \<open>browse\<close>, \<open>open_session\<close> and \<open>close_session\<close> compose them. Limits hold in every
    interleaving; served one at a time, the operations refine the steps and tokens resolve to what
    they were issued for. \<open>Pages\<close>: a property of native pages that renaming keeps (locale
    \<open>page_law\<close>) holds of all pages returned and cached.
  \<^item> \<open>LiveSearch\<close>: \<open>server/search.rs\<close>. The walk may not end, so it is a \<open>partial_function\<close> with
    value \<open>None\<close> for a run that does not return; it returns whenever an incomplete page has a node.
  \<^item> \<open>Store\<close>: the tables, transactions, migrations, quarantine and every statement of \<open>store.rs\<close>.
    Consistency is an invariant of all operations under all faults; promotion and deletion are atomic.
  \<^item> \<open>TopK\<close>, \<open>Query\<close>: \<open>query.rs\<close>. A reference specification (the best rows of all matching ones) and
    the exact, prefix, full-text and substring searches that implement it; the query cache.
  \<^item> \<open>Controller\<close>: \<open>AdaptiveController\<close>; limits between floor and ceiling, back-off, recovery.
  \<^item> \<open>Timing\<close>, \<open>Config\<close>: maintenance windows, jitter, retry delays; \<open>resolve_index_config\<close>.
  \<^item> \<open>Foreground\<close>: the sliding window of request latencies of \<open>status.rs\<close>.
  \<^item> \<open>Manager\<close>, \<open>ManagerProofs\<close>: the runtime state of \<open>IndexManager\<close> (reservation, control, pauses,
    foreground guards, operator actions, deletion, the end of a build). The step relation
    \<open>index_step\<close> lists the sections under its locks; its invariant says that builds are exclusive and
    held back by foreground requests.
  \<^item> \<open>Status\<close>: \<open>IndexManager::status\<close>, the decisions of the background task, \<open>IndexManager::search\<close>.
  \<^item> \<open>Cleanup\<close>, \<open>CleanupTasks\<close>: deletion of obsolete generations in batches, over tables with row
    numbers; the registry of cleanup requests and its worker as interleaved threads.
  \<^item> \<open>Readiness\<close>, \<open>Build\<close>, \<open>BuildProofs\<close>: the waits of a build and the build loop of
    \<open>traversal.rs\<close>, from the first inventory event to the promotion, failure or abandonment of the
    generation. The inputs of a run are lists: one turn per event, one round per wait; a run whose
    list ends before the code would return is \<open>None\<close>, and the theorems about its end assume the
    stream has ended.
  \<^item> \<open>Refresh\<close>: \<open>IndexManager::refresh\<close> and the refreshes of the background task up to the launch of
    the build task; with \<open>Build\<close>, a whole refresh.
  \<^item> \<open>Wire\<close>, \<open>Accepted\<close>: the mapping of \<open>server/map.rs\<close> and the conversions of
    \<open>opcda-bridge/src/types/conversions.rs\<close>; the client accepts what the gateway sends.
  \<^item> \<open>Compat\<close>: the release catalog as \<open>opcda-bridge-proto/build.rs\<close> reads it, both handshakes and the
    verdict of \<open>opcda-bridge/src/compatibility.rs\<close>.
  \<^item> \<open>Service\<close>: every RPC of \<open>server/service.rs\<close> over the parts above.
  \<^item> \<open>Client\<close>: every method of \<open>opcda-bridge/src/client.rs\<close> over any gateway, and over the handlers of
    \<open>Service\<close> (\<open>bridge_service\<close>).
  \<^item> \<open>Commands\<close>: the browse command of \<open>opcda-bridge-client/src/commands/browse.rs\<close>; its loop is a
    \<open>function\<close> whose measure is what is left of the limit.

  \<^bold>\<open>Interfaces.\<close> Locales state what one part relies on, and are interpreted on the model:
  \<open>invariant_system\<close> (Prelude), a transition system with an inductive invariant, for the store, the
  browse sessions, the controller, the index manager and the cleanup registry; \<open>bounded_cache\<close>
  (Prelude) for the page cache, the continuation tokens and the query cache; \<open>max_heap\<close> (TopK) for the
  heap of the full-text search; \<open>page_source\<close> (LiveSearch) for the session manager the search walks;
  \<open>page_law\<close> (Pages) for productive and for typed pages; \<open>index_operation\<close> (Client) for the control and
  the refresh operations.

  \<^bold>\<open>What the theorems show.\<close> C1, C2, C32: the tables. C3, C4, C12: a build, and a refresh with its
  build, replace the active index by what the inventory delivered or leave it alone. C5 to C8, C30:
  builds are exclusive, give way to foreground requests, release their place, and so do requests.
  C9 to C11: live search. C13 to C16: cleanup and readiness. C17, C18, C35: browse sessions. C20 to
  C22, C31, C34: indexed search and status. C19, C23 to C27, C33: client and gateway together. C28,
  C29, C36: controller and configuration. C37 to C40 are runs in which the program does not do what
  it means to.

  \<^bold>\<open>Not modelled.\<close> The native client and its adapter (\<open>opc_da_adapter.rs\<close>); Windows performance
  counters in \<open>controller.rs\<close>; the coordinated inventory with its worker tasks, channels, rate limiter
  and telemetry in \<open>traversal.rs\<close>, whose event stream is the input of a build; file locks, task
  spawning and shutdown notification in \<open>scheduler.rs\<close>; the engines behind SQLite, FTS5, protobuf,
  TOML and clap; process start, logging and the Windows service; the command line's tables, JSON
  output and remaining commands, which print the result of one library call; \<open>parse_value\<close>, which
  is the number syntax of the standard library; tests and fuzz targets.
\<close>

end
